(* ===== verification/Prelude.thy ===== *)
theory Prelude
  imports Main "HOL-Library.List_Lexorder" "HOL-Library.Char_ord" "HOL-Library.Product_Lexorder"
    "HOL-Library.Sublist"
begin

text \<open>
  Shared vocabulary of the development.

  \<^item> Error results: a Go function returning a value and an error is a function into
    the sum type \<open>'e + 'a\<close>; \<open>bindE\<close>, \<open>requireE\<close>, \<open>forE\<close>, \<open>mapE\<close> and
    \<open>foldE\<close> are early return, guard and the three shapes of a loop that may return early.
    The collection \<open>ok_iff\<close> holds the facts that take a successful run apart.
  \<^item> Tables: an SQL table is the list of its rows in rowid order;
    \<open>update_where\<close> is UPDATE, \<open>row_by\<close> a lookup by primary key,
    \<open>affected\<close> the driver's RowsAffected.
    The locale \<open>keyed_update\<close> is the contract of an UPDATE that leaves the key alone.
  \<^item> SQL comparisons with NULL, which are never true.
\<close>

named_theorems ok_iff \<open>decomposition of successful runs\<close>
named_theorems frame \<open>fields an operation leaves unchanged\<close>

section \<open>Results with errors\<close>

definition bindE :: "'e + 'a \<Rightarrow> ('a \<Rightarrow> 'e + 'b) \<Rightarrow> 'e + 'b" where
  "bindE m f = (case m of Inl e \<Rightarrow> Inl e | Inr x \<Rightarrow> f x)"

lemma bindE_Inl [simp]: "bindE (Inl e) f = Inl e"
  by (simp add: bindE_def)

lemma bindE_Inr [simp]: "bindE (Inr x) f = f x"
  by (simp add: bindE_def)

lemma bindE_Inr_iff [ok_iff]: "bindE m f = Inr y \<longleftrightarrow> (\<exists>x. m = Inr x \<and> f x = Inr y)"
  by (cases m) auto

lemma bindE_Inl_iff: "bindE m f = Inl e \<longleftrightarrow> m = Inl e \<or> (\<exists>x. m = Inr x \<and> f x = Inl e)"
  by (cases m) auto

lemma bindE_cong [fundef_cong]:
  "m = m' \<Longrightarrow> (\<And>x. m' = Inr x \<Longrightarrow> f x = g x) \<Longrightarrow> bindE m f = bindE m' g"
  by (cases m') auto

definition requireE :: "bool \<Rightarrow> 'e \<Rightarrow> 'e + unit" where
  "requireE b e = (if b then Inr () else Inl e)"

lemma requireE_True [simp]: "requireE True e = Inr ()"
  by (simp add: requireE_def)

lemma requireE_False [simp]: "requireE False e = Inl e"
  by (simp add: requireE_def)

lemma requireE_Inr_iff [ok_iff]: "requireE b e = Inr u \<longleftrightarrow> b"
  by (simp add: requireE_def)

lemma requireE_Inl_iff: "requireE b e = Inl e' \<longleftrightarrow> \<not> b \<and> e' = e"
  by (auto simp: requireE_def)

fun forE :: "'a list \<Rightarrow> ('a \<Rightarrow> 'e + unit) \<Rightarrow> 'e + unit" where
  "forE [] f = Inr ()"
| "forE (x # xs) f = bindE (f x) (\<lambda>_. forE xs f)"

lemma forE_Inr_iff [ok_iff]: "forE xs f = Inr u \<longleftrightarrow> (\<forall>x\<in>set xs. f x = Inr ())"
  by (induction xs) (auto simp: bindE_Inr_iff)

fun mapE :: "('a \<Rightarrow> 'e + 'b) \<Rightarrow> 'a list \<Rightarrow> 'e + 'b list" where
  "mapE f [] = Inr []"
| "mapE f (x # xs) = bindE (f x) (\<lambda>y. bindE (mapE f xs) (\<lambda>ys. Inr (y # ys)))"

lemma mapE_Inr_list_all2: "mapE f xs = Inr ys \<longleftrightarrow> list_all2 (\<lambda>x y. f x = Inr y) xs ys"
  by (induction xs arbitrary: ys) (auto simp: bindE_Inr_iff list_all2_Cons1)

lemma mapE_Inr_total: "(\<forall>x\<in>set xs. f x = Inr (g x)) \<Longrightarrow> mapE f xs = Inr (map g xs)"
  by (induction xs) auto

lemma mapE_Inr_set: "mapE f xs = Inr ys \<Longrightarrow> y \<in> set ys \<Longrightarrow> \<exists>x\<in>set xs. f x = Inr y"
  by (induction xs arbitrary: ys) (auto simp: bindE_Inr_iff)

fun foldE :: "('a \<Rightarrow> 's \<Rightarrow> 'e + 's) \<Rightarrow> 'a list \<Rightarrow> 's \<Rightarrow> 'e + 's" where
  "foldE f [] s = Inr s"
| "foldE f (x # xs) s = bindE (f x s) (\<lambda>s'. foldE f xs s')"

lemma foldE_inv:
  assumes "foldE f xs s = Inr s'" and "P s"
    and "\<And>x t t'. x \<in> set xs \<Longrightarrow> f x t = Inr t' \<Longrightarrow> P t \<Longrightarrow> P t'"
  shows "P s'"
  using assms by (induction xs arbitrary: s) (auto simp: bindE_Inr_iff)

lemma foldE_frame:
  assumes "foldE f xs s = Inr s'" and "\<And>x t t'. f x t = Inr t' \<Longrightarrow> g t' = g t"
  shows "g s' = g s"
  using foldE_inv [where P = "\<lambda>t. g t = g s", OF assms(1)] assms(2) by simp

section \<open>Tables as lists of rows\<close>

definition update_where :: "('r \<Rightarrow> bool) \<Rightarrow> ('r \<Rightarrow> 'r) \<Rightarrow> 'r list \<Rightarrow> 'r list" where
  "update_where p f rows = map (\<lambda>r. if p r then f r else r) rows"

definition affected :: "('r \<Rightarrow> bool) \<Rightarrow> 'r list \<Rightarrow> nat" where
  "affected p rows = length (filter p rows)"

definition row_by :: "('r \<Rightarrow> 'k) \<Rightarrow> 'k \<Rightarrow> 'r list \<Rightarrow> 'r option" where
  "row_by key k rows = find (\<lambda>r. key r = k) rows"

lemma row_by_Nil [simp]: "row_by key k [] = None"
  by (simp add: row_by_def)

lemma row_by_Cons [simp]: "row_by key k (r # rs) = (if key r = k then Some r else row_by key k rs)"
  by (simp add: row_by_def)

lemma row_by_append:
  "row_by key k (rs @ ss) = (case row_by key k rs of Some r \<Rightarrow> Some r | None \<Rightarrow> row_by key k ss)"
  by (induction rs) auto

lemma row_by_SomeD: "row_by key k rows = Some r \<Longrightarrow> r \<in> set rows \<and> key r = k"
  by (induction rows) (auto split: if_splits)

lemma row_by_None_iff: "row_by key k rows = None \<longleftrightarrow> (\<forall>r\<in>set rows. key r \<noteq> k)"
  by (induction rows) auto

lemma row_by_None_key: "row_by key k rows = None \<longleftrightarrow> k \<notin> key ` set rows"
  by (auto simp: row_by_None_iff)

lemma row_by_unique:
  "distinct (map key rows) \<Longrightarrow> r \<in> set rows \<Longrightarrow> row_by key (key r) rows = Some r"
  by (induction rows) (auto simp: rev_image_eqI)

lemma row_by_Some_iff:
  "distinct (map key rows) \<Longrightarrow> row_by key k rows = Some r \<longleftrightarrow> r \<in> set rows \<and> key r = k"
  using row_by_unique row_by_SomeD by fastforce

lemma update_where_Nil [simp]: "update_where p f [] = []"
  by (simp add: update_where_def)

lemma update_where_Cons [simp]:
  "update_where p f (r # rs) = (if p r then f r else r) # update_where p f rs"
  by (simp add: update_where_def)

lemma length_update_where [simp]: "length (update_where p f rows) = length rows"
  by (simp add: update_where_def)

lemma set_update_where: "set (update_where p f rows) = (\<lambda>r. if p r then f r else r) ` set rows"
  by (simp add: update_where_def)

lemma update_where_none: "\<forall>r\<in>set rows. \<not> p r \<Longrightarrow> update_where p f rows = rows"
  by (induction rows) auto

lemma in_update_whereD:
  "r \<in> set (update_where p f rows) \<Longrightarrow> \<exists>r0\<in>set rows. r = (if p r0 then f r0 else r0)"
  by (auto simp: set_update_where)

lemma affected_zero_iff: "affected p rows = 0 \<longleftrightarrow> (\<forall>r\<in>set rows. \<not> p r)"
  by (auto simp: affected_def filter_empty_conv)

lemma affected_pos_iff: "0 < affected p rows \<longleftrightarrow> (\<exists>r\<in>set rows. p r)"
  using affected_zero_iff [of p rows] by auto

lemma affected_unique:
  assumes "distinct (map key rows)" and "r \<in> set rows" and "p r"
    and "\<And>s. s \<in> set rows \<Longrightarrow> p s \<Longrightarrow> key s = key r"
  shows "affected p rows = 1"
proof -
  have "inj_on key (set rows)" and d: "distinct rows"
    using assms(1) by (simp_all add: distinct_map)
  then have "\<forall>s\<in>set rows. p s \<longrightarrow> s = r"
    using assms(2,4) by (metis inj_onD)
  then have "set (filter p rows) = {r}" using assms(2,3) unfolding set_filter by blast
  moreover have "distinct (filter p rows)" using d by simp
  ultimately have "length (filter p rows) = card {r}" by (metis distinct_card)
  then show ?thesis by (simp add: affected_def)
qed

text \<open>An UPDATE whose assignments do not touch the primary key.\<close>

locale keyed_update =
  fixes key :: "'r \<Rightarrow> 'k" and upd :: "'r \<Rightarrow> 'r"
  assumes key_upd: "key (upd r) = key r"
begin

lemma map_key_update: "map key (update_where p upd rows) = map key rows"
  by (induction rows) (auto simp: key_upd)

lemma distinct_key_update: "distinct (map key rows) \<Longrightarrow> distinct (map key (update_where p upd rows))"
  by (simp add: map_key_update)

lemma row_by_update:
  "row_by key k (update_where p upd rows) =
    map_option (\<lambda>r. if p r then upd r else r) (row_by key k rows)"
  by (induction rows) (auto simp: key_upd)

lemma key_set_update: "key ` set (update_where p upd rows) = key ` set rows"
  by (metis list.set_map map_key_update)

end

section \<open>SQL values\<close>

text \<open>A comparison with NULL is not true.\<close>

definition sql_le :: "int option \<Rightarrow> int \<Rightarrow> bool" where
  "sql_le v n = (case v of None \<Rightarrow> False | Some k \<Rightarrow> k \<le> n)"

definition sql_gt :: "int option \<Rightarrow> int \<Rightarrow> bool" where
  "sql_gt v n = (case v of None \<Rightarrow> False | Some k \<Rightarrow> n < k)"

lemma sql_le_simps [simp]: "\<not> sql_le None n" "sql_le (Some k) n \<longleftrightarrow> k \<le> n"
  by (simp_all add: sql_le_def)

lemma sql_gt_simps [simp]: "\<not> sql_gt None n" "sql_gt (Some k) n \<longleftrightarrow> n < k"
  by (simp_all add: sql_gt_def)

lemma sql_le_gt_exclusive: "sql_le v n \<Longrightarrow> sql_gt v n \<Longrightarrow> False"
  by (cases v) auto

text \<open>NULLIF(x, '') and COALESCE(x, '').\<close>

definition nullif :: "string \<Rightarrow> string option" where
  "nullif s = (if s = [] then None else Some s)"

definition coalesce :: "string option \<Rightarrow> string" where
  "coalesce v = (case v of None \<Rightarrow> [] | Some s \<Rightarrow> s)"

lemma coalesce_nullif [simp]: "coalesce (nullif s) = s"
  by (simp add: coalesce_def nullif_def)

section \<open>Order of first occurrence\<close>

text \<open>A Go loop with a \<open>seen\<close> set keeps the first occurrence of each value.\<close>

definition nub :: "'a list \<Rightarrow> 'a list" where
  "nub xs = rev (remdups (rev xs))"

lemma nub_Nil [simp]: "nub [] = []"
  by (simp add: nub_def)

lemma set_nub [simp]: "set (nub xs) = set xs"
  by (simp add: nub_def)

lemma distinct_nub [simp]: "distinct (nub xs)"
  by (simp add: nub_def)

lemma nub_id: "distinct xs \<Longrightarrow> nub xs = xs"
  by (simp add: nub_def distinct_remdups_id)

lemma nub_eq_Nil [simp]: "nub xs = [] \<longleftrightarrow> xs = []"
  by (simp add: nub_def)

text \<open>Sorting a list without repetitions by an injective key is canonical.\<close>

lemma sort_key_id: "sorted (map f xs) \<Longrightarrow> sort_key f xs = xs"
  by (rule sort_key_id_if_sorted)

lemma sort_sort [simp]: "sort (sort xs) = sort xs"
  for xs :: "'a::linorder list"
  by (simp add: sorted_sort_id)

lemma hd_sort_key_le:
  assumes "sort_key f xs = y # ys" and "x \<in> set xs"
  shows "f y \<le> f x"
proof -
  have s: "sorted (map f (y # ys))" by (metis assms(1) sorted_sort_key)
  have "x \<in> set (y # ys)" by (metis assms set_sort)
  with s show ?thesis by auto
qed

lemma sort_key_Cons_in: "sort_key f xs = y # ys \<Longrightarrow> y \<in> set xs"
  by (metis list.set_intros(1) set_sort)

section \<open>Operations with an idempotency key\<close>

text \<open>
  The contract of an operation that clients may repeat: a successful run leaves a record of
  the request in the state, and a request with a record is answered from it in every
  environment that admits the request at all, without changing the state. \<open>keep q\<close> relates a
  state to a later one that still has the record of \<open>q\<close>.
\<close>

locale idempotent_operation =
  fixes run :: "'v \<Rightarrow> 'q \<Rightarrow> 's \<Rightarrow> 'e + ('r \<times> 's)"
    and recorded :: "'q \<Rightarrow> 'r \<Rightarrow> 's \<Rightarrow> bool"
    and replay :: "'q \<Rightarrow> 'r \<Rightarrow> 'r"
    and ok :: "'s \<Rightarrow> bool"
    and admits :: "'v \<Rightarrow> 'q \<Rightarrow> bool"
    and keep :: "'q \<Rightarrow> 's \<Rightarrow> 's \<Rightarrow> bool"
  assumes run_records: "ok s \<Longrightarrow> run v q s = Inr (r, s') \<Longrightarrow> recorded q (replay q r) s'"
    and recorded_replays: "recorded q r s \<Longrightarrow> admits v q \<Longrightarrow> run v q s = Inr (r, s)"
    and keep_recorded: "keep q s s' \<Longrightarrow> recorded q r s \<Longrightarrow> recorded q r s'"
begin

lemma retry: "ok s \<Longrightarrow> run v q s = Inr (r, s') \<Longrightarrow> admits w q \<Longrightarrow> run w q s' = Inr (replay q r, s')"
  by (rule recorded_replays, rule run_records)

lemma retry_later:
  assumes "ok s" and "run v q s = Inr (r, s')" and "(keep q)\<^sup>*\<^sup>* s' s''" and "admits w q"
  shows "run w q s'' = Inr (replay q r, s'')"
proof -
  have "recorded q (replay q r) s'" using assms(1,2) by (rule run_records)
  with assms(3) have "recorded q (replay q r) s''" by (induction rule: rtranclp_induct) (auto intro: keep_recorded)
  then show ?thesis using assms(4) by (rule recorded_replays)
qed

end

text \<open>A run that did not fail answered what can be read off it.\<close>

lemma answered: "\<not> isl x \<Longrightarrow> x = Inr (projr x)" "\<not> isl y \<Longrightarrow> y = Inr (fst (projr y), snd (projr y))"
  by (cases x) (simp_all add: sum.expand)

end
