(* ===== verification/GoText.thy ===== *)
theory GoText
  imports Prelude
begin

text \<open>
  The parts of Go's string library the source uses, on byte strings: a Go string is the
  list of its bytes, so \<open>length\<close> is Go's \<open>len\<close> and the order is Go's (and SQLite's
  BINARY) byte order.

  \<^item> \<open>trim\<close> is \<open>strings.TrimSpace\<close>: the encodings of the Unicode white space runes,
    removed from both ends. Matching the encodings bytewise is exact, because a rune's
    UTF-8 encoding is never a proper part of another at the end being read.
  \<^item> \<open>is_human_actor\<close> is \<open>bus.IsHumanActor\<close>; only ASCII letters map to the letters
    of the prefix under lower-casing.
  \<^item> \<open>has_control\<close>: bytes of multi-byte runes are at least \<open>0x80\<close>, so testing bytes
    is testing runes.
\<close>

section \<open>TrimSpace\<close>

definition space_runes :: "string list" where
  "space_runes =
    map (\<lambda>c. [c]) [CHR 0x09, CHR 0x0A, CHR 0x0B, CHR 0x0C, CHR 0x0D, CHR 0x20]
    @ [[CHR 0xC2, CHR 0x85], [CHR 0xC2, CHR 0xA0], [CHR 0xE1, CHR 0x9A, CHR 0x80]]
    @ map (\<lambda>c. [CHR 0xE2, CHR 0x80, c])
        [CHR 0x80, CHR 0x81, CHR 0x82, CHR 0x83, CHR 0x84, CHR 0x85, CHR 0x86, CHR 0x87,
         CHR 0x88, CHR 0x89, CHR 0x8A, CHR 0xA8, CHR 0xA9, CHR 0xAF]
    @ [[CHR 0xE2, CHR 0x81, CHR 0x9F], [CHR 0xE3, CHR 0x80, CHR 0x80]]"

lemma space_runes_nonempty: "w \<in> set space_runes \<Longrightarrow> w \<noteq> []"
  by (auto simp: space_runes_def)

definition leading :: "string list \<Rightarrow> string \<Rightarrow> string option" where
  "leading ws s = find (\<lambda>w. w \<noteq> [] \<and> prefix w s) ws"

lemma leading_None_iff: "leading ws s = None \<longleftrightarrow> (\<forall>w\<in>set ws. w \<noteq> [] \<longrightarrow> \<not> prefix w s)"
  by (auto simp: leading_def find_None_iff)

lemma leading_SomeD: "leading ws s = Some w \<Longrightarrow> w \<in> set ws \<and> w \<noteq> [] \<and> prefix w s"
  by (auto simp: leading_def find_Some_iff)

function strip :: "string list \<Rightarrow> string \<Rightarrow> string" where
  "strip ws s = (case leading ws s of None \<Rightarrow> s | Some w \<Rightarrow> strip ws (drop (length w) s))"
  by pat_completeness auto
termination
  by (relation "measure (\<lambda>(ws, s). length s)")
    (auto dest!: leading_SomeD simp: prefix_def)

declare strip.simps [simp del]

lemma leading_strip: "leading ws (strip ws s) = None"
proof (induction ws s rule: strip.induct)
  case (1 ws s)
  then show ?case by (subst strip.simps) (auto split: option.splits)
qed

lemma strip_id: "leading ws s = None \<Longrightarrow> strip ws s = s"
  by (subst strip.simps) simp

lemma suffix_strip: "suffix (strip ws s) s"
proof (induction ws s rule: strip.induct)
  case (1 ws s)
  show ?case
  proof (cases "leading ws s")
    case None
    then show ?thesis by (simp add: strip_id)
  next
    case (Some w)
    then have "suffix (strip ws (drop (length w) s)) (drop (length w) s)" by (rule 1)
    then have "suffix (strip ws (drop (length w) s)) s"
      using suffix_drop suffix_order.trans by blast
    then show ?thesis using Some by (subst strip.simps) simp
  qed
qed

definition trim :: "string \<Rightarrow> string" where
  "trim s = rev (strip (map rev space_runes) (rev (strip space_runes s)))"

lemma trim_Nil [simp]: "trim [] = []"
  by (simp add: trim_def strip_id leading_None_iff)

lemma trim_length: "length (trim s) \<le> length s"
proof -
  have "length (strip ws t) \<le> length t" for ws t
    using suffix_strip suffix_length_le by blast
  then show ?thesis unfolding trim_def by (metis length_rev le_trans)
qed

lemma trim_leading: "leading space_runes (trim s) = None"
proof -
  have "suffix (strip (map rev space_runes) (rev (strip space_runes s))) (rev (strip space_runes s))"
    by (rule suffix_strip)
  then have "prefix (trim s) (strip space_runes s)"
    by (simp add: trim_def suffix_to_prefix)
  then show ?thesis
    using leading_strip [of space_runes s] unfolding leading_None_iff
    by (meson prefix_order.trans)
qed

lemma trim_trailing: "leading (map rev space_runes) (rev (trim s)) = None"
  by (simp add: trim_def leading_strip)

lemma trim_trim [simp]: "trim (trim s) = trim s"
proof -
  have "strip space_runes (trim s) = trim s"
    by (rule strip_id) (rule trim_leading)
  then have "trim (trim s) = rev (strip (map rev space_runes) (rev (trim s)))"
    by (simp add: trim_def)
  then show ?thesis by (simp add: strip_id trim_trailing)
qed

text \<open>Text that starts and ends with a graphic ASCII character is already trimmed.\<close>

definition graphic :: "char \<Rightarrow> bool" where
  "graphic c = (0x20 < (of_char c :: nat) \<and> (of_char c :: nat) < 0x7F)"

lemma space_rune_ends:
  "w \<in> set space_runes \<Longrightarrow> \<not> graphic (hd w) \<and> \<not> graphic (last w)"
  by (auto simp: space_runes_def graphic_def)

lemma trim_graphic:
  assumes "s \<noteq> []" and "graphic (hd s)" and "graphic (last s)"
  shows "trim s = s"
proof -
  have "\<not> prefix w s" if "w \<in> set space_runes" for w
    using that assms space_rune_ends [of w] space_runes_nonempty [of w]
    by (metis hd_append2 prefix_def)
  then have 1: "leading space_runes s = None" by (simp add: leading_None_iff)
  have "\<not> prefix (rev w) (rev s)" if "w \<in> set space_runes" for w
  proof
    assume "prefix (rev w) (rev s)"
    then have "suffix w s" by (simp add: suffix_to_prefix)
    then have "last w = last s" using space_runes_nonempty [OF that]
      by (metis last_appendR suffix_def)
    then show False using space_rune_ends [OF that] assms(3) by simp
  qed
  then have 2: "leading (map rev space_runes) (rev s) = None" by (auto simp: leading_None_iff)
  show ?thesis by (simp add: trim_def strip_id 1 2)
qed

lemma trim_graphic_Cons [simp]:
  "graphic c \<Longrightarrow> graphic (last (c # cs)) \<Longrightarrow> trim (c # cs) = c # cs"
  by (rule trim_graphic) auto

section \<open>Identifiers\<close>

text \<open>Decimal rendering, for the messages that print a bound.\<close>

fun dec :: "nat \<Rightarrow> string" where
  "dec n = (if n < 10 then [char_of (48 + n)] else dec (n div 10) @ [char_of (48 + n mod 10)])"

declare dec.simps [simp del]

definition is_control :: "char \<Rightarrow> bool" where
  "is_control c = ((of_char c :: nat) < 0x20 \<or> (of_char c :: nat) = 0x7F)"

definition has_control :: "string \<Rightarrow> bool" where
  "has_control s = list_ex is_control s"

lemma has_control_Nil [simp]: "\<not> has_control []"
  by (simp add: has_control_def)

lemma has_control_Cons [simp]: "has_control (c # s) = (is_control c \<or> has_control s)"
  by (simp add: has_control_def)

definition ascii_lower :: "char \<Rightarrow> char" where
  "ascii_lower c = (if 65 \<le> (of_char c :: nat) \<and> (of_char c :: nat) \<le> 90
    then char_of ((of_char c :: nat) + 32) else c)"

definition is_human_actor :: "string \<Rightarrow> bool" where
  "is_human_actor a = prefix ''human:'' (map ascii_lower (trim a))"

lemma is_human_actor_trim [simp]: "is_human_actor (trim a) = is_human_actor a"
  by (simp add: is_human_actor_def)

lemma not_human_Nil [simp]: "\<not> is_human_actor []"
  by (simp add: is_human_actor_def)

section \<open>Evaluation\<close>

text \<open>Equations on the bits of a character, for evaluating the functions above.\<close>

lemma graphic_code [code]:
  "graphic (Char b0 b1 b2 b3 b4 b5 b6 b7) \<longleftrightarrow>
    \<not> b7 \<and> (b6 \<or> b5 \<and> (b0 \<or> b1 \<or> b2 \<or> b3 \<or> b4)) \<and> \<not> (b0 \<and> b1 \<and> b2 \<and> b3 \<and> b4 \<and> b5 \<and> b6)"
  by (cases b0; cases b1; cases b2; cases b3; cases b4; cases b5; cases b6; cases b7; simp add: graphic_def)

lemma is_control_code [code]:
  "is_control (Char b0 b1 b2 b3 b4 b5 b6 b7) \<longleftrightarrow>
    \<not> b7 \<and> (\<not> b5 \<and> \<not> b6 \<or> b0 \<and> b1 \<and> b2 \<and> b3 \<and> b4 \<and> b5 \<and> b6)"
  by (cases b0; cases b1; cases b2; cases b3; cases b4; cases b5; cases b6; cases b7; simp add: is_control_def)

lemma ascii_lower_code [code]:
  "ascii_lower (Char b0 b1 b2 b3 b4 b5 b6 b7) =
    (if \<not> b7 \<and> b6 \<and> \<not> b5 \<and> (b0 \<or> b1 \<or> b2 \<or> b3 \<or> b4) \<and> \<not> (b4 \<and> b3 \<and> (b2 \<or> b1 \<and> b0))
     then Char b0 b1 b2 b3 b4 True b6 b7 else Char b0 b1 b2 b3 b4 b5 b6 b7)"
  by (cases b0; cases b1; cases b2; cases b3; cases b4; cases b5; cases b6; cases b7; simp add: ascii_lower_def char_of_eq_iff take_bit_eq_mod)

lemma trim_code [code]:
  "trim s = (if s = [] \<or> graphic (hd s) \<and> graphic (last s) then s
     else rev (strip (map rev space_runes) (rev (strip space_runes s))))"
  by (cases "s = []") (auto simp: trim_graphic simp flip: trim_def)

end
