(* ===== verification/GoJson.thy ===== *)
theory GoJson
  imports GoText
begin

text \<open>
  \<open>encoding/json\<close>'s \<open>Valid\<close>, the one part of the JSON library whose result the store
  branches on. It is the library's byte scanner: a state, a stack of the open objects and
  arrays (at most 10000 of them), one step per byte, and an end-of-input test that feeds a
  final space. Encoding and decoding of the store's own values is not a scanner question
  and is modelled as keeping the value.
\<close>

datatype jopen = ObjectKey | ObjectValue | ArrayValue

datatype jstep =
    BeginValue | BeginValueOrEmpty | BeginStringOrEmpty | BeginString | EndValue | EndTop
  | InString | InStringEsc | InStringEscU nat
  | NumNeg | NumInt | NumZero | NumDot | NumDot0 | NumE | NumESign | NumE0
  | Literal string

type_synonym jscan = "jstep \<times> jopen list"

definition json_space :: "char \<Rightarrow> bool" where
  "json_space c = (c \<in> {CHR 0x20, CHR 0x09, CHR 0x0D, CHR 0x0A})"

definition json_digit :: "char \<Rightarrow> bool" where
  "json_digit c = (48 \<le> (of_char c :: nat) \<and> (of_char c :: nat) \<le> 57)"

definition json_hex :: "char \<Rightarrow> bool" where
  "json_hex c = (json_digit c \<or> c \<in> set ''abcdefABCDEF'')"

definition json_max_depth :: nat where
  "json_max_depth = 10000"

definition json_push :: "jstep \<Rightarrow> jopen \<Rightarrow> jopen list \<Rightarrow> jscan option" where
  "json_push s p st = (if length st < json_max_depth then Some (s, p # st) else None)"

definition json_pop :: "jopen list \<Rightarrow> jscan option" where
  "json_pop st = Some (if tl st = [] then EndTop else EndValue, tl st)"

fun json_end_value :: "jopen list \<Rightarrow> char \<Rightarrow> jscan option" where
  "json_end_value [] c = (if json_space c then Some (EndTop, []) else None)"
| "json_end_value (p # st) c =
    (if json_space c then Some (EndValue, p # st)
     else case p of
       ObjectKey \<Rightarrow> if c = CHR '':'' then Some (BeginValue, ObjectValue # st) else None
     | ObjectValue \<Rightarrow> if c = CHR '','' then Some (BeginString, ObjectKey # st)
         else if c = CHR ''}'' then json_pop (p # st) else None
     | ArrayValue \<Rightarrow> if c = CHR '','' then Some (BeginValue, p # st)
         else if c = CHR '']'' then json_pop (p # st) else None)"

definition json_begin_value :: "jstep \<Rightarrow> jopen list \<Rightarrow> char \<Rightarrow> jscan option" where
  "json_begin_value same st c =
    (if json_space c then Some (same, st)
     else if c = CHR ''{'' then json_push BeginStringOrEmpty ObjectKey st
     else if c = CHR ''['' then json_push BeginValueOrEmpty ArrayValue st
     else if c = CHR 0x22 then Some (InString, st)
     else if c = CHR ''-'' then Some (NumNeg, st)
     else if c = CHR ''0'' then Some (NumZero, st)
     else if c = CHR ''t'' then Some (Literal ''rue'', st)
     else if c = CHR ''f'' then Some (Literal ''alse'', st)
     else if c = CHR ''n'' then Some (Literal ''ull'', st)
     else if json_digit c then Some (NumInt, st)
     else None)"

definition json_begin_string :: "jstep \<Rightarrow> jopen list \<Rightarrow> char \<Rightarrow> jscan option" where
  "json_begin_string same st c =
    (if json_space c then Some (same, st)
     else if c = CHR 0x22 then Some (InString, st) else None)"

fun json_step :: "jscan \<Rightarrow> char \<Rightarrow> jscan option" where
  "json_step (BeginValue, st) c = json_begin_value BeginValue st c"
| "json_step (BeginValueOrEmpty, st) c =
    (if c = CHR '']'' then json_end_value st c else json_begin_value BeginValueOrEmpty st c)"
| "json_step (BeginStringOrEmpty, st) c =
    (if c = CHR ''}'' then json_end_value (ObjectValue # tl st) c
     else json_begin_string BeginStringOrEmpty st c)"
| "json_step (BeginString, st) c = json_begin_string BeginString st c"
| "json_step (EndValue, st) c = json_end_value st c"
| "json_step (EndTop, st) c = (if json_space c then Some (EndTop, st) else None)"
| "json_step (InString, st) c =
    (if c = CHR 0x22 then Some (EndValue, st)
     else if c = CHR 0x5C then Some (InStringEsc, st)
     else if (of_char c :: nat) < 0x20 then None else Some (InString, st))"
| "json_step (InStringEsc, st) c =
    (if c \<in> set ''bfnrt/'' \<or> c = CHR 0x5C \<or> c = CHR 0x22 then Some (InString, st)
     else if c = CHR ''u'' then Some (InStringEscU 3, st) else None)"
| "json_step (InStringEscU n, st) c =
    (if json_hex c then Some (if n = 0 then InString else InStringEscU (n - 1), st) else None)"
| "json_step (NumNeg, st) c =
    (if c = CHR ''0'' then Some (NumZero, st) else if json_digit c then Some (NumInt, st) else None)"
| "json_step (NumInt, st) c =
    (if json_digit c then Some (NumInt, st)
     else if c = CHR ''.'' then Some (NumDot, st)
     else if c = CHR ''e'' \<or> c = CHR ''E'' then Some (NumE, st) else json_end_value st c)"
| "json_step (NumZero, st) c =
    (if c = CHR ''.'' then Some (NumDot, st)
     else if c = CHR ''e'' \<or> c = CHR ''E'' then Some (NumE, st) else json_end_value st c)"
| "json_step (NumDot, st) c = (if json_digit c then Some (NumDot0, st) else None)"
| "json_step (NumDot0, st) c =
    (if json_digit c then Some (NumDot0, st)
     else if c = CHR ''e'' \<or> c = CHR ''E'' then Some (NumE, st) else json_end_value st c)"
| "json_step (NumE, st) c =
    (if c = CHR ''+'' \<or> c = CHR ''-'' then Some (NumESign, st)
     else if json_digit c then Some (NumE0, st) else None)"
| "json_step (NumESign, st) c = (if json_digit c then Some (NumE0, st) else None)"
| "json_step (NumE0, st) c =
    (if json_digit c then Some (NumE0, st) else json_end_value st c)"
| "json_step (Literal [], st) c = None"
| "json_step (Literal (l # ls), st) c =
    (if c = l then Some (if ls = [] then EndValue else Literal ls, st) else None)"

fun json_scan :: "jscan \<Rightarrow> string \<Rightarrow> jscan option" where
  "json_scan s [] = Some s"
| "json_scan s (c # cs) = (case json_step s c of None \<Rightarrow> None | Some s' \<Rightarrow> json_scan s' cs)"

definition json_at_top :: "jscan option \<Rightarrow> bool" where
  "json_at_top s = (case s of Some (EndTop, _) \<Rightarrow> True | _ \<Rightarrow> False)"

definition valid_json :: "string \<Rightarrow> bool" where
  "valid_json text = (case json_scan (BeginValue, []) text of
     None \<Rightarrow> False
   | Some s \<Rightarrow> json_at_top (Some s) \<or> json_at_top (json_step s CHR 0x20))"

lemma valid_json_empty_object [simp]: "valid_json ''{}''"
  by code_simp

lemma valid_json_examples:
  "valid_json ''[1, -0.5e3, null, true]''" "\<not> valid_json ''{,}''" "\<not> valid_json ''01''"
  "\<not> valid_json []" "valid_json ''7 ''" "\<not> valid_json ''[1''"
  by code_simp+

lemma json_scan_append:
  "json_scan s (xs @ ys) = Option.bind (json_scan s xs) (\<lambda>t. json_scan t ys)"
  by (induction xs arbitrary: s) (auto split: option.splits)

text \<open>The scanner never holds more open containers than the limit.\<close>

lemma json_step_depth:
  assumes "json_step (s, st) c = Some (s', st')" and "length st \<le> json_max_depth" and "st \<noteq> [] \<or> s \<noteq> BeginStringOrEmpty"
  shows "length st' \<le> json_max_depth"
  using assms
  by (cases "((s, st), c)" rule: json_step.cases; cases st)
    (auto simp: json_begin_value_def json_begin_string_def json_push_def json_pop_def
      split: if_splits jopen.splits)

end
