(* ===== verification/BusModel.thy ===== *)
theory BusModel
  imports GoJson
begin

text \<open>
  \<open>internal/bus\<close>: the vocabulary of the message bus. Errors are the package's sentinel
  errors (a wrapped \<open>fmt.Errorf("%s: %w", ...)\<close> is its sentinel), plus the two failures
  a store call can meet outside its own checks: an SQL constraint and the id generator.
  The string enums that only the store writes are datatypes; those a caller may send keep
  an extra constructor for any other text. Times are nanoseconds since the epoch, as the
  tables keep them.
\<close>

section \<open>Errors\<close>

datatype error =
    ValidationError (error_field: string) (error_problem: string)
  | ErrInvalid | ErrNotFound | ErrNoMessage
  | ErrAttentionWaiterBusy | ErrAttentionUnavailable | ErrSessionEnded | ErrPresenceSuperseded
  | ErrRegistrationExpired | ErrIdempotencyConflict | ErrLeaseTokenMismatch | ErrLeaseExpired
  | ErrDeliveryTerminal | ErrActorLive | ErrBindingStale | ErrContinuityConflict
  | ErrBindingReassigned | ErrIdentityRebound
  | HostAttentionUnavailableError string string
  | ErrAdoptionConflict | ErrAdoptionBusy | ErrActorNotLive | ErrRunNotLive | ErrActorAdopted
  | ErrAliasConflict | ErrAliasNotFound | ErrAliasTombstoned | ErrAliasTargetUnknown
  | ErrDatabaseOwned | ErrActorArchived | ErrChannelDenied | ErrChannelCapability
  | ErrAudienceChanged | ErrImmutableAudience | ErrShareAuthority | ErrResponseConflict | ErrPreflightExpired | ErrCursorExpired
  | SqlConstraint string
  | IdGenerator string
  | InternalError string

text \<open>\<open>errors.Is(err, ErrInvalid)\<close>, through \<open>ValidationError.Unwrap\<close>.\<close>

definition is_ErrInvalid :: "error \<Rightarrow> bool" where
  "is_ErrInvalid e = (case e of ValidationError _ _ \<Rightarrow> True | ErrInvalid \<Rightarrow> True | _ \<Rightarrow> False)"

section \<open>Enumerations\<close>

datatype delivery_request = NonBlocking | Blocking | Wake | OtherRequest string

definition delivery_request_text :: "delivery_request \<Rightarrow> string" where
  "delivery_request_text r = (case r of NonBlocking \<Rightarrow> ''non-blocking''
     | Blocking \<Rightarrow> ''blocking-requested'' | Wake \<Rightarrow> ''wake-requested'' | OtherRequest s \<Rightarrow> s)"

datatype delivery_state = Queued | Claimed | Acked | DeadLettered | Revoked

datatype route_kind = RouteAlias | RouteActor | RouteReply | RouteOther string

definition route_kind_text :: "route_kind \<Rightarrow> string" where
  "route_kind_text k = (case k of RouteAlias \<Rightarrow> ''alias'' | RouteActor \<Rightarrow> ''actor''
     | RouteReply \<Rightarrow> ''reply'' | RouteOther s \<Rightarrow> s)"

datatype route = Route (rt_kind: route_kind) (rt_value: string)

section \<open>Messages and requests\<close>

record send_request =
  sr_idempotency_key :: string
  sr_project_id :: string
  sr_channel_id :: string
  sr_thread_id :: string
  sr_from_actor :: string
  sr_from_run :: string
  sr_from_role :: string
  sr_to_actors :: "string list"
  sr_destinations :: "route list"
  sr_type :: string
  sr_delivery_request :: delivery_request
  sr_in_reply_to :: string
  sr_body :: string
  sr_expires_at :: "int option"
  sr_requested_to_actors :: "string list"
  sr_requested_routes :: "route list"

record message =
  msg_id :: string
  msg_schema_version :: int
  msg_idempotency_key :: string
  msg_project_id :: string
  msg_channel_id :: string
  msg_thread_id :: string
  msg_from_actor :: string
  msg_from_run :: string
  msg_from_role :: string
  msg_to_actors :: "string list"
  msg_requested_routes :: "route list"
  msg_type :: string
  msg_delivery_request :: delivery_request
  msg_in_reply_to :: string
  msg_body :: string
  msg_created_at :: int
  msg_expires_at :: "int option"
  msg_requested_to_actors :: "string list"

record send_result =
  res_message :: message
  res_duplicate :: bool
  res_notification_state :: string

record inbox_item =
  ii_message_id :: string
  ii_project_id :: string
  ii_channel_id :: string
  ii_thread_id :: string
  ii_from_actor :: string
  ii_from_role :: string
  ii_type :: string
  ii_delivery_request :: delivery_request
  ii_state :: delivery_state
  ii_attempt :: int
  ii_available :: bool
  ii_created_at :: int
  ii_expires_at :: "int option"
  ii_recipient_actor :: string
  ii_original_recipient :: string

record claim =
  cl_message :: message
  cl_recipient_actor :: string
  cl_original_recipient :: string
  cl_attempt :: int
  cl_lease_token :: string
  cl_lease_expires_at :: int

record lease_extension =
  le_message_id :: string
  le_recipient_actor :: string
  le_lease_expires_at :: int

section \<open>Validation\<close>

definition ValidateTextIdentifier :: "string \<Rightarrow> string \<Rightarrow> int \<Rightarrow> error + unit" where
  "ValidateTextIdentifier name value mx =
    (if int (length value) > mx then Inl (ValidationError name (''exceeds '' @ dec (nat mx) @ '' bytes''))
     else if has_control value then Inl (ValidationError name ''contains control characters'')
     else Inr ())"

lemma ValidateTextIdentifier_Inr [ok_iff]:
  "ValidateTextIdentifier name value mx = Inr u \<longleftrightarrow> int (length value) \<le> mx \<and> \<not> has_control value"
  by (auto simp: ValidateTextIdentifier_def)

lemma ValidateTextIdentifier_Inl:
  "ValidateTextIdentifier name value mx = Inl e \<Longrightarrow> is_ErrInvalid e"
  by (auto simp: ValidateTextIdentifier_def is_ErrInvalid_def split: if_splits)

text \<open>The loop over (name, value, max) that trims nothing and requires every field.\<close>

definition require_field :: "string \<Rightarrow> string \<Rightarrow> error + unit" where
  "require_field name value = requireE (value \<noteq> []) (ValidationError name ''is required'')"

lemma require_field_Inr [ok_iff]: "require_field name value = Inr u \<longleftrightarrow> value \<noteq> []"
  by (simp add: require_field_def requireE_Inr_iff)

definition require_text :: "string \<times> string \<times> int \<Rightarrow> error + unit" where
  "require_text fld = (case fld of (name, value, mx) \<Rightarrow>
     bindE (require_field name value) (\<lambda>_. ValidateTextIdentifier name value mx))"

lemma require_text_Inr [ok_iff]:
  "require_text (name, value, mx) = Inr u \<longleftrightarrow> value \<noteq> [] \<and> int (length value) \<le> mx \<and> \<not> has_control value"
  by (auto simp: require_text_def ok_iff)

definition MaxBodyBytes :: int where
  "MaxBodyBytes = 1048576"

definition trim_request :: "send_request \<Rightarrow> send_request" where
  "trim_request r = r\<lparr>
     sr_idempotency_key := trim (sr_idempotency_key r),
     sr_project_id := trim (sr_project_id r),
     sr_channel_id := trim (sr_channel_id r),
     sr_thread_id := trim (sr_thread_id r),
     sr_from_actor := trim (sr_from_actor r),
     sr_from_run := trim (sr_from_run r),
     sr_from_role := trim (sr_from_role r),
     sr_type := trim (sr_type r),
     sr_in_reply_to := trim (sr_in_reply_to r)\<rparr>"

definition normalize_body :: "string \<Rightarrow> error + string" where
  "normalize_body b =
    (let body = (if b = [] then ''{}'' else b) in
     if trim body = ''null'' then Inl (ValidationError ''body'' ''must not be null'')
     else if int (length body) > MaxBodyBytes then Inl (ValidationError ''body'' ''exceeds 1 MiB'')
     else if \<not> valid_json body then Inl (ValidationError ''body'' ''must be valid JSON'')
     else Inr body)"

definition normalize_delivery_request :: "delivery_request \<Rightarrow> error + delivery_request" where
  "normalize_delivery_request r =
    (case r of
       OtherRequest s \<Rightarrow> if s = [] then Inr NonBlocking
         else Inl (ValidationError ''delivery_request'' ''is not supported'')
     | _ \<Rightarrow> Inr r)"

definition normalize_route :: "route \<Rightarrow> error + route" where
  "normalize_route r =
    (let value = trim (rt_value r) in
     bindE (case rt_kind r of
         RouteAlias \<Rightarrow> Inr () | RouteActor \<Rightarrow> Inr ()
       | RouteReply \<Rightarrow> Inl (ValidationError ''destinations.kind'' ''reply routes must use in_reply_to'')
       | RouteOther _ \<Rightarrow> Inl (ValidationError ''destinations.kind'' ''must be alias or actor'')) (\<lambda>_.
     bindE (requireE (value \<noteq> []) (ValidationError ''destinations.value'' ''is required'')) (\<lambda>_.
     bindE (ValidateTextIdentifier ''destinations.value'' value 128) (\<lambda>_.
     Inr (Route (rt_kind r) value)))))"

definition route_key :: "route \<Rightarrow> string \<times> string" where
  "route_key r = (route_kind_text (rt_kind r), rt_value r)"

definition normalize_routes :: "route list \<Rightarrow> error + route list" where
  "normalize_routes rs = bindE (mapE normalize_route rs) (\<lambda>rs'. Inr (sort_key route_key (nub rs')))"

definition normalize_recipient :: "string \<Rightarrow> error + string" where
  "normalize_recipient a = bindE (ValidateTextIdentifier ''to_actors'' a 128) (\<lambda>_. Inr a)"

definition normalize_recipients :: "string list \<Rightarrow> error + string list" where
  "normalize_recipients as =
    bindE (mapE normalize_recipient (filter (\<lambda>a. a \<noteq> []) (map trim as))) (\<lambda>as'. Inr (nub as'))"

definition NormalizeSendRequest :: "send_request \<Rightarrow> error + send_request" where
  "NormalizeSendRequest request =
    (let r = trim_request request in
     bindE (forE [(''idempotency_key'', sr_idempotency_key r), (''project_id'', sr_project_id r),
         (''channel_id'', sr_channel_id r), (''from_actor'', sr_from_actor r),
         (''from_run'', sr_from_run r), (''type'', sr_type r)]
       (\<lambda>(name, value). require_field name value)) (\<lambda>_.
     bindE (requireE (int (length (sr_idempotency_key r)) \<le> 256)
       (ValidationError ''idempotency_key'' ''exceeds 256 bytes'')) (\<lambda>_.
     bindE (normalize_body (sr_body r)) (\<lambda>body.
     bindE (forE [(''project_id'', sr_project_id r, 256), (''channel_id'', sr_channel_id r, 128),
         (''thread_id'', sr_thread_id r, 256), (''from_actor'', sr_from_actor r, 128),
         (''from_run'', sr_from_run r, 256), (''from_role'', sr_from_role r, 128),
         (''type'', sr_type r, 64), (''in_reply_to'', sr_in_reply_to r, 128)]
       (\<lambda>(name, value, mx). ValidateTextIdentifier name value mx)) (\<lambda>_.
     bindE (normalize_delivery_request (sr_delivery_request r)) (\<lambda>dr.
     bindE (requireE (\<not> (sr_destinations r \<noteq> [] \<and> sr_to_actors r \<noteq> []))
       (ValidationError ''destinations'' ''cannot be combined with legacy to_actors'')) (\<lambda>_.
     bindE (requireE (\<not> (sr_destinations r \<noteq> [] \<and> sr_in_reply_to r \<noteq> []))
       (ValidationError ''destinations'' ''cannot be combined with in_reply_to'')) (\<lambda>_.
     bindE (normalize_routes (sr_destinations r)) (\<lambda>routes.
     bindE (normalize_recipients (sr_to_actors r)) (\<lambda>recipients.
     bindE (requireE (\<not> (recipients = [] \<and> routes = [] \<and> sr_in_reply_to r = []))
       (ValidationError ''destinations'' ''requires an alias, actor, or in_reply_to'')) (\<lambda>_.
     Inr (r\<lparr>sr_body := body, sr_delivery_request := dr, sr_destinations := routes,
       sr_to_actors := sort recipients\<rparr>))))))))))))"

section \<open>Idempotency\<close>

definition legacyRoutes :: "string list \<Rightarrow> route list" where
  "legacyRoutes values = map (\<lambda>v. Route (RouteOther []) v) values"

definition route_matches :: "route \<Rightarrow> route \<Rightarrow> bool" where
  "route_matches a b =
    (rt_value a = rt_value b \<and>
     (rt_kind a = RouteOther [] \<or> rt_kind b = RouteOther [] \<or> rt_kind a = rt_kind b))"

definition equalRoutes :: "route list \<Rightarrow> route list \<Rightarrow> bool" where
  "equalRoutes as bs = list_all2 route_matches as bs"

definition message_routes :: "message \<Rightarrow> route list" where
  "message_routes m =
    (if msg_requested_routes m \<noteq> [] then msg_requested_routes m
     else if msg_requested_to_actors m \<noteq> [] then legacyRoutes (msg_requested_to_actors m)
     else legacyRoutes (msg_to_actors m))"

definition request_routes :: "send_request \<Rightarrow> route list" where
  "request_routes r =
    (if sr_requested_routes r \<noteq> [] then sr_requested_routes r
     else if sr_destinations r \<noteq> [] then sr_destinations r
     else if sr_requested_to_actors r \<noteq> [] then legacyRoutes (sr_requested_to_actors r)
     else legacyRoutes (sr_to_actors r))"

definition EquivalentRequest :: "message \<Rightarrow> send_request \<Rightarrow> bool" where
  "EquivalentRequest m r =
    (msg_idempotency_key m = sr_idempotency_key r \<and>
     msg_project_id m = sr_project_id r \<and>
     msg_channel_id m = sr_channel_id r \<and>
     msg_thread_id m = sr_thread_id r \<and>
     msg_from_actor m = sr_from_actor r \<and>
     msg_from_run m = sr_from_run r \<and>
     msg_from_role m = sr_from_role r \<and>
     msg_type m = sr_type r \<and>
     msg_delivery_request m = sr_delivery_request r \<and>
     msg_in_reply_to m = sr_in_reply_to r \<and>
     msg_body m = sr_body r \<and>
     equalRoutes (message_routes m) (request_routes r) \<and>
     msg_expires_at m = sr_expires_at r)"

section \<open>Callers and event provenance\<close>

record caller =
  ca_actor :: string
  ca_run_id :: string
  ca_client :: string
  ca_build_id :: string
  ca_daemon_build_id :: string

definition no_caller :: caller where
  "no_caller = \<lparr>ca_actor = [], ca_run_id = [], ca_client = [], ca_build_id = [], ca_daemon_build_id = []\<rparr>"

definition WithCaller :: "caller \<Rightarrow> caller" where
  "WithCaller c = \<lparr>ca_actor = trim (ca_actor c), ca_run_id = trim (ca_run_id c),
     ca_client = trim (ca_client c), ca_build_id = trim (ca_build_id c),
     ca_daemon_build_id = trim (ca_daemon_build_id c)\<rparr>"

text \<open>Event payloads: a Go map from keys to the few kinds of value the store puts there.\<close>

datatype pval = PStr string | PInt int | PStrs "string list" | PMap "(string \<times> string) list"

type_synonym payload = "(string \<times> pval) list"

fun pput :: "string \<Rightarrow> pval \<Rightarrow> payload \<Rightarrow> payload" where
  "pput k v [] = [(k, v)]"
| "pput k v ((k', v') # m) = (if k' = k then (k, v) # m else (k', v') # pput k v m)"

lemma map_of_pput [simp]: "map_of (pput k v m) = (map_of m)(k \<mapsto> v)"
  by (induction m) auto

definition EventProvenance :: "caller \<Rightarrow> string \<Rightarrow> payload" where
  "EventProvenance c fallbackRun =
    (let run = (if ca_run_id c = [] then trim fallbackRun else ca_run_id c) in
     [(''run_id'', PStr run)]
     @ (if ca_client c \<noteq> [] then [(''client'', PStr (ca_client c))] else [])
     @ (if ca_build_id c \<noteq> [] then [(''client_build'', PStr (ca_build_id c))] else [])
     @ (if ca_daemon_build_id c \<noteq> [] then [(''daemon_build'', PStr (ca_daemon_build_id c))] else []))"

section \<open>Facts about normalisation\<close>

lemma trim_request_trim_request [simp]: "trim_request (trim_request r) = trim_request r"
  by (simp add: trim_request_def)

lemma normalize_body_Inr [ok_iff]:
  "normalize_body b = Inr body \<longleftrightarrow>
    body = (if b = [] then ''{}'' else b) \<and> trim body \<noteq> ''null'' \<and>
    int (length body) \<le> MaxBodyBytes \<and> valid_json body"
  by (auto simp: normalize_body_def Let_def)

lemma normalize_body_idem: "normalize_body b = Inr body \<Longrightarrow> normalize_body body = Inr body"
  by (auto simp: ok_iff split: if_splits)

lemma normalize_delivery_request_idem:
  "normalize_delivery_request r = Inr r' \<Longrightarrow> normalize_delivery_request r' = Inr r'"
  by (auto simp: normalize_delivery_request_def split: delivery_request.splits if_splits)

lemma normalize_delivery_request_known:
  "normalize_delivery_request r = Inr r' \<Longrightarrow> r' \<in> {NonBlocking, Blocking, Wake}"
  by (auto simp: normalize_delivery_request_def split: delivery_request.splits if_splits)

lemma normalize_route_Inr:
  "normalize_route r = Inr r' \<longleftrightarrow>
    rt_kind r \<in> {RouteAlias, RouteActor} \<and> r' = Route (rt_kind r) (trim (rt_value r)) \<and>
    trim (rt_value r) \<noteq> [] \<and> length (trim (rt_value r)) \<le> 128 \<and> \<not> has_control (trim (rt_value r))"
  by (cases "rt_kind r") (auto simp: normalize_route_def Let_def ok_iff)

lemma normalize_route_idem: "normalize_route r = Inr r' \<Longrightarrow> normalize_route r' = Inr r'"
  by (auto simp: normalize_route_Inr)

lemma route_key_inj: 
  "rt_kind a \<in> {RouteAlias, RouteActor} \<Longrightarrow> rt_kind b \<in> {RouteAlias, RouteActor} \<Longrightarrow>
    route_key a = route_key b \<Longrightarrow> a = b"
  by (cases a; cases b) (auto simp: route_key_def route_kind_text_def)

lemma mapE_idem_on:
  "(\<forall>y\<in>set ys. f y = Inr y) \<Longrightarrow> mapE f ys = Inr ys"
  using mapE_Inr_total [of ys f id] by simp

lemma normalize_routes_props:
  assumes "normalize_routes rs = Inr rs'"
  shows "distinct rs'" "sorted (map route_key rs')"
    "\<forall>r\<in>set rs'. normalize_route r = Inr r" "rs' = [] \<longleftrightarrow> rs = []"
proof -
  obtain ys where ys: "mapE normalize_route rs = Inr ys" "rs' = sort_key route_key (nub ys)"
    using assms by (auto simp: normalize_routes_def bindE_Inr_iff)
  show "distinct rs'" "sorted (map route_key rs')" using ys(2) by simp_all
  show "\<forall>r\<in>set rs'. normalize_route r = Inr r"
    using ys mapE_Inr_set [OF ys(1)] normalize_route_idem by auto
  have "length ys = length rs" using ys(1) by (metis mapE_Inr_list_all2 list_all2_lengthD)
  moreover have "rs' = [] \<longleftrightarrow> ys = []" using ys(2)
    by (metis length_0_conv length_sort nub_eq_Nil)
  ultimately show "rs' = [] \<longleftrightarrow> rs = []" by auto
qed

lemma normalize_routes_idem:
  assumes "normalize_routes rs = Inr rs'"
  shows "normalize_routes rs' = Inr rs'"
  using normalize_routes_props [OF assms]
  by (simp add: normalize_routes_def mapE_idem_on nub_id sort_key_id)

lemma normalize_recipient_Inr:
  "normalize_recipient a = Inr b \<longleftrightarrow> b = a \<and> length a \<le> 128 \<and> \<not> has_control a"
  by (auto simp: normalize_recipient_def ok_iff)

lemma normalize_recipients_props:
  assumes "normalize_recipients as = Inr bs"
  shows "distinct bs" "\<forall>b\<in>set bs. b \<noteq> [] \<and> trim b = b \<and> normalize_recipient b = Inr b"
proof -
  obtain ys where ys: "mapE normalize_recipient (filter (\<lambda>a. a \<noteq> []) (map trim as)) = Inr ys"
      "bs = nub ys"
    using assms by (auto simp: normalize_recipients_def bindE_Inr_iff)
  show "distinct bs" using ys(2) by simp
  show "\<forall>b\<in>set bs. b \<noteq> [] \<and> trim b = b \<and> normalize_recipient b = Inr b"
    using ys(2) mapE_Inr_set [OF ys(1)] by (fastforce simp: normalize_recipient_Inr)
qed

lemma normalize_recipients_fix:
  assumes "distinct bs" and "\<forall>b\<in>set bs. b \<noteq> [] \<and> trim b = b \<and> normalize_recipient b = Inr b"
  shows "normalize_recipients bs = Inr bs"
proof -
  have "map trim bs = bs" using assms(2) by (simp add: map_idI)
  moreover have "filter (\<lambda>a. a \<noteq> []) bs = bs" using assms(2) by (simp add: filter_id_conv)
  ultimately show ?thesis
    using assms by (simp add: normalize_recipients_def mapE_idem_on nub_id)
qed

lemma normalize_recipients_sorted_idem:
  assumes "normalize_recipients as = Inr bs"
  shows "normalize_recipients (sort bs) = Inr (sort bs)"
  using normalize_recipients_props [OF assms] by (intro normalize_recipients_fix) auto

text \<open>What a successful normalisation establishes, as one fact the store's proofs use.\<close>

lemma NormalizeSendRequest_InrD:
  assumes "NormalizeSendRequest q = Inr r"
  shows "trim_request r = r"
    "sr_idempotency_key r \<noteq> []" "sr_project_id r \<noteq> []" "sr_channel_id r \<noteq> []"
    "sr_from_actor r \<noteq> []" "sr_from_run r \<noteq> []" "sr_type r \<noteq> []"
    "length (sr_idempotency_key r) \<le> 256" "int (length (sr_body r)) \<le> MaxBodyBytes" "valid_json (sr_body r)"
    "sr_body r \<noteq> []"
    "length (sr_from_actor r) \<le> 128" "\<not> has_control (sr_from_actor r)"
    "sr_delivery_request r \<in> {NonBlocking, Blocking, Wake}"
    "distinct (sr_to_actors r)" "sorted (sr_to_actors r)" "[] \<notin> set (sr_to_actors r)"
    "distinct (sr_destinations r)" "sorted (map route_key (sr_destinations r))"
    "\<forall>d\<in>set (sr_destinations r). rt_kind d \<in> {RouteAlias, RouteActor} \<and> rt_value d \<noteq> []"
    "sr_destinations r = [] \<or> sr_to_actors r = [] \<and> sr_in_reply_to r = []"
    "sr_to_actors r \<noteq> [] \<or> sr_destinations r \<noteq> [] \<or> sr_in_reply_to r \<noteq> []"
    "sr_requested_routes r = sr_requested_routes q" "sr_requested_to_actors r = sr_requested_to_actors q"
    "sr_expires_at r = sr_expires_at q"
proof -
  let ?t = "trim_request q"
  obtain body dr routes recips where
    req: "\<forall>v\<in>{sr_idempotency_key ?t, sr_project_id ?t, sr_channel_id ?t, sr_from_actor ?t,
      sr_from_run ?t, sr_type ?t}. v \<noteq> []"
    and key: "length (sr_idempotency_key ?t) \<le> 256"
    and body: "normalize_body (sr_body ?t) = Inr body"
    and dr: "normalize_delivery_request (sr_delivery_request ?t) = Inr dr"
    and excl: "\<not> (sr_destinations ?t \<noteq> [] \<and> sr_to_actors ?t \<noteq> [])"
      "\<not> (sr_destinations ?t \<noteq> [] \<and> sr_in_reply_to ?t \<noteq> [])"
    and fa: "length (sr_from_actor ?t) \<le> 128" "\<not> has_control (sr_from_actor ?t)"
    and routes: "normalize_routes (sr_destinations ?t) = Inr routes"
    and recips: "normalize_recipients (sr_to_actors ?t) = Inr recips"
    and some: "\<not> (recips = [] \<and> routes = [] \<and> sr_in_reply_to ?t = [])"
    and r: "r = ?t\<lparr>sr_body := body, sr_delivery_request := dr, sr_destinations := routes,
       sr_to_actors := sort recips\<rparr>"
    using assms unfolding NormalizeSendRequest_def Let_def
    by (auto simp: bindE_Inr_iff requireE_Inr_iff forE_Inr_iff require_field_Inr
        ValidateTextIdentifier_Inr simp del: forE.simps)
  note rp = normalize_routes_props [OF routes] and ap = normalize_recipients_props [OF recips]
  show "trim_request r = r" using r by (simp add: trim_request_def)
  show "sr_idempotency_key r \<noteq> []" "sr_project_id r \<noteq> []" "sr_channel_id r \<noteq> []"
    "sr_from_actor r \<noteq> []" "sr_from_run r \<noteq> []" "sr_type r \<noteq> []"
    "length (sr_idempotency_key r) \<le> 256"
    using req key r by simp_all
  show "int (length (sr_body r)) \<le> MaxBodyBytes" "valid_json (sr_body r)" "sr_body r \<noteq> []"
    using body r by (auto simp: normalize_body_Inr split: if_splits)
  show "length (sr_from_actor r) \<le> 128" "\<not> has_control (sr_from_actor r)" using fa r by simp_all
  show "sr_delivery_request r \<in> {NonBlocking, Blocking, Wake}"
    using normalize_delivery_request_known [OF dr] r by simp
  show "distinct (sr_to_actors r)" "sorted (sr_to_actors r)" "[] \<notin> set (sr_to_actors r)"
    using ap r by auto
  show "distinct (sr_destinations r)" "sorted (map route_key (sr_destinations r))"
    using rp r by simp_all
  show "\<forall>d\<in>set (sr_destinations r). rt_kind d \<in> {RouteAlias, RouteActor} \<and> rt_value d \<noteq> []"
  proof
    fix d assume "d \<in> set (sr_destinations r)"
    then have "normalize_route d = Inr d" using rp(3) r by simp
    then have "rt_kind d \<in> {RouteAlias, RouteActor}" "d = Route (rt_kind d) (trim (rt_value d))"
      "trim (rt_value d) \<noteq> []" by (simp_all add: normalize_route_Inr)
    then show "rt_kind d \<in> {RouteAlias, RouteActor} \<and> rt_value d \<noteq> []" by (metis route.sel(2))
  qed
  have nil: "recips = []" if "sr_to_actors ?t = []"
    using that recips by (simp add: normalize_recipients_def)
  show "sr_destinations r = [] \<or> sr_to_actors r = [] \<and> sr_in_reply_to r = []"
    using excl rp(4) nil r by (cases "sr_destinations ?t = []") auto
  have "sort recips = [] \<longleftrightarrow> recips = []" by (metis length_0_conv length_sort)
  then show "sr_to_actors r \<noteq> [] \<or> sr_destinations r \<noteq> [] \<or> sr_in_reply_to r \<noteq> []"
    using some r by simp
  show "sr_requested_routes r = sr_requested_routes q" "sr_requested_to_actors r = sr_requested_to_actors q"
    "sr_expires_at r = sr_expires_at q" using r by (simp_all add: trim_request_def)
qed

lemmas normalized_request = NormalizeSendRequest_InrD

end
