(* ===== verification/StoreState.thy ===== *)
theory StoreState
  imports BusModel
begin

text \<open>
  \<open>internal/store/sqlite\<close>: the tables of \<open>schema.sql\<close> as lists of row records, one
  record field per column, and the parts of \<open>store.go\<close> every operation uses: the id
  generator, the event log (\<open>appendEventTx\<close>, \<open>ListEvents\<close>) and the message reader
  (\<open>getMessageByIDTx\<close>, \<open>getMessageByIdempotencyTx\<close>).

  One Go operation is one SQL transaction on the store's only connection, so it is a
  function from the state to an error (the deferred rollback: the state is dropped) or to
  a result and the next state. SQLite itself is taken as working: the failures modelled
  are the constraints the schema declares. The surrounding call supplies \<open>env\<close>: the
  clock reading, the id generator (indexed by the number of ids drawn so far, \<open>None\<close> for
  its error) and the caller stored in the context.
\<close>

section \<open>Rows\<close>

text \<open>
  The column \<open>requested_recipients_json\<close>: NULL in old rows, a JSON array of routes in rows
  this version writes, a JSON array of strings in rows an earlier version wrote.
\<close>

datatype requested_blob = RequestedNull | RequestedTyped "route list" | RequestedLegacy "string list"

record message_row =
  mr_id :: string
  mr_schema_version :: int
  mr_idempotency_key :: string
  mr_project_id :: string
  mr_channel_id :: string
  mr_thread_id :: "string option"
  mr_from_actor :: string
  mr_from_run :: string
  mr_from_role :: "string option"
  mr_type :: string
  mr_delivery_request :: delivery_request
  mr_in_reply_to :: "string option"
  mr_body :: string
  mr_created_at :: int
  mr_expires_at :: "int option"
  mr_requested :: requested_blob
  mr_conversation :: "string option"
  mr_channel_seq :: "int option"

record delivery_row =
  dl_message_id :: string
  dl_recipient :: string
  dl_state :: delivery_state
  dl_attempt :: int
  dl_lease_token :: "string option"
  dl_terminal_token :: "string option"
  dl_lease_expires :: "int option"
  dl_claimed_at :: "int option"
  dl_acked_at :: "int option"
  dl_last_error :: "string option"

datatype outbox_state = Pending | Processing | Accepted | Done
  | ManagedPending | ManagedProcessing | ManagedAccepted

datatype outbox_source = LegacySource | ManagedSource

record outbox_row =
  ob_message_id :: string
  ob_recipient :: string
  ob_state :: outbox_state
  ob_attempt :: int
  ob_available_at :: int
  ob_last_error :: "string option"
  ob_created_at :: int
  ob_source :: outbox_source

record registration_row =
  rg_actor :: string
  rg_run_id :: string
  rg_harness :: string
  rg_attention_mode :: string
  rg_session_id :: string
  rg_delivery_handle :: string
  rg_project_id :: string
  rg_working_dir :: string
  rg_epoch :: int
  rg_registered_at :: int
  rg_updated_at :: int
  rg_lease_expires :: int
  rg_ended_at :: "int option"
  rg_superseded_at :: "int option"

record harness_row =
  hb_handle :: string
  hb_actor :: string
  hb_run_id :: string
  hb_created_at :: int
  hb_updated_at :: int

record host_row =
  ha_harness_pid :: int
  ha_harness_start :: string
  ha_handle :: string
  ha_host_pid :: int
  ha_host_start :: string
  ha_actor :: string
  ha_run_id :: string
  ha_session_id :: string
  ha_admitted_at :: "int option"
  ha_created_at :: int
  ha_updated_at :: int

record adoption_row =
  ad_source :: string
  ad_adopting :: string
  ad_run :: string
  ad_project_id :: string
  ad_idempotency_key :: string
  ad_transferred :: int
  ad_deduplicated :: int
  ad_adopted_at :: int

record alias_row =
  al_alias :: string
  al_actor :: string
  al_revision :: int
  al_by_actor :: string
  al_by_run :: string
  al_project_id :: string
  al_updated_at :: int

datatype alias_action = AliasSet | AliasRemove | AliasClaimed

record alias_history_row =
  ah_alias :: string
  ah_revision :: int
  ah_actor :: string
  ah_action :: alias_action
  ah_by_actor :: string
  ah_by_run :: string
  ah_project_id :: string
  ah_idempotency_key :: string
  ah_updated_at :: int

record alias_claim_result =
  acr_alias :: alias_row
  acr_claimed :: bool
  acr_policy_id :: string
  acr_duplicate :: bool

record alias_claim_row =
  ac_by_actor :: string
  ac_idempotency_key :: string
  ac_alias :: string
  ac_actor :: string
  ac_policy_id :: string
  ac_harness :: string
  ac_project_id :: string
  ac_result :: alias_claim_result
  ac_created_at :: int

record profile_row =
  pf_actor :: string
  pf_revision :: int
  pf_role_text :: string
  pf_accepts :: "string list"
  pf_by_run :: string
  pf_project_id :: string
  pf_updated_at :: int

record allocation_row =
  ao_actor :: string
  ao_base :: string
  ao_ordinal :: int
  ao_allocated_at :: int
  ao_provisional :: bool

record name_row =
  an_actor :: string
  an_first_seen :: int

record continuity_row =
  cb_handle :: string
  cb_actor :: string
  cb_base :: string
  cb_created_at :: int
  cb_updated_at :: int

record counter_row =
  pc_partition :: string
  pc_stream :: string
  pc_next :: int

record event_row =
  ev_id :: string
  ev_partition :: string
  ev_stream :: string
  ev_position :: int
  ev_kind :: string
  ev_message_id :: "string option"
  ev_actor_id :: "string option"
  ev_payload :: "payload option"
  ev_created_at :: int

datatype condition_state = ActiveVisible | ActiveSnoozed | ActiveAcknowledged | ConditionResolved

record condition_row =
  oc_kind :: string
  oc_subject :: string
  oc_generation :: int
  oc_state :: condition_state
  oc_reason_code :: string
  oc_summary :: string
  oc_details :: string
  oc_first_seen_at :: int
  oc_last_seen_at :: int
  oc_resolved_at :: "int option"
  oc_snoozed_until :: "int option"
  oc_acknowledged_at :: "int option"
  oc_presentation_owner :: "string option"
  oc_presentation_lease :: "int option"

record lifecycle_row =
  lc_actor :: string
  lc_archived :: bool
  lc_with_unread :: bool
  lc_changed_by :: string
  lc_changed_at :: int

record grant_row =
  cg_channel_id :: string
  cg_actor :: string
  cg_source :: string
  cg_can_post :: bool
  cg_history_from :: int
  cg_granted_seq :: int
  cg_revoked_seq :: "int option"

record attention_client_row =
  ck_actor :: string
  ck_run_id :: string
  ck_native_ready :: bool
  ck_monitor_ready :: bool

section \<open>The database\<close>

record db =
  messages :: "message_row list"
  deliveries :: "delivery_row list"
  outbox :: "outbox_row list"
  registrations :: "registration_row list"
  harness_bindings :: "harness_row list"
  host_bindings :: "host_row list"
  adoptions :: "adoption_row list"
  aliases :: "alias_row list"
  alias_history :: "alias_history_row list"
  alias_claims :: "alias_claim_row list"
  profiles :: "profile_row list"
  allocations :: "allocation_row list"
  actor_names :: "name_row list"
  continuity :: "continuity_row list"
  counters :: "counter_row list"
  events :: "event_row list"
  conditions :: "condition_row list"
  lifecycle :: "lifecycle_row list"
  grants :: "grant_row list"
  attention_clients :: "attention_client_row list"
  db_ids :: nat

definition empty_db :: db where
  "empty_db = \<lparr>messages = [], deliveries = [], outbox = [], registrations = [],
     harness_bindings = [], host_bindings = [], adoptions = [], aliases = [],
     alias_history = [], alias_claims = [], profiles = [], allocations = [],
     actor_names = [\<lparr>an_actor = ''operator'', an_first_seen = 0\<rparr>], continuity = [],
     counters = [], events = [], conditions = [], lifecycle = [], grants = [],
     attention_clients = [], db_ids = 0\<rparr>"

record env =
  e_now :: int
  e_gen :: "string \<Rightarrow> nat \<Rightarrow> string option"
  e_caller :: caller

text \<open>The view \<open>legacy_messages\<close>, and the keys of the tables the operations update.\<close>

definition legacy_messages :: "db \<Rightarrow> message_row list" where
  "legacy_messages db = filter (\<lambda>m. mr_conversation m = None) (messages db)"

abbreviation delivery_key :: "delivery_row \<Rightarrow> string \<times> string" where
  "delivery_key d \<equiv> (dl_message_id d, dl_recipient d)"

abbreviation outbox_key :: "outbox_row \<Rightarrow> string \<times> string" where
  "outbox_key o' \<equiv> (ob_message_id o', ob_recipient o')"

abbreviation session_key :: "registration_row \<Rightarrow> string \<times> string \<times> string" where
  "session_key r \<equiv> (rg_actor r, rg_run_id r, rg_session_id r)"

abbreviation condition_key :: "condition_row \<Rightarrow> string \<times> string" where
  "condition_key c \<equiv> (oc_kind c, oc_subject c)"

abbreviation counter_key :: "counter_row \<Rightarrow> string \<times> string" where
  "counter_key c \<equiv> (pc_partition c, pc_stream c)"

text \<open>\<open>INSERT OR IGNORE INTO actor_names\<close>.\<close>

definition reserve_name :: "string \<Rightarrow> int \<Rightarrow> db \<Rightarrow> db" where
  "reserve_name a now db =
    (if a \<in> an_actor ` set (actor_names db) then db
     else db\<lparr>actor_names := actor_names db @ [\<lparr>an_actor = a, an_first_seen = now\<rparr>]\<rparr>)"

lemma reserve_name_shape: "\<exists>ns. reserve_name a now db = db\<lparr>actor_names := ns\<rparr>"
  by (auto simp: reserve_name_def intro: exI [of _ "actor_names db"])

lemma reserve_name_set: "an_actor ` set (actor_names (reserve_name a now db)) = insert a (an_actor ` set (actor_names db))"
  by (auto simp: reserve_name_def)

lemma reserve_name_idem [simp]: "reserve_name a n (reserve_name a n' db) = reserve_name a n' db"
  by (auto simp: reserve_name_def)

section \<open>Identifiers\<close>

definition newID :: "env \<Rightarrow> string \<Rightarrow> db \<Rightarrow> error + (string \<times> db)" where
  "newID env pfx db = (case e_gen env pfx (db_ids db) of
     None \<Rightarrow> Inl (IdGenerator pfx)
   | Some s \<Rightarrow> Inr (s, db\<lparr>db_ids := Suc (db_ids db)\<rparr>))"

lemma newID_Inr_iff [ok_iff]:
  "newID env p db = Inr (s, db') \<longleftrightarrow>
    e_gen env p (db_ids db) = Some s \<and> db' = db\<lparr>db_ids := Suc (db_ids db)\<rparr>"
  by (auto simp: newID_def split: option.splits)

section \<open>The event log\<close>

definition counter :: "db \<Rightarrow> string \<Rightarrow> string \<Rightarrow> int" where
  "counter db p s = (case row_by counter_key (p, s) (counters db) of None \<Rightarrow> 1 | Some c \<Rightarrow> pc_next c)"

definition bump_counter :: "string \<Rightarrow> string \<Rightarrow> counter_row list \<Rightarrow> counter_row list" where
  "bump_counter p s cs =
    update_where (\<lambda>c. counter_key c = (p, s)) (\<lambda>c. c\<lparr>pc_next := pc_next c + 1\<rparr>)
      (if row_by counter_key (p, s) cs = None
       then cs @ [\<lparr>pc_partition = p, pc_stream = s, pc_next = 1\<rparr>] else cs)"

text \<open>The trigger \<open>legacy_event_insert\<close>: no event may name a managed conversation's message.\<close>

definition managed_message :: "db \<Rightarrow> string option \<Rightarrow> bool" where
  "managed_message db m = (m \<noteq> None \<and>
     list_ex (\<lambda>r. Some (mr_id r) = m \<and> mr_conversation r \<noteq> None) (messages db))"

definition appendEvent ::
  "env \<Rightarrow> string \<Rightarrow> string \<Rightarrow> string \<Rightarrow> string \<Rightarrow> string \<Rightarrow> payload option \<Rightarrow> db \<Rightarrow> error + db" where
  "appendEvent env part stream kind messageID actorID payload db =
    (let position = counter db part stream;
         db1 = db\<lparr>counters := bump_counter part stream (counters db)\<rparr> in
     bindE (newID env ''evt'' db1) (\<lambda>(eventID, db2).
     bindE (requireE (eventID \<notin> ev_id ` set (events db2)) (SqlConstraint ''events.event_id'')) (\<lambda>_.
     bindE (requireE ((part, stream, position) \<notin>
         (\<lambda>e. (ev_partition e, ev_stream e, ev_position e)) ` set (events db2))
       (SqlConstraint ''events'')) (\<lambda>_.
     bindE (requireE (\<not> managed_message db2 (nullif messageID))
       (SqlConstraint ''managed message in legacy event'')) (\<lambda>_.
     Inr (db2\<lparr>events := events db2 @ [\<lparr>ev_id = eventID, ev_partition = part,
       ev_stream = stream, ev_position = position, ev_kind = kind,
       ev_message_id = nullif messageID, ev_actor_id = nullif actorID,
       ev_payload = payload, ev_created_at = e_now env\<rparr>]\<rparr>))))))"

text \<open>Appending an event changes the log, its counter and the id count, and nothing else.\<close>

lemma appendEvent_shape:
  assumes "appendEvent env p s k m a pl db = Inr db'"
  shows "\<exists>ev. db' = db\<lparr>counters := bump_counter p s (counters db),
      db_ids := Suc (db_ids db), events := events db @ [ev]\<rparr> \<and>
    ev_partition ev = p \<and> ev_stream ev = s \<and> ev_position ev = counter db p s \<and>
    ev_kind ev = k \<and> ev_message_id ev = nullif m \<and> ev_actor_id ev = nullif a \<and>
    ev_payload ev = pl \<and> ev_created_at ev = e_now env \<and>
    ev_id ev \<notin> ev_id ` set (events db)"
  using assms by (auto simp: appendEvent_def Let_def ok_iff)

lemma appendEvent_frame [frame]:
  assumes "appendEvent env p s k m a pl db = Inr db'"
  shows "messages db' = messages db" "deliveries db' = deliveries db" "outbox db' = outbox db"
    "registrations db' = registrations db" "adoptions db' = adoptions db" "aliases db' = aliases db"
    "alias_history db' = alias_history db" "alias_claims db' = alias_claims db"
    "actor_names db' = actor_names db" "conditions db' = conditions db" "lifecycle db' = lifecycle db"
    "harness_bindings db' = harness_bindings db" "host_bindings db' = host_bindings db"
    "allocations db' = allocations db" "continuity db' = continuity db" "profiles db' = profiles db"
    "grants db' = grants db" "attention_clients db' = attention_clients db"
  using appendEvent_shape [OF assms] by auto

subsection \<open>Positions are dense\<close>

definition positions :: "db \<Rightarrow> string \<Rightarrow> string \<Rightarrow> int list" where
  "positions db p s = map ev_position (filter (\<lambda>e. ev_partition e = p \<and> ev_stream e = s) (events db))"

definition events_ok :: "db \<Rightarrow> bool" where
  "events_ok db \<longleftrightarrow> distinct (map ev_id (events db)) \<and>
    (\<forall>p s. 1 \<le> counter db p s \<and> positions db p s = map int [1 ..< nat (counter db p s)])"

interpretation bump: keyed_update counter_key "\<lambda>c. c\<lparr>pc_next := pc_next c + 1\<rparr>"
  by unfold_locales simp

lemma row_by_bump:
  "row_by counter_key k (bump_counter p s cs) =
    (if k = (p, s) then Some \<lparr>pc_partition = p, pc_stream = s,
        pc_next = (case row_by counter_key k cs of None \<Rightarrow> 1 | Some c \<Rightarrow> pc_next c) + 1\<rparr>
     else row_by counter_key k cs)"
  unfolding bump_counter_def
  by (auto simp: bump.row_by_update row_by_append split: option.splits dest!: row_by_SomeD)

lemma appendEvent_events_ok:
  assumes "appendEvent env p s k m a pl db = Inr db'" and "events_ok db"
  shows "events_ok db'"
proof -
  obtain ev where db': "db' = db\<lparr>counters := bump_counter p s (counters db),
      db_ids := Suc (db_ids db), events := events db @ [ev]\<rparr>"
    and ev: "ev_partition ev = p" "ev_stream ev = s" "ev_position ev = counter db p s"
      "ev_id ev \<notin> ev_id ` set (events db)"
    using appendEvent_shape [OF assms(1)] by blast
  have c: "counter db' q t = (if (q, t) = (p, s) then counter db p s + 1 else counter db q t)" for q t
    using db' by (simp add: counter_def row_by_bump split: option.splits)
  have q: "positions db' q t = positions db q t @ (if (q, t) = (p, s) then [counter db p s] else [])" for q t
    using db' ev by (auto simp: positions_def)
  have "positions db' q t = map int [1 ..< nat (counter db' q t)] \<and> 1 \<le> counter db' q t" for q t
  proof (cases "(q, t) = (p, s)")
    case True
    have ge: "1 \<le> counter db p s" and eq: "positions db p s = map int [1 ..< nat (counter db p s)]"
      using assms(2) by (auto simp: events_ok_def)
    have "nat (counter db p s + 1) = Suc (nat (counter db p s))" using ge by simp
    then show ?thesis using True ge eq by (simp add: c q)
  next
    case False
    then show ?thesis using assms(2) by (auto simp: c q events_ok_def)
  qed
  moreover have "distinct (map ev_id (events db'))"
    using assms(2) db' ev(4) by (simp add: events_ok_def)
  ultimately show ?thesis by (simp add: events_ok_def)
qed

lemma events_ok_cong:
  "events db' = events db \<Longrightarrow> counters db' = counters db \<Longrightarrow> events_ok db \<Longrightarrow> events_ok db'"
  by (simp add: events_ok_def counter_def positions_def)

text \<open>
  In a well-formed log an append can fail for three reasons only: no identifier, an
  identifier that is taken, and a message that belongs to a managed conversation.
\<close>

lemma events_ok_position_free:
  assumes "events_ok db"
  shows "(p, s, counter db p s) \<notin> (\<lambda>e. (ev_partition e, ev_stream e, ev_position e)) ` set (events db)"
proof
  assume "(p, s, counter db p s) \<in> (\<lambda>e. (ev_partition e, ev_stream e, ev_position e)) ` set (events db)"
  then have "counter db p s \<in> set (positions db p s)" by (auto simp: positions_def)
  moreover have "positions db p s = map int [1 ..< nat (counter db p s)]" "1 \<le> counter db p s"
    using assms by (auto simp: events_ok_def)
  ultimately show False by auto
qed

lemma appendEvent_succeeds:
  assumes "events_ok db" and "e_gen env ''evt'' (db_ids db) = Some i" and "i \<notin> ev_id ` set (events db)"
    and "\<not> managed_message db (nullif m)"
  shows "\<exists>db'. appendEvent env p s k m a pl db = Inr db'"
proof -
  have "managed_message (db\<lparr>counters := x, db_ids := y\<rparr>) v = managed_message db v" for x y v
    by (simp add: managed_message_def)
  then show ?thesis
    using assms events_ok_position_free [OF assms(1), of p s]
    by (simp add: appendEvent_def Let_def newID_def)
qed

text \<open>Updates of the other tables leave the log alone.\<close>

lemma events_ok_update [simp]:
  "events_ok (db\<lparr>messages := x0\<rparr>) = events_ok db"
  "events_ok (db\<lparr>deliveries := x1\<rparr>) = events_ok db"
  "events_ok (db\<lparr>outbox := x2\<rparr>) = events_ok db"
  "events_ok (db\<lparr>registrations := x3\<rparr>) = events_ok db"
  "events_ok (db\<lparr>harness_bindings := x4\<rparr>) = events_ok db"
  "events_ok (db\<lparr>host_bindings := x5\<rparr>) = events_ok db"
  "events_ok (db\<lparr>adoptions := x6\<rparr>) = events_ok db"
  "events_ok (db\<lparr>aliases := x7\<rparr>) = events_ok db"
  "events_ok (db\<lparr>alias_history := x8\<rparr>) = events_ok db"
  "events_ok (db\<lparr>alias_claims := x9\<rparr>) = events_ok db"
  "events_ok (db\<lparr>profiles := x10\<rparr>) = events_ok db"
  "events_ok (db\<lparr>allocations := x11\<rparr>) = events_ok db"
  "events_ok (db\<lparr>actor_names := x12\<rparr>) = events_ok db"
  "events_ok (db\<lparr>continuity := x13\<rparr>) = events_ok db"
  "events_ok (db\<lparr>conditions := x14\<rparr>) = events_ok db"
  "events_ok (db\<lparr>lifecycle := x15\<rparr>) = events_ok db"
  "events_ok (db\<lparr>grants := x16\<rparr>) = events_ok db"
  "events_ok (db\<lparr>attention_clients := x17\<rparr>) = events_ok db"
  "events_ok (db\<lparr>db_ids := x18\<rparr>) = events_ok db"
  by (simp_all add: events_ok_def counter_def positions_def)

subsection \<open>Reading the log\<close>

definition event_visible :: "db \<Rightarrow> string \<Rightarrow> event_row \<Rightarrow> bool" where
  "event_visible db actor e =
    (actor = ''operator''
     \<or> (case ev_message_id e of
          Some mid \<Rightarrow> list_ex (\<lambda>m. mr_id m = mid \<and>
            (mr_from_actor m = actor \<or>
             list_ex (\<lambda>d. dl_message_id d = mr_id m \<and> dl_recipient d = actor) (deliveries db)))
            (legacy_messages db)
        | None \<Rightarrow> ev_actor_id e = Some actor))"

definition ListEvents :: "env \<Rightarrow> string \<Rightarrow> string \<Rightarrow> int \<Rightarrow> int \<Rightarrow> db \<Rightarrow> error + event_row list" where
  "ListEvents env part stream after limit db =
    (let part = trim part; stream = trim stream;
         limit = (if limit \<le> 0 \<or> limit > 1000 then 100 else limit);
         actor = ca_actor (e_caller env) in
     bindE (requireE (part \<noteq> [] \<and> stream \<noteq> [])
       (ValidationError ''event_cursor'' ''partition and stream are required'')) (\<lambda>_.
     bindE (requireE (actor \<noteq> []) ErrChannelDenied) (\<lambda>_.
     Inr (take (nat limit) (sort_key ev_position
       (filter (\<lambda>e. ev_partition e = part \<and> ev_stream e = stream \<and> ev_position e > after \<and>
          event_visible db actor e) (events db)))))))"

section \<open>Reading messages\<close>

definition recipients_of :: "db \<Rightarrow> string \<Rightarrow> string list" where
  "recipients_of db mid = sort (map dl_recipient (filter (\<lambda>d. dl_message_id d = mid) (deliveries db)))"

text \<open>
  Decoding a string array into \<open>[]Route\<close> reports a type error after it has grown the slice
  by one zero route for each string; the fallback then fills the recipients but leaves those
  zero routes in place.
\<close>

definition decoded_routes :: "requested_blob \<Rightarrow> route list" where
  "decoded_routes b = (case b of RequestedNull \<Rightarrow> [] | RequestedTyped rs \<Rightarrow> rs
     | RequestedLegacy vs \<Rightarrow> map (\<lambda>_. Route (RouteOther []) []) vs)"

definition decoded_to_actors :: "requested_blob \<Rightarrow> string list" where
  "decoded_to_actors b = (case b of RequestedNull \<Rightarrow> [] | RequestedTyped rs \<Rightarrow> map rt_value rs
     | RequestedLegacy vs \<Rightarrow> vs)"

definition message_of_row :: "db \<Rightarrow> message_row \<Rightarrow> message" where
  "message_of_row db m = \<lparr>
     msg_id = mr_id m, msg_schema_version = mr_schema_version m,
     msg_idempotency_key = mr_idempotency_key m, msg_project_id = mr_project_id m,
     msg_channel_id = mr_channel_id m, msg_thread_id = coalesce (mr_thread_id m),
     msg_from_actor = mr_from_actor m, msg_from_run = mr_from_run m,
     msg_from_role = coalesce (mr_from_role m), msg_to_actors = recipients_of db (mr_id m),
     msg_requested_routes = decoded_routes (mr_requested m), msg_type = mr_type m,
     msg_delivery_request = mr_delivery_request m, msg_in_reply_to = coalesce (mr_in_reply_to m),
     msg_body = mr_body m, msg_created_at = mr_created_at m, msg_expires_at = mr_expires_at m,
     msg_requested_to_actors = decoded_to_actors (mr_requested m)\<rparr>"

definition getMessageByID :: "db \<Rightarrow> string \<Rightarrow> error + message" where
  "getMessageByID db mid = (case row_by mr_id mid (legacy_messages db) of
     None \<Rightarrow> Inl ErrNotFound | Some m \<Rightarrow> Inr (message_of_row db m))"

definition getMessageByIdempotency :: "db \<Rightarrow> string \<Rightarrow> string \<Rightarrow> error + message" where
  "getMessageByIdempotency db actor key =
    (case row_by (\<lambda>m. (mr_from_actor m, mr_idempotency_key m)) (actor, key) (messages db) of
       None \<Rightarrow> Inl ErrNotFound
     | Some m \<Rightarrow> if mr_conversation m \<noteq> None then Inl ErrIdempotencyConflict
         else getMessageByID db (mr_id m))"

lemma getMessageByID_Inr_iff [ok_iff]:
  "getMessageByID db mid = Inr msg \<longleftrightarrow>
    (\<exists>m. row_by mr_id mid (legacy_messages db) = Some m \<and> msg = message_of_row db m)"
  by (auto simp: getMessageByID_def split: option.splits)

lemma msg_id_message_of_row [simp]: "msg_id (message_of_row db m) = mr_id m"
  by (simp add: message_of_row_def)

lemma msg_project_message_of_row [simp]: "msg_project_id (message_of_row db m) = mr_project_id m"
  by (simp add: message_of_row_def)

lemma legacy_messages_cong [simp]:
  "legacy_messages (db\<lparr>deliveries := x\<rparr>) = legacy_messages db"
  "legacy_messages (db\<lparr>outbox := o'\<rparr>) = legacy_messages db"
  "legacy_messages (db\<lparr>db_ids := n\<rparr>) = legacy_messages db"
  "legacy_messages (db\<lparr>events := es\<rparr>) = legacy_messages db"
  "legacy_messages (db\<lparr>counters := cs\<rparr>) = legacy_messages db"
  by (simp_all add: legacy_messages_def)

section \<open>Frames\<close>

text \<open>An operation on mail leaves every table about actors alone.\<close>

definition same_actors :: "db \<Rightarrow> db \<Rightarrow> bool" where
  "same_actors db db' \<longleftrightarrow>
    registrations db' = registrations db \<and> harness_bindings db' = harness_bindings db \<and>
    host_bindings db' = host_bindings db \<and> adoptions db' = adoptions db \<and>
    aliases db' = aliases db \<and> alias_history db' = alias_history db \<and>
    alias_claims db' = alias_claims db \<and> profiles db' = profiles db \<and>
    allocations db' = allocations db \<and> continuity db' = continuity db \<and>
    lifecycle db' = lifecycle db \<and> grants db' = grants db \<and>
    attention_clients db' = attention_clients db \<and> conditions db' = conditions db"

lemma same_actors_refl [simp]: "same_actors db db"
  by (simp add: same_actors_def)

lemma same_actors_trans: "same_actors a b \<Longrightarrow> same_actors b c \<Longrightarrow> same_actors a c"
  by (simp add: same_actors_def)

lemma same_actors_adoptions: "same_actors db db' \<Longrightarrow> adoptions db' = adoptions db"
  by (simp add: same_actors_def)

text \<open>An operation on actors leaves the mail alone.\<close>

definition same_mail :: "db \<Rightarrow> db \<Rightarrow> bool" where
  "same_mail db db' \<longleftrightarrow> messages db' = messages db \<and> deliveries db' = deliveries db \<and> outbox db' = outbox db"

lemma same_mail_refl [simp]: "same_mail db db"
  by (simp add: same_mail_def)

lemma same_mail_trans: "same_mail a b \<Longrightarrow> same_mail b c \<Longrightarrow> same_mail a c"
  by (simp add: same_mail_def)

lemma appendEvent_same:
  assumes "appendEvent env p s k m a pl db = Inr db'"
  shows "same_actors db db'" "same_mail db db'" "actor_names db' = actor_names db"
  using appendEvent_frame [OF assms] by (simp_all add: same_actors_def same_mail_def)

section \<open>Keys of the message and delivery tables\<close>

definition messages_ok :: "db \<Rightarrow> bool" where
  "messages_ok db \<longleftrightarrow> distinct (map mr_id (messages db)) \<and>
    distinct (map (\<lambda>m. (mr_from_actor m, mr_idempotency_key m)) (messages db))"

text \<open>
  Every delivery belongs to a legacy message (foreign key and triggers), has its own key,
  and holds a token exactly while it is claimed.
\<close>

definition delivery_shape :: "delivery_row \<Rightarrow> bool" where
  "delivery_shape d \<longleftrightarrow>
    (dl_state d = Claimed \<longleftrightarrow> dl_lease_token d \<noteq> None) \<and>
    (dl_state d = Claimed \<longleftrightarrow> dl_lease_expires d \<noteq> None) \<and>
    (dl_state d = Claimed \<longrightarrow> dl_claimed_at d \<noteq> None) \<and>
    (dl_state d \<in> {Acked, DeadLettered} \<longrightarrow> dl_terminal_token d \<noteq> None) \<and>
    dl_state d \<noteq> Revoked \<and> 0 \<le> dl_attempt d"

definition deliveries_ok :: "db \<Rightarrow> bool" where
  "deliveries_ok db \<longleftrightarrow> distinct (map delivery_key (deliveries db)) \<and>
    (\<forall>d\<in>set (deliveries db). delivery_shape d \<and> dl_message_id d \<in> mr_id ` set (legacy_messages db))"

definition outbox_ok :: "db \<Rightarrow> bool" where
  "outbox_ok db \<longleftrightarrow> distinct (map outbox_key (outbox db))"

lemma legacy_not_managed:
  assumes "messages_ok db" and "m \<in> set (legacy_messages db)"
  shows "\<not> managed_message db (nullif (mr_id m))"
proof
  assume "managed_message db (nullif (mr_id m))"
  then obtain r where r: "r \<in> set (messages db)" "mr_id r = mr_id m" "mr_conversation r \<noteq> None"
    by (auto simp: managed_message_def nullif_def list_ex_iff split: if_splits)
  have m: "m \<in> set (messages db)" "mr_conversation m = None"
    using assms(2) by (auto simp: legacy_messages_def)
  have "inj_on mr_id (set (messages db))" using assms(1) by (simp add: messages_ok_def distinct_map)
  then have "r = m" using r(1,2) m(1) by (blast dest: inj_onD)
  then show False using r(3) m(2) by simp
qed

lemma legacy_row_by_unique:
  assumes "messages_ok db" and "m \<in> set (legacy_messages db)"
  shows "row_by mr_id (mr_id m) (legacy_messages db) = Some m"
proof -
  have "distinct (map mr_id (legacy_messages db))"
    using assms(1) by (auto simp: messages_ok_def legacy_messages_def intro: distinct_map_filter)
  then show ?thesis using assms(2) by (rule row_by_unique)
qed

end
