(* ===== verification/Delivery.thy ===== *)
theory Delivery
  imports StoreState
begin

text \<open>
  The delivery state machine of \<open>store.go\<close>, \<open>delivery_transition.go\<close> and
  \<open>lifecycle.go\<close>: \<open>Claim\<close>, \<open>Ack\<close>, \<open>Nack\<close>, \<open>Extend\<close>, \<open>CheckInbox\<close> and
  \<open>RevokeDeliveryLease\<close>. A delivery is queued, claimed under a lease, and ends acked or
  dead-lettered. An actor sees the deliveries addressed to it and those of the actors whose
  inbox it adopted, one per message: its own row when there is one.
\<close>

section \<open>Presence, adoption, and the candidate query\<close>

definition second :: int where
  "second = 1000000000"

definition hour :: int where
  "hour = 3600 * second"

definition live_registration :: "int \<Rightarrow> registration_row \<Rightarrow> bool" where
  "live_registration now r \<longleftrightarrow> rg_ended_at r = None \<and> rg_superseded_at r = None \<and> now < rg_lease_expires r"

definition actorHasLivePresence :: "db \<Rightarrow> string \<Rightarrow> int \<Rightarrow> bool" where
  "actorHasLivePresence db actor now =
    list_ex (\<lambda>r. rg_actor r = actor \<and> live_registration now r) (registrations db)"

definition actorRunHasLivePresence :: "db \<Rightarrow> string \<Rightarrow> string \<Rightarrow> int \<Rightarrow> bool" where
  "actorRunHasLivePresence db actor run now =
    list_ex (\<lambda>r. rg_actor r = actor \<and> rg_run_id r = run \<and> live_registration now r) (registrations db)"

text \<open>\<open>LEFT JOIN actor_adoptions a ON a.source_actor = d.recipient_actor\<close>.\<close>

definition adopter :: "db \<Rightarrow> string \<Rightarrow> string option" where
  "adopter db a = map_option ad_adopting (row_by ad_source a (adoptions db))"

definition assertActorNotAdopted :: "db \<Rightarrow> string \<Rightarrow> error + unit" where
  "assertActorNotAdopted db a = requireE (adopter db a = None) ErrActorAdopted"

definition candidate :: "db \<Rightarrow> string \<Rightarrow> delivery_row \<Rightarrow> bool" where
  "candidate db actor d \<longleftrightarrow>
    dl_recipient d = actor \<and> adopter db (dl_recipient d) = None \<or>
    adopter db (dl_recipient d) = Some actor"

definition pref_key :: "db \<Rightarrow> string \<Rightarrow> delivery_row \<Rightarrow> nat \<times> string" where
  "pref_key db actor d =
    (if dl_recipient d = actor \<and> adopter db (dl_recipient d) = None then 0 else 1, dl_recipient d)"

text \<open>\<open>preference = 1\<close> of the ROW\_NUMBER partition by message.\<close>

definition preferred :: "db \<Rightarrow> string \<Rightarrow> delivery_row \<Rightarrow> bool" where
  "preferred db actor d \<longleftrightarrow> candidate db actor d \<and>
    list_all (\<lambda>d'. candidate db actor d' \<and> dl_message_id d' = dl_message_id d \<longrightarrow>
      pref_key db actor d \<le> pref_key db actor d') (deliveries db)"

definition claimable :: "int \<Rightarrow> delivery_row \<Rightarrow> bool" where
  "claimable now d \<longleftrightarrow> dl_state d = Queued \<or> dl_state d = Claimed \<and> sql_le (dl_lease_expires d) now"

definition unexpired :: "int \<Rightarrow> message_row \<Rightarrow> bool" where
  "unexpired now m \<longleftrightarrow> (case mr_expires_at m of None \<Rightarrow> True | Some e \<Rightarrow> now < e)"

definition age_key :: "message_row \<times> delivery_row \<Rightarrow> int \<times> string" where
  "age_key md = (mr_created_at (fst md), mr_id (fst md))"

definition inbox_join :: "db \<Rightarrow> string \<Rightarrow> (message_row \<times> delivery_row) list" where
  "inbox_join db actor =
    filter (\<lambda>(m, d). mr_id m = dl_message_id d)
      (List.product (legacy_messages db) (filter (preferred db actor) (deliveries db)))"

definition claim_rows :: "db \<Rightarrow> string \<Rightarrow> string \<Rightarrow> int \<Rightarrow> (message_row \<times> delivery_row) list" where
  "claim_rows db actor mid now =
    sort_key age_key (filter (\<lambda>(m, d). claimable now d \<and> unexpired now m \<and> (mid = [] \<or> mr_id m = mid))
      (inbox_join db actor))"

definition effectiveDeliveryRecipient :: "db \<Rightarrow> string \<Rightarrow> string \<Rightarrow> error + string" where
  "effectiveDeliveryRecipient db actor mid =
    (case sort_key (pref_key db actor)
        (filter (\<lambda>d. dl_message_id d = mid \<and> candidate db actor d) (deliveries db)) of
       [] \<Rightarrow> Inl ErrNotFound | d # _ \<Rightarrow> Inr (dl_recipient d))"

definition adoptionProvenance :: "string \<Rightarrow> string \<Rightarrow> string" where
  "adoptionProvenance actor original = (if actor = original then [] else original)"

section \<open>Claim\<close>

definition claim_row :: "string \<Rightarrow> int \<Rightarrow> int \<Rightarrow> delivery_row \<Rightarrow> delivery_row" where
  "claim_row token expires now d = d\<lparr>dl_state := Claimed, dl_attempt := dl_attempt d + 1,
     dl_lease_token := Some token, dl_lease_expires := Some expires,
     dl_claimed_at := Some now, dl_acked_at := None\<rparr>"

definition close_notification :: "string \<Rightarrow> string \<Rightarrow> int \<Rightarrow> outbox_row list \<Rightarrow> outbox_row list" where
  "close_notification mid actor now =
    update_where (\<lambda>n. ob_message_id n = mid \<and> ob_recipient n = actor \<and> ob_state n \<noteq> Done)
      (\<lambda>n. n\<lparr>ob_state := Done, ob_available_at := now\<rparr>)"

definition provenance_of :: "string \<Rightarrow> string \<Rightarrow> payload \<Rightarrow> payload" where
  "provenance_of actor original p =
    (if original \<noteq> actor then pput ''original_recipient_actor'' (PStr original) p else p)"

definition valid_lease :: "int \<Rightarrow> bool" where
  "valid_lease lease \<longleftrightarrow> 0 < lease \<and> lease \<le> 24 * hour"

definition Claim :: "env \<Rightarrow> string \<Rightarrow> string \<Rightarrow> int \<Rightarrow> db \<Rightarrow> error + (claim \<times> db)" where
  "Claim env actor0 messageID lease db =
    (let actor = trim actor0; now = e_now env in
     bindE (requireE (actor \<noteq> []) (ValidationError ''actor'' ''is required'')) (\<lambda>_.
     bindE (requireE (valid_lease lease) (ValidationError ''lease'' ''must be between 0 and 24h'')) (\<lambda>_.
     case claim_rows db actor (trim messageID) now of
       [] \<Rightarrow> Inl ErrNoMessage
     | (m, d) # _ \<Rightarrow>
       (let mid = mr_id m; original = dl_recipient d;
            p = (\<lambda>r. delivery_key r = (mid, original) \<and> claimable now r);
            expires = now + lease in
        bindE (newID env ''lease'' db) (\<lambda>(token, db1).
        let db2 = db1\<lparr>deliveries := update_where p (claim_row token expires now) (deliveries db1)\<rparr> in
        bindE (requireE (affected p (deliveries db1) = 1) ErrNoMessage) (\<lambda>_.
        bindE (getMessageByID db2 mid) (\<lambda>message.
        case row_by delivery_key (mid, original) (deliveries db2) of
          None \<Rightarrow> Inl (InternalError ''read claim attempt'')
        | Some row \<Rightarrow>
          let payload = provenance_of actor original
            (pput ''attempt'' (PInt (dl_attempt row)) (EventProvenance (e_caller env) [])) in
          bindE (appendEvent env (msg_project_id message) ''operational'' ''delivery.claimed''
            (msg_id message) actor (Some payload) db2) (\<lambda>db3.
          Inr (\<lparr>cl_message = message, cl_recipient_actor = actor,
                cl_original_recipient = adoptionProvenance actor original,
                cl_attempt = dl_attempt row, cl_lease_token = token, cl_lease_expires_at = expires\<rparr>,
              db3\<lparr>outbox := close_notification (msg_id message) actor now (outbox db3)\<rparr>))))))))) "

section \<open>Ack, Nack and Extend\<close>

definition finishDeliveryState ::
  "delivery_state \<Rightarrow> string option \<Rightarrow> string option \<Rightarrow> string \<Rightarrow> bool \<Rightarrow> bool \<Rightarrow> error + bool" where
  "finishDeliveryState state stored terminal token ack final =
    (if state = Acked \<and> ack \<and> terminal = Some token then Inr True
     else if state = DeadLettered \<and> final \<and> \<not> ack \<and> terminal = Some token then Inr True
     else if terminal = Some token \<and> state = Queued then Inl ErrDeliveryTerminal
     else if state = Acked \<or> state = DeadLettered then Inl ErrDeliveryTerminal
     else if state \<noteq> Claimed \<or> stored \<noteq> Some token then Inl ErrLeaseTokenMismatch
     else Inr False)"

definition finish_next :: "bool \<Rightarrow> bool \<Rightarrow> delivery_state" where
  "finish_next ack final = (if ack then Acked else if final then DeadLettered else Queued)"

definition finish_kind :: "bool \<Rightarrow> bool \<Rightarrow> string" where
  "finish_kind ack final = (if ack then ''delivery.acked''
     else if final then ''delivery.dead_lettered'' else ''delivery.nacked'')"

definition finish_row :: "string \<Rightarrow> bool \<Rightarrow> bool \<Rightarrow> string \<Rightarrow> int \<Rightarrow> delivery_row \<Rightarrow> delivery_row" where
  "finish_row token ack final reason now d = d\<lparr>dl_state := finish_next ack final,
     dl_lease_token := None, dl_lease_expires := None,
     dl_terminal_token := (if ack \<or> final then Some token else None),
     dl_acked_at := (if ack then Some now else None), dl_last_error := nullif reason\<rparr>"

definition finish ::
  "env \<Rightarrow> string \<Rightarrow> string \<Rightarrow> string \<Rightarrow> bool \<Rightarrow> bool \<Rightarrow> string \<Rightarrow> db \<Rightarrow> error + db" where
  "finish env actor0 messageID leaseToken ack final reason db =
    (let actor = trim actor0; mid = trim messageID; token = trim leaseToken; now = e_now env in
     bindE (requireE (actor \<noteq> [] \<and> mid \<noteq> [] \<and> token \<noteq> [])
       (ValidationError ''delivery'' ''actor, message_id, and lease_token are required'')) (\<lambda>_.
     bindE (effectiveDeliveryRecipient db actor mid) (\<lambda>original.
     case row_by delivery_key (mid, original) (deliveries db) of
       None \<Rightarrow> Inl ErrNotFound
     | Some d \<Rightarrow>
       bindE (finishDeliveryState (dl_state d) (dl_lease_token d) (dl_terminal_token d) token ack final)
         (\<lambda>isdone. if isdone then Inr db else
       bindE (getMessageByID db mid) (\<lambda>message.
       let db1 = db\<lparr>deliveries := update_where (\<lambda>r. delivery_key r = (mid, original))
             (finish_row token ack final reason now) (deliveries db)\<rparr>;
           payload0 = EventProvenance (e_caller env) [];
           payload1 = (if reason \<noteq> [] then pput ''reason'' (PStr reason) payload0 else payload0) in
       appendEvent env (msg_project_id message) ''operational'' (finish_kind ack final)
         mid actor (Some (provenance_of actor original payload1)) db1)))))"

definition Ack :: "env \<Rightarrow> string \<Rightarrow> string \<Rightarrow> string \<Rightarrow> db \<Rightarrow> error + db" where
  "Ack env actor messageID leaseToken db = finish env actor messageID leaseToken True False [] db"

definition Nack :: "env \<Rightarrow> string \<Rightarrow> string \<Rightarrow> string \<Rightarrow> string \<Rightarrow> bool \<Rightarrow> db \<Rightarrow> error + db" where
  "Nack env actor messageID leaseToken reason final db =
    finish env actor messageID leaseToken False final reason db"

definition Extend ::
  "env \<Rightarrow> string \<Rightarrow> string \<Rightarrow> string \<Rightarrow> int \<Rightarrow> db \<Rightarrow> error + (lease_extension \<times> db)" where
  "Extend env actor0 messageID leaseToken lease db =
    (let actor = trim actor0; mid = trim messageID; token = trim leaseToken; now = e_now env;
         expires = now + lease in
     bindE (requireE (actor \<noteq> [] \<and> mid \<noteq> [] \<and> token \<noteq> [])
       (ValidationError ''delivery'' ''actor, message_id, and lease_token are required'')) (\<lambda>_.
     bindE (requireE (valid_lease lease) (ValidationError ''lease'' ''must be between 0 and 24h'')) (\<lambda>_.
     bindE (effectiveDeliveryRecipient db actor mid) (\<lambda>original.
     case row_by delivery_key (mid, original) (deliveries db) of
       None \<Rightarrow> Inl ErrNotFound
     | Some d \<Rightarrow>
       bindE (requireE (dl_state d = Claimed \<and> dl_lease_token d = Some token) ErrLeaseTokenMismatch) (\<lambda>_.
       bindE (requireE (sql_gt (dl_lease_expires d) now) ErrLeaseExpired) (\<lambda>_.
       let db1 = db\<lparr>deliveries := update_where
             (\<lambda>r. delivery_key r = (mid, original) \<and> dl_state r = Claimed \<and> dl_lease_token r = Some token)
             (\<lambda>r. r\<lparr>dl_lease_expires := Some expires\<rparr>) (deliveries db)\<rparr> in
       bindE (getMessageByID db1 mid) (\<lambda>message.
       let payload = provenance_of actor original
           (pput ''lease_expires_at'' (PInt expires) (EventProvenance (e_caller env) [])) in
       bindE (appendEvent env (msg_project_id message) ''operational'' ''delivery.extended''
         mid actor (Some payload) db1) (\<lambda>db2.
       Inr (\<lparr>le_message_id = mid, le_recipient_actor = actor, le_lease_expires_at = expires\<rparr>, db2)))))))))"

section \<open>CheckInbox\<close>

definition inbox_limit :: "int \<Rightarrow> nat" where
  "inbox_limit limit = (if limit \<le> 0 \<or> limit > 100 then 100 else nat limit)"

definition inbox_rows :: "db \<Rightarrow> string \<Rightarrow> int \<Rightarrow> (message_row \<times> delivery_row) list" where
  "inbox_rows db actor now =
    sort_key age_key (filter (\<lambda>(m, d). dl_state d \<in> {Queued, Claimed} \<and> unexpired now m)
      (inbox_join db actor))"

definition inbox_item_of :: "string \<Rightarrow> int \<Rightarrow> message_row \<times> delivery_row \<Rightarrow> inbox_item" where
  "inbox_item_of actor now = (\<lambda>(m, d). \<lparr>
     ii_message_id = mr_id m, ii_project_id = mr_project_id m, ii_channel_id = mr_channel_id m,
     ii_thread_id = coalesce (mr_thread_id m), ii_from_actor = mr_from_actor m,
     ii_from_role = coalesce (mr_from_role m), ii_type = mr_type m,
     ii_delivery_request = mr_delivery_request m, ii_state = dl_state d, ii_attempt = dl_attempt d,
     ii_available = (dl_state d = Queued \<or> dl_state d = Claimed \<and> sql_le (dl_lease_expires d) now),
     ii_created_at = mr_created_at m, ii_expires_at = mr_expires_at m, ii_recipient_actor = actor,
     ii_original_recipient = (if dl_recipient d = actor then [] else dl_recipient d)\<rparr>)"

definition CheckInbox :: "env \<Rightarrow> string \<Rightarrow> int \<Rightarrow> db \<Rightarrow> error + inbox_item list" where
  "CheckInbox env actor0 limit db =
    (let actor = trim actor0 in
     bindE (requireE (actor \<noteq> []) (ValidationError ''actor'' ''is required'')) (\<lambda>_.
     Inr (map (inbox_item_of actor (e_now env)) (take (inbox_limit limit) (inbox_rows db actor (e_now env))))))"

section \<open>RevokeDeliveryLease\<close>

definition revoke_row :: "delivery_row \<Rightarrow> delivery_row" where
  "revoke_row d = d\<lparr>dl_state := Queued, dl_terminal_token := dl_lease_token d, dl_lease_token := None,
     dl_lease_expires := None, dl_claimed_at := None,
     dl_last_error := Some ''operator revoked lease after crash grace''\<rparr>"

definition upsert_pending :: "string \<Rightarrow> string \<Rightarrow> int \<Rightarrow> outbox_row list \<Rightarrow> outbox_row list" where
  "upsert_pending mid actor now rows =
    (if row_by outbox_key (mid, actor) rows = None
     then rows @ [\<lparr>ob_message_id = mid, ob_recipient = actor, ob_state = Pending, ob_attempt = 0,
       ob_available_at = now, ob_last_error = None, ob_created_at = now, ob_source = LegacySource\<rparr>]
     else update_where (\<lambda>n. outbox_key n = (mid, actor))
       (\<lambda>n. n\<lparr>ob_state := Pending, ob_available_at := now, ob_last_error := None\<rparr>) rows)"

definition RevokeDeliveryLease :: "env \<Rightarrow> string \<Rightarrow> string \<Rightarrow> int \<Rightarrow> db \<Rightarrow> error + db" where
  "RevokeDeliveryLease env actor messageID crashGrace db =
    (let now = e_now env in
     bindE (requireE (0 < crashGrace) (ValidationError ''crash_grace'' ''must be positive'')) (\<lambda>_.
     bindE (requireE (\<not> actorHasLivePresence db actor now) ErrActorLive) (\<lambda>_.
     case row_by delivery_key (messageID, actor)
       (filter (\<lambda>d. dl_state d = Claimed \<and> sql_gt (dl_lease_expires d) now) (deliveries db)) of
       None \<Rightarrow> Inl ErrNotFound
     | Some d \<Rightarrow>
       (case (dl_lease_token d, dl_claimed_at d) of
          (Some _, Some claimed) \<Rightarrow>
            bindE (requireE (\<not> claimed + crashGrace > now)
              (ValidationError ''crash_grace'' ''has not elapsed since the claim'')) (\<lambda>_.
            let wanted = list_ex (\<lambda>m. mr_id m = messageID \<and> mr_delivery_request m \<noteq> NonBlocking)
                  (legacy_messages db) in
            Inr (db\<lparr>deliveries := update_where (\<lambda>r. delivery_key r = (messageID, actor)) revoke_row (deliveries db),
                   outbox := (if wanted then upsert_pending messageID actor now (outbox db) else outbox db)\<rparr>))
        | _ \<Rightarrow> Inl (InternalError ''converting NULL'')))))"

section \<open>What a successful operation did\<close>

interpretation claim_upd: keyed_update delivery_key "claim_row token expires now"
  by unfold_locales (simp add: claim_row_def)

interpretation finish_upd: keyed_update delivery_key "finish_row token ack final reason now"
  by unfold_locales (simp add: finish_row_def)

interpretation extend_upd: keyed_update delivery_key "\<lambda>r. r\<lparr>dl_lease_expires := e\<rparr>"
  by unfold_locales simp

interpretation revoke_upd: keyed_update delivery_key revoke_row
  by unfold_locales (simp add: revoke_row_def)

lemma map_recipient_update:
  assumes "\<And>r. delivery_key (f r) = delivery_key r"
  shows "map dl_recipient (filter (\<lambda>d. dl_message_id d = mid) (update_where p f rows)) =
    map dl_recipient (filter (\<lambda>d. dl_message_id d = mid) rows)"
  using assms by (induction rows) auto

lemma recipients_of_update:
  assumes "\<And>r. delivery_key (f r) = delivery_key r"
  shows "recipients_of (db\<lparr>deliveries := update_where p f (deliveries db)\<rparr>) mid = recipients_of db mid"
  using map_recipient_update [OF assms] by (simp add: recipients_of_def)

lemma in_inbox_join:
  "(m, d) \<in> set (inbox_join db actor) \<longleftrightarrow>
    m \<in> set (legacy_messages db) \<and> d \<in> set (deliveries db) \<and> preferred db actor d \<and>
    mr_id m = dl_message_id d"
  by (auto simp: inbox_join_def)

lemma in_claim_rows:
  "(m, d) \<in> set (claim_rows db actor mid now) \<longleftrightarrow>
    m \<in> set (legacy_messages db) \<and> d \<in> set (deliveries db) \<and> preferred db actor d \<and>
    mr_id m = dl_message_id d \<and> claimable now d \<and> unexpired now m \<and> (mid = [] \<or> mr_id m = mid)"
  by (auto simp: claim_rows_def in_inbox_join)

lemma ClaimD:
  assumes "Claim env a mid lease db = Inr (c, db')"
  obtains m d rest token ev where
    "trim a \<noteq> []" "valid_lease lease"
    "claim_rows db (trim a) (trim mid) (e_now env) = (m, d) # rest"
    "e_gen env ''lease'' (db_ids db) = Some token"
    "affected (\<lambda>r. delivery_key r = (mr_id m, dl_recipient d) \<and> claimable (e_now env) r) (deliveries db) = 1"
    "deliveries db' = update_where (\<lambda>r. delivery_key r = (mr_id m, dl_recipient d) \<and> claimable (e_now env) r)
       (claim_row token (e_now env + lease) (e_now env)) (deliveries db)"
    "messages db' = messages db"
    "outbox db' = close_notification (mr_id m) (trim a) (e_now env) (outbox db)"
    "events db' = events db @ [ev]" "ev_kind ev = ''delivery.claimed''" "ev_message_id ev = nullif (mr_id m)"
    "same_actors db db'" "actor_names db' = actor_names db" "events_ok db \<Longrightarrow> events_ok db'"
    "msg_id (cl_message c) = mr_id m" "getMessageByID db (mr_id m) = Inr (cl_message c)"
    "cl_recipient_actor c = trim a"
    "cl_original_recipient c = adoptionProvenance (trim a) (dl_recipient d)"
    "cl_lease_token c = token" "cl_lease_expires_at c = e_now env + lease"
proof -
  let ?now = "e_now env"
  obtain m d rest where rows: "claim_rows db (trim a) (trim mid) ?now = (m, d) # rest"
    using assms by (cases "claim_rows db (trim a) (trim mid) ?now")
      (auto simp: Claim_def Let_def bindE_Inr_iff split: prod.splits)
  let ?p = "\<lambda>r. delivery_key r = (mr_id m, dl_recipient d) \<and> claimable ?now r"
  obtain token msg db3 and row :: delivery_row where ok: "trim a \<noteq> []" "valid_lease lease"
      "e_gen env ''lease'' (db_ids db) = Some token" "affected ?p (deliveries db) = 1"
    and msg: "getMessageByID (db\<lparr>db_ids := Suc (db_ids db), deliveries := update_where ?p
        (claim_row token (?now + lease) ?now) (deliveries db)\<rparr>) (mr_id m) = Inr msg"
    and ev: "appendEvent env (msg_project_id msg) ''operational'' ''delivery.claimed'' (msg_id msg) (trim a)
        (Some (provenance_of (trim a) (dl_recipient d)
          (pput ''attempt'' (PInt (dl_attempt row)) (EventProvenance (e_caller env) []))))
        (db\<lparr>db_ids := Suc (db_ids db), deliveries := update_where ?p
          (claim_row token (?now + lease) ?now) (deliveries db)\<rparr>) = Inr db3"
    and c: "c = \<lparr>cl_message = msg, cl_recipient_actor = trim a,
        cl_original_recipient = adoptionProvenance (trim a) (dl_recipient d),
        cl_attempt = dl_attempt row, cl_lease_token = token, cl_lease_expires_at = ?now + lease\<rparr>"
    and db': "db' = db3\<lparr>outbox := close_notification (msg_id msg) (trim a) ?now (outbox db3)\<rparr>"
    using assms rows
    by (auto simp: Claim_def Let_def bindE_Inr_iff requireE_Inr_iff newID_Inr_iff
        split: option.splits prod.splits)
  have id: "msg_id msg = mr_id m"
    using msg by (auto simp: getMessageByID_Inr_iff dest!: row_by_SomeD)
  have msg': "getMessageByID db (mr_id m) = Inr msg"
    using msg recipients_of_update [where db = db and p = ?p, OF claim_upd.key_upd [of token "?now + lease" ?now]]
    by (auto simp: getMessageByID_Inr_iff message_of_row_def recipients_of_def)
  note fr = appendEvent_frame [OF ev] appendEvent_shape [OF ev]
  have "events_ok db'" if "events_ok db"
    using appendEvent_events_ok [OF ev] that db' by simp
  moreover obtain e where "events db3 = events db @ [e]" "ev_kind e = ''delivery.claimed''"
      "ev_message_id e = nullif (mr_id m)"
    using appendEvent_shape [OF ev] id by auto
  moreover have "same_actors db db'"
    using appendEvent_same(1) [OF ev] db' by (simp add: same_actors_def)
  ultimately show thesis
    using that [of m d rest token e] rows ok db' c fr id msg' by simp
qed


lemma effective_keys:
  assumes "map delivery_key ds = map delivery_key ds'"
  shows "map dl_recipient (sort_key (pref_key db actor) (filter (\<lambda>d. dl_message_id d = mid \<and> candidate db actor d) ds)) =
    map dl_recipient (sort_key (pref_key db actor) (filter (\<lambda>d. dl_message_id d = mid \<and> candidate db actor d) ds'))"
proof -
  let ?c = "\<lambda>r. r = actor \<and> adopter db r = None \<or> adopter db r = Some actor"
  let ?k = "\<lambda>r. (if r = actor \<and> adopter db r = None then 0::nat else 1, r)"
  have ins: "map dl_recipient (insort_key (pref_key db actor) d xs) = insort_key ?k (dl_recipient d) (map dl_recipient xs)"
    for d xs by (induction xs) (auto simp: pref_key_def)
  have srt: "map dl_recipient (sort_key (pref_key db actor) xs) = sort_key ?k (map dl_recipient xs)" for xs
    by (induction xs) (simp_all add: ins)
  have flt: "map dl_recipient (filter (\<lambda>d. dl_message_id d = mid \<and> candidate db actor d) xs) =
      map snd (filter (\<lambda>k. fst k = mid \<and> ?c (snd k)) (map delivery_key xs))" for xs :: "delivery_row list"
    by (induction xs) (auto simp: candidate_def)
  show ?thesis by (simp only: srt flt assms)
qed

lemma effectiveDeliveryRecipient_cong:
  assumes "map delivery_key (deliveries db') = map delivery_key (deliveries db)" and "adoptions db' = adoptions db"
  shows "effectiveDeliveryRecipient db' actor mid = effectiveDeliveryRecipient db actor mid"
proof -
  have "candidate db' = candidate db" "pref_key db' = pref_key db"
    using assms(2) by (auto simp: candidate_def pref_key_def adopter_def fun_eq_iff)
  then show ?thesis
    using effective_keys [OF assms(1), of db actor mid]
    by (auto simp: effectiveDeliveryRecipient_def split: list.splits)
qed

lemma effectiveDeliveryRecipient_InrD:
  assumes "effectiveDeliveryRecipient db actor mid = Inr r"
  shows "(mid, r) \<in> delivery_key ` set (deliveries db)"
    "r = actor \<and> adopter db r = None \<or> adopter db r = Some actor"
proof -
  obtain d ds where *: "sort_key (pref_key db actor)
      (filter (\<lambda>d. dl_message_id d = mid \<and> candidate db actor d) (deliveries db)) = d # ds"
    and r: "r = dl_recipient d"
    using assms by (auto simp: effectiveDeliveryRecipient_def split: list.splits)
  have "d \<in> set (deliveries db) \<and> dl_message_id d = mid \<and> candidate db actor d"
    using sort_key_Cons_in [OF *] by simp
  then show "(mid, r) \<in> delivery_key ` set (deliveries db)"
    "r = actor \<and> adopter db r = None \<or> adopter db r = Some actor"
    by (auto simp: r candidate_def image_iff)
qed

lemma finishD:
  assumes "finish env a mid tok ack final reason db = Inr db'"
  obtains original d where
    "trim a \<noteq> []" "trim mid \<noteq> []" "trim tok \<noteq> []"
    "effectiveDeliveryRecipient db (trim a) (trim mid) = Inr original"
    "row_by delivery_key (trim mid, original) (deliveries db) = Some d"
    "db' = db \<and> finishDeliveryState (dl_state d) (dl_lease_token d) (dl_terminal_token d) (trim tok) ack final = Inr True
     \<or> finishDeliveryState (dl_state d) (dl_lease_token d) (dl_terminal_token d) (trim tok) ack final = Inr False \<and>
       deliveries db' = update_where (\<lambda>r. delivery_key r = (trim mid, original))
         (finish_row (trim tok) ack final reason (e_now env)) (deliveries db) \<and>
       messages db' = messages db \<and> outbox db' = outbox db \<and> same_actors db db' \<and>
       actor_names db' = actor_names db \<and> (events_ok db \<longrightarrow> events_ok db') \<and>
       (\<exists>ev. events db' = events db @ [ev] \<and> ev_kind ev = finish_kind ack final \<and> ev_message_id ev = nullif (trim mid))"
proof -
  obtain original and d :: delivery_row and b where *: "trim a \<noteq> []" "trim mid \<noteq> []" "trim tok \<noteq> []"
    "effectiveDeliveryRecipient db (trim a) (trim mid) = Inr original"
    "row_by delivery_key (trim mid, original) (deliveries db) = Some d"
    "finishDeliveryState (dl_state d) (dl_lease_token d) (dl_terminal_token d) (trim tok) ack final = Inr b"
    and st: "if b then db' = db else \<exists>proj pl.
       appendEvent env proj ''operational'' (finish_kind ack final) (trim mid) (trim a) pl
         (db\<lparr>deliveries := update_where (\<lambda>r. delivery_key r = (trim mid, original))
         (finish_row (trim tok) ack final reason (e_now env)) (deliveries db)\<rparr>) = Inr db'"
    using assms
    by (fastforce simp: finish_def Let_def bindE_Inr_iff requireE_Inr_iff split: option.splits if_splits)
  show thesis
  proof (cases b)
    case True then show thesis using that * st by simp
  next
    case False
    then obtain proj pl where ev: "appendEvent env proj ''operational'' (finish_kind ack final) (trim mid) (trim a) pl
         (db\<lparr>deliveries := update_where (\<lambda>r. delivery_key r = (trim mid, original))
         (finish_row (trim tok) ack final reason (e_now env)) (deliveries db)\<rparr>) = Inr db'"
      using st by auto
    have "same_actors db db'" using appendEvent_same(1) [OF ev] by (simp add: same_actors_def)
    then show thesis
      using that [of original d] * False appendEvent_frame [OF ev] appendEvent_shape [OF ev]
        appendEvent_events_ok [OF ev] by auto
  qed
qed

lemma ExtendD:
  assumes "Extend env a mid tok lease db = Inr (x, db')"
  obtains original d where
    "trim a \<noteq> []" "trim mid \<noteq> []" "trim tok \<noteq> []" "valid_lease lease"
    "effectiveDeliveryRecipient db (trim a) (trim mid) = Inr original"
    "row_by delivery_key (trim mid, original) (deliveries db) = Some d"
    "dl_state d = Claimed" "dl_lease_token d = Some (trim tok)" "sql_gt (dl_lease_expires d) (e_now env)"
    "deliveries db' = update_where
       (\<lambda>r. delivery_key r = (trim mid, original) \<and> dl_state r = Claimed \<and> dl_lease_token r = Some (trim tok))
       (\<lambda>r. r\<lparr>dl_lease_expires := Some (e_now env + lease)\<rparr>) (deliveries db)"
    "messages db' = messages db" "outbox db' = outbox db" "same_actors db db'"
    "actor_names db' = actor_names db" "events_ok db \<Longrightarrow> events_ok db'"
    "le_lease_expires_at x = e_now env + lease"
proof -
  obtain original and d :: delivery_row and proj pl where *: "trim a \<noteq> []" "trim mid \<noteq> []" "trim tok \<noteq> []"
    "valid_lease lease" "effectiveDeliveryRecipient db (trim a) (trim mid) = Inr original"
    "row_by delivery_key (trim mid, original) (deliveries db) = Some d"
    "dl_state d = Claimed" "dl_lease_token d = Some (trim tok)" "sql_gt (dl_lease_expires d) (e_now env)"
    and ev: "appendEvent env proj ''operational'' ''delivery.extended'' (trim mid) (trim a) pl
      (db\<lparr>deliveries := update_where
       (\<lambda>r. delivery_key r = (trim mid, original) \<and> dl_state r = Claimed \<and> dl_lease_token r = Some (trim tok))
       (\<lambda>r. r\<lparr>dl_lease_expires := Some (e_now env + lease)\<rparr>) (deliveries db)\<rparr>) = Inr db'"
    and x: "le_lease_expires_at x = e_now env + lease"
    using assms
    by (fastforce simp: Extend_def Let_def bindE_Inr_iff requireE_Inr_iff split: option.splits)
  have "same_actors db db'" using appendEvent_same(1) [OF ev] by (simp add: same_actors_def)
  then show thesis
    using that [of original d] * x appendEvent_frame [OF ev] appendEvent_events_ok [OF ev] by auto
qed

lemma RevokeD:
  assumes "RevokeDeliveryLease env a mid grace db = Inr db'"
  obtains d tok claimed where
    "0 < grace" "\<not> actorHasLivePresence db a (e_now env)"
    "row_by delivery_key (mid, a)
       (filter (\<lambda>d. dl_state d = Claimed \<and> sql_gt (dl_lease_expires d) (e_now env)) (deliveries db)) = Some d"
    "dl_lease_token d = Some tok" "dl_claimed_at d = Some claimed" "claimed + grace \<le> e_now env"
    "deliveries db' = update_where (\<lambda>r. delivery_key r = (mid, a)) revoke_row (deliveries db)"
    "messages db' = messages db" "same_actors db db'" "actor_names db' = actor_names db"
    "events db' = events db" "events_ok db' = events_ok db"
    "outbox db' = (if list_ex (\<lambda>m. mr_id m = mid \<and> mr_delivery_request m \<noteq> NonBlocking) (legacy_messages db)
       then upsert_pending mid a (e_now env) (outbox db) else outbox db)"
proof -
  obtain d :: delivery_row and tok claimed where *:
    "0 < grace" "\<not> actorHasLivePresence db a (e_now env)"
    "row_by delivery_key (mid, a)
       (filter (\<lambda>d. dl_state d = Claimed \<and> sql_gt (dl_lease_expires d) (e_now env)) (deliveries db)) = Some d"
    "dl_lease_token d = Some tok" "dl_claimed_at d = Some claimed" "\<not> claimed + grace > e_now env"
    and db': "db' = db\<lparr>deliveries := update_where (\<lambda>r. delivery_key r = (mid, a)) revoke_row (deliveries db),
       outbox := (if list_ex (\<lambda>m. mr_id m = mid \<and> mr_delivery_request m \<noteq> NonBlocking) (legacy_messages db)
         then upsert_pending mid a (e_now env) (outbox db) else outbox db)\<rparr>"
    using assms
    by (auto simp: RevokeDeliveryLease_def Let_def bindE_Inr_iff requireE_Inr_iff split: option.splits)
  show thesis using that [of d tok claimed] * by (simp add: db' same_actors_def)
qed

section \<open>The abstract state machine of one delivery\<close>

text \<open>
  The transitions a delivery row may make, whatever actor, adoption or message is
  involved. Every operation changes the delivery table row by row along these steps.
\<close>

inductive row_step :: "int \<Rightarrow> delivery_row \<Rightarrow> delivery_row \<Rightarrow> bool" for now where
  stay: "row_step now d d"
| claim: "claimable now d \<Longrightarrow> now < e \<Longrightarrow> row_step now d (claim_row token e now d)"
| finish: "dl_state d = Claimed \<Longrightarrow> dl_lease_token d = Some token \<Longrightarrow>
    row_step now d (finish_row token ack final reason now d)"
| extend: "dl_state d = Claimed \<Longrightarrow> sql_gt (dl_lease_expires d) now \<Longrightarrow> now < e \<Longrightarrow>
    row_step now d (d\<lparr>dl_lease_expires := Some e\<rparr>)"
| revoke: "dl_state d = Claimed \<Longrightarrow> sql_gt (dl_lease_expires d) now \<Longrightarrow> dl_lease_token d = Some token \<Longrightarrow>
    row_step now d (revoke_row d)"

definition table_step :: "int \<Rightarrow> delivery_row list \<Rightarrow> delivery_row list \<Rightarrow> bool" where
  "table_step now ds ds' \<longleftrightarrow> list_all2 (row_step now) ds ds'"

lemma table_step_update:
  assumes "\<And>r. r \<in> set ds \<Longrightarrow> p r \<Longrightarrow> row_step now r (f r)"
  shows "table_step now ds (update_where p f ds)"
  using assms unfolding table_step_def by (induction ds) (auto intro: stay)

lemma table_step_refl: "table_step now ds ds"
  unfolding table_step_def by (simp add: list.rel_refl stay)

lemma row_step_key: "row_step now d d' \<Longrightarrow> delivery_key d' = delivery_key d"
  by (induction rule: row_step.induct) (simp_all add: claim_row_def finish_row_def revoke_row_def)

lemma row_step_shape: "row_step now d d' \<Longrightarrow> delivery_shape d \<Longrightarrow> delivery_shape d'"
  by (induction rule: row_step.induct)
    (auto simp: claim_row_def finish_row_def revoke_row_def delivery_shape_def finish_next_def)

lemma row_step_attempt: "row_step now d d' \<Longrightarrow> dl_attempt d \<le> dl_attempt d'"
  by (induction rule: row_step.induct) (simp_all add: claim_row_def finish_row_def revoke_row_def)

lemma row_step_terminal: "row_step now d d' \<Longrightarrow> dl_state d \<in> {Acked, DeadLettered, Revoked} \<Longrightarrow> d' = d"
  by (induction rule: row_step.induct) (auto simp: claimable_def)

text \<open>A row under an unexpired lease keeps its token, or the step presented it (or was an operator's revocation).\<close>

lemma row_step_leased:
  assumes "row_step now d d'" and "dl_state d = Claimed" and "dl_lease_token d = Some t" and "sql_gt (dl_lease_expires d) now"
  shows "dl_state d' = Claimed \<and> dl_lease_token d' = Some t \<and> dl_attempt d' = dl_attempt d
    \<or> dl_terminal_token d' = Some t \<and> dl_lease_token d' = None \<or> d' = finish_row t False False (coalesce (dl_last_error d')) now d"
  using assms
  by (induction rule: row_step.induct)
    (auto simp: claimable_def finish_row_def revoke_row_def finish_next_def dest: sql_le_gt_exclusive)

lemma table_step_keys: "table_step now ds ds' \<Longrightarrow> map delivery_key ds' = map delivery_key ds"
  unfolding table_step_def by (induction rule: list_all2_induct) (auto dest: row_step_key)

lemma table_step_rowD:
  assumes "table_step now ds ds'" and "row_by delivery_key k ds = Some d"
  shows "\<exists>d'. row_by delivery_key k ds' = Some d' \<and> row_step now d d'"
  using assms unfolding table_step_def
  by (induction rule: list_all2_induct) (auto dest: row_step_key split: if_splits)

lemma table_step_in: "table_step now ds ds' \<Longrightarrow> d' \<in> set ds' \<Longrightarrow> \<exists>d\<in>set ds. row_step now d d'"
  unfolding table_step_def by (metis list_all2_conv_all_nth in_set_conv_nth)

end
