(* ===== verification/Samples.thy ===== *)
theory Samples
  imports StoreState
begin

text \<open>
  A small store the witnesses evaluate operations on: two messages of bob's, one addressed
  to alice and carol and one to alice, a deterministic id generator, and a clock reading.
\<close>

definition sample_gen :: "string \<Rightarrow> nat \<Rightarrow> string option" where
  "sample_gen pfx n = Some (pfx @ ''_'' @ dec n)"

definition sample_env :: "int \<Rightarrow> env" where
  "sample_env t = \<lparr>e_now = t, e_gen = sample_gen,
     e_caller = WithCaller \<lparr>ca_actor = ''alice'', ca_run_id = ''run1'', ca_client = ''cli'',
       ca_build_id = [], ca_daemon_build_id = []\<rparr>\<rparr>"

definition sample_message :: "string \<Rightarrow> string \<Rightarrow> int \<Rightarrow> message_row" where
  "sample_message i k t = \<lparr>mr_id = i, mr_schema_version = 1, mr_idempotency_key = k,
     mr_project_id = ''p'', mr_channel_id = ''c'', mr_thread_id = None, mr_from_actor = ''bob'',
     mr_from_run = ''run2'', mr_from_role = None, mr_type = ''note'', mr_delivery_request = Wake,
     mr_in_reply_to = None, mr_body = ''{}'', mr_created_at = t, mr_expires_at = None,
     mr_requested = RequestedTyped [Route RouteActor ''alice''], mr_conversation = None, mr_channel_seq = None\<rparr>"

definition sample_delivery :: "string \<Rightarrow> string \<Rightarrow> delivery_row" where
  "sample_delivery m r = \<lparr>dl_message_id = m, dl_recipient = r, dl_state = Queued, dl_attempt = 0,
     dl_lease_token = None, dl_terminal_token = None, dl_lease_expires = None, dl_claimed_at = None,
     dl_acked_at = None, dl_last_error = None\<rparr>"

definition sample_db :: db where
  "sample_db = empty_db\<lparr>
     messages := [sample_message ''m1'' ''k1'' 10, sample_message ''m2'' ''k2'' 20],
     deliveries := [sample_delivery ''m1'' ''alice'', sample_delivery ''m1'' ''carol'',
       sample_delivery ''m2'' ''alice'']\<rparr>"

lemma sample_db_ok: "deliveries_ok sample_db" "messages_ok sample_db" "events_ok sample_db"
proof -
  show "deliveries_ok sample_db" by code_simp
  show "messages_ok sample_db" by code_simp
  show "events_ok sample_db"
    by (simp add: events_ok_def counter_def positions_def sample_db_def empty_db_def)
qed

end
