(* ===== verification/DeliveryProps.thy ===== *)
theory DeliveryProps
  imports Delivery Samples
begin

text \<open>
  What the delivery operations guarantee: each refines the abstract state machine of one
  row, keeps the store's invariant on deliveries, and its exact result on every input.
\<close>

section \<open>Refinement of the row state machine\<close>

lemma deliveries_ok_unique:
  "deliveries_ok db \<Longrightarrow> row_by delivery_key k (deliveries db) = Some d \<Longrightarrow>
    r \<in> set (deliveries db) \<Longrightarrow> delivery_key r = k \<Longrightarrow> r = d"
  unfolding deliveries_ok_def using row_by_unique [of delivery_key "deliveries db" r] by force

lemma finishDeliveryState_False:
  "finishDeliveryState st tk term tok ack final = Inr False \<Longrightarrow> st = Claimed \<and> tk = Some tok"
  by (auto simp: finishDeliveryState_def split: if_splits)

lemma Claim_step:
  assumes "Claim env a mid lease db = Inr (c, db')"
  shows "table_step (e_now env) (deliveries db) (deliveries db')"
  using assms by (rule ClaimD) (auto simp: valid_lease_def intro!: table_step_update row_step.claim)

lemma finish_step:
  assumes "finish env a mid tok ack final reason db = Inr db'" and "deliveries_ok db"
  shows "table_step (e_now env) (deliveries db) (deliveries db')"
  using assms(1)
proof (rule finishD)
  fix original d
  assume row: "row_by delivery_key (trim mid, original) (deliveries db) = Some d"
    and "db' = db \<and> finishDeliveryState (dl_state d) (dl_lease_token d) (dl_terminal_token d) (trim tok) ack final = Inr True
     \<or> finishDeliveryState (dl_state d) (dl_lease_token d) (dl_terminal_token d) (trim tok) ack final = Inr False \<and>
       deliveries db' = update_where (\<lambda>r. delivery_key r = (trim mid, original))
         (finish_row (trim tok) ack final reason (e_now env)) (deliveries db) \<and>
       messages db' = messages db \<and> outbox db' = outbox db \<and> same_actors db db' \<and>
       actor_names db' = actor_names db \<and> (events_ok db \<longrightarrow> events_ok db') \<and>
       (\<exists>ev. events db' = events db @ [ev] \<and> ev_kind ev = finish_kind ack final \<and> ev_message_id ev = nullif (trim mid))"
  then show ?thesis
    using deliveries_ok_unique [OF assms(2) row]
    by (auto simp: table_step_refl dest!: finishDeliveryState_False intro!: table_step_update row_step.finish)
qed

lemma Extend_step:
  assumes "Extend env a mid tok lease db = Inr (x, db')" and "deliveries_ok db"
  shows "table_step (e_now env) (deliveries db) (deliveries db')"
  using assms(1)
proof (rule ExtendD)
  fix original d
  assume row: "row_by delivery_key (trim mid, original) (deliveries db) = Some d"
    and "valid_lease lease" "sql_gt (dl_lease_expires d) (e_now env)"
      "deliveries db' = update_where
       (\<lambda>r. delivery_key r = (trim mid, original) \<and> dl_state r = Claimed \<and> dl_lease_token r = Some (trim tok))
       (\<lambda>r. r\<lparr>dl_lease_expires := Some (e_now env + lease)\<rparr>) (deliveries db)"
  then show ?thesis
    using deliveries_ok_unique [OF assms(2) row]
    by (auto simp: valid_lease_def intro!: table_step_update row_step.extend)
qed

lemma Revoke_step:
  assumes "RevokeDeliveryLease env a mid grace db = Inr db'" and "deliveries_ok db"
  shows "table_step (e_now env) (deliveries db) (deliveries db')"
  using assms(1)
proof (rule RevokeD)
  fix d tok
  let ?f = "filter (\<lambda>d. dl_state d = Claimed \<and> sql_gt (dl_lease_expires d) (e_now env)) (deliveries db)"
  assume row: "row_by delivery_key (mid, a) ?f = Some d" and tok: "dl_lease_token d = Some tok"
    and ds: "deliveries db' = update_where (\<lambda>r. delivery_key r = (mid, a)) revoke_row (deliveries db)"
  have d: "d \<in> set (deliveries db)" "dl_state d = Claimed" "sql_gt (dl_lease_expires d) (e_now env)"
    "delivery_key d = (mid, a)"
    using row_by_SomeD [OF row] by auto
  have "row_by delivery_key (delivery_key d) (deliveries db) = Some d"
    using assms(2) d(1) unfolding deliveries_ok_def by (blast intro: row_by_unique)
  from deliveries_ok_unique [OF assms(2) this] have "r = d" if "r \<in> set (deliveries db)" "delivery_key r = (mid, a)" for r
    using that d(4) by metis
  then show ?thesis
    unfolding ds using d tok by (intro table_step_update) (metis row_step.revoke)
qed

lemma deliveries_ok_table_step:
  assumes "deliveries_ok db" and "table_step now (deliveries db) (deliveries db')" and "messages db' = messages db"
  shows "deliveries_ok db'"
proof -
  have "legacy_messages db' = legacy_messages db" using assms(3) by (simp add: legacy_messages_def)
  moreover have "delivery_shape d' \<and> dl_message_id d' \<in> mr_id ` set (legacy_messages db)"
    if d': "d' \<in> set (deliveries db')" for d'
  proof -
    obtain d where d: "d \<in> set (deliveries db)" "row_step now d d'" using table_step_in [OF assms(2) d'] by blast
    then show ?thesis
      using assms(1) row_step_shape [OF d(2)] row_step_key [OF d(2)] by (auto simp: deliveries_ok_def)
  qed
  ultimately show ?thesis
    using assms(1) table_step_keys [OF assms(2)] by (simp add: deliveries_ok_def)
qed

lemma claim_step_messages: "Claim env a mid lease db = Inr (c, db') \<Longrightarrow> messages db' = messages db"
  by (erule ClaimD)

lemma finish_messages: "finish env a mid tok ack final reason db = Inr db' \<Longrightarrow> messages db' = messages db"
  by (erule finishD) auto

lemma Extend_messages: "Extend env a mid tok lease db = Inr (x, db') \<Longrightarrow> messages db' = messages db"
  by (erule ExtendD)

lemma Revoke_messages: "RevokeDeliveryLease env a mid grace db = Inr db' \<Longrightarrow> messages db' = messages db"
  by (erule RevokeD)

section \<open>Which rows an actor can claim\<close>

lemma preferred_effective:
  assumes "preferred db actor d" and "d \<in> set (deliveries db)"
  shows "effectiveDeliveryRecipient db actor (dl_message_id d) = Inr (dl_recipient d)"
proof -
  let ?xs = "filter (\<lambda>r. dl_message_id r = dl_message_id d \<and> candidate db actor r) (deliveries db)"
  have d: "d \<in> set ?xs" and min: "\<And>r. r \<in> set ?xs \<Longrightarrow> pref_key db actor d \<le> pref_key db actor r"
    using assms by (auto simp: preferred_def list_all_iff)
  then obtain y ys where y: "sort_key (pref_key db actor) ?xs = y # ys"
    by (metis empty_iff list.set(1) neq_Nil_conv set_sort)
  have "pref_key db actor y \<le> pref_key db actor d" using hd_sort_key_le [OF y d] .
  moreover have "pref_key db actor d \<le> pref_key db actor y"
    using sort_key_Cons_in [OF y] by (rule min)
  ultimately have "dl_recipient y = dl_recipient d" by (simp add: pref_key_def split: if_splits)
  then show ?thesis by (simp add: effectiveDeliveryRecipient_def y)
qed

lemma claim_rows_head:
  assumes "claim_rows db actor mid now = (m, d) # rest" and "(m', d') \<in> set (claim_rows db actor mid now)"
  shows "age_key (m, d) \<le> age_key (m', d')"
  using assms unfolding claim_rows_def
  by (metis (lifting) hd_sort_key_le set_sort)

lemma claim_rows_affected:
  assumes "deliveries_ok db" and "claim_rows db actor mid now = (m, d) # rest"
  shows "affected (\<lambda>r. delivery_key r = (mr_id m, dl_recipient d) \<and> claimable now r) (deliveries db) = 1"
proof -
  have "(m, d) \<in> set (claim_rows db actor mid now)" using assms(2) by simp
  then show ?thesis
    using assms(1) unfolding in_claim_rows deliveries_ok_def
    by (intro affected_unique [where key = delivery_key and r = d]) auto
qed

lemma appendEvent_not_ErrNoMessage: "appendEvent env p s k m a pl db \<noteq> Inl ErrNoMessage"
  by (auto simp: appendEvent_def Let_def bindE_Inl_iff requireE_Inl_iff newID_def split: option.splits)

text \<open>
  \<^bold>\<open>C23\<close> A claim reports that there is no message exactly when no delivery is due to the
  actor: none of those it receives (its own, or one it adopted, one per message) is queued
  or held under an expired lease for an unexpired message.
\<close>

theorem Claim_empty_iff:
  assumes "deliveries_ok db" and "messages_ok db"
  shows "Claim env a mid lease db = Inl ErrNoMessage \<longleftrightarrow>
    trim a \<noteq> [] \<and> valid_lease lease \<and>
    (\<forall>m\<in>set (legacy_messages db). \<forall>d\<in>set (deliveries db).
      mr_id m = dl_message_id d \<and> preferred db (trim a) d \<and> (trim mid = [] \<or> mr_id m = trim mid)
      \<longrightarrow> \<not> (claimable (e_now env) d \<and> unexpired (e_now env) m))" (is "?L \<longleftrightarrow> ?v \<and> ?w \<and> ?R")
proof -
  have R: "?R \<longleftrightarrow> claim_rows db (trim a) (trim mid) (e_now env) = []"
    using in_claim_rows [of _ _ db "trim a" "trim mid" "e_now env"]
    by (metis (no_types, lifting) empty_iff list.set(1) list.set_intros(1) neq_Nil_conv surj_pair)
  show ?thesis
  proof (cases "claim_rows db (trim a) (trim mid) (e_now env)")
    case Nil
    then show ?thesis
      using R by (auto simp: Claim_def Let_def bindE_Inl_iff requireE_Inl_iff requireE_Inr_iff)
  next
    case (Cons md rest)
    then obtain m d where rows: "claim_rows db (trim a) (trim mid) (e_now env) = (m, d) # rest"
      by (cases md) auto
    note one = claim_rows_affected [OF assms(1) rows]
    have "\<not> ?L"
      using rows one appendEvent_not_ErrNoMessage
      by (auto simp: Claim_def Let_def bindE_Inl_iff requireE_Inl_iff newID_def getMessageByID_def
          split: option.splits)
    then show ?thesis using R rows by simp
  qed
qed

text \<open>
  Mail is handed out oldest first: no due delivery is for an older message than the one
  the claim returns.
\<close>

theorem Claim_oldest:
  assumes "messages_ok db" and "Claim env a mid lease db = Inr (c, db')"
    and "m \<in> set (legacy_messages db)" and "d \<in> set (deliveries db)" and "mr_id m = dl_message_id d"
    and "preferred db (trim a) d" and "claimable (e_now env) d" and "unexpired (e_now env) m"
    and "trim mid = [] \<or> mr_id m = trim mid"
  shows "(msg_created_at (cl_message c), msg_id (cl_message c)) \<le> (mr_created_at m, mr_id m)"
  using assms(2)
proof (rule ClaimD)
  fix m0 d0 rest
  assume rows: "claim_rows db (trim a) (trim mid) (e_now env) = (m0, d0) # rest"
    and msg: "getMessageByID db (mr_id m0) = Inr (cl_message c)"
  have "m0 \<in> set (legacy_messages db)"
    using in_claim_rows [of m0 d0] rows by (metis list.set_intros(1))
  then have "cl_message c = message_of_row db m0"
    using msg legacy_row_by_unique [OF assms(1)] by (auto simp: getMessageByID_Inr_iff)
  moreover have "(m, d) \<in> set (claim_rows db (trim a) (trim mid) (e_now env))"
    using assms by (simp add: in_claim_rows)
  ultimately show ?thesis
    using claim_rows_head [OF rows] by (fastforce simp: age_key_def message_of_row_def)
qed

lemma preferred_cong:
  assumes "map delivery_key (deliveries db') = map delivery_key (deliveries db)" and "adoptions db' = adoptions db"
    and "delivery_key d' = delivery_key d"
  shows "preferred db' actor d' = preferred db actor d"
proof -
  have c: "candidate db' a r = candidate db a r'" "pref_key db' a r = pref_key db a r'"
    if "dl_recipient r = dl_recipient r'" for a r r'
    using assms(2) that by (auto simp: candidate_def pref_key_def adopter_def)
  let ?P = "\<lambda>k. (candidate db actor (d\<lparr>dl_recipient := snd k\<rparr>) \<and> fst k = dl_message_id d \<longrightarrow>
      pref_key db actor d \<le> pref_key db actor (d\<lparr>dl_recipient := snd k\<rparr>))"
  have all: "(\<forall>r\<in>set (deliveries x). candidate db actor r \<and> dl_message_id r = dl_message_id d \<longrightarrow>
      pref_key db actor d \<le> pref_key db actor r) \<longleftrightarrow> (\<forall>k\<in>set (map delivery_key (deliveries x)). ?P k)" for x
    by (auto simp: candidate_def pref_key_def)
  have "(\<forall>r\<in>set (deliveries db'). candidate db actor r \<and> dl_message_id r = dl_message_id d \<longrightarrow>
      pref_key db actor d \<le> pref_key db actor r) \<longleftrightarrow>
    (\<forall>r\<in>set (deliveries db). candidate db actor r \<and> dl_message_id r = dl_message_id d \<longrightarrow>
      pref_key db actor d \<le> pref_key db actor r)"
    by (simp only: all assms(1))
  then show ?thesis
    using assms(3) c(1) [of d' d] c(2) [of d' d] c(1) [OF refl] c(2) [OF refl]
    by (simp add: preferred_def list_all_iff)
qed

lemma Claim_deliveries:
  "Claim env a mid lease db = Inr (c, db') \<Longrightarrow> \<exists>k t. deliveries db' =
    update_where (\<lambda>r. delivery_key r = k \<and> claimable (e_now env) r)
      (claim_row t (e_now env + lease) (e_now env)) (deliveries db)"
  by (erule ClaimD) (rule exI, rule exI, assumption)

text \<open>The row a claim leased, before and after.\<close>

lemma Claim_row:
  assumes "deliveries_ok db" and "Claim env a mid lease db = Inr (c, db1)"
  obtains d where "d \<in> set (deliveries db)" "preferred db (trim a) d" "claimable (e_now env) d"
    "dl_message_id d = msg_id (cl_message c)" "valid_lease lease"
    "row_by delivery_key (delivery_key d) (deliveries db1) =
      Some (claim_row (cl_lease_token c) (cl_lease_expires_at c) (e_now env) d)"
    "effectiveDeliveryRecipient db1 (trim a) (msg_id (cl_message c)) = Inr (dl_recipient d)"
    "cl_lease_expires_at c = e_now env + lease" "same_actors db db1"
proof -
  obtain m :: message_row and d :: delivery_row and rest where
    rows: "claim_rows db (trim a) (trim mid) (e_now env) = (m, d) # rest"
    and ds: "deliveries db1 = update_where (\<lambda>r. delivery_key r = (mr_id m, dl_recipient d) \<and> claimable (e_now env) r)
       (claim_row (cl_lease_token c) (e_now env + lease) (e_now env)) (deliveries db)"
    and *: "same_actors db db1" "msg_id (cl_message c) = mr_id m" "cl_lease_expires_at c = e_now env + lease"
      "valid_lease lease"
    using assms(2) by (rule ClaimD) (rule that, assumption, simp_all)
  have d: "d \<in> set (deliveries db)" "preferred db (trim a) d" "mr_id m = dl_message_id d" "claimable (e_now env) d"
    using in_claim_rows [of m d] rows by (metis list.set_intros(1))+
  have "row_by delivery_key (delivery_key d) (deliveries db) = Some d"
    using assms(1) d(1) unfolding deliveries_ok_def by (blast intro: row_by_unique)
  then have row: "row_by delivery_key (delivery_key d) (deliveries db1) =
      Some (claim_row (cl_lease_token c) (e_now env + lease) (e_now env) d)"
    unfolding ds claim_upd.row_by_update using d by simp
  have "map delivery_key (deliveries db1) = map delivery_key (deliveries db)"
    unfolding ds by (rule claim_upd.map_key_update)
  then have "effectiveDeliveryRecipient db1 (trim a) (dl_message_id d) = Inr (dl_recipient d)"
    using effectiveDeliveryRecipient_cong [of db1 db] preferred_effective [OF d(2) d(1)] *(1)
    by (simp add: same_actors_adoptions)
  then show thesis using that [OF d(1,2,4)] d(3) * row by simp
qed

text \<open>
  \<^bold>\<open>C12\<close> Leases exclude each other. After a claim that ran at any moment, no claim by any
  actor made before the lease expires touches the leased delivery: its row, with the first
  claimant's token, stays as it is.
\<close>

theorem Claim_excludes:
  assumes "deliveries_ok db" and "Claim env a mid lease db = Inr (c, db1)"
    and "Claim env2 a2 mid2 lease2 db1 = Inr (c2, db2)" and "e_now env2 < cl_lease_expires_at c"
  shows "\<exists>r d. effectiveDeliveryRecipient db1 (trim a) (msg_id (cl_message c)) = Inr r \<and>
    row_by delivery_key (msg_id (cl_message c), r) (deliveries db1) = Some d \<and>
    dl_state d = Claimed \<and> dl_lease_token d = Some (cl_lease_token c) \<and>
    dl_lease_expires d = Some (cl_lease_expires_at c) \<and>
    row_by delivery_key (msg_id (cl_message c), r) (deliveries db2) = Some d"
proof -
  obtain d :: delivery_row where
    row: "row_by delivery_key (delivery_key d) (deliveries db1) =
      Some (claim_row (cl_lease_token c) (cl_lease_expires_at c) (e_now env) d)"
    and id: "dl_message_id d = msg_id (cl_message c)"
    and eff: "effectiveDeliveryRecipient db1 (trim a) (msg_id (cl_message c)) = Inr (dl_recipient d)"
    using assms(1,2) by (rule Claim_row) (rule that)
  let ?d = "claim_row (cl_lease_token c) (cl_lease_expires_at c) (e_now env) d"
  obtain k t where ds: "deliveries db2 = update_where (\<lambda>r. delivery_key r = k \<and> claimable (e_now env2) r)
       (claim_row t (e_now env2 + lease2) (e_now env2)) (deliveries db1)"
    using Claim_deliveries [OF assms(3)] by blast
  have "\<not> claimable (e_now env2) ?d"
    using assms(4) by (simp add: claimable_def claim_row_def)
  then have "row_by delivery_key (delivery_key d) (deliveries db2) = Some ?d"
    unfolding ds claim_upd.row_by_update row by simp
  then show ?thesis using row id eff by (auto simp: claim_row_def)
qed


text \<open>The exact outcome of \<open>Ack\<close> and \<open>Nack\<close> on a row that an actor resolves to.\<close>

lemma finish_result:
  assumes "trim a \<noteq> []" "trim mid \<noteq> []" "trim tok \<noteq> []"
    and "effectiveDeliveryRecipient db (trim a) (trim mid) = Inr r"
    and "row_by delivery_key (trim mid, r) (deliveries db) = Some d"
  shows "finishDeliveryState (dl_state d) (dl_lease_token d) (dl_terminal_token d) (trim tok) ack final = Inl e \<Longrightarrow>
      finish env a mid tok ack final reason db = Inl e"
    "finishDeliveryState (dl_state d) (dl_lease_token d) (dl_terminal_token d) (trim tok) ack final = Inr True \<Longrightarrow>
      finish env a mid tok ack final reason db = Inr db"
  using assms by (simp_all add: finish_def Let_def)


text \<open>
  Acknowledging is idempotent: repeating a successful \<open>Ack\<close>, at any later time,
  succeeds and changes nothing.
\<close>

theorem Ack_idempotent:
  assumes "deliveries_ok db" and "Ack env a mid tok db = Inr db1"
  shows "Ack env2 a mid tok db1 = Inr db1"
proof -
  obtain original and d :: delivery_row where *: "trim a \<noteq> []" "trim mid \<noteq> []" "trim tok \<noteq> []"
    "effectiveDeliveryRecipient db (trim a) (trim mid) = Inr original"
    "row_by delivery_key (trim mid, original) (deliveries db) = Some d"
    and cases: "db1 = db \<and> finishDeliveryState (dl_state d) (dl_lease_token d) (dl_terminal_token d) (trim tok) True False = Inr True
     \<or> deliveries db1 = update_where (\<lambda>r. delivery_key r = (trim mid, original))
         (finish_row (trim tok) True False [] (e_now env)) (deliveries db) \<and> same_actors db db1"
    using assms(2) unfolding Ack_def by (rule finishD) (rule that, assumption+, blast)
  from cases show ?thesis
  proof (elim disjE conjE)
    assume "db1 = db" "finishDeliveryState (dl_state d) (dl_lease_token d) (dl_terminal_token d) (trim tok) True False = Inr True"
    then show ?thesis using finish_result(2) [OF *] by (simp add: Ack_def)
  next
    assume ds: "deliveries db1 = update_where (\<lambda>r. delivery_key r = (trim mid, original))
         (finish_row (trim tok) True False [] (e_now env)) (deliveries db)" and "same_actors db db1"
    then have "effectiveDeliveryRecipient db1 (trim a) (trim mid) = Inr original"
      using effectiveDeliveryRecipient_cong [of db1 db] *(4)
      by (simp add: same_actors_adoptions finish_upd.map_key_update)
    moreover have "row_by delivery_key (trim mid, original) (deliveries db1) =
        Some (finish_row (trim tok) True False [] (e_now env) d)"
      using row_by_SomeD [OF *(5)] *(5) unfolding ds finish_upd.row_by_update by simp
    ultimately show ?thesis
      using *(1-3) unfolding Ack_def
      by (intro finish_result(2)) (auto simp: finish_row_def finish_next_def finishDeliveryState_def)
  qed
qed

lemma finish_succeeds:
  assumes "deliveries_ok db" and "messages_ok db" and "events_ok db"
    and "trim a \<noteq> []" "trim mid \<noteq> []" "trim tok \<noteq> []"
    and "effectiveDeliveryRecipient db (trim a) (trim mid) = Inr r"
    and "row_by delivery_key (trim mid, r) (deliveries db) = Some d"
    and "dl_state d = Claimed" and "dl_lease_token d = Some (trim tok)" and "dl_terminal_token d \<noteq> Some (trim tok)"
    and "e_gen env ''evt'' (db_ids db) = Some i" and "i \<notin> ev_id ` set (events db)"
  shows "\<exists>db'. finish env a mid tok ack final reason db = Inr db' \<and>
    row_by delivery_key (trim mid, r) (deliveries db') = Some (finish_row (trim tok) ack final reason (e_now env) d)"
proof -
  let ?db1 = "db\<lparr>deliveries := update_where (\<lambda>r'. delivery_key r' = (trim mid, r))
         (finish_row (trim tok) ack final reason (e_now env)) (deliveries db)\<rparr>"
  have "d \<in> set (deliveries db)" "dl_message_id d = trim mid" using row_by_SomeD [OF assms(8)] by auto
  then obtain m where m: "m \<in> set (legacy_messages db)" "mr_id m = trim mid"
    using assms(1) by (metis (no_types, lifting) deliveries_ok_def imageE)
  have nm: "\<not> managed_message ?db1 (nullif (trim mid))"
    using legacy_not_managed [OF assms(2) m(1)] m(2) by (simp add: managed_message_def)
  have get: "getMessageByID db (trim mid) = Inr (message_of_row db m)"
    using legacy_row_by_unique [OF assms(2) m(1)] m(2) by (simp add: getMessageByID_def)
  have app: "\<exists>db'. appendEvent env p s k (trim mid) a' pl ?db1 = Inr db'" for p s k a' pl
    by (rule appendEvent_succeeds [of ?db1 env i]) (use assms(3,12,13) nm in simp_all)
  obtain db' where ev: "appendEvent env (mr_project_id m) ''operational'' (finish_kind ack final) (trim mid) (trim a)
      (Some (provenance_of (trim a) r ((if reason \<noteq> [] then pput ''reason'' (PStr reason) else id)
        (EventProvenance (e_caller env) [])))) ?db1 = Inr db'"
    using app by blast
  have "finish env a mid tok ack final reason db = Inr db'"
    using assms(4-11) get ev by (auto simp: finish_def Let_def finishDeliveryState_def split: if_splits)
  moreover have "row_by delivery_key (trim mid, r) (deliveries db') =
      Some (finish_row (trim tok) ack final reason (e_now env) d)"
    using assms(8) row_by_SomeD [OF assms(8)] appendEvent_frame(2) [OF ev]
    by (simp add: finish_upd.row_by_update)
  ultimately show ?thesis by blast
qed

text \<open>
  The holder of a lease can finish the delivery: after a claim, its actor's \<open>Ack\<close> with
  the claim's token succeeds, however late, as long as the store has not changed in
  between, and the delivery ends acknowledged at that time.
\<close>

theorem Claim_then_Ack:
  assumes "deliveries_ok db" and "messages_ok db" and "events_ok db"
    and "Claim env a mid lease db = Inr (c, db1)"
    and "trim mid2 = msg_id (cl_message c)" and "trim mid2 \<noteq> []"
    and "trim tok = cl_lease_token c" and "trim tok \<noteq> []"
    and "\<forall>d\<in>set (deliveries db). dl_terminal_token d \<noteq> Some (cl_lease_token c)"
    and "e_gen env2 ''evt'' (db_ids db1) = Some i" and "i \<notin> ev_id ` set (events db1)"
  shows "\<exists>db2 r d. Ack env2 a mid2 tok db1 = Inr db2 \<and>
    row_by delivery_key (msg_id (cl_message c), r) (deliveries db2) = Some d \<and>
    dl_state d = Acked \<and> dl_acked_at d = Some (e_now env2) \<and> dl_lease_token d = None"
proof -
  obtain d :: delivery_row where d: "d \<in> set (deliveries db)" and
    row: "row_by delivery_key (delivery_key d) (deliveries db1) =
      Some (claim_row (cl_lease_token c) (cl_lease_expires_at c) (e_now env) d)"
    and id: "dl_message_id d = msg_id (cl_message c)"
    and eff: "effectiveDeliveryRecipient db1 (trim a) (msg_id (cl_message c)) = Inr (dl_recipient d)"
    using assms(1,4) by (rule Claim_row) (rule that)
  have "messages db1 = messages db" using assms(4) by (rule claim_step_messages)
  then have ok: "deliveries_ok db1" "messages_ok db1"
    using deliveries_ok_table_step [OF assms(1) Claim_step [OF assms(4)]] assms(2) by (simp_all add: messages_ok_def)
  have "events_ok db1" using assms(4) by (rule ClaimD) (use assms(3) in blast)
  note fin = finish_succeeds [OF ok this, of a mid2 tok "dl_recipient d"
      "claim_row (cl_lease_token c) (cl_lease_expires_at c) (e_now env) d" env2 i True False "[]"]
  have "trim a \<noteq> []" using assms(4) by (rule ClaimD)
  moreover have "dl_terminal_token d \<noteq> Some (cl_lease_token c)" using assms(9) d by blast
  ultimately obtain db2 where "Ack env2 a mid2 tok db1 = Inr db2"
    "row_by delivery_key (msg_id (cl_message c), dl_recipient d) (deliveries db2) =
      Some (finish_row (cl_lease_token c) True False [] (e_now env2)
        (claim_row (cl_lease_token c) (cl_lease_expires_at c) (e_now env) d))"
    using fin assms(5-8,10,11) row id eff unfolding Ack_def by (auto simp: claim_row_def)
  then show ?thesis by (intro exI conjI) (auto simp: finish_row_def finish_next_def)
qed

section \<open>CheckInbox\<close>

lemma in_inbox_rows:
  "(m, d) \<in> set (inbox_rows db actor now) \<longleftrightarrow>
    m \<in> set (legacy_messages db) \<and> d \<in> set (deliveries db) \<and> preferred db actor d \<and>
    mr_id m = dl_message_id d \<and> dl_state d \<in> {Queued, Claimed} \<and> unexpired now m"
  by (auto simp: inbox_rows_def in_inbox_join)

lemma preferred_same_message:
  assumes "deliveries_ok db" and "preferred db actor d" and "preferred db actor d'"
    and "d \<in> set (deliveries db)" and "d' \<in> set (deliveries db)" and "dl_message_id d = dl_message_id d'"
  shows "d = d'"
proof -
  have "dl_recipient d = dl_recipient d'"
    using preferred_effective [OF assms(2,4)] preferred_effective [OF assms(3,5)] assms(6) by simp
  then show ?thesis
    using assms(1,4-6) unfolding deliveries_ok_def by (auto simp: distinct_map dest: inj_onD)
qed

lemma distinct_inbox_ids:
  assumes "deliveries_ok db" and "messages_ok db"
  shows "distinct (map (\<lambda>md. mr_id (fst md)) (inbox_rows db actor now))"
proof -
  let ?ds = "filter (preferred db actor) (deliveries db)"
  have dm: "distinct (map mr_id (legacy_messages db))"
    using assms(2) by (auto simp: messages_ok_def legacy_messages_def intro: distinct_map_filter)
  have "distinct (deliveries db)" using assms(1) by (simp add: deliveries_ok_def distinct_map)
  then have dd: "distinct ?ds" by (rule distinct_filter)
  have "distinct (List.product (legacy_messages db) ?ds)"
    using dm dd by (intro distinct_product) (simp_all only: distinct_map)
  then have dj: "distinct (inbox_join db actor)" unfolding inbox_join_def by (rule distinct_filter)
  have "inj_on (\<lambda>md. mr_id (fst md)) (set (inbox_join db actor))"
  proof (rule inj_onI, clarify)
    fix m d m' d'
    assume a: "(m, d) \<in> set (inbox_join db actor)" "(m', d') \<in> set (inbox_join db actor)" "mr_id (fst (m, d)) = mr_id (fst (m', d'))"
    have "inj_on mr_id (set (legacy_messages db))" using dm by (simp add: distinct_map)
    then have "m = m'" using a by (simp add: in_inbox_join inj_on_def)
    moreover have "d = d'"
      using a preferred_same_message [OF assms(1)] by (auto simp: in_inbox_join)
    ultimately show "m = m' \<and> d = d'" by simp
  qed
  then have "distinct (map (\<lambda>md. mr_id (fst md)) (inbox_join db actor))" using dj by (simp add: distinct_map)
  then have "distinct (map (\<lambda>md. mr_id (fst md))
      (filter (\<lambda>(m, d). dl_state d \<in> {Queued, Claimed} \<and> unexpired now m) (inbox_join db actor)))"
    by (rule distinct_map_filter)
  then show ?thesis
    unfolding inbox_rows_def by (simp add: distinct_map)
qed

lemma inbox_item_key: "(ii_created_at (inbox_item_of a n md), ii_message_id (inbox_item_of a n md)) = age_key md"
  by (cases md) (simp add: inbox_item_of_def age_key_def)

text \<open>
  The inbox is complete and in order: without hitting its limit, \<open>CheckInbox\<close> lists the
  message of every queued or claimed delivery the actor receives that has not expired, each message
  once, oldest first, and nothing else.
\<close>

theorem CheckInbox_complete:
  assumes "deliveries_ok db" and "messages_ok db" and "CheckInbox env a limit db = Inr items"
    and "length items < inbox_limit limit"
  shows "sorted (map (\<lambda>i. (ii_created_at i, ii_message_id i)) items) \<and>
    distinct (map ii_message_id items) \<and>
    (\<forall>mid. mid \<in> ii_message_id ` set items \<longleftrightarrow>
      (\<exists>m\<in>set (legacy_messages db). \<exists>d\<in>set (deliveries db). mr_id m = mid \<and> dl_message_id d = mid \<and>
        preferred db (trim a) d \<and> dl_state d \<in> {Queued, Claimed} \<and> unexpired (e_now env) m))"
proof -
  let ?rows = "inbox_rows db (trim a) (e_now env)"
  let ?item = "inbox_item_of (trim a) (e_now env)"
  have "items = map ?item (take (inbox_limit limit) ?rows)"
    using assms(3) by (auto simp: CheckInbox_def Let_def bindE_Inr_iff requireE_Inr_iff)
  then have items: "items = map ?item ?rows" using assms(4) by auto
  have id: "ii_message_id (?item md) = mr_id (fst md)" for md
    by (cases md) (simp add: inbox_item_of_def)
  have "sorted (map age_key ?rows)" unfolding inbox_rows_def by (rule sorted_sort_key)
  then have "sorted (map (\<lambda>i. (ii_created_at i, ii_message_id i)) items)"
    by (simp add: items comp_def inbox_item_key)
  moreover have "distinct (map ii_message_id items)"
    using distinct_inbox_ids [OF assms(1,2)] by (simp add: items comp_def id)
  moreover have "mid \<in> ii_message_id ` set items \<longleftrightarrow> (\<exists>m d. (m, d) \<in> set ?rows \<and> mr_id m = mid)" for mid
    by (force simp: items image_image id)
  moreover have "(\<exists>m d. (m, d) \<in> set ?rows \<and> mr_id m = mid) \<longleftrightarrow>
      (\<exists>m\<in>set (legacy_messages db). \<exists>d\<in>set (deliveries db). mr_id m = mid \<and> dl_message_id d = mid \<and>
        preferred db (trim a) d \<and> dl_state d \<in> {Queued, Claimed} \<and> unexpired (e_now env) m)" for mid
    unfolding in_inbox_rows by metis
  ultimately show ?thesis by simp
qed

section \<open>The properties at a concrete store\<close>

definition sample_claim :: "claim \<times> db" where
  "sample_claim = projr (Claim (sample_env 100) ''alice'' [] 60 sample_db)"

lemma sample_claim_run: "Claim (sample_env 100) ''alice'' [] 60 sample_db = Inr (fst sample_claim, snd sample_claim)"
  by code_simp

lemma Claim_empty_iff_witness: "Claim (sample_env 100) ''bob'' [] 60 sample_db = Inl ErrNoMessage"
proof -
  have "trim ''bob'' \<noteq> [] \<and> valid_lease 60 \<and>
    (\<forall>m\<in>set (legacy_messages sample_db). \<forall>d\<in>set (deliveries sample_db).
      mr_id m = dl_message_id d \<and> preferred sample_db (trim ''bob'') d \<and> (trim [] = [] \<or> mr_id m = trim [])
      \<longrightarrow> \<not> (claimable (e_now (sample_env 100)) d \<and> unexpired (e_now (sample_env 100)) m))"
    by code_simp
  then show ?thesis using Claim_empty_iff [OF sample_db_ok(1,2)] by blast
qed

lemma Claim_oldest_witness:
  "(msg_created_at (cl_message (fst sample_claim)), msg_id (cl_message (fst sample_claim))) \<le> (20, ''m2'')"
proof -
  let ?m = "sample_message ''m2'' ''k2'' 20" and ?d = "sample_delivery ''m2'' ''alice''"
  have "?m \<in> set (legacy_messages sample_db)" "?d \<in> set (deliveries sample_db)" "mr_id ?m = dl_message_id ?d"
    "preferred sample_db (trim ''alice'') ?d" "claimable (e_now (sample_env 100)) ?d"
    "unexpired (e_now (sample_env 100)) ?m" "trim [] = [] \<or> mr_id ?m = trim []"
    by code_simp+
  from Claim_oldest [OF sample_db_ok(2) sample_claim_run this] show ?thesis by (simp add: sample_message_def)
qed

lemma Claim_excludes_witness:
  "\<exists>r d. row_by delivery_key (msg_id (cl_message (fst sample_claim)), r) (deliveries (snd sample_claim)) = Some d \<and>
    dl_lease_token d = Some (cl_lease_token (fst sample_claim))"
proof -
  let ?second = "Claim (sample_env 159) ''alice'' [] 60 (snd sample_claim)"
  have "?second = Inr (fst (projr ?second), snd (projr ?second))"
    "e_now (sample_env 159) < cl_lease_expires_at (fst sample_claim)" by code_simp+
  from Claim_excludes [OF sample_db_ok(1) sample_claim_run this] show ?thesis by blast
qed


lemma Ack_idempotent_witness:
  "\<exists>db1. Ack (sample_env 170) ''alice'' ''m1'' ''lease_0'' (snd sample_claim) = Inr db1 \<and>
    Ack (sample_env 999) ''alice'' ''m1'' ''lease_0'' db1 = Inr db1"
proof -
  let ?ack = "Ack (sample_env 170) ''alice'' ''m1'' ''lease_0'' (snd sample_claim)"
  have 1: "deliveries_ok (snd sample_claim)" by code_simp
  have 2: "?ack = Inr (projr ?ack)" by code_simp
  show ?thesis using Ack_idempotent [OF 1 2] 2 by blast
qed

lemma Claim_then_Ack_witness:
  "\<exists>db2 r d. Ack (sample_env 170) ''alice'' ''m1'' ''lease_0'' (snd sample_claim) = Inr db2 \<and>
    row_by delivery_key (msg_id (cl_message (fst sample_claim)), r) (deliveries db2) = Some d \<and>
    dl_state d = Acked \<and> dl_acked_at d = Some (e_now (sample_env 170)) \<and> dl_lease_token d = None"
proof (rule Claim_then_Ack [OF sample_db_ok sample_claim_run])
  show "trim ''m1'' = msg_id (cl_message (fst sample_claim))" by code_simp
  show "trim ''m1'' \<noteq> []" by code_simp
  show "trim ''lease_0'' = cl_lease_token (fst sample_claim)" by code_simp
  show "trim ''lease_0'' \<noteq> []" by code_simp
  show "\<forall>d\<in>set (deliveries sample_db). dl_terminal_token d \<noteq> Some (cl_lease_token (fst sample_claim))" by code_simp
  show "e_gen (sample_env 170) ''evt'' (db_ids (snd sample_claim)) = Some ''evt_2''" by code_simp
  show "''evt_2'' \<notin> ev_id ` set (events (snd sample_claim))" by code_simp
qed

lemma CheckInbox_complete_witness:
  "\<exists>items. CheckInbox (sample_env 100) ''alice'' 10 sample_db = Inr items \<and>
    ii_message_id ` set items = {''m1'', ''m2''} \<and> distinct (map ii_message_id items)"
proof -
  let ?r = "CheckInbox (sample_env 100) ''alice'' 10 sample_db"
  have 1: "?r = Inr (projr ?r)" and 2: "length (projr ?r) < inbox_limit 10" by code_simp+
  have 3: "ii_message_id ` set (projr ?r) = {''m1'', ''m2''}" by code_simp
  from CheckInbox_complete [OF sample_db_ok(1,2) 1 2] show ?thesis using 1 3 by blast
qed

end
