(* ===== verification/Aliases.thy ===== *)
theory Aliases
  imports StoreState Samples
begin

text \<open>
  \<open>alias.go\<close> and the name checks of \<open>identity.go\<close>: operator-managed aliases for actors.
  \<open>actor_alias_history\<close> is an append-only log with revisions from 1 for each alias;
  \<open>actor_aliases\<close> holds the aliases that resolve now. A removed alias stays reserved.
  The inserts keep the schema's keys because the same transaction has just looked them up.
\<close>

section \<open>Names\<close>

definition actorIdentityExists :: "db \<Rightarrow> string \<Rightarrow> bool" where
  "actorIdentityExists db a \<longleftrightarrow>
    a \<in> ao_actor ` set (allocations db) \<or> a \<in> pf_actor ` set (profiles db) \<or>
    a \<in> rg_actor ` set (registrations db) \<or> a \<in> mr_from_actor ` set (messages db) \<or>
    a \<in> dl_recipient ` set (deliveries db) \<or>
    a \<in> ad_source ` set (adoptions db) \<or> a \<in> ad_adopting ` set (adoptions db) \<or>
    a \<in> ah_by_actor ` set (alias_history db) \<or> a \<in> an_actor ` set (actor_names db)"

definition actorNameReserved :: "db \<Rightarrow> string \<Rightarrow> bool" where
  "actorNameReserved db a \<longleftrightarrow>
    a \<in> ao_actor ` set (allocations db) \<or> a \<in> pf_actor ` set (profiles db) \<or>
    a \<in> rg_actor ` set (registrations db) \<or> a \<in> mr_from_actor ` set (messages db) \<or>
    a \<in> dl_recipient ` set (deliveries db) \<or> a \<in> ah_alias ` set (alias_history db) \<or>
    a \<in> an_actor ` set (actor_names db) \<or> a \<in> ah_by_actor ` set (alias_history db)"

definition alias_recorded :: "db \<Rightarrow> string \<Rightarrow> bool" where
  "alias_recorded db a \<longleftrightarrow> a \<in> ah_alias ` set (alias_history db)"

definition assertActorNameNotAlias :: "db \<Rightarrow> string \<Rightarrow> error + unit" where
  "assertActorNameNotAlias db a = requireE (\<not> alias_recorded db a) ErrAliasConflict"

definition actorArchived :: "db \<Rightarrow> string \<Rightarrow> bool" where
  "actorArchived db a = list_ex (\<lambda>l. lc_actor l = a \<and> lc_archived l) (lifecycle db)"

section \<open>Requests\<close>

record alias_set_request =
  as_alias :: string
  as_actor :: string
  as_by_actor :: string
  as_by_run :: string
  as_project_id :: string
  as_idempotency_key :: string

record alias_claim_request =
  acq_alias :: string
  acq_actor :: string
  acq_policy_id :: string
  acq_harness :: string
  acq_by_actor :: string
  acq_by_run :: string
  acq_project_id :: string
  acq_idempotency_key :: string

record alias_remove_request =
  ar_alias :: string
  ar_by_actor :: string
  ar_by_run :: string
  ar_project_id :: string
  ar_idempotency_key :: string

record alias_mutation_result =
  amr_alias :: alias_row
  amr_removed :: bool
  amr_duplicate :: bool

definition normalizeAlias :: "string \<Rightarrow> string \<Rightarrow> error + string" where
  "normalizeAlias fld value =
    (let v = trim value in
     bindE (require_field fld v) (\<lambda>_. bindE (ValidateTextIdentifier fld v 128) (\<lambda>_. Inr v)))"

text \<open>The loop that trims, requires and validates each field in turn.\<close>

definition require_trimmed :: "(string \<times> string \<times> int) list \<Rightarrow> error + unit" where
  "require_trimmed flds = forE flds (\<lambda>(name, value, mx). require_text (name, trim value, mx))"

definition normalizeAliasSetRequest :: "alias_set_request \<Rightarrow> error + alias_set_request" where
  "normalizeAliasSetRequest q =
    bindE (normalizeAlias ''alias'' (as_alias q)) (\<lambda>alias.
    bindE (require_trimmed [(''actor'', as_actor q, 128), (''updated_by_actor'', as_by_actor q, 128),
      (''updated_by_run'', as_by_run q, 256), (''project_id'', as_project_id q, 256),
      (''idempotency_key'', as_idempotency_key q, 256)]) (\<lambda>_.
    Inr \<lparr>as_alias = alias, as_actor = trim (as_actor q), as_by_actor = trim (as_by_actor q),
      as_by_run = trim (as_by_run q), as_project_id = trim (as_project_id q),
      as_idempotency_key = trim (as_idempotency_key q)\<rparr>))"

text \<open>The \<open>%q\<close> verb on text without control characters.\<close>

definition quoted :: "string \<Rightarrow> string" where
  "quoted s = ''\"'' @ concat (map (\<lambda>c. if c = CHR ''\"'' \<or> c = CHR 0x5C then [CHR 0x5C, c] else [c]) s) @ ''\"''"

definition naming_policy :: string where
  "naming_policy = ''setup:default-workstream-alias''"

definition normalizeAliasClaimRequest :: "alias_claim_request \<Rightarrow> error + alias_claim_request" where
  "normalizeAliasClaimRequest q =
    bindE (normalizeAlias ''alias'' (acq_alias q)) (\<lambda>alias.
    bindE (require_trimmed [(''actor'', acq_actor q, 128), (''policy_id'', acq_policy_id q, 256),
      (''harness'', acq_harness q, 64), (''updated_by_actor'', acq_by_actor q, 128),
      (''updated_by_run'', acq_by_run q, 256), (''project_id'', acq_project_id q, 256),
      (''idempotency_key'', acq_idempotency_key q, 256)]) (\<lambda>_.
    let policy = trim (acq_policy_id q); harness = map ascii_lower (trim (acq_harness q));
        project = trim (acq_project_id q); expected = project @ ''-'' @ harness in
    bindE (requireE (policy = naming_policy)
      (ValidationError ''policy_id'' ''is not an installed naming policy'')) (\<lambda>_.
    bindE (requireE (harness \<in> {''claude'', ''codex'', ''opencode''})
      (ValidationError ''harness'' ''must be claude, codex, or opencode'')) (\<lambda>_.
    bindE (requireE (alias = expected)
      (ValidationError ''alias'' (''policy '' @ policy @ '' permits only '' @ quoted expected))) (\<lambda>_.
    Inr \<lparr>acq_alias = alias, acq_actor = trim (acq_actor q), acq_policy_id = policy, acq_harness = harness,
      acq_by_actor = trim (acq_by_actor q), acq_by_run = trim (acq_by_run q), acq_project_id = project,
      acq_idempotency_key = trim (acq_idempotency_key q)\<rparr>)))))"

definition normalizeAliasRemoveRequest :: "alias_remove_request \<Rightarrow> error + alias_remove_request" where
  "normalizeAliasRemoveRequest q =
    bindE (normalizeAlias ''alias'' (ar_alias q)) (\<lambda>alias.
    bindE (require_trimmed [(''updated_by_actor'', ar_by_actor q, 128),
      (''updated_by_run'', ar_by_run q, 256), (''project_id'', ar_project_id q, 256),
      (''idempotency_key'', ar_idempotency_key q, 256)]) (\<lambda>_.
    Inr \<lparr>ar_alias = alias, ar_by_actor = trim (ar_by_actor q), ar_by_run = trim (ar_by_run q),
      ar_project_id = trim (ar_project_id q), ar_idempotency_key = trim (ar_idempotency_key q)\<rparr>))"

section \<open>Mutations\<close>

definition aliasByName :: "db \<Rightarrow> string \<Rightarrow> error + alias_row" where
  "aliasByName db a = (case row_by al_alias a (aliases db) of
     None \<Rightarrow> Inl ErrAliasNotFound | Some r \<Rightarrow> Inr r)"

abbreviation alias_request_key :: "alias_history_row \<Rightarrow> string \<times> string" where
  "alias_request_key h \<equiv> (ah_by_actor h, ah_idempotency_key h)"

definition aliasRequestByIdempotency :: "db \<Rightarrow> string \<Rightarrow> string \<Rightarrow> alias_history_row option" where
  "aliasRequestByIdempotency db actor k = row_by alias_request_key (actor, k) (alias_history db)"

abbreviation alias_claim_key :: "alias_claim_row \<Rightarrow> string \<times> string" where
  "alias_claim_key c \<equiv> (ac_by_actor c, ac_idempotency_key c)"

definition aliasClaimRequestExists :: "db \<Rightarrow> string \<Rightarrow> string \<Rightarrow> bool" where
  "aliasClaimRequestExists db actor k = (row_by alias_claim_key (actor, k) (alias_claims db) \<noteq> None)"

definition alias_of_history :: "alias_history_row \<Rightarrow> alias_row" where
  "alias_of_history h = \<lparr>al_alias = ah_alias h, al_actor = ah_actor h, al_revision = ah_revision h,
     al_by_actor = ah_by_actor h, al_by_run = ah_by_run h, al_project_id = ah_project_id h,
     al_updated_at = ah_updated_at h\<rparr>"

definition revisions :: "string \<Rightarrow> alias_history_row list \<Rightarrow> int list" where
  "revisions a hs = map ah_revision (filter (\<lambda>h. ah_alias h = a) hs)"

text \<open>\<open>COALESCE(MAX(revision), 0) + 1\<close>.\<close>

definition next_revision :: "string \<Rightarrow> alias_history_row list \<Rightarrow> int" where
  "next_revision a hs = (case revisions a hs of [] \<Rightarrow> 0 | r # rs \<Rightarrow> fold max rs r) + 1"

definition upsert_alias :: "alias_row \<Rightarrow> alias_row list \<Rightarrow> alias_row list" where
  "upsert_alias r rows =
    (if row_by al_alias (al_alias r) rows = None then rows @ [r]
     else update_where (\<lambda>x. al_alias x = al_alias r) (\<lambda>_. r) rows)"

fun alias_action_text :: "alias_action \<Rightarrow> string" where
  "alias_action_text AliasSet = ''set''"
| "alias_action_text AliasRemove = ''remove''"
| "alias_action_text AliasClaimed = ''claim''"

definition history_entry ::
  "string \<Rightarrow> int \<Rightarrow> string \<Rightarrow> alias_action \<Rightarrow> string \<Rightarrow> string \<Rightarrow> string \<Rightarrow> string \<Rightarrow> int \<Rightarrow> alias_history_row" where
  "history_entry alias n target action by_actor by_run project k now =
    \<lparr>ah_alias = alias, ah_revision = n, ah_actor = target, ah_action = action,
     ah_by_actor = by_actor, ah_by_run = by_run, ah_project_id = project,
     ah_idempotency_key = k, ah_updated_at = now\<rparr>"

definition mutateAlias ::
  "env \<Rightarrow> string \<Rightarrow> string \<Rightarrow> alias_action \<Rightarrow> string \<Rightarrow> string \<Rightarrow> string \<Rightarrow> string \<Rightarrow> db
   \<Rightarrow> error + (alias_mutation_result \<times> db)" where
  "mutateAlias env alias actor action by_actor by_run project k db =
    (case aliasRequestByIdempotency db by_actor k of
       Some p \<Rightarrow>
         if ah_alias p \<noteq> alias \<or> (action = AliasSet \<and> ah_actor p \<noteq> actor) \<or> ah_action p \<noteq> action
            \<or> ah_project_id p \<noteq> project
         then Inl ErrIdempotencyConflict
         else Inr (\<lparr>amr_alias = alias_of_history p, amr_removed = (action = AliasRemove),
                amr_duplicate = True\<rparr>, db)
     | None \<Rightarrow>
       bindE (requireE (\<not> aliasClaimRequestExists db by_actor k) ErrIdempotencyConflict) (\<lambda>_.
       let current = aliasByName db alias in
       bindE (if action = AliasSet then
                bindE (requireE (alias \<noteq> by_actor) ErrAliasConflict) (\<lambda>_.
                bindE (requireE (actorIdentityExists db actor) ErrAliasTargetUnknown) (\<lambda>_.
                bindE (requireE (\<not> actorArchived db actor) ErrActorArchived) (\<lambda>_.
                requireE (\<not> actorIdentityExists db alias) ErrAliasConflict)))
              else requireE (current \<noteq> Inl ErrAliasNotFound) ErrAliasNotFound) (\<lambda>_.
       let revision = next_revision alias (alias_history db);
           target = (if action = AliasRemove then (case current of Inr c \<Rightarrow> al_actor c | Inl _ \<Rightarrow> []) else actor);
           h = history_entry alias revision target action by_actor by_run project k (e_now env);
           db1 = db\<lparr>aliases := (if action = AliasSet then upsert_alias (alias_of_history h) (aliases db)
                  else filter (\<lambda>r. al_alias r \<noteq> alias) (aliases db)),
                alias_history := alias_history db @ [h]\<rparr>;
           payload0 = [(''alias'', PStr alias), (''revision'', PInt revision),
                (''action'', PStr (alias_action_text action))];
           payload = (if target \<noteq> [] then pput ''actor'' (PStr target) payload0 else payload0) in
       bindE (appendEvent env project ''durable'' (''actor.alias_'' @ alias_action_text action) [] by_actor
         (Some payload) db1) (\<lambda>db2.
       Inr (\<lparr>amr_alias = alias_of_history h, amr_removed = (action = AliasRemove), amr_duplicate = False\<rparr>,
         db2)))))"

definition SetAlias :: "env \<Rightarrow> alias_set_request \<Rightarrow> db \<Rightarrow> error + (alias_mutation_result \<times> db)" where
  "SetAlias env request db =
    bindE (normalizeAliasSetRequest request) (\<lambda>q.
    bindE (requireE (\<not> (is_human_actor (as_alias q) \<or> is_human_actor (as_actor q))) ErrChannelCapability) (\<lambda>_.
    mutateAlias env (as_alias q) (as_actor q) AliasSet (as_by_actor q) (as_by_run q) (as_project_id q)
      (as_idempotency_key q) db))"

definition RemoveAlias :: "env \<Rightarrow> alias_remove_request \<Rightarrow> db \<Rightarrow> error + (alias_mutation_result \<times> db)" where
  "RemoveAlias env request db =
    bindE (normalizeAliasRemoveRequest request) (\<lambda>q.
    mutateAlias env (ar_alias q) [] AliasRemove (ar_by_actor q) (ar_by_run q) (ar_project_id q)
      (ar_idempotency_key q) db)"

section \<open>Claiming an alias\<close>

definition claim_entry :: "alias_claim_request \<Rightarrow> int \<Rightarrow> alias_history_row" where
  "claim_entry q now = history_entry (acq_alias q) 1 (acq_actor q) AliasClaimed (acq_by_actor q) (acq_by_run q)
     (acq_project_id q) (acq_idempotency_key q) now"

definition claim_record :: "alias_claim_request \<Rightarrow> alias_claim_result \<Rightarrow> int \<Rightarrow> alias_claim_row" where
  "claim_record q result now = \<lparr>ac_by_actor = acq_by_actor q,
     ac_idempotency_key = acq_idempotency_key q, ac_alias = acq_alias q, ac_actor = acq_actor q,
     ac_policy_id = acq_policy_id q, ac_harness = acq_harness q, ac_project_id = acq_project_id q,
     ac_result = result, ac_created_at = now\<rparr>"

definition claim_matches :: "alias_claim_row \<Rightarrow> alias_claim_request \<Rightarrow> bool" where
  "claim_matches c q \<longleftrightarrow> ac_alias c = acq_alias q \<and> ac_actor c = acq_actor q \<and>
     ac_policy_id c = acq_policy_id q \<and> ac_harness c = acq_harness q \<and> ac_project_id c = acq_project_id q"

text \<open>The switch on the alias: taken, reserved, or free.\<close>

definition claim_outcome :: "env \<Rightarrow> alias_claim_request \<Rightarrow> db \<Rightarrow> error + (alias_claim_result \<times> db)" where
  "claim_outcome env q db =
    (case aliasByName db (acq_alias q) of
       Inr current \<Rightarrow>
         Inr (\<lparr>acr_alias = current, acr_claimed = False, acr_policy_id = acq_policy_id q,
               acr_duplicate = False\<rparr>, db)
     | Inl _ \<Rightarrow>
         bindE (requireE (\<not> alias_recorded db (acq_alias q)) ErrAliasTombstoned) (\<lambda>_.
         bindE (requireE (\<not> actorIdentityExists db (acq_alias q)) ErrAliasConflict) (\<lambda>_.
         let h = claim_entry q (e_now env) in
         bindE (appendEvent env (acq_project_id q) ''durable'' ''actor.alias_claim'' [] (acq_by_actor q)
           (Some [(''alias'', PStr (acq_alias q)), (''actor'', PStr (acq_actor q)),
              (''policy_id'', PStr (acq_policy_id q)), (''revision'', PInt 1)])
           (db\<lparr>aliases := aliases db @ [alias_of_history h], alias_history := alias_history db @ [h]\<rparr>)) (\<lambda>db1.
         Inr (\<lparr>acr_alias = alias_of_history h, acr_claimed = True, acr_policy_id = acq_policy_id q,
               acr_duplicate = False\<rparr>, db1)))))"

definition ClaimAliasIfAbsent ::
  "env \<Rightarrow> alias_claim_request \<Rightarrow> db \<Rightarrow> error + (alias_claim_result \<times> db)" where
  "ClaimAliasIfAbsent env request db =
    bindE (normalizeAliasClaimRequest request) (\<lambda>q.
    bindE (requireE (\<not> (is_human_actor (acq_alias q) \<or> is_human_actor (acq_actor q))) ErrChannelCapability) (\<lambda>_.
    case row_by alias_claim_key (acq_by_actor q, acq_idempotency_key q) (alias_claims db) of
      Some c \<Rightarrow>
        if \<not> claim_matches c q then Inl ErrIdempotencyConflict
        else Inr ((ac_result c)\<lparr>acr_duplicate := True\<rparr>, db)
    | None \<Rightarrow>
      bindE (requireE (aliasRequestByIdempotency db (acq_by_actor q) (acq_idempotency_key q) = None)
        ErrIdempotencyConflict) (\<lambda>_.
      bindE (requireE (actorIdentityExists db (acq_actor q)) ErrAliasTargetUnknown) (\<lambda>_.
      bindE (requireE (\<not> actorArchived db (acq_actor q)) ErrActorArchived) (\<lambda>_.
      bindE (claim_outcome env q db) (\<lambda>(result, db1).
      Inr (result, db1\<lparr>alias_claims := alias_claims db1 @ [claim_record q result (e_now env)]\<rparr>)))))))"

section \<open>Reading and resolving\<close>

definition ListAliases :: "db \<Rightarrow> alias_row list" where
  "ListAliases db = sort_key al_alias (aliases db)"

definition ResolveAlias :: "string \<Rightarrow> db \<Rightarrow> error + alias_row" where
  "ResolveAlias name db = bindE (normalizeAlias ''alias'' name) (\<lambda>a. aliasByName db a)"

definition aliasesForActor :: "db \<Rightarrow> string \<Rightarrow> string list" where
  "aliasesForActor db a = sort (map al_alias (filter (\<lambda>r. al_actor r = a) (aliases db)))"

definition classifyLegacyRoutes :: "db \<Rightarrow> string list \<Rightarrow> route list" where
  "classifyLegacyRoutes db requested =
    map (\<lambda>r. Route (if alias_recorded db r then RouteAlias else RouteActor) r) requested"

text \<open>One turn of the loop of \<open>resolveRoutesTx\<close>: the actor, and the alias it was reached by.\<close>

definition resolve_route :: "db \<Rightarrow> route \<Rightarrow> error + (string \<times> (string \<times> string) list)" where
  "resolve_route db r =
    (case rt_kind r of
       RouteActor \<Rightarrow> bindE (assertActorNameNotAlias db (rt_value r)) (\<lambda>_. Inr (rt_value r, []))
     | RouteAlias \<Rightarrow>
        (case row_by al_alias (rt_value r) (aliases db) of
           Some row \<Rightarrow> Inr (al_actor row, [(rt_value r, al_actor row)])
         | None \<Rightarrow> if alias_recorded db (rt_value r) then Inl ErrAliasTombstoned else Inl ErrAliasNotFound)
     | _ \<Rightarrow> Inr (rt_value r, []))"

definition resolveRoutes :: "db \<Rightarrow> route list \<Rightarrow> error + (string list \<times> (string \<times> string) list)" where
  "resolveRoutes db requested =
    bindE (mapE (resolve_route db) requested) (\<lambda>rs.
    Inr (sort (nub (map fst rs)), sort_key fst (nub (concat (map snd rs)))))"

section \<open>What a successful mutation did\<close>

lemma mutateAliasD:
  assumes "mutateAlias env a actor action by_actor by_run project k db = Inr (r, db')"
  shows "(\<exists>p. aliasRequestByIdempotency db by_actor k = Some p \<and> ah_alias p = a \<and>
      (action = AliasSet \<longrightarrow> ah_actor p = actor) \<and> ah_action p = action \<and> ah_project_id p = project \<and>
      r = \<lparr>amr_alias = alias_of_history p, amr_removed = (action = AliasRemove), amr_duplicate = True\<rparr> \<and> db' = db)
   \<or> (\<exists>h ev. aliasRequestByIdempotency db by_actor k = None \<and> \<not> aliasClaimRequestExists db by_actor k \<and>
      h = history_entry a (next_revision a (alias_history db))
        (if action = AliasRemove then (case aliasByName db a of Inr c \<Rightarrow> al_actor c | Inl _ \<Rightarrow> []) else actor)
        action by_actor by_run project k (e_now env) \<and>
      (if action = AliasSet then a \<noteq> by_actor \<and> actorIdentityExists db actor \<and> \<not> actorArchived db actor
          \<and> \<not> actorIdentityExists db a
       else \<exists>c. aliasByName db a = Inr c) \<and>
      r = \<lparr>amr_alias = alias_of_history h, amr_removed = (action = AliasRemove), amr_duplicate = False\<rparr> \<and>
      alias_history db' = alias_history db @ [h] \<and>
      aliases db' = (if action = AliasSet then upsert_alias (alias_of_history h) (aliases db)
         else filter (\<lambda>x. al_alias x \<noteq> a) (aliases db)) \<and>
      alias_claims db' = alias_claims db \<and> same_mail db db' \<and> actor_names db' = actor_names db \<and>
      adoptions db' = adoptions db \<and> registrations db' = registrations db \<and> lifecycle db' = lifecycle db \<and>
      events db' = events db @ [ev] \<and> (events_ok db \<longrightarrow> events_ok db'))"
proof (cases "aliasRequestByIdempotency db by_actor k")
  case (Some p)
  then show ?thesis using assms by (auto simp: mutateAlias_def split: if_splits)
next
  case None
  let ?h = "history_entry a (next_revision a (alias_history db))
        (if action = AliasRemove then (case aliasByName db a of Inr c \<Rightarrow> al_actor c | Inl _ \<Rightarrow> []) else actor)
        action by_actor by_run project k (e_now env)"
  let ?db1 = "db\<lparr>aliases := (if action = AliasSet then upsert_alias (alias_of_history ?h) (aliases db)
         else filter (\<lambda>x. al_alias x \<noteq> a) (aliases db)), alias_history := alias_history db @ [?h]\<rparr>"
  obtain m pl where ev: "appendEvent env project ''durable'' m [] by_actor pl ?db1 = Inr db'"
    and r: "r = \<lparr>amr_alias = alias_of_history ?h, amr_removed = (action = AliasRemove), amr_duplicate = False\<rparr>"
    and nc: "\<not> aliasClaimRequestExists db by_actor k"
    using assms None
    by (auto simp: mutateAlias_def Let_def bindE_Inr_iff requireE_Inr_iff)
  have chk: "if action = AliasSet then a \<noteq> by_actor \<and> actorIdentityExists db actor \<and> \<not> actorArchived db actor
          \<and> \<not> actorIdentityExists db a else \<exists>c. aliasByName db a = Inr c"
    using assms None
    by (auto simp: mutateAlias_def Let_def bindE_Inr_iff requireE_Inr_iff aliasByName_def
        split: if_splits option.splits)
  obtain e where "events db' = events db @ [e]" using appendEvent_shape [OF ev] by auto
  moreover have "events_ok db'" if "events_ok db" using appendEvent_events_ok [OF ev] that by simp
  moreover have "same_mail db db'" using appendEvent_same(2) [OF ev] by (simp add: same_mail_def)
  ultimately show ?thesis
    using None nc chk r appendEvent_frame [OF ev] by (intro disjI2 exI [of _ ?h] exI [of _ e] conjI) simp_all
qed

section \<open>The alias table is a view of the history\<close>

definition alias_view :: "alias_history_row list \<Rightarrow> string \<Rightarrow> alias_row option" where
  "alias_view hs a = (case rev (filter (\<lambda>h. ah_alias h = a) hs) of
     [] \<Rightarrow> None | h # _ \<Rightarrow> if ah_action h = AliasRemove then None else Some (alias_of_history h))"

definition aliases_ok :: "db \<Rightarrow> bool" where
  "aliases_ok db \<longleftrightarrow>
    (\<forall>a. row_by al_alias a (aliases db) = alias_view (alias_history db) a) \<and>
    (\<forall>a. revisions a (alias_history db) = map int [1 ..< Suc (length (revisions a (alias_history db)))]) \<and>
    distinct (map al_alias (aliases db)) \<and>
    distinct (map alias_request_key (alias_history db)) \<and>
    distinct (map alias_claim_key (alias_claims db))"

lemma alias_view_append:
  "alias_view (hs @ [h]) a =
    (if ah_alias h = a then (if ah_action h = AliasRemove then None else Some (alias_of_history h))
     else alias_view hs a)"
  by (simp add: alias_view_def)

lemma revisions_append:
  "revisions a (hs @ [h]) = revisions a hs @ (if ah_alias h = a then [ah_revision h] else [])"
  by (simp add: revisions_def)

lemma alias_of_history_simps [simp]: "al_alias (alias_of_history h) = ah_alias h" "al_actor (alias_of_history h) = ah_actor h"
  by (simp_all add: alias_of_history_def)

lemma fold_max_upt: "fold max (map int [2 ..< Suc n]) 1 = int (max 1 n)"
proof (induction n)
  case (Suc n)
  then show ?case by (cases "n < 1") auto
qed simp

lemma next_revision_dense:
  assumes "revisions a hs = map int [1 ..< Suc n]"
  shows "next_revision a hs = int (Suc n)"
proof (cases n)
  case 0
  then show ?thesis using assms by (simp add: next_revision_def)
next
  case (Suc k)
  then have "revisions a hs = 1 # map int [2 ..< Suc n]"
    using assms by (simp add: upt_conv_Cons numeral_2_eq_2 del: upt_Suc)
  then show ?thesis using Suc fold_max_upt [of n] by (simp add: next_revision_def del: upt_Suc)
qed

lemma row_by_upsert_alias:
  "row_by al_alias a (upsert_alias r rows) = (if al_alias r = a then Some r else row_by al_alias a rows)"
proof (cases "row_by al_alias (al_alias r) rows")
  case None
  then show ?thesis by (auto simp: upsert_alias_def row_by_append split: option.splits)
next
  case (Some x)
  have other: "row_by al_alias a (update_where (\<lambda>x. al_alias x = al_alias r) (\<lambda>_. r) rows) = row_by al_alias a rows"
    if "al_alias r \<noteq> a" using that by (induction rows) auto
  have "row_by al_alias a (update_where (\<lambda>x. al_alias x = al_alias r) (\<lambda>_. r) rows) = Some r"
    if "al_alias r = a" using that Some by (induction rows) auto
  with other have "row_by al_alias a (update_where (\<lambda>x. al_alias x = al_alias r) (\<lambda>_. r) rows) =
      (if al_alias r = a then Some r else row_by al_alias a rows)" by simp
  then show ?thesis by (simp add: upsert_alias_def Some)
qed

lemma map_upsert_alias: "map al_alias (upsert_alias r rows) =
    (if row_by al_alias (al_alias r) rows = None then map al_alias rows @ [al_alias r] else map al_alias rows)"
  by (auto simp: upsert_alias_def update_where_def)

lemma row_by_filter_alias: "row_by al_alias b (filter (\<lambda>x. al_alias x \<noteq> a) rows) = (if b = a then None else row_by al_alias b rows)"
  by (induction rows) auto

lemma distinct_upsert_alias: "distinct (map al_alias rows) \<Longrightarrow> distinct (map al_alias (upsert_alias r rows))"
  by (auto simp: map_upsert_alias row_by_None_iff)

lemma request_key_fresh:
  "aliasRequestByIdempotency db b k = None \<longleftrightarrow> (b, k) \<notin> alias_request_key ` set (alias_history db)"
  by (auto simp: aliasRequestByIdempotency_def row_by_None_iff)

lemma mutateAlias_aliases_ok:
  assumes "mutateAlias env a actor action by_actor by_run project k db = Inr (r, db')" and "aliases_ok db"
    and "action \<noteq> AliasClaimed"
  shows "aliases_ok db'"
  using mutateAliasD [OF assms(1)]
proof (elim disjE exE conjE)
  fix h
  assume h: "h = history_entry a (next_revision a (alias_history db))
        (if action = AliasRemove then (case aliasByName db a of Inr c \<Rightarrow> al_actor c | Inl _ \<Rightarrow> []) else actor)
        action by_actor by_run project k (e_now env)"
    and fresh: "aliasRequestByIdempotency db by_actor k = None"
    and hist: "alias_history db' = alias_history db @ [h]"
    and tab: "aliases db' = (if action = AliasSet then upsert_alias (alias_of_history h) (aliases db)
         else filter (\<lambda>x. al_alias x \<noteq> a) (aliases db))"
    and cl: "alias_claims db' = alias_claims db"
  have hs: "ah_alias h = a" "ah_action h = action" "alias_request_key h = (by_actor, k)"
    "ah_revision h = next_revision a (alias_history db)" using h by (simp_all add: history_entry_def)
  have ok: "row_by al_alias x (aliases db) = alias_view (alias_history db) x"
    "revisions x (alias_history db) = map int [1 ..< Suc (length (revisions x (alias_history db)))]" for x
    using assms(2) by (simp_all add: aliases_ok_def del: upt_Suc)
  have "row_by al_alias x (aliases db') = alias_view (alias_history db') x" for x
    using ok(1) [of x] assms(3) hs(1,2)
    by (cases action) (auto simp: tab hist alias_view_append row_by_upsert_alias row_by_filter_alias)
  moreover have "revisions x (alias_history db') = map int [1 ..< Suc (length (revisions x (alias_history db')))]" for x
    using ok(2) [of x] next_revision_dense [of a "alias_history db" "length (revisions a (alias_history db))"] ok(2) [of a]
    by (auto simp: hist revisions_append hs)
  moreover have "distinct (map alias_request_key (alias_history db'))"
    using assms(2) fresh hs(3) by (auto simp: hist aliases_ok_def request_key_fresh)
  ultimately show ?thesis
    using assms(2) unfolding aliases_ok_def by (auto simp: tab cl distinct_upsert_alias intro: distinct_map_filter)
qed (use assms(2) in simp)

lemma ClaimAliasIfAbsentD:
  assumes "ClaimAliasIfAbsent env request db = Inr (r, db')"
  obtains q where "normalizeAliasClaimRequest request = Inr q"
    "\<not> is_human_actor (acq_alias q)" "\<not> is_human_actor (acq_actor q)"
    "(\<exists>c. row_by alias_claim_key (acq_by_actor q, acq_idempotency_key q) (alias_claims db) = Some c \<and>
        claim_matches c q \<and> r = (ac_result c)\<lparr>acr_duplicate := True\<rparr> \<and> db' = db)
     \<or> row_by alias_claim_key (acq_by_actor q, acq_idempotency_key q) (alias_claims db) = None \<and>
       aliasRequestByIdempotency db (acq_by_actor q) (acq_idempotency_key q) = None \<and>
       actorIdentityExists db (acq_actor q) \<and> \<not> actorArchived db (acq_actor q) \<and>
       acr_duplicate r = False \<and> acr_policy_id r = acq_policy_id q \<and>
       alias_claims db' = alias_claims db @ [claim_record q r (e_now env)] \<and>
       same_mail db db' \<and> actor_names db' = actor_names db \<and> adoptions db' = adoptions db \<and>
       registrations db' = registrations db \<and> lifecycle db' = lifecycle db \<and> (events_ok db \<longrightarrow> events_ok db') \<and>
       (acr_claimed r = False \<and> row_by al_alias (acq_alias q) (aliases db) = Some (acr_alias r) \<and>
          aliases db' = aliases db \<and> alias_history db' = alias_history db
        \<or> acr_claimed r = True \<and> row_by al_alias (acq_alias q) (aliases db) = None \<and>
          \<not> alias_recorded db (acq_alias q) \<and> \<not> actorIdentityExists db (acq_alias q) \<and>
          acr_alias r = alias_of_history (claim_entry q (e_now env)) \<and>
          aliases db' = aliases db @ [alias_of_history (claim_entry q (e_now env))] \<and>
          alias_history db' = alias_history db @ [claim_entry q (e_now env)])"
proof -
  obtain q where q: "normalizeAliasClaimRequest request = Inr q"
    "\<not> is_human_actor (acq_alias q)" "\<not> is_human_actor (acq_actor q)"
    using assms by (auto simp: ClaimAliasIfAbsent_def bindE_Inr_iff requireE_Inr_iff)
  let ?row = "row_by alias_claim_key (acq_by_actor q, acq_idempotency_key q) (alias_claims db)"
  show thesis
  proof (cases ?row)
    case (Some c)
    then show thesis
      using assms q by (intro that [OF q] disjI1) (auto simp: ClaimAliasIfAbsent_def split: if_splits)
  next
    case None
    then obtain db2 where chk: "aliasRequestByIdempotency db (acq_by_actor q) (acq_idempotency_key q) = None"
      "actorIdentityExists db (acq_actor q)" "\<not> actorArchived db (acq_actor q)"
      and db': "db' = db2\<lparr>alias_claims := alias_claims db2 @ [claim_record q r (e_now env)]\<rparr>"
      and res: "claim_outcome env q db = Inr (r, db2)"
      using assms q by (auto simp: ClaimAliasIfAbsent_def bindE_Inr_iff requireE_Inr_iff)
    show thesis
    proof (cases "row_by al_alias (acq_alias q) (aliases db)")
      case (Some current)
      then have "r = \<lparr>acr_alias = current, acr_claimed = False, acr_policy_id = acq_policy_id q, acr_duplicate = False\<rparr>"
        "db2 = db" using res by (simp_all add: claim_outcome_def aliasByName_def)
      then show thesis using None Some chk db' by (intro that [OF q] disjI2) (simp add: same_mail_def)
    next
      case rn: None
      then obtain pl where ev: "appendEvent env (acq_project_id q) ''durable'' ''actor.alias_claim'' [] (acq_by_actor q) pl
              (db\<lparr>aliases := aliases db @ [alias_of_history (claim_entry q (e_now env))],
                 alias_history := alias_history db @ [claim_entry q (e_now env)]\<rparr>) = Inr db2"
        and r: "\<not> alias_recorded db (acq_alias q)" "\<not> actorIdentityExists db (acq_alias q)"
          "r = \<lparr>acr_alias = alias_of_history (claim_entry q (e_now env)), acr_claimed = True,
              acr_policy_id = acq_policy_id q, acr_duplicate = False\<rparr>"
        using res by (auto simp: claim_outcome_def aliasByName_def Let_def bindE_Inr_iff requireE_Inr_iff)
      have "events_ok db2" if "events_ok db" using appendEvent_events_ok [OF ev] that by simp
      then show thesis
        using None chk db' r rn appendEvent_frame [OF ev] appendEvent_same(2) [OF ev]
        by (intro that [OF q] disjI2) (simp add: same_mail_def)
    qed
  qed
qed

lemma ClaimAliasIfAbsent_aliases_ok:
  assumes "ClaimAliasIfAbsent env request db = Inr (r, db')" and "aliases_ok db"
  shows "aliases_ok db'"
proof -
  obtain q where cs: "db' = db \<or>
      row_by alias_claim_key (acq_by_actor q, acq_idempotency_key q) (alias_claims db) = None \<and>
       aliasRequestByIdempotency db (acq_by_actor q) (acq_idempotency_key q) = None \<and>
       alias_claims db' = alias_claims db @ [claim_record q r (e_now env)] \<and>
       (aliases db' = aliases db \<and> alias_history db' = alias_history db
        \<or> row_by al_alias (acq_alias q) (aliases db) = None \<and> \<not> alias_recorded db (acq_alias q) \<and>
          aliases db' = aliases db @ [alias_of_history (claim_entry q (e_now env))] \<and>
          alias_history db' = alias_history db @ [claim_entry q (e_now env)])"
    using assms(1) by (rule ClaimAliasIfAbsentD) (rule that, blast)
  have claims: "distinct (map alias_claim_key (alias_claims db @ [claim_record q r (e_now env)]))"
    if "row_by alias_claim_key (acq_by_actor q, acq_idempotency_key q) (alias_claims db) = None"
    using assms(2) that by (auto simp: aliases_ok_def claim_record_def row_by_None_iff)
  let ?h = "claim_entry q (e_now env)"
  have h: "ah_alias ?h = acq_alias q" "ah_action ?h = AliasClaimed" "ah_revision ?h = 1"
    "alias_request_key ?h = (acq_by_actor q, acq_idempotency_key q)"
    by (simp_all add: claim_entry_def history_entry_def)
  have none: "revisions (acq_alias q) (alias_history db) = []" if "\<not> alias_recorded db (acq_alias q)"
    using that by (auto simp: revisions_def alias_recorded_def filter_empty_conv image_iff)
  show ?thesis
    using cs
  proof (elim disjE conjE)
    assume *: "row_by alias_claim_key (acq_by_actor q, acq_idempotency_key q) (alias_claims db) = None"
      "aliasRequestByIdempotency db (acq_by_actor q) (acq_idempotency_key q) = None"
      "row_by al_alias (acq_alias q) (aliases db) = None" "\<not> alias_recorded db (acq_alias q)"
      and eqs: "alias_claims db' = alias_claims db @ [claim_record q r (e_now env)]"
        "aliases db' = aliases db @ [alias_of_history ?h]" "alias_history db' = alias_history db @ [?h]"
    have one: "map int [Suc 0 ..< Suc (Suc 0)] = [1]" by simp
    have "row_by al_alias a (aliases db') = alias_view (alias_history db') a" for a
      using assms(2) *(3) h(1,2)
      by (auto simp: eqs aliases_ok_def row_by_append alias_view_append split: option.splits)
    moreover have "revisions a (alias_history db') = map int [1 ..< Suc (length (revisions a (alias_history db')))]" for a
      using assms(2) none [OF *(4)] h(1,3) one
      by (auto simp: eqs aliases_ok_def revisions_append simp del: upt_Suc)
    moreover have "distinct (map al_alias (aliases db'))"
      using assms(2) *(3) [unfolded row_by_None_key] h(1) by (simp add: eqs aliases_ok_def)
    moreover have "distinct (map alias_request_key (alias_history db'))"
      using assms(2) *(2) h(4) by (auto simp: eqs aliases_ok_def request_key_fresh)
    ultimately show ?thesis using claims [OF *(1)] by (simp add: aliases_ok_def eqs(1) del: upt_Suc)
  qed (use assms(2) claims in \<open>simp_all add: aliases_ok_def del: upt_Suc\<close>)
qed


section \<open>Idempotency\<close>

definition history_extends :: "db \<Rightarrow> db \<Rightarrow> bool" where
  "history_extends db db' \<longleftrightarrow> (\<exists>hs cs. alias_history db' = alias_history db @ hs \<and>
     alias_claims db' = alias_claims db @ cs)"

lemma history_extends_same: "alias_history db' = alias_history db \<Longrightarrow> alias_claims db' = alias_claims db \<Longrightarrow> history_extends db db'"
  by (simp add: history_extends_def)

definition set_recorded :: "alias_set_request \<Rightarrow> alias_mutation_result \<Rightarrow> db \<Rightarrow> bool" where
  "set_recorded request r db \<longleftrightarrow> (\<exists>q p. normalizeAliasSetRequest request = Inr q \<and>
     \<not> is_human_actor (as_alias q) \<and> \<not> is_human_actor (as_actor q) \<and>
     aliasRequestByIdempotency db (as_by_actor q) (as_idempotency_key q) = Some p \<and>
     ah_alias p = as_alias q \<and> ah_actor p = as_actor q \<and> ah_action p = AliasSet \<and>
     ah_project_id p = as_project_id q \<and>
     r = \<lparr>amr_alias = alias_of_history p, amr_removed = False, amr_duplicate = True\<rparr>)"

definition remove_recorded :: "alias_remove_request \<Rightarrow> alias_mutation_result \<Rightarrow> db \<Rightarrow> bool" where
  "remove_recorded request r db \<longleftrightarrow> (\<exists>q p. normalizeAliasRemoveRequest request = Inr q \<and>
     aliasRequestByIdempotency db (ar_by_actor q) (ar_idempotency_key q) = Some p \<and>
     ah_alias p = ar_alias q \<and> ah_action p = AliasRemove \<and> ah_project_id p = ar_project_id q \<and>
     r = \<lparr>amr_alias = alias_of_history p, amr_removed = True, amr_duplicate = True\<rparr>)"

definition claim_recorded :: "alias_claim_request \<Rightarrow> alias_claim_result \<Rightarrow> db \<Rightarrow> bool" where
  "claim_recorded request r db \<longleftrightarrow> (\<exists>q c. normalizeAliasClaimRequest request = Inr q \<and>
     \<not> is_human_actor (acq_alias q) \<and> \<not> is_human_actor (acq_actor q) \<and>
     row_by alias_claim_key (acq_by_actor q, acq_idempotency_key q) (alias_claims db) = Some c \<and>
     claim_matches c q \<and> r = (ac_result c)\<lparr>acr_duplicate := True\<rparr>)"

abbreviation mark_duplicate :: "alias_mutation_result \<Rightarrow> alias_mutation_result" where
  "mark_duplicate r \<equiv> r\<lparr>amr_duplicate := True\<rparr>"

lemma aliasRequest_extends:
  "history_extends db db' \<Longrightarrow> aliasRequestByIdempotency db a k = Some p \<Longrightarrow> aliasRequestByIdempotency db' a k = Some p"
  by (auto simp: history_extends_def aliasRequestByIdempotency_def row_by_append)

lemma mutateAlias_recorded:
  assumes "mutateAlias env a actor action by_actor by_run project k db = Inr (r, db')"
  shows "\<exists>p. aliasRequestByIdempotency db' by_actor k = Some p \<and> ah_alias p = a \<and>
    (action = AliasSet \<longrightarrow> ah_actor p = actor) \<and> ah_action p = action \<and> ah_project_id p = project \<and>
    mark_duplicate r = \<lparr>amr_alias = alias_of_history p, amr_removed = (action = AliasRemove), amr_duplicate = True\<rparr>"
  using mutateAliasD [OF assms]
proof (elim disjE exE conjE)
  fix h
  assume "alias_history db' = alias_history db @ [h]" "aliasRequestByIdempotency db by_actor k = None"
    and "h = history_entry a (next_revision a (alias_history db))
        (if action = AliasRemove then (case aliasByName db a of Inr c \<Rightarrow> al_actor c | Inl _ \<Rightarrow> []) else actor)
        action by_actor by_run project k (e_now env)"
    and "r = \<lparr>amr_alias = alias_of_history h, amr_removed = (action = AliasRemove), amr_duplicate = False\<rparr>"
  then show ?thesis
    by (intro exI [of _ h]) (simp add: aliasRequestByIdempotency_def row_by_append history_entry_def)
qed auto

interpretation set_alias: idempotent_operation SetAlias set_recorded "\<lambda>_. mark_duplicate" "\<lambda>_. True" "\<lambda>_ _. True" "\<lambda>_. history_extends"
proof unfold_locales
  fix env q db r db'
  assume "SetAlias env q db = Inr (r, db')"
  then show "set_recorded q (mark_duplicate r) db'"
    by (auto simp: SetAlias_def set_recorded_def bindE_Inr_iff requireE_Inr_iff dest!: mutateAlias_recorded)
next
  fix env q r db
  assume "set_recorded q r db"
  then show "SetAlias env q db = Inr (r, db)"
    by (auto simp: SetAlias_def set_recorded_def mutateAlias_def)
next
  fix db db' q r
  assume "history_extends db db'" "set_recorded q r db"
  then show "set_recorded q r db'" by (auto simp: set_recorded_def dest: aliasRequest_extends)
qed

interpretation remove_alias: idempotent_operation RemoveAlias remove_recorded "\<lambda>_. mark_duplicate" "\<lambda>_. True" "\<lambda>_ _. True" "\<lambda>_. history_extends"
proof unfold_locales
  fix env q db r db'
  assume "RemoveAlias env q db = Inr (r, db')"
  then show "remove_recorded q (mark_duplicate r) db'"
    by (auto simp: RemoveAlias_def remove_recorded_def bindE_Inr_iff requireE_Inr_iff dest!: mutateAlias_recorded)
next
  fix env q r db
  assume "remove_recorded q r db"
  then show "RemoveAlias env q db = Inr (r, db)"
    by (auto simp: RemoveAlias_def remove_recorded_def mutateAlias_def)
next
  fix db db' q r
  assume "history_extends db db'" "remove_recorded q r db"
  then show "remove_recorded q r db'" by (auto simp: remove_recorded_def dest: aliasRequest_extends)
qed

interpretation claim_alias: idempotent_operation ClaimAliasIfAbsent claim_recorded
  "\<lambda>_ r. r\<lparr>acr_duplicate := True\<rparr>" "\<lambda>_. True" "\<lambda>_ _. True" "\<lambda>_. history_extends"
proof unfold_locales
  fix env q db r db'
  assume "ClaimAliasIfAbsent env q db = Inr (r, db')"
  then show "claim_recorded q (r\<lparr>acr_duplicate := True\<rparr>) db'"
  proof (rule ClaimAliasIfAbsentD, goal_cases)
    case (1 q')
    from 1(4) have "(\<exists>c. row_by alias_claim_key (acq_by_actor q', acq_idempotency_key q') (alias_claims db) = Some c \<and>
        claim_matches c q' \<and> r = (ac_result c)\<lparr>acr_duplicate := True\<rparr> \<and> db' = db)
      \<or> row_by alias_claim_key (acq_by_actor q', acq_idempotency_key q') (alias_claims db) = None \<and>
        alias_claims db' = alias_claims db @ [claim_record q' r (e_now env)]"
      by blast
    then show ?case
    proof (elim disjE conjE exE)
      assume "row_by alias_claim_key (acq_by_actor q', acq_idempotency_key q') (alias_claims db) = None"
        "alias_claims db' = alias_claims db @ [claim_record q' r (e_now env)]"
      then have "row_by alias_claim_key (acq_by_actor q', acq_idempotency_key q') (alias_claims db') =
          Some (claim_record q' r (e_now env))" by (simp add: row_by_append claim_record_def)
      then show ?case using 1 by (auto simp: claim_recorded_def claim_matches_def claim_record_def)
    qed (use 1 in \<open>auto simp: claim_recorded_def\<close>)
  qed
next
  fix env q r db
  assume "claim_recorded q r db"
  then show "ClaimAliasIfAbsent env q db = Inr (r, db)"
    by (auto simp: ClaimAliasIfAbsent_def claim_recorded_def)
next
  fix db db' q r
  assume "history_extends db db'" "claim_recorded q r db"
  then show "claim_recorded q r db'"
    by (auto simp: claim_recorded_def history_extends_def row_by_append)
qed

end
