(* ===== verification/AliasProps.thy ===== *)
theory AliasProps
  imports Aliases
begin

text \<open>
  What aliases guarantee: the latest write wins and touches one name only, a removed name
  stays reserved, a claim never repoints a name, and every mutation may be repeated.
\<close>

lemma normalizeAlias_Inr: "normalizeAlias fld v = Inr a \<longleftrightarrow> a = trim v \<and> a \<noteq> [] \<and> length a \<le> 128 \<and> \<not> has_control a"
  by (auto simp: normalizeAlias_def Let_def ok_iff)

lemma ResolveAlias_normal:
  "normalizeAlias ''alias'' v = Inr a \<Longrightarrow> trim b = a \<Longrightarrow> ResolveAlias b db = aliasByName db a"
  by (auto simp: ResolveAlias_def normalizeAlias_def Let_def bindE_Inr_iff)

lemma ResolveAlias_other:
  assumes "aliasByName db (trim b) = aliasByName db' (trim b)"
  shows "ResolveAlias b db = ResolveAlias b db'"
proof (cases "normalizeAlias ''alias'' b")
  case (Inr a)
  then have "a = trim b" by (simp add: normalizeAlias_Inr)
  then show ?thesis using Inr assms by (simp add: ResolveAlias_def)
qed (simp add: ResolveAlias_def)

lemma normalizeAliasSetRequest_D:
  "normalizeAliasSetRequest q = Inr q' \<Longrightarrow>
    normalizeAlias ''alias'' (as_alias q) = Inr (as_alias q') \<and> as_actor q' = trim (as_actor q)"
  by (auto simp: normalizeAliasSetRequest_def bindE_Inr_iff)

lemma normalizeAliasRemoveRequest_D:
  "normalizeAliasRemoveRequest q = Inr q' \<Longrightarrow> normalizeAlias ''alias'' (ar_alias q) = Inr (ar_alias q')"
  by (auto simp: normalizeAliasRemoveRequest_def bindE_Inr_iff)

lemma SetAliasD:
  assumes "SetAlias env q db = Inr (r, db')"
  obtains q' :: alias_set_request where "normalizeAlias ''alias'' (as_alias q) = Inr (as_alias q')" "as_actor q' = trim (as_actor q)"
    "mutateAlias env (as_alias q') (as_actor q') AliasSet (as_by_actor q') (as_by_run q') (as_project_id q')
      (as_idempotency_key q') db = Inr (r, db')"
proof -
  obtain q' where "normalizeAliasSetRequest q = Inr q'"
    "mutateAlias env (as_alias q') (as_actor q') AliasSet (as_by_actor q') (as_by_run q') (as_project_id q')
      (as_idempotency_key q') db = Inr (r, db')"
    using assms by (auto simp: SetAlias_def bindE_Inr_iff)
  then show thesis using that [of q'] normalizeAliasSetRequest_D by blast
qed

lemma RemoveAliasD:
  assumes "RemoveAlias env q db = Inr (r, db')"
  obtains q' :: alias_remove_request where "normalizeAlias ''alias'' (ar_alias q) = Inr (ar_alias q')"
    "mutateAlias env (ar_alias q') [] AliasRemove (ar_by_actor q') (ar_by_run q') (ar_project_id q')
      (ar_idempotency_key q') db = Inr (r, db')"
proof -
  obtain q' where "normalizeAliasRemoveRequest q = Inr q'"
    "mutateAlias env (ar_alias q') [] AliasRemove (ar_by_actor q') (ar_by_run q') (ar_project_id q')
      (ar_idempotency_key q') db = Inr (r, db')"
    using assms by (auto simp: RemoveAlias_def bindE_Inr_iff)
  then show thesis using that [of q'] normalizeAliasRemoveRequest_D by blast
qed

lemma mutateAlias_newD:
  assumes "mutateAlias env a actor action by_actor by_run project k db = Inr (r, db')" and "\<not> amr_duplicate r"
  shows "\<exists>h. ah_alias h = a \<and> ah_action h = action \<and> alias_history db' = alias_history db @ [h] \<and>
    aliases db' = (if action = AliasSet then upsert_alias (alias_of_history h) (aliases db)
         else filter (\<lambda>x. al_alias x \<noteq> a) (aliases db))"
  using mutateAliasD [OF assms(1)]
proof (elim disjE exE conjE)
  fix h
  assume "h = history_entry a (next_revision a (alias_history db))
        (if action = AliasRemove then (case aliasByName db a of Inr c \<Rightarrow> al_actor c | Inl _ \<Rightarrow> []) else actor)
        action by_actor by_run project k (e_now env)"
    and "alias_history db' = alias_history db @ [h]"
    and "aliases db' = (if action = AliasSet then upsert_alias (alias_of_history h) (aliases db)
         else filter (\<lambda>x. al_alias x \<noteq> a) (aliases db))"
  then show ?thesis by (intro exI [of _ h]) (simp add: history_entry_def)
qed (use assms(2) in simp)

text \<open>
  \<^bold>\<open>C29\<close> Setting an alias points that name, and no other, at the given actor: afterwards the
  name resolves to the row the call returned, and every other name resolves as before.
  The new revision is one more than the number of changes the name has ever had.
\<close>

theorem SetAlias_resolves:
  assumes "aliases_ok db" and "SetAlias env q db = Inr (r, db')" and "\<not> amr_duplicate r"
  shows "al_actor (amr_alias r) = trim (as_actor q) \<and>
    al_revision (amr_alias r) =
      int (length (filter (\<lambda>h. ah_alias h = trim (as_alias q)) (alias_history db))) + 1 \<and>
    ResolveAlias b db' = (if trim b = trim (as_alias q) then Inr (amr_alias r) else ResolveAlias b db)"
  using assms(2)
proof (rule SetAliasD)
  fix q' :: alias_set_request
  assume n: "normalizeAlias ''alias'' (as_alias q) = Inr (as_alias q')" and a: "as_actor q' = trim (as_actor q)"
    and m: "mutateAlias env (as_alias q') (as_actor q') AliasSet (as_by_actor q') (as_by_run q') (as_project_id q')
      (as_idempotency_key q') db = Inr (r, db')"
  have name: "as_alias q' = trim (as_alias q)" using n by (simp add: normalizeAlias_Inr)
  obtain h where h: "h = history_entry (as_alias q') (next_revision (as_alias q') (alias_history db)) (as_actor q')
        AliasSet (as_by_actor q') (as_by_run q') (as_project_id q') (as_idempotency_key q') (e_now env)"
    and r: "amr_alias r = alias_of_history h" and t: "aliases db' = upsert_alias (alias_of_history h) (aliases db)"
    using mutateAliasD [OF m] assms(3) by auto
  have "revisions (as_alias q') (alias_history db) =
      map int [1 ..< Suc (length (revisions (as_alias q') (alias_history db)))]"
    using assms(1) by (simp add: aliases_ok_def)
  from next_revision_dense [OF this] have rev: "ah_revision h =
      int (length (filter (\<lambda>h. ah_alias h = as_alias q') (alias_history db))) + 1"
    by (simp add: h history_entry_def revisions_def)
  have by_name: "aliasByName db' c = (if c = as_alias q' then Inr (alias_of_history h) else aliasByName db c)" for c
    using h by (simp add: aliasByName_def t row_by_upsert_alias history_entry_def)
  have "ResolveAlias b db' = (if trim b = as_alias q' then Inr (alias_of_history h) else ResolveAlias b db)"
    using ResolveAlias_normal [OF n, of b] by_name
    by (auto intro!: ResolveAlias_other)
  moreover have "al_actor (alias_of_history h) = as_actor q'" "al_revision (alias_of_history h) = ah_revision h"
    by (simp_all add: h history_entry_def alias_of_history_def)
  ultimately show ?thesis using a rev name r by simp
qed

text \<open>
  A removed alias stays reserved: it no longer resolves, mail to it is refused as to a
  removed name, and no actor can be addressed or registered under it; other names resolve as before.
\<close>

theorem RemoveAlias_reserves:
  assumes "RemoveAlias env q db = Inr (r, db')" and "\<not> amr_duplicate r"
  shows "aliasByName db' (trim (ar_alias q)) = Inl ErrAliasNotFound \<and>
    resolveRoutes db' [Route RouteAlias (trim (ar_alias q))] = Inl ErrAliasTombstoned \<and>
    assertActorNameNotAlias db' (trim (ar_alias q)) = Inl ErrAliasConflict \<and>
    (b \<noteq> trim (ar_alias q) \<longrightarrow> aliasByName db' b = aliasByName db b)"
proof -
  obtain q' :: alias_remove_request where n: "normalizeAlias ''alias'' (ar_alias q) = Inr (ar_alias q')"
    and m: "mutateAlias env (ar_alias q') [] AliasRemove (ar_by_actor q') (ar_by_run q') (ar_project_id q')
      (ar_idempotency_key q') db = Inr (r, db')"
    using assms(1) by (rule RemoveAliasD)
  have name: "ar_alias q' = trim (ar_alias q)" using n by (simp add: normalizeAlias_Inr)
  obtain h where h: "ah_alias h = ar_alias q'" and hist: "alias_history db' = alias_history db @ [h]"
    and t: "aliases db' = filter (\<lambda>x. al_alias x \<noteq> ar_alias q') (aliases db)"
    using mutateAlias_newD [OF m assms(2)] by auto
  have rec: "alias_recorded db' (ar_alias q')" using h by (simp add: alias_recorded_def hist)
  have none: "row_by al_alias (ar_alias q') (aliases db') = None" by (simp add: t row_by_filter_alias)
  show ?thesis
    using rec none name
    by (simp add: aliasByName_def resolveRoutes_def resolve_route_def assertActorNameNotAlias_def t row_by_filter_alias)
qed

text \<open>
  The first claim wins: claiming never changes a name that already resolves, and a claim
  that is not a repeat reports the row its name now resolves to, saying truly whether it made it.
\<close>

theorem ClaimAlias_first_wins:
  assumes "ClaimAliasIfAbsent env q db = Inr (r, db')" and "aliasByName db a = Inr row"
  shows "aliasByName db' a = Inr row \<and>
    (\<not> acr_duplicate r \<longrightarrow> aliasByName db' (trim (acq_alias q)) = Inr (acr_alias r) \<and>
      (acr_claimed r \<longleftrightarrow> aliasByName db (trim (acq_alias q)) = Inl ErrAliasNotFound))"
  using assms(1)
proof (rule ClaimAliasIfAbsentD, goal_cases)
  case (1 q')
  have name: "acq_alias q' = trim (acq_alias q)"
    using 1(1) by (auto simp: normalizeAliasClaimRequest_def bindE_Inr_iff normalizeAlias_Inr Let_def)
  have e: "al_alias (alias_of_history (claim_entry q' (e_now env))) = acq_alias q'"
    by (simp add: claim_entry_def history_entry_def)
  from 1(4) have "db' = db \<and> acr_duplicate r \<or> aliases db' = aliases db \<and> \<not> acr_claimed r \<and>
        row_by al_alias (acq_alias q') (aliases db) = Some (acr_alias r)
      \<or> acr_claimed r \<and> row_by al_alias (acq_alias q') (aliases db) = None \<and>
        acr_alias r = alias_of_history (claim_entry q' (e_now env)) \<and>
        aliases db' = aliases db @ [alias_of_history (claim_entry q' (e_now env))]"
    by auto
  then show ?case
    using assms(2) e name
    by (auto simp: aliasByName_def row_by_append split: option.splits)
qed

text \<open>
  Repeating a successful \<open>SetAlias\<close>, in any later state whose alias log still starts with
  the log it left, returns the same row marked as a duplicate and changes nothing, even when
  the alias has been repointed or removed in between.
\<close>

theorem SetAlias_retry:
  assumes "SetAlias env q db = Inr (r, db1)" and "history_extends\<^sup>*\<^sup>* db1 db2"
  shows "SetAlias env2 q db2 = Inr (r\<lparr>amr_duplicate := True\<rparr>, db2)"
  by (rule set_alias.retry_later [OF TrueI assms TrueI])

lemma ClaimAlias_retry:
  assumes "ClaimAliasIfAbsent env q db = Inr (r, db1)" and "history_extends\<^sup>*\<^sup>* db1 db2"
  shows "ClaimAliasIfAbsent env2 q db2 = Inr (r\<lparr>acr_duplicate := True\<rparr>, db2)"
  by (rule claim_alias.retry_later [OF TrueI assms TrueI])

text \<open>
  Routes resolve to a sorted list of actors without repetitions: the named actors, none
  of which is an alias, and the current targets of the named aliases.
\<close>

theorem resolveRoutes_actors:
  assumes "resolveRoutes db rs = Inr (actors, resolutions)"
  shows "sorted actors \<and> distinct actors \<and>
    set actors = (\<lambda>r. case rt_kind r of RouteAlias \<Rightarrow> al_actor (projr (aliasByName db (rt_value r))) | _ \<Rightarrow> rt_value r) ` set rs \<and>
    (\<forall>r\<in>set rs. (rt_kind r = RouteActor \<longrightarrow> \<not> alias_recorded db (rt_value r)) \<and>
      (rt_kind r = RouteAlias \<longrightarrow> (\<exists>row. aliasByName db (rt_value r) = Inr row)))"
proof -
  obtain xs where m: "mapE (resolve_route db) rs = Inr xs" and actors: "actors = sort (nub (map fst xs))"
    using assms by (auto simp: resolveRoutes_def bindE_Inr_iff)
  let ?f = "\<lambda>r. case rt_kind r of RouteAlias \<Rightarrow> al_actor (projr (aliasByName db (rt_value r))) | _ \<Rightarrow> rt_value r"
  have one: "resolve_route db r = Inr x \<Longrightarrow> fst x = ?f r \<and> (rt_kind r = RouteActor \<longrightarrow> \<not> alias_recorded db (rt_value r)) \<and>
      (rt_kind r = RouteAlias \<longrightarrow> (\<exists>row. aliasByName db (rt_value r) = Inr row))" for r x
    by (auto simp: resolve_route_def assertActorNameNotAlias_def bindE_Inr_iff requireE_Inr_iff aliasByName_def
        split: route_kind.splits option.splits if_splits)
  have all: "list_all2 (\<lambda>r x. resolve_route db r = Inr x) rs xs" using m by (simp add: mapE_Inr_list_all2)
  then have "map fst xs = map ?f rs"
    by (induction rule: list_all2_induct) (auto dest: one)
  moreover from all have "\<forall>r\<in>set rs. \<exists>x. resolve_route db r = Inr x"
    by (induction rule: list_all2_induct) auto
  ultimately show ?thesis using one by (auto simp: actors)
qed

section \<open>The properties at a concrete store\<close>

definition sample_set :: alias_set_request where
  "sample_set = \<lparr>as_alias = '' ops'', as_actor = ''carol'', as_by_actor = ''alice'', as_by_run = ''run1'',
     as_project_id = ''p'', as_idempotency_key = ''a1''\<rparr>"

definition sample_remove :: alias_remove_request where
  "sample_remove = \<lparr>ar_alias = ''ops'', ar_by_actor = ''alice'', ar_by_run = ''run1'',
     ar_project_id = ''p'', ar_idempotency_key = ''a2''\<rparr>"

definition sample_alias_claim :: alias_claim_request where
  "sample_alias_claim = \<lparr>acq_alias = ''p-claude'', acq_actor = ''bob'', acq_policy_id = naming_policy,
     acq_harness = ''Claude'', acq_by_actor = ''alice'', acq_by_run = ''run1'', acq_project_id = ''p'',
     acq_idempotency_key = ''a3''\<rparr>"

definition sample_aliased :: "alias_mutation_result \<times> db" where
  "sample_aliased = projr (SetAlias (sample_env 100) sample_set sample_db)"

definition sample_removed :: "alias_mutation_result \<times> db" where
  "sample_removed = projr (RemoveAlias (sample_env 110) sample_remove (snd sample_aliased))"

definition sample_claimed :: "alias_claim_result \<times> db" where
  "sample_claimed = projr (ClaimAliasIfAbsent (sample_env 120) sample_alias_claim (snd sample_aliased))"

lemma sample_aliases_ok: "aliases_ok sample_db"
  by (simp add: aliases_ok_def alias_view_def revisions_def sample_db_def empty_db_def)

lemma sample_alias_runs:
  "SetAlias (sample_env 100) sample_set sample_db = Inr (fst sample_aliased, snd sample_aliased)"
  "RemoveAlias (sample_env 110) sample_remove (snd sample_aliased) = Inr (fst sample_removed, snd sample_removed)"
  "ClaimAliasIfAbsent (sample_env 120) sample_alias_claim (snd sample_aliased) = Inr (fst sample_claimed, snd sample_claimed)"
proof -
  have "\<not> isl (SetAlias (sample_env 100) sample_set sample_db)" by code_simp
  then show "SetAlias (sample_env 100) sample_set sample_db = Inr (fst sample_aliased, snd sample_aliased)"
    unfolding sample_aliased_def by (rule answered)
  have "\<not> isl (RemoveAlias (sample_env 110) sample_remove (snd sample_aliased))" by code_simp
  then show "RemoveAlias (sample_env 110) sample_remove (snd sample_aliased) = Inr (fst sample_removed, snd sample_removed)"
    unfolding sample_removed_def by (rule answered)
  have "\<not> isl (ClaimAliasIfAbsent (sample_env 120) sample_alias_claim (snd sample_aliased))" by code_simp
  then show "ClaimAliasIfAbsent (sample_env 120) sample_alias_claim (snd sample_aliased) = Inr (fst sample_claimed, snd sample_claimed)"
    unfolding sample_claimed_def by (rule answered)
qed

lemma sample_history_extends: "history_extends (snd sample_aliased) (snd sample_removed)"
proof -
  have "alias_history (snd sample_removed) =
      alias_history (snd sample_aliased) @ drop 1 (alias_history (snd sample_removed))"
    "alias_claims (snd sample_removed) = alias_claims (snd sample_aliased) @ []" by code_simp+
  then show ?thesis unfolding history_extends_def by blast
qed

lemma SetAlias_resolves_witness:
  "ResolveAlias ''ops'' (snd sample_aliased) = Inr (amr_alias (fst sample_aliased)) \<and>
    al_actor (amr_alias (fst sample_aliased)) = ''carol'' \<and> al_revision (amr_alias (fst sample_aliased)) = 1"
proof -
  have n: "\<not> amr_duplicate (fst sample_aliased)" by code_simp
  have "trim ''ops'' = trim (as_alias sample_set)" "trim (as_actor sample_set) = ''carol''" by code_simp+
  moreover have "alias_history sample_db = []" by (simp add: sample_db_def empty_db_def)
  ultimately show ?thesis
    using SetAlias_resolves [OF sample_aliases_ok sample_alias_runs(1) n, of "''ops''"] by simp
qed

lemma RemoveAlias_reserves_witness:
  "aliasByName (snd sample_removed) (trim (ar_alias sample_remove)) = Inl ErrAliasNotFound"
proof -
  have n: "\<not> amr_duplicate (fst sample_removed)" by code_simp
  show ?thesis using RemoveAlias_reserves [OF sample_alias_runs(2) n] by blast
qed

lemma ClaimAlias_first_wins_witness:
  "aliasByName (snd sample_claimed) (trim (acq_alias sample_alias_claim)) = Inr (acr_alias (fst sample_claimed)) \<and>
    aliasByName (snd sample_claimed) ''ops'' = Inr (amr_alias (fst sample_aliased))"
proof -
  have o: "aliasByName (snd sample_aliased) ''ops'' = Inr (amr_alias (fst sample_aliased))" by code_simp
  have "\<not> acr_duplicate (fst sample_claimed)" by code_simp
  then show ?thesis using ClaimAlias_first_wins [OF sample_alias_runs(3) o] by blast
qed

lemma SetAlias_retry_witness:
  "SetAlias (sample_env 500) sample_set (snd sample_removed) =
    Inr ((fst sample_aliased)\<lparr>amr_duplicate := True\<rparr>, snd sample_removed)"
  by (rule SetAlias_retry [OF sample_alias_runs(1) r_into_rtranclp, OF sample_history_extends])

lemma resolveRoutes_actors_witness:
  "\<exists>actors. resolveRoutes (snd sample_aliased) [Route RouteAlias ''ops'', Route RouteActor ''bob''] = Inr (actors, [(''ops'', ''carol'')])
    \<and> sorted actors \<and> distinct actors"
proof -
  let ?r = "resolveRoutes (snd sample_aliased) [Route RouteAlias ''ops'', Route RouteActor ''bob'']"
  have "?r = Inr (fst (projr ?r), [(''ops'', ''carol'')])" by code_simp
  with resolveRoutes_actors [OF this] show ?thesis by blast
qed

end
