(* ===== verification/Send.thy ===== *)
theory Send
  imports Aliases Delivery
begin

text \<open>
  \<open>Store.Send\<close>: one transaction that answers a repeated request from the stored message, or
  else resolves the routes, reserves the names, stores the message, one queued delivery per
  recipient, the notifications, and the events.
\<close>

section \<open>Completing the request\<close>

text \<open>
  The routes the request asks for, and for a reply the parent message, whose thread it joins.
\<close>

definition complete_request :: "db \<Rightarrow> send_request \<Rightarrow> error + (send_request \<times> message option)" where
  "complete_request db req =
    (let legacy = sr_to_actors req;
         req1 = req\<lparr>sr_requested_to_actors := legacy\<rparr>;
         req2 = (if sr_destinations req \<noteq> [] then req1\<lparr>sr_requested_routes := sr_destinations req\<rparr>
           else if sr_in_reply_to req = [] then req1\<lparr>sr_requested_routes := classifyLegacyRoutes db legacy\<rparr>
           else req1) in
     if sr_in_reply_to req = [] then Inr (req2, None)
     else case getMessageByID db (sr_in_reply_to req) of
       Inl e \<Rightarrow> Inl (if e = ErrNotFound then ValidationError ''in_reply_to'' ''message does not exist'' else e)
     | Inr parent \<Rightarrow>
         bindE (requireE (sr_project_id req = msg_project_id parent \<and> sr_channel_id req = msg_channel_id parent)
           (ValidationError ''in_reply_to'' ''message belongs to a different project or channel'')) (\<lambda>_.
         bindE (requireE (sr_thread_id req = [] \<or> sr_thread_id req = msg_thread_id parent)
           (ValidationError ''thread_id'' ''does not match in_reply_to message'')) (\<lambda>_.
         Inr (req2\<lparr>sr_thread_id := msg_thread_id parent,
                   sr_requested_routes := [Route RouteReply (msg_id parent)]\<rparr>, Some parent))))"

text \<open>A reply goes to the parent's sender, whatever the legacy recipient list resolves to.\<close>

definition send_recipients ::
  "db \<Rightarrow> send_request \<Rightarrow> message option \<Rightarrow> error + (string list \<times> (string \<times> string) list)" where
  "send_recipients db req parent =
    (case parent of
       Some p \<Rightarrow>
         bindE (if sr_requested_to_actors req \<noteq> [] then
             bindE (resolveRoutes db (classifyLegacyRoutes db (sr_requested_to_actors req))) (\<lambda>(actors, _).
             requireE (actors = [msg_from_actor p]) (ValidationError ''to_actors''
               ''does not match the immutable sender of in_reply_to; omit it when replying''))
           else Inr ()) (\<lambda>_.
         Inr ([msg_from_actor p], []))
     | None \<Rightarrow> resolveRoutes db (sr_requested_routes req))"

section \<open>Storing the message\<close>

definition message_of_request :: "string \<Rightarrow> int \<Rightarrow> string list \<Rightarrow> send_request \<Rightarrow> message" where
  "message_of_request mid now to req = \<lparr>
     msg_id = mid, msg_schema_version = 1, msg_idempotency_key = sr_idempotency_key req,
     msg_project_id = sr_project_id req, msg_channel_id = sr_channel_id req,
     msg_thread_id = sr_thread_id req, msg_from_actor = sr_from_actor req,
     msg_from_run = sr_from_run req, msg_from_role = sr_from_role req, msg_to_actors = to,
     msg_requested_routes = sr_requested_routes req, msg_type = sr_type req,
     msg_delivery_request = sr_delivery_request req, msg_in_reply_to = sr_in_reply_to req,
     msg_body = sr_body req, msg_created_at = now, msg_expires_at = sr_expires_at req,
     msg_requested_to_actors = sr_requested_to_actors req\<rparr>"

definition row_of_message :: "message \<Rightarrow> message_row" where
  "row_of_message m = \<lparr>
     mr_id = msg_id m, mr_schema_version = msg_schema_version m, mr_idempotency_key = msg_idempotency_key m,
     mr_project_id = msg_project_id m, mr_channel_id = msg_channel_id m,
     mr_thread_id = nullif (msg_thread_id m), mr_from_actor = msg_from_actor m,
     mr_from_run = msg_from_run m, mr_from_role = nullif (msg_from_role m), mr_type = msg_type m,
     mr_delivery_request = msg_delivery_request m, mr_in_reply_to = nullif (msg_in_reply_to m),
     mr_body = msg_body m, mr_created_at = msg_created_at m, mr_expires_at = msg_expires_at m,
     mr_requested = RequestedTyped (msg_requested_routes m), mr_conversation = None, mr_channel_seq = None\<rparr>"

definition queued_row :: "string \<Rightarrow> string \<Rightarrow> delivery_row" where
  "queued_row mid actor = \<lparr>dl_message_id = mid, dl_recipient = actor, dl_state = Queued, dl_attempt = 0,
     dl_lease_token = None, dl_terminal_token = None, dl_lease_expires = None, dl_claimed_at = None,
     dl_acked_at = None, dl_last_error = None\<rparr>"

definition pending_row :: "string \<Rightarrow> string \<Rightarrow> int \<Rightarrow> outbox_row" where
  "pending_row mid actor now = \<lparr>ob_message_id = mid, ob_recipient = actor, ob_state = Pending, ob_attempt = 0,
     ob_available_at = now, ob_last_error = None, ob_created_at = now, ob_source = LegacySource\<rparr>"

text \<open>\<open>INSERT OR IGNORE INTO notification_outbox\<close>.\<close>

definition enqueue_notification :: "string \<Rightarrow> int \<Rightarrow> string \<Rightarrow> outbox_row list \<Rightarrow> outbox_row list" where
  "enqueue_notification mid now actor rows =
    (if row_by outbox_key (mid, actor) rows = None then rows @ [pending_row mid actor now] else rows)"

definition notification_actor :: "db \<Rightarrow> string \<Rightarrow> string" where
  "notification_actor db a = (case adopter db a of Some b \<Rightarrow> b | None \<Rightarrow> a)"

definition store_message :: "env \<Rightarrow> message \<Rightarrow> db \<Rightarrow> error + db" where
  "store_message env m db =
    bindE (requireE (msg_id m \<notin> mr_id ` set (messages db)) (SqlConstraint ''messages.message_id'')) (\<lambda>_.
    Inr (db\<lparr>messages := messages db @ [row_of_message m],
      deliveries := deliveries db @ map (queued_row (msg_id m)) (msg_to_actors m),
      outbox := (if msg_delivery_request m \<noteq> NonBlocking
        then fold (enqueue_notification (msg_id m) (e_now env)) (map (notification_actor db) (msg_to_actors m)) (outbox db)
        else outbox db)\<rparr>))"

definition sent_payload :: "env \<Rightarrow> message \<Rightarrow> (string \<times> string) list \<Rightarrow> payload" where
  "sent_payload env m resolutions =
    (let p = pput ''recipients'' (PStrs (msg_to_actors m)) (pput ''type'' (PStr (msg_type m))
           (pput ''from_run'' (PStr (msg_from_run m)) (EventProvenance (e_caller env) (msg_from_run m)))) in
     if resolutions \<noteq> [] then pput ''alias_resolution'' (PMap resolutions) p else p)"

definition record_sent :: "env \<Rightarrow> message \<Rightarrow> (string \<times> string) list \<Rightarrow> db \<Rightarrow> error + db" where
  "record_sent env m resolutions db =
    bindE (appendEvent env (msg_project_id m) ''durable'' ''message.sent'' (msg_id m) (msg_from_actor m)
      (Some (sent_payload env m resolutions)) db)
    (foldE (\<lambda>r. appendEvent env (msg_project_id m) ''operational'' ''delivery.queued'' (msg_id m) r None)
      (msg_to_actors m))"

text \<open>The rest of the transaction, once the request is known to be new.\<close>

definition send_new :: "env \<Rightarrow> send_request \<Rightarrow> message option \<Rightarrow> db \<Rightarrow> error + (send_result \<times> db)" where
  "send_new env req parent db =
    bindE (send_recipients db req parent) (\<lambda>(to, resolutions).
    bindE (forE to (\<lambda>a. requireE (\<not> is_human_actor a) ErrChannelCapability)) (\<lambda>_.
    let db1 = fold (\<lambda>a. reserve_name a (e_now env)) (sr_from_actor req # to) db in
    bindE (forE to (\<lambda>a. requireE (\<not> (actorArchived db1 a \<and> adopter db1 a = None)) ErrActorArchived)) (\<lambda>_.
    bindE (newID env ''msg'' db1) (\<lambda>(mid, db2).
    let m = message_of_request mid (e_now env) to req in
    bindE (store_message env m db2) (\<lambda>db3.
    bindE (record_sent env m resolutions db3) (\<lambda>db4.
    Inr (\<lparr>res_message = m, res_duplicate = False,
          res_notification_state = (if msg_delivery_request m \<noteq> NonBlocking then ''pending'' else [])\<rparr>, db4)))))))"

definition Send :: "env \<Rightarrow> send_request \<Rightarrow> db \<Rightarrow> error + (send_result \<times> db)" where
  "Send env request db =
    bindE (NormalizeSendRequest request) (\<lambda>req.
    bindE (requireE (\<not> is_human_actor (sr_from_actor req)) ErrChannelCapability) (\<lambda>_.
    bindE (requireE (case sr_expires_at req of None \<Rightarrow> True | Some e \<Rightarrow> e_now env < e)
      (ValidationError ''expires_at'' ''must be in the future'')) (\<lambda>_.
    bindE (assertActorNotAdopted db (sr_from_actor req)) (\<lambda>_.
    bindE (complete_request db req) (\<lambda>(req', parent).
    case getMessageByIdempotency db (sr_from_actor req') (sr_idempotency_key req') of
      Inr existing \<Rightarrow>
        if EquivalentRequest existing req'
        then Inr (\<lparr>res_message = existing, res_duplicate = True, res_notification_state = []\<rparr>, db)
        else Inl ErrIdempotencyConflict
    | Inl e \<Rightarrow> if e = ErrNotFound then send_new env req' parent db else Inl e)))))"

section \<open>What a successful send did\<close>

lemma foldE_appendEvent_frame:
  assumes "foldE (\<lambda>r. appendEvent env p s k m' r None) rs db = Inr db'"
  shows "same_actors db db'" "same_mail db db'" "actor_names db' = actor_names db"
    "events_ok db \<Longrightarrow> events_ok db'" "\<exists>es. events db' = events db @ es \<and> map ev_actor_id es = map nullif rs \<and>
      (\<forall>e\<in>set es. ev_kind e = k \<and> ev_message_id e = nullif m')"
proof -
  show "same_actors db db'"
    by (rule foldE_inv [OF assms, where P = "same_actors db"])
      (auto dest: appendEvent_same(1) intro: same_actors_trans)
  show "same_mail db db'"
    by (rule foldE_inv [OF assms, where P = "same_mail db"])
      (auto dest: appendEvent_same(2) intro: same_mail_trans)
  show "actor_names db' = actor_names db"
    by (rule foldE_frame [OF assms]) (rule appendEvent_same(3))
  show "events_ok db \<Longrightarrow> events_ok db'"
    by (rule foldE_inv [OF assms]) (auto dest: appendEvent_events_ok)
  show "\<exists>es. events db' = events db @ es \<and> map ev_actor_id es = map nullif rs \<and>
      (\<forall>e\<in>set es. ev_kind e = k \<and> ev_message_id e = nullif m')"
    using assms
  proof (induction rs arbitrary: db)
    case (Cons r rs)
    then obtain db1 where 1: "appendEvent env p s k m' r None db = Inr db1"
      and 2: "foldE (\<lambda>r. appendEvent env p s k m' r None) rs db1 = Inr db'"
      by (auto simp: bindE_Inr_iff)
    obtain e where "events db1 = events db @ [e]" "ev_actor_id e = nullif r" "ev_kind e = k" "ev_message_id e = nullif m'"
      using appendEvent_shape [OF 1] by auto
    moreover obtain es where "events db' = events db1 @ es" "map ev_actor_id es = map nullif rs"
      "\<forall>e\<in>set es. ev_kind e = k \<and> ev_message_id e = nullif m'"
      using Cons.IH [OF 2] by blast
    ultimately show ?case by (intro exI [of _ "e # es"]) simp
  qed simp
qed

lemma reserve_names_frame:
  "\<exists>ns. fold (\<lambda>a. reserve_name a now) as db = db\<lparr>actor_names := ns\<rparr> \<and>
    an_actor ` set ns = an_actor ` set (actor_names db) \<union> set as"
proof (induction "as" arbitrary: db)
  case Nil
  show ?case by (intro exI [of _ "actor_names db"]) simp
next
  case (Cons a as')
  obtain ns where ns: "fold (\<lambda>a. reserve_name a now) as' (reserve_name a now db) =
      (reserve_name a now db)\<lparr>actor_names := ns\<rparr>"
    "an_actor ` set ns = an_actor ` set (actor_names (reserve_name a now db)) \<union> set as'"
    using Cons.IH by blast
  obtain ms where "reserve_name a now db = db\<lparr>actor_names := ms\<rparr>" using reserve_name_shape by blast
  then show ?case using ns reserve_name_set [of a now db] by (intro exI [of _ ns]) auto
qed

lemma send_newD:
  assumes "send_new env req parent db = Inr (r, db')"
  obtains to resolutions mid where
    "send_recipients db req parent = Inr (to, resolutions)" "\<forall>a\<in>set to. \<not> is_human_actor a"
    "\<forall>a\<in>set to. \<not> (actorArchived db a \<and> adopter db a = None)"
    "e_gen env ''msg'' (db_ids db) = Some mid" "mid \<notin> mr_id ` set (messages db)"
    "r = \<lparr>res_message = message_of_request mid (e_now env) to req, res_duplicate = False,
       res_notification_state = (if sr_delivery_request req \<noteq> NonBlocking then ''pending'' else [])\<rparr>"
    "messages db' = messages db @ [row_of_message (message_of_request mid (e_now env) to req)]"
    "deliveries db' = deliveries db @ map (queued_row mid) to"
    "outbox db' = (if sr_delivery_request req \<noteq> NonBlocking
       then fold (enqueue_notification mid (e_now env)) (map (notification_actor db) to) (outbox db) else outbox db)"
    "same_actors db db'"
    "an_actor ` set (actor_names db') = an_actor ` set (actor_names db) \<union> insert (sr_from_actor req) (set to)"
    "events_ok db \<Longrightarrow> events_ok db'"
    "\<exists>e es. events db' = events db @ e # es \<and> ev_kind e = ''message.sent'' \<and> ev_message_id e = nullif mid \<and>
      map ev_actor_id es = map nullif to \<and> (\<forall>e\<in>set es. ev_kind e = ''delivery.queued'' \<and> ev_message_id e = nullif mid)"
proof -
  obtain to resolutions where to: "send_recipients db req parent = Inr (to, resolutions)"
    and rest: "bindE (forE to (\<lambda>a. requireE (\<not> is_human_actor a) ErrChannelCapability)) (\<lambda>_.
    let db1 = fold (\<lambda>a. reserve_name a (e_now env)) (sr_from_actor req # to) db in
    bindE (forE to (\<lambda>a. requireE (\<not> (actorArchived db1 a \<and> adopter db1 a = None)) ErrActorArchived)) (\<lambda>_.
    bindE (newID env ''msg'' db1) (\<lambda>(mid, db2).
    let m = message_of_request mid (e_now env) to req in
    bindE (store_message env m db2) (\<lambda>db3.
    bindE (record_sent env m resolutions db3) (\<lambda>db4.
    Inr (\<lparr>res_message = m, res_duplicate = False,
          res_notification_state = (if msg_delivery_request m \<noteq> NonBlocking then ''pending'' else [])\<rparr>, db4)))))) = Inr (r, db')"
    using assms by (auto simp: send_new_def bindE_Inr_iff)
  obtain ns where ns: "fold (\<lambda>a. reserve_name a (e_now env)) (sr_from_actor req # to) db = db\<lparr>actor_names := ns\<rparr>"
    and names: "an_actor ` set ns = an_actor ` set (actor_names db) \<union> set (sr_from_actor req # to)"
    using reserve_names_frame by blast
  let ?db1 = "db\<lparr>actor_names := ns\<rparr>"
  have adp: "actorArchived ?db1 a = actorArchived db a" "adopter ?db1 a = adopter db a" for a
    by (simp_all add: actorArchived_def adopter_def)
  let ?m = "\<lambda>mid. message_of_request mid (e_now env) to req"
  obtain mid db3 where chk: "\<forall>a\<in>set to. \<not> is_human_actor a"
      "\<forall>a\<in>set to. \<not> (actorArchived db a \<and> adopter db a = None)"
      "e_gen env ''msg'' (db_ids db) = Some mid"
    and st: "store_message env (?m mid) (?db1\<lparr>db_ids := Suc (db_ids db)\<rparr>) = Inr db3"
    and rc: "record_sent env (?m mid) resolutions db3 = Inr db'"
    and r: "r = \<lparr>res_message = ?m mid, res_duplicate = False,
       res_notification_state = (if msg_delivery_request (?m mid) \<noteq> NonBlocking then ''pending'' else [])\<rparr>"
    using rest unfolding ns
    by (auto simp: Let_def bindE_Inr_iff requireE_Inr_iff forE_Inr_iff newID_Inr_iff adp)
  have na: "notification_actor (?db1\<lparr>db_ids := n\<rparr>) = notification_actor db" for n
    by (auto simp: notification_actor_def adopter_def fun_eq_iff)
  have st': "mid \<notin> mr_id ` set (messages db)"
    "messages db3 = messages db @ [row_of_message (?m mid)]"
    "deliveries db3 = deliveries db @ map (queued_row mid) to"
    "outbox db3 = (if sr_delivery_request req \<noteq> NonBlocking
       then fold (enqueue_notification mid (e_now env)) (map (notification_actor db) to) (outbox db) else outbox db)"
    "same_actors db db3" "actor_names db3 = ns" "events_ok db \<Longrightarrow> events_ok db3" "events db3 = events db"
    using st by (auto simp: store_message_def bindE_Inr_iff requireE_Inr_iff message_of_request_def na same_actors_def)
  obtain db4 pl where e1: "appendEvent env (msg_project_id (?m mid)) ''durable'' ''message.sent'' mid (sr_from_actor req) (Some pl) db3 = Inr db4"
    and e2: "foldE (\<lambda>r. appendEvent env (msg_project_id (?m mid)) ''operational'' ''delivery.queued'' mid r None) to db4 = Inr db'"
    using rc by (auto simp: record_sent_def bindE_Inr_iff message_of_request_def)
  note f1 = appendEvent_same [OF e1] and f2 = foldE_appendEvent_frame [OF e2]
  have "same_actors db db'" using st'(5) f1(1) f2(1) by (blast intro: same_actors_trans)
  moreover have "same_mail db3 db'" using f1(2) f2(2) by (rule same_mail_trans)
  moreover have "events_ok db'" if "events_ok db"
    using that st'(7) appendEvent_events_ok [OF e1] f2(4) by blast
  moreover have "\<exists>e es. events db' = events db @ e # es \<and> ev_kind e = ''message.sent'' \<and> ev_message_id e = nullif mid \<and>
      map ev_actor_id es = map nullif to \<and> (\<forall>e\<in>set es. ev_kind e = ''delivery.queued'' \<and> ev_message_id e = nullif mid)"
  proof -
    obtain e where "events db4 = events db @ [e]" "ev_kind e = ''message.sent''" "ev_message_id e = nullif mid"
      using appendEvent_shape [OF e1] st'(8) by auto
    moreover obtain es where "events db' = events db4 @ es" "map ev_actor_id es = map nullif to"
      "\<forall>e\<in>set es. ev_kind e = ''delivery.queued'' \<and> ev_message_id e = nullif mid"
      using f2(5) by blast
    ultimately show ?thesis by (intro exI [of _ e] exI [of _ es]) simp
  qed
  ultimately show thesis
    using that [OF to chk(1,2,3) st'(1)] r st' names f1(3) f2(3)
    by (simp add: same_mail_def message_of_request_def)
qed

end
