(* ===== verification/SendProps.thy ===== *)
theory SendProps
  imports Send
begin

text \<open>
  What \<open>Store.Send\<close> guarantees: it keeps the store well formed, delivers exactly once to each
  resolved recipient, sends replies to the parent's sender, and may be repeated.
\<close>

section \<open>Inversion and invariants\<close>

lemma SendD:
  assumes "Send env q db = Inr (r, db')"
  obtains req req' parent where "NormalizeSendRequest q = Inr req" "\<not> is_human_actor (sr_from_actor req)"
    "case sr_expires_at req of None \<Rightarrow> True | Some e \<Rightarrow> e_now env < e" "adopter db (sr_from_actor req) = None"
    "complete_request db req = Inr (req', parent)"
    "(\<exists>m. getMessageByIdempotency db (sr_from_actor req') (sr_idempotency_key req') = Inr m \<and>
        EquivalentRequest m req' \<and> r = \<lparr>res_message = m, res_duplicate = True, res_notification_state = []\<rparr> \<and> db' = db)
     \<or> getMessageByIdempotency db (sr_from_actor req') (sr_idempotency_key req') = Inl ErrNotFound \<and>
        send_new env req' parent db = Inr (r, db')"
proof -
  obtain req req' parent where *: "NormalizeSendRequest q = Inr req" "\<not> is_human_actor (sr_from_actor req)"
    "case sr_expires_at req of None \<Rightarrow> True | Some e \<Rightarrow> e_now env < e" "adopter db (sr_from_actor req) = None"
    "complete_request db req = Inr (req', parent)"
    and out: "(case getMessageByIdempotency db (sr_from_actor req') (sr_idempotency_key req') of
      Inr existing \<Rightarrow>
        if EquivalentRequest existing req'
        then Inr (\<lparr>res_message = existing, res_duplicate = True, res_notification_state = []\<rparr>, db)
        else Inl ErrIdempotencyConflict
    | Inl e \<Rightarrow> if e = ErrNotFound then send_new env req' parent db else Inl e) = Inr (r, db')"
    using assms
    by (auto simp: Send_def assertActorNotAdopted_def bindE_Inr_iff requireE_Inr_iff)
  show thesis
    by (rule that [OF *]) (use out in \<open>auto split: sum.splits if_splits\<close>)
qed

lemma complete_request_fields:
  assumes "complete_request db req = Inr (req', parent)"
  shows "sr_from_actor req' = sr_from_actor req" "sr_idempotency_key req' = sr_idempotency_key req"
    "sr_project_id req' = sr_project_id req" "sr_channel_id req' = sr_channel_id req"
    "sr_from_run req' = sr_from_run req" "sr_from_role req' = sr_from_role req" "sr_type req' = sr_type req"
    "sr_delivery_request req' = sr_delivery_request req" "sr_in_reply_to req' = sr_in_reply_to req"
    "sr_body req' = sr_body req" "sr_expires_at req' = sr_expires_at req"
    "sr_requested_to_actors req' = sr_to_actors req"
    "sr_in_reply_to req = [] \<longleftrightarrow> parent = None"
    "parent = Some p \<Longrightarrow> getMessageByID db (sr_in_reply_to req) = Inr p \<and>
       sr_requested_routes req' = [Route RouteReply (msg_id p)] \<and> msg_project_id p = sr_project_id req \<and>
       msg_channel_id p = sr_channel_id req \<and> sr_thread_id req' = msg_thread_id p"
    "parent = None \<Longrightarrow> sr_requested_routes req' = (if sr_destinations req \<noteq> [] then sr_destinations req
       else classifyLegacyRoutes db (sr_to_actors req))"
  using assms
  by (auto simp: complete_request_def Let_def bindE_Inr_iff requireE_Inr_iff split: sum.splits if_splits)

lemma getMessageByIdempotency_none:
  assumes "messages_ok db" and "getMessageByIdempotency db a k = Inl ErrNotFound"
  shows "(a, k) \<notin> (\<lambda>m. (mr_from_actor m, mr_idempotency_key m)) ` set (messages db)"
proof (cases "row_by (\<lambda>m. (mr_from_actor m, mr_idempotency_key m)) (a, k) (messages db)")
  case None then show ?thesis by (auto simp: row_by_None_iff)
next
  case (Some m)
  then have m: "m \<in> set (messages db)" using row_by_SomeD by fastforce
  show ?thesis
  proof (cases "mr_conversation m")
    case None
    then have "getMessageByID db (mr_id m) = Inr (message_of_row db m)"
      using legacy_row_by_unique [OF assms(1), of m] m by (simp add: getMessageByID_def legacy_messages_def)
    then show ?thesis using assms(2) Some None by (simp add: getMessageByIdempotency_def)
  next
    case (Some c)
    then show ?thesis using assms(2) \<open>row_by _ _ _ = Some m\<close> by (simp add: getMessageByIdempotency_def)
  qed
qed

lemma send_recipients_distinct:
  assumes "send_recipients db req parent = Inr (to, res)"
  shows "distinct to" "sorted to"
  using assms
  by (auto simp: send_recipients_def resolveRoutes_def bindE_Inr_iff split: option.splits)

lemma Send_new_cases:
  assumes "Send env q db = Inr (r, db')"
  obtains "db' = db" "res_duplicate r" | req req' parent where "NormalizeSendRequest q = Inr req"
    "complete_request db req = Inr (req', parent)" "adopter db (sr_from_actor req) = None"
    "getMessageByIdempotency db (sr_from_actor req) (sr_idempotency_key req) = Inl ErrNotFound"
    "send_new env req' parent db = Inr (r, db')"
  using assms
proof (rule SendD)
  fix req req' parent
  assume *: "NormalizeSendRequest q = Inr req" "complete_request db req = Inr (req', parent)"
    "adopter db (sr_from_actor req) = None"
    and c: "(\<exists>m. getMessageByIdempotency db (sr_from_actor req') (sr_idempotency_key req') = Inr m \<and>
        EquivalentRequest m req' \<and> r = \<lparr>res_message = m, res_duplicate = True, res_notification_state = []\<rparr> \<and> db' = db)
     \<or> getMessageByIdempotency db (sr_from_actor req') (sr_idempotency_key req') = Inl ErrNotFound \<and>
        send_new env req' parent db = Inr (r, db')"
  note f = complete_request_fields(1,2) [OF *(2)]
  from c show thesis
    using that(1) that(2) [OF *] f by auto
qed

lemma Send_invariants:
  assumes "Send env q db = Inr (r, db')"
  shows "events_ok db \<Longrightarrow> events_ok db'" "same_actors db db'"
    "messages_ok db \<Longrightarrow> messages_ok db'"
    "messages_ok db \<Longrightarrow> deliveries_ok db \<Longrightarrow> deliveries_ok db'"
proof -
  have all: "(events_ok db \<longrightarrow> events_ok db') \<and> same_actors db db' \<and> (messages_ok db \<longrightarrow> messages_ok db') \<and>
    (messages_ok db \<longrightarrow> deliveries_ok db \<longrightarrow> deliveries_ok db')"
    using assms
  proof (rule Send_new_cases)
    fix req req' parent
    assume c: "complete_request db req = Inr (req', parent)"
      and g: "getMessageByIdempotency db (sr_from_actor req) (sr_idempotency_key req) = Inl ErrNotFound"
      and n: "send_new env req' parent db = Inr (r, db')"
    note f = complete_request_fields(1,2) [OF c]
    obtain to res mid where to: "send_recipients db req' parent = Inr (to, res)"
      and mid: "mid \<notin> mr_id ` set (messages db)"
      and ms: "messages db' = messages db @ [row_of_message (message_of_request mid (e_now env) to req')]"
      and ds: "deliveries db' = deliveries db @ map (queued_row mid) to"
      and sa: "same_actors db db'" and ev: "events_ok db \<Longrightarrow> events_ok db'"
      using n by (rule send_newD) (rule that)
    have key: "(mr_from_actor x, mr_idempotency_key x) = (sr_from_actor req, sr_idempotency_key req)"
      "mr_id x = mid" "mr_conversation x = None"
      if "x = row_of_message (message_of_request mid (e_now env) to req')" for x
      using that f by (simp_all add: row_of_message_def message_of_request_def)
    have "messages_ok db'" if "messages_ok db"
      using that mid getMessageByIdempotency_none [OF that g] key
      by (auto simp: messages_ok_def ms)
    moreover have "deliveries_ok db'" if m: "messages_ok db" and d: "deliveries_ok db"
    proof -
      have leg: "legacy_messages db' = legacy_messages db @ [row_of_message (message_of_request mid (e_now env) to req')]"
        using key by (simp add: legacy_messages_def ms)
      have sub: "mr_id ` set (legacy_messages db) \<subseteq> mr_id ` set (messages db)" by (auto simp: legacy_messages_def)
      have new: "dl_message_id x \<noteq> mid" if "x \<in> set (deliveries db)" for x
      proof -
        have "dl_message_id x \<in> mr_id ` set (legacy_messages db)" using d that by (simp add: deliveries_ok_def)
        then show ?thesis using sub mid by blast
      qed
      have "map delivery_key (map (queued_row mid) to) = map (Pair mid) to" by (simp add: queued_row_def)
      moreover have "distinct (map (Pair mid) to)"
        using send_recipients_distinct(1) [OF to] by (simp add: distinct_map inj_on_def)
      moreover have "set (map delivery_key (deliveries db)) \<inter> set (map (Pair mid) to) = {}" using new by auto
      ultimately have "distinct (map delivery_key (deliveries db'))"
        using d unfolding ds map_append distinct_append by (simp only: deliveries_ok_def)
      then show ?thesis
        using d key by (auto simp: deliveries_ok_def ds leg queued_row_def delivery_shape_def)
    qed
    ultimately show ?thesis using sa ev by blast
  qed simp
  then show "events_ok db \<Longrightarrow> events_ok db'" "same_actors db db'"
    "messages_ok db \<Longrightarrow> messages_ok db'"
    "messages_ok db \<Longrightarrow> deliveries_ok db \<Longrightarrow> deliveries_ok db'" by blast+
qed

section \<open>Idempotency\<close>

definition duplicate_of :: "message \<Rightarrow> send_result" where
  "duplicate_of m = \<lparr>res_message = m, res_duplicate = True, res_notification_state = []\<rparr>"

definition send_recorded :: "send_request \<Rightarrow> send_result \<Rightarrow> db \<Rightarrow> bool" where
  "send_recorded q r db \<longleftrightarrow> (\<exists>req req' parent m. NormalizeSendRequest q = Inr req \<and>
     \<not> is_human_actor (sr_from_actor req) \<and> adopter db (sr_from_actor req) = None \<and>
     complete_request db req = Inr (req', parent) \<and>
     getMessageByIdempotency db (sr_from_actor req) (sr_idempotency_key req) = Inr m \<and>
     EquivalentRequest m req' \<and> r = duplicate_of m)"

text \<open>The message a repeat returns: what the tables hold, where only the recorded routes tell the addressees.\<close>

definition stored_form :: "message \<Rightarrow> message" where
  "stored_form m = m\<lparr>msg_requested_to_actors := map rt_value (msg_requested_routes m)\<rparr>"

definition send_replay :: "send_result \<Rightarrow> send_result" where
  "send_replay r = (if res_duplicate r then r else duplicate_of (stored_form (res_message r)))"

definition send_admits :: "env \<Rightarrow> send_request \<Rightarrow> bool" where
  "send_admits env q = (case sr_expires_at q of None \<Rightarrow> True | Some e \<Rightarrow> e_now env < e)"

text \<open>
  Messages and their recipients stay, the sender's inbox is not adopted, and no name among
  the legacy recipients becomes an alias.
\<close>

definition send_keeps :: "send_request \<Rightarrow> db \<Rightarrow> db \<Rightarrow> bool" where
  "send_keeps q db db' \<longleftrightarrow> (\<exists>ms. messages db' = messages db @ ms) \<and>
     (\<forall>m\<in>set (messages db). recipients_of db' (mr_id m) = recipients_of db (mr_id m)) \<and>
     (\<forall>req. NormalizeSendRequest q = Inr req \<longrightarrow>
        adopter db' (sr_from_actor req) = adopter db (sr_from_actor req) \<and>
        (\<forall>a\<in>set (sr_to_actors req). alias_recorded db' a = alias_recorded db a))"

lemma message_of_row_cong:
  "recipients_of db' (mr_id m) = recipients_of db (mr_id m) \<Longrightarrow> message_of_row db' m = message_of_row db m"
  by (simp add: message_of_row_def)

lemma getMessageByID_mono:
  assumes "messages db' = messages db @ ms" "\<forall>m\<in>set (messages db). recipients_of db' (mr_id m) = recipients_of db (mr_id m)"
    and "getMessageByID db mid = Inr m"
  shows "getMessageByID db' mid = Inr m"
proof -
  obtain row where row: "row_by mr_id mid (legacy_messages db) = Some row" "m = message_of_row db row"
    using assms(3) by (auto simp: getMessageByID_Inr_iff)
  have "row \<in> set (messages db)" using row_by_SomeD [OF row(1)] by (simp add: legacy_messages_def)
  moreover have "row_by mr_id mid (legacy_messages db') = Some row"
    using row(1) assms(1) by (simp add: legacy_messages_def row_by_append)
  ultimately show ?thesis
    using assms(2) message_of_row_cong [of db' row db] unfolding getMessageByID_def row(2) by simp
qed

lemma getMessageByIdempotency_mono:
  assumes "messages db' = messages db @ ms" "\<forall>m\<in>set (messages db). recipients_of db' (mr_id m) = recipients_of db (mr_id m)"
    and "getMessageByIdempotency db a k = Inr m"
  shows "getMessageByIdempotency db' a k = Inr m"
  using assms(3) getMessageByID_mono [OF assms(1,2)]
  by (auto simp: getMessageByIdempotency_def assms(1) row_by_append split: option.splits if_splits)

lemma complete_request_mono:
  assumes "messages db' = messages db @ ms" "\<forall>m\<in>set (messages db). recipients_of db' (mr_id m) = recipients_of db (mr_id m)"
    and "\<forall>a\<in>set (sr_to_actors req). alias_recorded db' a = alias_recorded db a"
    and "complete_request db req = Inr (req', parent)"
  shows "complete_request db' req = Inr (req', parent)"
proof -
  have cl: "classifyLegacyRoutes db' (sr_to_actors req) = classifyLegacyRoutes db (sr_to_actors req)"
    using assms(3) by (simp add: classifyLegacyRoutes_def)
  show ?thesis
  proof (cases "sr_in_reply_to req = []")
    case True
    then show ?thesis using assms(4) cl by (auto simp: complete_request_def Let_def)
  next
    case False
    then obtain p where "getMessageByID db (sr_in_reply_to req) = Inr p"
      using assms(4) by (auto simp: complete_request_def Let_def split: sum.splits)
    moreover from this have "getMessageByID db' (sr_in_reply_to req) = Inr p"
      by (rule getMessageByID_mono [OF assms(1,2)])
    ultimately have "complete_request db' req = complete_request db req"
      by (simp only: complete_request_def Let_def cl sum.case)
    then show ?thesis using assms(4) by simp
  qed
qed

lemma requested_nonempty:
  assumes "NormalizeSendRequest q = Inr req" and "complete_request db req = Inr (req', parent)"
  shows "sr_requested_routes req' \<noteq> []"
  using normalized_request(22) [OF assms(1)] complete_request_fields(13-15) [OF assms(2)]
  by (cases parent) (auto simp: classifyLegacyRoutes_def split: if_splits)

lemma equalRoutes_refl [simp]: "equalRoutes rs rs"
  by (simp add: equalRoutes_def list.rel_refl route_matches_def)

interpretation send: idempotent_operation Send send_recorded "\<lambda>_. send_replay"
  "\<lambda>db. messages_ok db \<and> deliveries_ok db" send_admits send_keeps
proof unfold_locales
  fix env q db r db'
  assume ok: "messages_ok db \<and> deliveries_ok db" and run: "Send env q db = Inr (r, db')"
  from run show "send_recorded q (send_replay r) db'"
  proof (rule SendD)
    fix req req' parent
    assume n: "NormalizeSendRequest q = Inr req" and h: "\<not> is_human_actor (sr_from_actor req)"
      and a: "adopter db (sr_from_actor req) = None" and c: "complete_request db req = Inr (req', parent)"
      and cs: "(\<exists>m. getMessageByIdempotency db (sr_from_actor req') (sr_idempotency_key req') = Inr m \<and>
        EquivalentRequest m req' \<and> r = \<lparr>res_message = m, res_duplicate = True, res_notification_state = []\<rparr> \<and> db' = db)
     \<or> getMessageByIdempotency db (sr_from_actor req') (sr_idempotency_key req') = Inl ErrNotFound \<and>
        send_new env req' parent db = Inr (r, db')"
    note f = complete_request_fields [OF c]
    from cs show ?thesis
    proof (elim disjE exE conjE)
      fix m
      assume "getMessageByIdempotency db (sr_from_actor req') (sr_idempotency_key req') = Inr m"
        "EquivalentRequest m req'" "r = \<lparr>res_message = m, res_duplicate = True, res_notification_state = []\<rparr>" "db' = db"
      then show ?thesis
        using n h a c f(1,2) unfolding send_recorded_def by (auto simp: send_replay_def duplicate_of_def)
    next
      assume g: "getMessageByIdempotency db (sr_from_actor req') (sr_idempotency_key req') = Inl ErrNotFound"
        and new: "send_new env req' parent db = Inr (r, db')"
      obtain to res mid where to: "send_recipients db req' parent = Inr (to, res)"
        and mid: "mid \<notin> mr_id ` set (messages db)"
        and r: "r = \<lparr>res_message = message_of_request mid (e_now env) to req', res_duplicate = False,
           res_notification_state = (if sr_delivery_request req' \<noteq> NonBlocking then ''pending'' else [])\<rparr>"
        and ms: "messages db' = messages db @ [row_of_message (message_of_request mid (e_now env) to req')]"
        and ds: "deliveries db' = deliveries db @ map (queued_row mid) to"
        and sa: "same_actors db db'"
        using new by (rule send_newD) (rule that)
      let ?m = "message_of_request mid (e_now env) to req'"
      let ?row = "row_of_message ?m"
      have leg: "mr_id ` set (legacy_messages db) \<subseteq> mr_id ` set (messages db)" by (auto simp: legacy_messages_def)
      have old: "dl_message_id d \<in> mr_id ` set (legacy_messages db)" if "d \<in> set (deliveries db)" for d
        using ok that by (simp add: deliveries_ok_def)
      have flt: "filter (\<lambda>d. dl_message_id d = k) (map (queued_row mid) to) = (if k = mid then map (queued_row mid) to else [])" for k
        by (induction to) (auto simp: queued_row_def)
      have rec: "\<forall>x\<in>set (messages db). recipients_of db' (mr_id x) = recipients_of db (mr_id x)"
      proof
        fix x
        assume "x \<in> set (messages db)"
        then have "mr_id x \<noteq> mid" using mid by blast
        then show "recipients_of db' (mr_id x) = recipients_of db (mr_id x)" by (simp add: recipients_of_def ds flt)
      qed
      have "filter (\<lambda>d. dl_message_id d = mid) (deliveries db) = []"
        using old leg mid by (auto simp: filter_empty_conv)
      then have "recipients_of db' mid = sort to" by (simp add: recipients_of_def ds flt comp_def) (simp add: queued_row_def)
      then have recs: "recipients_of db' mid = to" using send_recipients_distinct(2) [OF to] by (simp add: sort_key_id)
      have row: "mr_id ?row = mid" "mr_conversation ?row = None" "mr_from_actor ?row = sr_from_actor req"
        "mr_idempotency_key ?row = sr_idempotency_key req" using f(1,2)
        by (simp_all add: row_of_message_def message_of_request_def)
      have "message_of_row db' ?row = stored_form ?m"
        using recs by (simp add: message_of_row_def row_of_message_def message_of_request_def stored_form_def decoded_routes_def decoded_to_actors_def)
      moreover have "row_by mr_id mid (legacy_messages db') = Some ?row"
      proof -
        have "row_by mr_id mid (legacy_messages db) = None" using mid leg by (auto simp: row_by_None_key)
        then show ?thesis using row by (simp add: legacy_messages_def ms row_by_append)
      qed
      ultimately have byid: "getMessageByID db' mid = Inr (stored_form ?m)" by (simp add: getMessageByID_def)
      have "row_by (\<lambda>x. (mr_from_actor x, mr_idempotency_key x)) (sr_from_actor req, sr_idempotency_key req) (messages db) = None"
        using getMessageByIdempotency_none [OF _ g] ok f(1,2) by (simp add: row_by_None_key)
      then have "getMessageByIdempotency db' (sr_from_actor req) (sr_idempotency_key req) = Inr (stored_form ?m)"
        using byid row by (simp add: getMessageByIdempotency_def ms row_by_append)
      moreover have "EquivalentRequest (stored_form ?m) req'"
        using requested_nonempty [OF n c]
        by (simp add: EquivalentRequest_def stored_form_def message_of_request_def message_routes_def request_routes_def)
      moreover have "complete_request db' req = Inr (req', parent)"
        using sa by (intro complete_request_mono [OF ms rec _ c]) (simp add: alias_recorded_def same_actors_def)
      moreover have "adopter db' (sr_from_actor req) = None"
        using a same_actors_adoptions [OF sa] by (simp add: adopter_def)
      ultimately show ?thesis
        using n h unfolding send_recorded_def by (auto simp: send_replay_def r)
    qed
  qed
next
  fix q r db env
  assume "send_recorded q r db" and adm: "send_admits env q"
  then obtain req req' parent m where *: "NormalizeSendRequest q = Inr req"
     "\<not> is_human_actor (sr_from_actor req)" "adopter db (sr_from_actor req) = None"
     "complete_request db req = Inr (req', parent)"
     "getMessageByIdempotency db (sr_from_actor req) (sr_idempotency_key req) = Inr m"
     "EquivalentRequest m req'" "r = duplicate_of m" unfolding send_recorded_def by blast
  have "sr_expires_at req = sr_expires_at q" by (rule normalized_request(25) [OF *(1)])
  then show "Send env q db = Inr (r, db)"
    using * adm complete_request_fields(1,2) [OF *(4)]
    by (simp add: Send_def send_admits_def assertActorNotAdopted_def duplicate_of_def)
next
  fix q db db' r
  assume k: "send_keeps q db db'" and "send_recorded q r db"
  then obtain req req' parent m where *: "NormalizeSendRequest q = Inr req"
     "\<not> is_human_actor (sr_from_actor req)" "adopter db (sr_from_actor req) = None"
     "complete_request db req = Inr (req', parent)"
     "getMessageByIdempotency db (sr_from_actor req) (sr_idempotency_key req) = Inr m"
     "EquivalentRequest m req'" "r = duplicate_of m" unfolding send_recorded_def by blast
  obtain ms where ms: "messages db' = messages db @ ms"
    and rec: "\<forall>m\<in>set (messages db). recipients_of db' (mr_id m) = recipients_of db (mr_id m)"
    and ad: "adopter db' (sr_from_actor req) = adopter db (sr_from_actor req)"
    and al: "\<forall>a\<in>set (sr_to_actors req). alias_recorded db' a = alias_recorded db a"
    using k *(1) by (auto simp: send_keeps_def)
  show "send_recorded q r db'"
    unfolding send_recorded_def
    using * ad complete_request_mono [OF ms rec al *(4)] getMessageByIdempotency_mono [OF ms rec *(5)] by auto
qed

section \<open>Properties\<close>



text \<open>
  A reply goes to the sender of the message it answers and to nobody else, in that
  message's project, channel and thread, whatever recipients the request lists.
\<close>

theorem Send_reply:
  assumes "Send env q db = Inr (r, db')" and "\<not> res_duplicate r" and "trim (sr_in_reply_to q) \<noteq> []"
  shows "\<exists>p. getMessageByID db (trim (sr_in_reply_to q)) = Inr p \<and>
    msg_to_actors (res_message r) = [msg_from_actor p] \<and> msg_thread_id (res_message r) = msg_thread_id p \<and>
    msg_project_id (res_message r) = msg_project_id p \<and> msg_channel_id (res_message r) = msg_channel_id p"
  using assms(1)
proof (rule Send_new_cases)
  fix req req' parent
  assume nr: "NormalizeSendRequest q = Inr req" and c: "complete_request db req = Inr (req', parent)"
    and n: "send_new env req' parent db = Inr (r, db')"
  have reply: "sr_in_reply_to req = trim (sr_in_reply_to q)"
    using nr by (auto simp: NormalizeSendRequest_def Let_def bindE_Inr_iff trim_request_def)
  note f = complete_request_fields [OF c]
  obtain p where p: "parent = Some p" using f(13) reply assms(3) by (cases parent) auto
  obtain to res mid where to: "send_recipients db req' parent = Inr (to, res)"
    and r: "r = \<lparr>res_message = message_of_request mid (e_now env) to req', res_duplicate = False,
       res_notification_state = (if sr_delivery_request req' \<noteq> NonBlocking then ''pending'' else [])\<rparr>"
    using n by (rule send_newD) (rule that)
  have "to = [msg_from_actor p]" using to p by (auto simp: send_recipients_def bindE_Inr_iff)
  then show ?thesis using f(14) [OF p] f(3,4) reply by (auto simp: r message_of_request_def)
qed (use assms(2) in blast)

text \<open>
  \<^bold>\<open>C30\<close> A message stored by the version that kept its recipients as an array of strings cannot be
  sent again: repeating the request that produced it is answered with an idempotency
  conflict, because decoding the array leaves one empty route per recipient, and an empty
  route equals none the request can ask for. A comment in the decoder says that it accepts
  the array so that idempotency survives an upgrade.
\<close>

theorem legacy_recipients_conflict:
  assumes "messages_ok db" and "m \<in> set (legacy_messages db)" and "mr_requested m = RequestedLegacy vs" and "vs \<noteq> []"
    and "NormalizeSendRequest q = Inr req" and "\<not> is_human_actor (sr_from_actor req)"
    and "send_admits env q" and "adopter db (sr_from_actor req) = None"
    and "sr_in_reply_to req = []" and "mr_from_actor m = sr_from_actor req" and "mr_idempotency_key m = sr_idempotency_key req"
  shows "Send env q db = Inl ErrIdempotencyConflict"
proof -
  have m: "m \<in> set (messages db)" "mr_conversation m = None" using assms(2) by (auto simp: legacy_messages_def)
  have "row_by (\<lambda>m. (mr_from_actor m, mr_idempotency_key m)) (mr_from_actor m, mr_idempotency_key m) (messages db) = Some m"
    by (rule row_by_unique) (use assms(1) m(1) in \<open>simp_all add: messages_ok_def\<close>)
  then have by_key: "getMessageByIdempotency db (sr_from_actor req) (sr_idempotency_key req) = Inr (message_of_row db m)"
    using legacy_row_by_unique [OF assms(1,2)] m(2) assms(10,11)
    by (simp add: getMessageByIdempotency_def getMessageByID_def)
  obtain req' where c: "complete_request db req = Inr (req', None)"
    using assms(9) by (auto simp: complete_request_def Let_def)
  note f = complete_request_fields [OF c]
  have ne: "sr_requested_routes req' \<noteq> []" using requested_nonempty [OF assms(5) c] .
  have vals: "rt_value r \<noteq> []" if "r \<in> set (sr_requested_routes req')" for r
    using that f(15) normalized_request(17,20) [OF assms(5)] by (auto simp: classifyLegacyRoutes_def split: if_splits)
  have "\<not> equalRoutes (map (\<lambda>_. Route (RouteOther []) []) vs) (sr_requested_routes req')"
  proof
    assume "equalRoutes (map (\<lambda>_. Route (RouteOther []) []) vs) (sr_requested_routes req')"
    then obtain r rs where "sr_requested_routes req' = r # rs" "rt_value r = []"
      using assms(4) by (cases vs) (auto simp: equalRoutes_def list_all2_Cons1 route_matches_def)
    then show False using vals by simp
  qed
  then have "\<not> EquivalentRequest (message_of_row db m) req'"
    using assms(3,4) ne
    by (simp add: EquivalentRequest_def message_routes_def request_routes_def message_of_row_def decoded_routes_def)
  then show ?thesis
    using assms(5-8) c by_key f(1,2) normalized_request(25) [OF assms(5)]
    by (simp add: Send_def send_admits_def assertActorNotAdopted_def)
qed

section \<open>The properties at a concrete store\<close>

definition sample_request :: send_request where
  "sample_request = \<lparr>sr_idempotency_key = ''r1'', sr_project_id = ''p'', sr_channel_id = ''c'', sr_thread_id = [],
     sr_from_actor = ''alice'', sr_from_run = ''run1'', sr_from_role = [], sr_to_actors = [''carol'', '' bob ''],
     sr_destinations = [], sr_type = ''note'', sr_delivery_request = Wake, sr_in_reply_to = [],
     sr_body = ''{}'', sr_expires_at = Some 900, sr_requested_to_actors = [], sr_requested_routes = []\<rparr>"

definition sample_reply :: send_request where
  "sample_reply = sample_request\<lparr>sr_idempotency_key := ''r2'', sr_to_actors := [], sr_in_reply_to := ''m2''\<rparr>"

definition sample_sent :: "send_result \<times> db" where
  "sample_sent = projr (Send (sample_env 100) sample_request sample_db)"

definition sample_replied :: "send_result \<times> db" where
  "sample_replied = projr (Send (sample_env 110) sample_reply sample_db)"

lemma sample_sent_run:
  "Send (sample_env 100) sample_request sample_db = Inr (fst sample_sent, snd sample_sent)"
  "\<not> res_duplicate (fst sample_sent)"
proof -
  have "case Send (sample_env 100) sample_request sample_db of Inl e \<Rightarrow> False | Inr (r, db) \<Rightarrow> \<not> res_duplicate r" by code_simp
  then obtain r db where "Send (sample_env 100) sample_request sample_db = Inr (r, db)" "\<not> res_duplicate r"
    by (cases "Send (sample_env 100) sample_request sample_db") auto
  then show "Send (sample_env 100) sample_request sample_db = Inr (fst sample_sent, snd sample_sent)"
    "\<not> res_duplicate (fst sample_sent)" by (simp_all add: sample_sent_def)
qed



lemma Send_reply_witness: "msg_to_actors (res_message (fst sample_replied)) = [''bob'']"
proof -
  have "case Send (sample_env 110) sample_reply sample_db of Inl e \<Rightarrow> False | Inr (r, db) \<Rightarrow> \<not> res_duplicate r" by code_simp
  then obtain r db where "Send (sample_env 110) sample_reply sample_db = Inr (r, db)" "\<not> res_duplicate r"
    by (cases "Send (sample_env 110) sample_reply sample_db") auto
  then have 1: "Send (sample_env 110) sample_reply sample_db = Inr (fst sample_replied, snd sample_replied)"
    and 2: "\<not> res_duplicate (fst sample_replied)" by (simp_all add: sample_replied_def)
  have 3: "trim (sr_in_reply_to sample_reply) \<noteq> []"
    and 4: "msg_from_actor (projr (getMessageByID sample_db (trim (sr_in_reply_to sample_reply)))) = ''bob''" by code_simp+
  from Send_reply [OF 1 2 3] 4 show ?thesis by auto
qed

definition sample_old_db :: db where
  "sample_old_db = empty_db\<lparr>messages := [(sample_message ''m1'' ''r1'' 10)\<lparr>mr_from_actor := ''alice'',
     mr_from_run := ''run1'', mr_expires_at := Some 900, mr_requested := RequestedLegacy [''bob'', ''carol'']\<rparr>]\<rparr>"

lemma legacy_recipients_conflict_witness:
  "Send (sample_env 100) sample_request sample_old_db = Inl ErrIdempotencyConflict"
proof -
  let ?m = "(sample_message ''m1'' ''r1'' 10)\<lparr>mr_from_actor := ''alice'',
     mr_from_run := ''run1'', mr_expires_at := Some 900, mr_requested := RequestedLegacy [''bob'', ''carol'']\<rparr>"
  let ?req = "projr (NormalizeSendRequest sample_request)"
  show ?thesis
  proof (rule legacy_recipients_conflict [of _ ?m "[''bob'', ''carol'']" _ ?req])
    show "messages_ok sample_old_db" by code_simp
    show "?m \<in> set (legacy_messages sample_old_db)" by code_simp
    show "mr_requested ?m = RequestedLegacy [''bob'', ''carol'']" by simp
    show "NormalizeSendRequest sample_request = Inr ?req" by code_simp
    show "\<not> is_human_actor (sr_from_actor ?req)" by code_simp
    show "send_admits (sample_env 100) sample_request" by code_simp
    show "adopter sample_old_db (sr_from_actor ?req) = None" by code_simp
    show "sr_in_reply_to ?req = []" by code_simp
    show "mr_from_actor ?m = sr_from_actor ?req" by code_simp
    show "mr_idempotency_key ?m = sr_idempotency_key ?req" by code_simp
  qed simp
qed

end
