(* ===== verification/Adoption.thy ===== *)
theory Adoption
  imports Send
begin

text \<open>
  \<open>adoption.go\<close>: an actor with a live session takes over the inbox of one that has none.
  The deliveries keep their recipient; the inbox queries follow \<open>actor_adoptions\<close>. An actor
  is adopted at most once, and never through a chain.
\<close>

record adopt_request =
  aq_source :: string
  aq_adopting :: string
  aq_run :: string
  aq_project_id :: string
  aq_idempotency_key :: string

record adopt_result =
  apr_source :: string
  apr_adopting :: string
  apr_run :: string
  apr_idempotency_key :: string
  apr_transferred :: int
  apr_deduplicated :: int
  apr_adopted_at :: int
  apr_duplicate :: bool

definition normalizeAdoptRequest :: "adopt_request \<Rightarrow> error + adopt_request" where
  "normalizeAdoptRequest q =
    bindE (requireE (\<not> (is_human_actor (aq_source q) \<or> is_human_actor (aq_adopting q))) ErrChannelCapability) (\<lambda>_.
    let source = trim (aq_source q); adopting = trim (aq_adopting q); run = trim (aq_run q);
        project = (if trim (aq_project_id q) = [] then ''default'' else trim (aq_project_id q));
        k = trim (aq_idempotency_key q) in
    bindE (forE [(''source_actor'', source, 128), (''adopting_actor'', adopting, 128),
      (''adopting_run'', run, 256), (''project_id'', project, 256), (''idempotency_key'', k, 256)] require_text) (\<lambda>_.
    bindE (requireE (source \<noteq> adopting) (ValidationError ''source_actor'' ''must differ from adopting_actor'')) (\<lambda>_.
    Inr \<lparr>aq_source = source, aq_adopting = adopting, aq_run = run, aq_project_id = project,
      aq_idempotency_key = k\<rparr>)))"

definition adoption_result :: "adoption_row \<Rightarrow> adopt_result" where
  "adoption_result r = \<lparr>apr_source = ad_source r, apr_adopting = ad_adopting r, apr_run = ad_run r,
     apr_idempotency_key = ad_idempotency_key r, apr_transferred = ad_transferred r,
     apr_deduplicated = ad_deduplicated r, apr_adopted_at = ad_adopted_at r, apr_duplicate = False\<rparr>"

text \<open>\<open>deliveries d JOIN legacy_messages m\<close> for one recipient, by the state of the delivery.\<close>

definition recipient_join :: "db \<Rightarrow> string \<Rightarrow> (delivery_row \<Rightarrow> bool) \<Rightarrow> int \<Rightarrow> (message_row \<times> delivery_row) list" where
  "recipient_join db actor p now =
    filter (\<lambda>(m, d). mr_id m = dl_message_id d \<and> dl_recipient d = actor \<and> p d \<and> unexpired now m)
      (List.product (legacy_messages db) (deliveries db))"

definition adoptable :: "db \<Rightarrow> string \<Rightarrow> int \<Rightarrow> (message_row \<times> delivery_row) list" where
  "adoptable db source now = recipient_join db source (claimable now) now"

definition active_claims :: "db \<Rightarrow> string \<Rightarrow> int \<Rightarrow> (message_row \<times> delivery_row) list" where
  "active_claims db source now =
    recipient_join db source (\<lambda>d. dl_state d = Claimed \<and> sql_gt (dl_lease_expires d) now) now"

definition addressed_too :: "db \<Rightarrow> string \<Rightarrow> message_row \<times> delivery_row \<Rightarrow> bool" where
  "addressed_too db actor md =
    list_ex (\<lambda>t. dl_message_id t = dl_message_id (snd md) \<and> dl_recipient t = actor) (deliveries db)"

text \<open>The three statements on the notifications: retire duplicates, retarget, enqueue the missing.\<close>

definition retire_duplicates :: "string \<Rightarrow> string \<Rightarrow> int \<Rightarrow> outbox_row list \<Rightarrow> outbox_row list" where
  "retire_duplicates source adopting now rows =
    update_where (\<lambda>n. ob_source n = LegacySource \<and> ob_recipient n = source \<and>
        row_by outbox_key (ob_message_id n, adopting) rows \<noteq> None)
      (\<lambda>n. n\<lparr>ob_state := Done, ob_available_at := now,
             ob_last_error := Some ''deduplicated during actor adoption''\<rparr>) rows"

definition retarget :: "string \<Rightarrow> string \<Rightarrow> int \<Rightarrow> outbox_row list \<Rightarrow> outbox_row list" where
  "retarget source adopting now =
    update_where (\<lambda>n. ob_source n = LegacySource \<and> ob_recipient n = source \<and> ob_state n \<noteq> Done)
      (\<lambda>n. n\<lparr>ob_recipient := adopting, ob_state := Pending, ob_available_at := now, ob_last_error := None\<rparr>)"

definition adopt_notifications ::
  "string \<Rightarrow> string \<Rightarrow> int \<Rightarrow> (message_row \<times> delivery_row) list \<Rightarrow> outbox_row list \<Rightarrow> outbox_row list" where
  "adopt_notifications source adopting now mail rows =
    fold (\<lambda>(m, d). enqueue_notification (dl_message_id d) now adopting)
      (filter (\<lambda>(m, d). mr_delivery_request m \<noteq> NonBlocking) mail)
      (retarget source adopting now (retire_duplicates source adopting now rows))"

definition adopt_new :: "env \<Rightarrow> adopt_request \<Rightarrow> db \<Rightarrow> error + (adopt_result \<times> db)" where
  "adopt_new env q db =
    (let source = aq_source q; adopting = aq_adopting q; now = e_now env in
     bindE (requireE (row_by (\<lambda>r. (ad_adopting r, ad_idempotency_key r)) (adopting, aq_idempotency_key q) (adoptions db) = None)
       ErrIdempotencyConflict) (\<lambda>_.
     bindE (requireE (\<not> list_ex (\<lambda>r. ad_adopting r = source) (adoptions db))
       (ValidationError ''source_actor'' ''already receives an adopted inbox; chained adoption is unsupported'')) (\<lambda>_.
     bindE (requireE (row_by ad_source adopting (adoptions db) = None)
       (ValidationError ''adopting_actor'' ''was already adopted; chained adoption is unsupported'')) (\<lambda>_.
     bindE (requireE (\<not> actorHasLivePresence db source now) ErrActorLive) (\<lambda>_.
     bindE (requireE (actorHasLivePresence db adopting now) ErrActorNotLive) (\<lambda>_.
     bindE (requireE (actorRunHasLivePresence db adopting (aq_run q) now) ErrRunNotLive) (\<lambda>_.
     bindE (requireE (active_claims db source now = []) ErrAdoptionBusy) (\<lambda>_.
     let mail = adoptable db source now;
         deduplicated = int (length (filter (addressed_too db adopting) mail));
         transferred = int (length mail) - deduplicated;
         row = \<lparr>ad_source = source, ad_adopting = adopting, ad_run = aq_run q, ad_project_id = aq_project_id q,
           ad_idempotency_key = aq_idempotency_key q, ad_transferred = transferred,
           ad_deduplicated = deduplicated, ad_adopted_at = now\<rparr> in
     bindE (requireE (mail \<noteq> []) ErrNoMessage) (\<lambda>_.
     let payload = pput ''idempotency_key'' (PStr (aq_idempotency_key q))
           (pput ''deduplicated'' (PInt deduplicated) (pput ''transferred'' (PInt transferred)
           (pput ''adopting_actor'' (PStr adopting) (pput ''source_actor'' (PStr source)
           (EventProvenance (e_caller env) (aq_run q)))))) in
     bindE (appendEvent env (aq_project_id q) ''durable'' ''actor.adopted'' [] adopting (Some payload)
       (db\<lparr>outbox := adopt_notifications source adopting now mail (outbox db),
          adoptions := adoptions db @ [row]\<rparr>)) (\<lambda>db1.
     Inr ((adoption_result row)\<lparr>apr_idempotency_key := []\<rparr>, db1)))))))))))"

definition AdoptActor :: "env \<Rightarrow> adopt_request \<Rightarrow> db \<Rightarrow> error + (adopt_result \<times> db)" where
  "AdoptActor env request db =
    bindE (normalizeAdoptRequest request) (\<lambda>q.
    case row_by ad_source (aq_source q) (adoptions db) of
      Some previous \<Rightarrow>
        if ad_adopting previous = aq_adopting q \<and> ad_idempotency_key previous = aq_idempotency_key q
        then Inr ((adoption_result previous)\<lparr>apr_duplicate := True\<rparr>, db)
        else Inl ErrAdoptionConflict
    | None \<Rightarrow> adopt_new env q db)"

section \<open>What a successful adoption did\<close>

lemma adopt_newD:
  assumes "adopt_new env q db = Inr (r, db')"
  obtains row where "ad_source row = aq_source q" "ad_adopting row = aq_adopting q"
    "ad_idempotency_key row = aq_idempotency_key q"
    "row_by (\<lambda>r. (ad_adopting r, ad_idempotency_key r)) (aq_adopting q, aq_idempotency_key q) (adoptions db) = None"
    "\<not> list_ex (\<lambda>r. ad_adopting r = aq_source q) (adoptions db)"
    "row_by ad_source (aq_adopting q) (adoptions db) = None"
    "\<not> actorHasLivePresence db (aq_source q) (e_now env)" "actorHasLivePresence db (aq_adopting q) (e_now env)"
    "actorRunHasLivePresence db (aq_adopting q) (aq_run q) (e_now env)"
    "active_claims db (aq_source q) (e_now env) = []" "adoptable db (aq_source q) (e_now env) \<noteq> []"
    "ad_transferred row + ad_deduplicated row = int (length (adoptable db (aq_source q) (e_now env)))"
    "ad_deduplicated row = int (length (filter (addressed_too db (aq_adopting q)) (adoptable db (aq_source q) (e_now env))))"
    "r = (adoption_result row)\<lparr>apr_idempotency_key := []\<rparr>"
    "adoptions db' = adoptions db @ [row]"
    "outbox db' = adopt_notifications (aq_source q) (aq_adopting q) (e_now env)
       (adoptable db (aq_source q) (e_now env)) (outbox db)"
    "messages db' = messages db" "deliveries db' = deliveries db" "actor_names db' = actor_names db"
    "registrations db' = registrations db" "aliases db' = aliases db" "alias_history db' = alias_history db"
    "alias_claims db' = alias_claims db" "lifecycle db' = lifecycle db"
    "events_ok db \<Longrightarrow> events_ok db'"
proof -
  let ?mail = "adoptable db (aq_source q) (e_now env)"
  let ?dedup = "int (length (filter (addressed_too db (aq_adopting q)) ?mail))"
  let ?row = "\<lparr>ad_source = aq_source q, ad_adopting = aq_adopting q, ad_run = aq_run q, ad_project_id = aq_project_id q,
           ad_idempotency_key = aq_idempotency_key q, ad_transferred = int (length ?mail) - ?dedup,
           ad_deduplicated = ?dedup, ad_adopted_at = e_now env\<rparr>"
  obtain pl where chk: "row_by (\<lambda>r. (ad_adopting r, ad_idempotency_key r)) (aq_adopting q, aq_idempotency_key q) (adoptions db) = None"
    "\<not> list_ex (\<lambda>r. ad_adopting r = aq_source q) (adoptions db)"
    "row_by ad_source (aq_adopting q) (adoptions db) = None"
    "\<not> actorHasLivePresence db (aq_source q) (e_now env)" "actorHasLivePresence db (aq_adopting q) (e_now env)"
    "actorRunHasLivePresence db (aq_adopting q) (aq_run q) (e_now env)"
    "active_claims db (aq_source q) (e_now env) = []" "?mail \<noteq> []"
    and ev: "appendEvent env (aq_project_id q) ''durable'' ''actor.adopted'' [] (aq_adopting q) pl
       (db\<lparr>outbox := adopt_notifications (aq_source q) (aq_adopting q) (e_now env) ?mail (outbox db),
          adoptions := adoptions db @ [?row]\<rparr>) = Inr db'"
    and r: "r = (adoption_result ?row)\<lparr>apr_idempotency_key := []\<rparr>"
    using assms by (auto simp: adopt_new_def Let_def bindE_Inr_iff requireE_Inr_iff)
  have "events_ok db'" if "events_ok db" using appendEvent_events_ok [OF ev] that by simp
  then show thesis
    by (intro that [of ?row] chk) (use r appendEvent_frame [OF ev] in simp_all)
qed

lemma AdoptActor_cases:
  assumes "AdoptActor env request db = Inr (r, db')"
  obtains q previous where "normalizeAdoptRequest request = Inr q" "row_by ad_source (aq_source q) (adoptions db) = Some previous"
      "ad_adopting previous = aq_adopting q" "ad_idempotency_key previous = aq_idempotency_key q"
      "r = (adoption_result previous)\<lparr>apr_duplicate := True\<rparr>" "db' = db"
  | q where "normalizeAdoptRequest request = Inr q" "row_by ad_source (aq_source q) (adoptions db) = None"
      "adopt_new env q db = Inr (r, db')"
proof -
  obtain q where q: "normalizeAdoptRequest request = Inr q"
    using assms by (auto simp: AdoptActor_def bindE_Inr_iff)
  show thesis
  proof (cases "row_by ad_source (aq_source q) (adoptions db)")
    case None
    then show thesis using assms q that(2) [OF q] by (simp add: AdoptActor_def)
  next
    case (Some previous)
    then show thesis using assms q that(1) [OF q Some] by (simp add: AdoptActor_def split: if_splits)
  qed
qed

lemma normalizeAdoptRequest_D:
  "normalizeAdoptRequest request = Inr q \<Longrightarrow> aq_source q = trim (aq_source request) \<and>
    aq_adopting q = trim (aq_adopting request) \<and> aq_source q \<noteq> aq_adopting q \<and> aq_source q \<noteq> [] \<and> aq_adopting q \<noteq> []"
  by (auto simp: normalizeAdoptRequest_def Let_def bindE_Inr_iff requireE_Inr_iff forE_Inr_iff require_text_Inr)

text \<open>Forwarding never chains: nobody who was adopted receives another inbox.\<close>

definition adoptions_ok :: "db \<Rightarrow> bool" where
  "adoptions_ok db \<longleftrightarrow> distinct (map ad_source (adoptions db)) \<and>
    distinct (map (\<lambda>r. (ad_adopting r, ad_idempotency_key r)) (adoptions db)) \<and>
    ad_source ` set (adoptions db) \<inter> ad_adopting ` set (adoptions db) = {}"

lemma AdoptActor_adoptions_ok:
  assumes "AdoptActor env request db = Inr (r, db')" and "adoptions_ok db"
  shows "adoptions_ok db'"
  using assms(1)
proof (cases rule: AdoptActor_cases)
  case (2 q)
  obtain row where row: "ad_source row = aq_source q" "ad_adopting row = aq_adopting q"
    "ad_idempotency_key row = aq_idempotency_key q"
    and none: "row_by (\<lambda>r. (ad_adopting r, ad_idempotency_key r)) (aq_adopting q, aq_idempotency_key q) (adoptions db) = None"
    "\<not> list_ex (\<lambda>r. ad_adopting r = aq_source q) (adoptions db)"
    "row_by ad_source (aq_adopting q) (adoptions db) = None"
    and a: "adoptions db' = adoptions db @ [row]"
    using 2(3) by (rule adopt_newD) (rule that)
  have "aq_source q \<noteq> aq_adopting q" using normalizeAdoptRequest_D [OF 2(1)] by blast
  then show ?thesis
    using assms(2) none 2(2) row
    by (auto simp: adoptions_ok_def a row_by_None_key list_ex_iff)
qed (use assms(2) in simp)

lemma adopter_append:
  "adoptions db' = adoptions db @ [row] \<Longrightarrow> adopter db' a =
    (case adopter db a of Some b \<Rightarrow> Some b | None \<Rightarrow> if ad_source row = a then Some (ad_adopting row) else None)"
  by (auto simp: adopter_def row_by_append split: option.splits)

lemma adoptions_extend:
  assumes "AdoptActor env request db = Inr (r, db')"
  shows "\<exists>rows. adoptions db' = adoptions db @ rows"
  using assms by (cases rule: AdoptActor_cases) (auto elim!: adopt_newD)

section \<open>Idempotency\<close>

definition adopt_recorded :: "adopt_request \<Rightarrow> adopt_result \<Rightarrow> db \<Rightarrow> bool" where
  "adopt_recorded request r db \<longleftrightarrow> (\<exists>q row. normalizeAdoptRequest request = Inr q \<and>
     row_by ad_source (aq_source q) (adoptions db) = Some row \<and> ad_adopting row = aq_adopting q \<and>
     ad_idempotency_key row = aq_idempotency_key q \<and> r = (adoption_result row)\<lparr>apr_duplicate := True\<rparr>)"

definition adopt_replay :: "adopt_request \<Rightarrow> adopt_result \<Rightarrow> adopt_result" where
  "adopt_replay q r = r\<lparr>apr_idempotency_key := trim (aq_idempotency_key q), apr_duplicate := True\<rparr>"

definition adoptions_extend_to :: "db \<Rightarrow> db \<Rightarrow> bool" where
  "adoptions_extend_to db db' \<longleftrightarrow> (\<exists>rows. adoptions db' = adoptions db @ rows)"

lemma normalizeAdoptRequest_key: "normalizeAdoptRequest request = Inr q \<Longrightarrow> aq_idempotency_key q = trim (aq_idempotency_key request)"
  by (auto simp: normalizeAdoptRequest_def Let_def bindE_Inr_iff)

interpretation adopt: idempotent_operation AdoptActor adopt_recorded adopt_replay "\<lambda>_. True" "\<lambda>_ _. True" "\<lambda>_. adoptions_extend_to"
proof unfold_locales
  fix env q db r db'
  assume "AdoptActor env q db = Inr (r, db')"
  then show "adopt_recorded q (adopt_replay q r) db'"
  proof (cases rule: AdoptActor_cases)
    case (1 q' row)
    then show ?thesis
      using normalizeAdoptRequest_key [OF 1(1)]
      by (auto simp: adopt_recorded_def adopt_replay_def adoption_result_def)
  next
    case (2 q')
    obtain row where row: "ad_source row = aq_source q'" "ad_adopting row = aq_adopting q'"
      "ad_idempotency_key row = aq_idempotency_key q'" "r = (adoption_result row)\<lparr>apr_idempotency_key := []\<rparr>"
      "adoptions db' = adoptions db @ [row]" using 2(3) by (rule adopt_newD) (rule that)
    then show ?thesis
      using 2(1,2) normalizeAdoptRequest_key [OF 2(1)]
      by (auto simp: adopt_recorded_def adopt_replay_def adoption_result_def row_by_append)
  qed
next
  fix env q r db
  assume "adopt_recorded q r db"
  then show "AdoptActor env q db = Inr (r, db)" by (auto simp: adopt_recorded_def AdoptActor_def)
next
  fix q db db' r
  assume "adoptions_extend_to db db'" "adopt_recorded q r db"
  then show "adopt_recorded q r db'" by (auto simp: adopt_recorded_def adoptions_extend_to_def row_by_append)
qed

end
