(* ===== verification/AdoptionProps.thy ===== *)
theory AdoptionProps
  imports Adoption
begin

text \<open>
  What adoption guarantees: one winner for good, the whole inbox and nothing else, and a
  wake for every message that asked for attention.
\<close>

section \<open>Notifications keep their key\<close>

lemma map_key_retire: "map outbox_key (retire_duplicates s a now rows) = map outbox_key rows"
  unfolding retire_duplicates_def update_where_def by simp

lemma retired_no_clash:
  assumes "n \<in> set (retire_duplicates s a now rows)" and "ob_source n = LegacySource" and "ob_recipient n = s" and "ob_state n \<noteq> Done"
  shows "(ob_message_id n, a) \<notin> outbox_key ` set (retire_duplicates s a now rows)"
proof -
  have keys: "outbox_key ` set (retire_duplicates s a now rows) = outbox_key ` set rows"
    by (simp only: list.set_map [symmetric] map_key_retire)
  obtain n0 where n0: "n0 \<in> set rows" "n = (if ob_source n0 = LegacySource \<and> ob_recipient n0 = s \<and>
        row_by outbox_key (ob_message_id n0, a) rows \<noteq> None then
      n0\<lparr>ob_state := Done, ob_available_at := now, ob_last_error := Some ''deduplicated during actor adoption''\<rparr> else n0)"
    using in_update_whereD [OF assms(1) [unfolded retire_duplicates_def]] by blast
  show ?thesis unfolding keys using n0 assms(2-4) by (auto simp: row_by_None_key split: if_splits)
qed

lemma distinct_retarget:
  assumes "distinct (map outbox_key rows)"
    and clash: "\<And>n. n \<in> set rows \<Longrightarrow> ob_source n = LegacySource \<Longrightarrow> ob_recipient n = s \<Longrightarrow> ob_state n \<noteq> Done \<Longrightarrow>
      (ob_message_id n, a) \<notin> outbox_key ` set rows"
  shows "distinct (map outbox_key (retarget s a now rows))"
proof -
  let ?p = "\<lambda>n. ob_source n = LegacySource \<and> ob_recipient n = s \<and> ob_state n \<noteq> Done"
  let ?k = "\<lambda>n. if ?p n then (ob_message_id n, a) else outbox_key n"
  have keys: "map outbox_key (retarget s a now rows) = map ?k rows"
    unfolding retarget_def update_where_def by simp
  have inj: "inj_on outbox_key (set rows)" and d: "distinct rows" using assms(1) by (simp_all add: distinct_map)
  have "inj_on ?k (set rows)"
  proof (rule inj_onI)
    fix n n'
    assume n: "n \<in> set rows" "n' \<in> set rows" and eq: "?k n = ?k n'"
    have "outbox_key n = outbox_key n'"
      using eq clash [OF n(1)] clash [OF n(2)] n by (auto simp: image_iff split: if_splits)
    then show "n = n'" using inj n by (blast dest: inj_onD)
  qed
  then show ?thesis unfolding keys using d by (simp add: distinct_map)
qed

lemma distinct_enqueue:
  "distinct (map outbox_key rows) \<Longrightarrow> distinct (map outbox_key (enqueue_notification mid now a rows))"
  by (auto simp: enqueue_notification_def pending_row_def row_by_None_key)

lemma enqueue_keys: "outbox_key ` set (enqueue_notification mid now a rows) = insert (mid, a) (outbox_key ` set rows)"
  by (auto simp: enqueue_notification_def row_by_None_key pending_row_def insert_absorb)

lemma fold_enqueue_keys:
  "outbox_key ` set (fold (\<lambda>(m, d). enqueue_notification (dl_message_id d) now a) xs rows) =
    (\<lambda>(m, d). (dl_message_id d, a)) ` set xs \<union> outbox_key ` set rows"
  by (induction xs arbitrary: rows) (simp_all add: enqueue_keys case_prod_beta)

lemma fold_enqueue_distinct:
  "distinct (map outbox_key rows) \<Longrightarrow>
    distinct (map outbox_key (fold (\<lambda>(m, d). enqueue_notification (dl_message_id d) now a) xs rows))"
  by (induction xs arbitrary: rows) (auto intro: distinct_enqueue)

lemma distinct_adopt_notifications:
  assumes "distinct (map outbox_key rows)"
  shows "distinct (map outbox_key (adopt_notifications s a now mail rows))"
  unfolding adopt_notifications_def
  by (intro fold_enqueue_distinct distinct_retarget)
    (use assms retired_no_clash in \<open>auto simp: map_key_retire\<close>)

section \<open>Properties\<close>

lemma fresh_adoption:
  assumes "AdoptActor env request db = Inr (r, db')" and "\<not> apr_duplicate r"
  obtains q :: adopt_request where "normalizeAdoptRequest request = Inr q" "row_by ad_source (aq_source q) (adoptions db) = None"
    "adopt_new env q db = Inr (r, db')" "aq_source q = trim (aq_source request)" "aq_adopting q = trim (aq_adopting request)"
  using assms(1)
  by (cases rule: AdoptActor_cases) (use assms(2) normalizeAdoptRequest_D that in auto)


text \<open>
  There is one winner: once an actor is adopted, no later request by another adopter, or
  with another key, takes its inbox.
\<close>

theorem AdoptActor_one_winner:
  assumes "AdoptActor env q db = Inr (r, db')" and "adoptions_extend_to\<^sup>*\<^sup>* db' db''"
    and "normalizeAdoptRequest q2 = Inr n2" and "trim (aq_source q2) = trim (aq_source q)"
    and "trim (aq_adopting q2) \<noteq> trim (aq_adopting q) \<or> trim (aq_idempotency_key q2) \<noteq> trim (aq_idempotency_key q)"
  shows "AdoptActor env2 q2 db'' = Inl ErrAdoptionConflict"
proof -
  have "adopt_recorded q (adopt_replay q r) db''"
    using assms(2) adopt.run_records [OF TrueI assms(1)]
    by (induction rule: rtranclp_induct) (auto intro: adopt.keep_recorded)
  then obtain n row where *: "normalizeAdoptRequest q = Inr n"
     "row_by ad_source (aq_source n) (adoptions db'') = Some row" "ad_adopting row = aq_adopting n"
     "ad_idempotency_key row = aq_idempotency_key n" unfolding adopt_recorded_def by blast
  then show ?thesis
    using assms(3-5) normalizeAdoptRequest_D [OF assms(3)] normalizeAdoptRequest_key [OF assms(3)]
      normalizeAdoptRequest_D [OF *(1)] normalizeAdoptRequest_key [OF *(1)] by (auto simp: AdoptActor_def)
qed

text \<open>
  The counts are right and the mail arrives: the two counts add up to the due deliveries of
  the source; for an adopter that held no other inbox, each one that was not addressed to the adopter as well
  can be claimed by the adopter at once, and these are the ones counted as transferred. Every due message
  that asked for attention has a notification for the adopter.
\<close>

theorem AdoptActor_delivers:
  assumes "AdoptActor env q db = Inr (r, db')" and "\<not> apr_duplicate r"
    and "\<forall>row\<in>set (adoptions db). ad_adopting row \<noteq> trim (aq_adopting q)"
    and "(m, d) \<in> set (adoptable db (trim (aq_source q)) (e_now env))"
  shows "apr_transferred r = int (length (filter (\<lambda>md. \<not> addressed_too db (trim (aq_adopting q)) md)
        (adoptable db (trim (aq_source q)) (e_now env)))) \<and>
    (\<not> addressed_too db (trim (aq_adopting q)) (m, d) \<longrightarrow>
      (m, d) \<in> set (claim_rows db' (trim (aq_adopting q)) [] (e_now env))) \<and>
    (mr_delivery_request m \<noteq> NonBlocking \<longrightarrow>
      row_by outbox_key (mr_id m, trim (aq_adopting q)) (outbox db') \<noteq> None)"
  using assms(1,2)
proof (rule fresh_adoption)
  fix q' :: adopt_request
  let ?mail = "adoptable db (aq_source q') (e_now env)"
  assume none: "row_by ad_source (aq_source q') (adoptions db) = None"
    and n: "adopt_new env q' db = Inr (r, db')" and q': "aq_source q' = trim (aq_source q)" "aq_adopting q' = trim (aq_adopting q)"
  obtain row where row: "ad_source row = aq_source q'" "ad_adopting row = aq_adopting q'"
    and cnt: "ad_transferred row + ad_deduplicated row = int (length ?mail)"
      "ad_deduplicated row = int (length (filter (addressed_too db (aq_adopting q')) ?mail))"
    and r: "r = (adoption_result row)\<lparr>apr_idempotency_key := []\<rparr>"
    and db': "adoptions db' = adoptions db @ [row]" "messages db' = messages db" "deliveries db' = deliveries db"
      "outbox db' = adopt_notifications (aq_source q') (aq_adopting q') (e_now env) ?mail (outbox db)"
    using n by (rule adopt_newD) (rule that)
  have md: "m \<in> set (legacy_messages db)" "d \<in> set (deliveries db)" "mr_id m = dl_message_id d"
    "dl_recipient d = aq_source q'" "claimable (e_now env) d" "unexpired (e_now env) m"
    using assms(4) q' by (auto simp: adoptable_def recipient_join_def)
  have ad: "adopter db' b = (if b = aq_source q' then Some (aq_adopting q') else adopter db b)" for b
    using adopter_append [OF db'(1), of b] row none by (auto simp: adopter_def split: option.splits)
  have other: "adopter db b \<noteq> Some (aq_adopting q')" for b
    using assms(3) q' by (auto simp: adopter_def dest!: row_by_SomeD)
  have "apr_transferred r = int (length (filter (\<lambda>md. \<not> addressed_too db (aq_adopting q') md) ?mail))"
    using cnt sum_length_filter_compl [of "addressed_too db (aq_adopting q')" ?mail] by (simp add: r adoption_result_def)
  moreover have "(m, d) \<in> set (claim_rows db' (aq_adopting q') [] (e_now env))"
    if "\<not> addressed_too db (aq_adopting q') (m, d)"
  proof -
    have "candidate db' (aq_adopting q') d" using md ad by (simp add: candidate_def)
    moreover have "dl_recipient d' = aq_source q'"
      if "d' \<in> set (deliveries db')" "candidate db' (aq_adopting q') d'" "dl_message_id d' = dl_message_id d" for d'
      using that \<open>\<not> addressed_too db (aq_adopting q') (m, d)\<close> ad other db'(3)
      by (auto simp: candidate_def addressed_too_def list_ex_iff split: if_splits)
    ultimately have "preferred db' (aq_adopting q') d"
      using md(4) by (auto simp: preferred_def list_all_iff pref_key_def)
    then show ?thesis using md db' by (simp add: in_claim_rows legacy_messages_def)
  qed
  moreover have "row_by outbox_key (mr_id m, aq_adopting q') (outbox db') \<noteq> None" if "mr_delivery_request m \<noteq> NonBlocking"
    unfolding db'(4) adopt_notifications_def md(3) row_by_None_key fold_enqueue_keys
    using that assms(4) q' by force
  ultimately show ?thesis using q' by auto
qed

section \<open>The properties at a concrete store\<close>

definition sample_registration :: "string \<Rightarrow> string \<Rightarrow> int \<Rightarrow> registration_row" where
  "sample_registration a run until = \<lparr>rg_actor = a, rg_run_id = run, rg_harness = ''claude'',
     rg_attention_mode = ''hook-long-poll'', rg_session_id = ''s1'', rg_delivery_handle = ''s1'',
     rg_project_id = ''p'', rg_working_dir = [], rg_epoch = 1, rg_registered_at = 50, rg_updated_at = 50,
     rg_lease_expires = until, rg_ended_at = None, rg_superseded_at = None\<rparr>"

definition sample_live_db :: db where
  "sample_live_db = sample_db\<lparr>registrations := [sample_registration ''dave'' ''run9'' 1000]\<rparr>"

definition sample_adopt :: adopt_request where
  "sample_adopt = \<lparr>aq_source = ''alice '', aq_adopting = ''dave'', aq_run = ''run9'', aq_project_id = [],
     aq_idempotency_key = ''ad1''\<rparr>"

definition sample_adopted :: "adopt_result \<times> db" where
  "sample_adopted = projr (AdoptActor (sample_env 200) sample_adopt sample_live_db)"

lemma sample_adopted_run:
  "AdoptActor (sample_env 200) sample_adopt sample_live_db = Inr (fst sample_adopted, snd sample_adopted)"
  "\<not> apr_duplicate (fst sample_adopted)"
  by code_simp+


lemma AdoptActor_one_winner_witness:
  "AdoptActor (sample_env 300) (sample_adopt\<lparr>aq_adopting := ''erin''\<rparr>) (snd sample_adopted) = Inl ErrAdoptionConflict"
proof (rule AdoptActor_one_winner [OF sample_adopted_run(1) rtranclp.rtrancl_refl])
  let ?q = "sample_adopt\<lparr>aq_adopting := ''erin''\<rparr>"
  show "normalizeAdoptRequest ?q = Inr (projr (normalizeAdoptRequest ?q))" by code_simp
  show "trim (aq_source ?q) = trim (aq_source sample_adopt)" by simp
  show "trim (aq_adopting ?q) \<noteq> trim (aq_adopting sample_adopt) \<or>
    trim (aq_idempotency_key ?q) \<noteq> trim (aq_idempotency_key sample_adopt)" by code_simp
qed

lemma AdoptActor_delivers_witness:
  "apr_transferred (fst sample_adopted) = 2 \<and>
    (sample_message ''m2'' ''k2'' 20, sample_delivery ''m2'' ''alice'') \<in> set (claim_rows (snd sample_adopted) ''dave'' [] 200)"
proof -
  let ?m = "sample_message ''m2'' ''k2'' 20" and ?d = "sample_delivery ''m2'' ''alice''"
  let ?mail = "adoptable sample_live_db (trim (aq_source sample_adopt)) (e_now (sample_env 200))"
  let ?both = "addressed_too sample_live_db (trim (aq_adopting sample_adopt))"
  have 1: "\<forall>row\<in>set (adoptions sample_live_db). ad_adopting row \<noteq> trim (aq_adopting sample_adopt)" by code_simp
  have 2: "(?m, ?d) \<in> set ?mail" by code_simp
  have 3: "\<not> ?both (?m, ?d)" "length (filter (\<lambda>md. \<not> ?both md) ?mail) = 2"
    "trim (aq_adopting sample_adopt) = ''dave''" "e_now (sample_env 200) = 200" by code_simp+
  from AdoptActor_delivers [OF sample_adopted_run 1 2] 3 show ?thesis by simp
qed

end
