(* ===== verification/Conditions.thy ===== *)
theory Conditions
  imports StoreState Samples
begin

text \<open>
  \<open>conditions.go\<close>: operator conditions, keyed by kind and subject. A condition is visible,
  snoozed, acknowledged or resolved; seeing a resolved one again opens its next generation,
  and an operator's decision applies to the generation it was shown for. The query that
  reconciles stale unread mail renders JSON and times and is not modelled.
\<close>

section \<open>Operations\<close>

record condition_observation =
  co_kind :: string
  co_subject :: string
  co_reason_code :: string
  co_summary :: string
  co_details :: string

definition new_condition :: "condition_observation \<Rightarrow> int \<Rightarrow> condition_row" where
  "new_condition q now = \<lparr>oc_kind = co_kind q, oc_subject = co_subject q, oc_generation = 1,
     oc_state = ActiveVisible, oc_reason_code = co_reason_code q, oc_summary = co_summary q,
     oc_details = co_details q, oc_first_seen_at = now, oc_last_seen_at = now, oc_resolved_at = None,
     oc_snoozed_until = None, oc_acknowledged_at = None, oc_presentation_owner = None,
     oc_presentation_lease = None\<rparr>"

definition observed_state :: "condition_row \<Rightarrow> int \<Rightarrow> int \<times> condition_state" where
  "observed_state c now =
    (if oc_state c = ConditionResolved then (oc_generation c + 1, ActiveVisible)
     else if oc_state c = ActiveSnoozed \<and> sql_le (oc_snoozed_until c) now then (oc_generation c, ActiveVisible)
     else (oc_generation c, oc_state c))"

definition observe_row :: "condition_observation \<Rightarrow> int \<Rightarrow> condition_row \<Rightarrow> condition_row" where
  "observe_row q now c = (let (generation, state) = observed_state c now in
     c\<lparr>oc_generation := generation, oc_state := state, oc_reason_code := co_reason_code q,
       oc_summary := co_summary q, oc_details := co_details q, oc_last_seen_at := now, oc_resolved_at := None,
       oc_snoozed_until := (if state = ActiveSnoozed then oc_snoozed_until c else None),
       oc_acknowledged_at := (if state = ActiveAcknowledged then oc_acknowledged_at c else None),
       oc_presentation_owner := None, oc_presentation_lease := None\<rparr>)"

definition normalize_observation :: "condition_observation \<Rightarrow> error + condition_observation" where
  "normalize_observation q =
    (let kind = trim (co_kind q); subject = trim (co_subject q); reason = trim (co_reason_code q);
         summary = trim (co_summary q); details = (if co_details q = [] then ''{}'' else co_details q) in
     bindE (forE [(''condition.kind'', kind, 64), (''condition.subject'', subject, 512),
       (''condition.reason_code'', reason, 128), (''condition.summary'', summary, 1024)] require_text) (\<lambda>_.
     bindE (requireE (\<not> (int (length details) > 65536 \<or> \<not> valid_json details))
       (ValidationError ''condition.details'' ''must be valid JSON no larger than 64 KiB'')) (\<lambda>_.
     Inr \<lparr>co_kind = kind, co_subject = subject, co_reason_code = reason, co_summary = summary,
       co_details = details\<rparr>)))"

definition getCondition :: "string \<Rightarrow> string \<Rightarrow> db \<Rightarrow> error + condition_row" where
  "getCondition kind subject db = (case row_by condition_key (kind, subject) (conditions db) of
     None \<Rightarrow> Inl ErrNotFound | Some c \<Rightarrow> Inr c)"

definition ObserveCondition :: "env \<Rightarrow> condition_observation \<Rightarrow> db \<Rightarrow> error + (condition_row \<times> db)" where
  "ObserveCondition env request db =
    bindE (normalize_observation request) (\<lambda>q.
    let k = (co_kind q, co_subject q);
        rows = (if row_by condition_key k (conditions db) = None
          then conditions db @ [new_condition q (e_now env)]
          else update_where (\<lambda>c. condition_key c = k) (observe_row q (e_now env)) (conditions db));
        db1 = db\<lparr>conditions := rows\<rparr> in
    bindE (getCondition (co_kind q) (co_subject q) db1) (\<lambda>c. Inr (c, db1)))"

definition resolve_row :: "int \<Rightarrow> condition_row \<Rightarrow> condition_row" where
  "resolve_row now c = c\<lparr>oc_state := ConditionResolved, oc_last_seen_at := now, oc_resolved_at := Some now,
     oc_snoozed_until := None, oc_presentation_owner := None, oc_presentation_lease := None\<rparr>"

definition ResolveCondition :: "env \<Rightarrow> string \<Rightarrow> string \<Rightarrow> db \<Rightarrow> error + db" where
  "ResolveCondition env kind0 subject0 db =
    (let kind = trim kind0; subject = trim subject0 in
     bindE (requireE (kind \<noteq> [] \<and> subject \<noteq> []) (ValidationError ''condition'' ''kind and subject are required'')) (\<lambda>_.
     Inr (db\<lparr>conditions := update_where (\<lambda>c. condition_key c = (kind, subject) \<and> oc_state c \<noteq> ConditionResolved)
       (resolve_row (e_now env)) (conditions db)\<rparr>)))"

definition ResolveConditionIfReason :: "env \<Rightarrow> string \<Rightarrow> string \<Rightarrow> string \<Rightarrow> db \<Rightarrow> error + db" where
  "ResolveConditionIfReason env kind0 subject0 reason0 db =
    (let kind = trim kind0; subject = trim subject0; reason = trim reason0 in
     bindE (requireE (kind \<noteq> [] \<and> subject \<noteq> [] \<and> reason \<noteq> [])
       (ValidationError ''condition'' ''kind, subject, and reason are required'')) (\<lambda>_.
     Inr (db\<lparr>conditions := update_where (\<lambda>c. condition_key c = (kind, subject) \<and> oc_reason_code c = reason \<and>
         oc_state c \<noteq> ConditionResolved) (resolve_row (e_now env)) (conditions db)\<rparr>)))"

fun condition_rank :: "condition_state \<Rightarrow> nat" where
  "condition_rank ActiveVisible = 0"
| "condition_rank ActiveSnoozed = 1"
| "condition_rank ActiveAcknowledged = 2"
| "condition_rank ConditionResolved = 3"

definition wake_row :: "condition_row \<Rightarrow> condition_row" where
  "wake_row c = c\<lparr>oc_state := ActiveVisible, oc_snoozed_until := None\<rparr>"

definition ListConditions :: "env \<Rightarrow> bool \<Rightarrow> int \<Rightarrow> db \<Rightarrow> condition_row list \<times> db" where
  "ListConditions env includeResolved limit db =
    (let rows = update_where (\<lambda>c. oc_state c = ActiveSnoozed \<and> sql_le (oc_snoozed_until c) (e_now env))
           wake_row (conditions db);
         n = (if limit \<le> 0 \<or> limit > 500 then 100 else nat limit) in
     (take n (sort_key (\<lambda>c. (condition_rank (oc_state c), - oc_last_seen_at c))
        (filter (\<lambda>c. includeResolved \<or> oc_state c \<noteq> ConditionResolved) rows)),
      db\<lparr>conditions := rows\<rparr>))"

definition present_row :: "condition_state \<Rightarrow> int option \<Rightarrow> int option \<Rightarrow> condition_row \<Rightarrow> condition_row" where
  "present_row state snooze acknowledged c = c\<lparr>oc_state := state, oc_snoozed_until := snooze,
     oc_acknowledged_at := acknowledged, oc_presentation_owner := None, oc_presentation_lease := None\<rparr>"

definition changeConditionPresentation ::
  "env \<Rightarrow> string \<Rightarrow> string \<Rightarrow> int \<Rightarrow> condition_state \<Rightarrow> int \<Rightarrow> db \<Rightarrow> error + (condition_row \<times> db)" where
  "changeConditionPresentation env kind0 subject0 generation state until db =
    (let kind = trim kind0; subject = trim subject0;
         snooze = (if state = ActiveSnoozed then Some until else None);
         acknowledged = (if state = ActiveSnoozed then None else Some (e_now env));
         p = (\<lambda>c. condition_key c = (kind, subject) \<and> oc_generation c = generation \<and> oc_state c \<noteq> ConditionResolved) in
     bindE (requireE (kind \<noteq> [] \<and> subject \<noteq> [] \<and> 0 < generation)
       (ValidationError ''condition'' ''kind, subject, and positive generation are required'')) (\<lambda>_.
     bindE (requireE (affected p (conditions db) \<noteq> 0) ErrNotFound) (\<lambda>_.
     let db1 = db\<lparr>conditions := update_where p (present_row state snooze acknowledged) (conditions db)\<rparr> in
     bindE (getCondition kind subject db1) (\<lambda>c. Inr (c, db1)))))"

definition AcknowledgeCondition :: "env \<Rightarrow> string \<Rightarrow> string \<Rightarrow> int \<Rightarrow> db \<Rightarrow> error + (condition_row \<times> db)" where
  "AcknowledgeCondition env kind subject generation db =
    changeConditionPresentation env kind subject generation ActiveAcknowledged 0 db"

definition SnoozeCondition :: "env \<Rightarrow> string \<Rightarrow> string \<Rightarrow> int \<Rightarrow> int \<Rightarrow> db \<Rightarrow> error + (condition_row \<times> db)" where
  "SnoozeCondition env kind subject generation until db =
    bindE (requireE (e_now env < until) (ValidationError ''until'' ''must be in the future'')) (\<lambda>_.
    changeConditionPresentation env kind subject generation ActiveSnoozed until db)"

definition claim_presentation_row :: "string \<Rightarrow> int \<Rightarrow> condition_row \<Rightarrow> condition_row" where
  "claim_presentation_row presenter until c =
    c\<lparr>oc_presentation_owner := Some presenter, oc_presentation_lease := Some until\<rparr>"

definition presentable :: "string \<times> string \<Rightarrow> int \<Rightarrow> string \<Rightarrow> int \<Rightarrow> condition_row \<Rightarrow> bool" where
  "presentable k generation presenter now c \<longleftrightarrow> condition_key c = k \<and> oc_generation c = generation \<and>
     oc_state c = ActiveVisible \<and>
     (oc_presentation_owner c = None \<or> sql_le (oc_presentation_lease c) now \<or> oc_presentation_owner c = Some presenter)"

definition ClaimConditionPresentation ::
  "env \<Rightarrow> string \<Rightarrow> string \<Rightarrow> int \<Rightarrow> string \<Rightarrow> int \<Rightarrow> db \<Rightarrow> error + (bool \<times> db)" where
  "ClaimConditionPresentation env kind subject generation presenter0 lease db =
    (let presenter = trim presenter0; p = presentable (kind, subject) generation presenter (e_now env) in
     bindE (requireE (kind \<noteq> [] \<and> subject \<noteq> [] \<and> 0 < generation \<and> presenter \<noteq> [])
       (ValidationError ''condition presentation'' ''kind, subject, generation, and presenter are required'')) (\<lambda>_.
     bindE (requireE (0 < lease \<and> lease \<le> 300 * 1000000000)
       (ValidationError ''presentation_lease'' ''must be between 0 and 5m'')) (\<lambda>_.
     Inr (affected p (conditions db) = 1,
       db\<lparr>conditions := update_where p (claim_presentation_row presenter (e_now env + lease)) (conditions db)\<rparr>))))"

section \<open>The state machine of one condition\<close>

inductive condition_step :: "int \<Rightarrow> condition_row \<Rightarrow> condition_row \<Rightarrow> bool" for now where
  stay: "condition_step now c c"
| observe: "condition_step now c (observe_row q now c)"
| resolve: "oc_state c \<noteq> ConditionResolved \<Longrightarrow> condition_step now c (resolve_row now c)"
| wake: "oc_state c = ActiveSnoozed \<Longrightarrow> sql_le (oc_snoozed_until c) now \<Longrightarrow> condition_step now c (wake_row c)"
| acknowledge: "oc_state c \<noteq> ConditionResolved \<Longrightarrow>
    condition_step now c (present_row ActiveAcknowledged None (Some now) c)"
| snooze: "oc_state c \<noteq> ConditionResolved \<Longrightarrow> now < until \<Longrightarrow>
    condition_step now c (present_row ActiveSnoozed (Some until) None c)"
| present: "oc_state c = ActiveVisible \<Longrightarrow> now < until \<Longrightarrow>
    oc_presentation_owner c = None \<or> sql_le (oc_presentation_lease c) now \<or> oc_presentation_owner c = Some p \<Longrightarrow>
    condition_step now c (claim_presentation_row p until c)"

inductive_cases condition_stepE: "condition_step now c c'"

lemmas condition_rows = observe_row_def observed_state_def resolve_row_def wake_row_def present_row_def
  claim_presentation_row_def

definition condition_shape :: "condition_row \<Rightarrow> bool" where
  "condition_shape c \<longleftrightarrow> 1 \<le> oc_generation c \<and>
    (oc_state c = ConditionResolved \<longleftrightarrow> oc_resolved_at c \<noteq> None) \<and>
    (oc_state c = ActiveSnoozed \<longleftrightarrow> oc_snoozed_until c \<noteq> None) \<and>
    (oc_state c = ActiveAcknowledged \<longrightarrow> oc_acknowledged_at c \<noteq> None) \<and>
    (oc_presentation_owner c = None \<longleftrightarrow> oc_presentation_lease c = None)"

definition conditions_ok :: "db \<Rightarrow> bool" where
  "conditions_ok db \<longleftrightarrow> distinct (map condition_key (conditions db)) \<and> (\<forall>c\<in>set (conditions db). condition_shape c)"

lemma condition_step_key: "condition_step now c c' \<Longrightarrow> condition_key c' = condition_key c"
  by (erule condition_stepE) (auto simp: condition_rows Let_def split: prod.splits)

lemma condition_step_shape: "condition_step now c c' \<Longrightarrow> condition_shape c \<Longrightarrow> condition_shape c'"
  by (erule condition_stepE) (auto simp: condition_rows condition_shape_def Let_def split: prod.splits if_splits)

lemma condition_step_generation:
  "condition_step now c c' \<Longrightarrow> oc_generation c' = oc_generation c \<or>
    oc_state c = ConditionResolved \<and> oc_generation c' = oc_generation c + 1 \<and> oc_state c' = ActiveVisible"
  by (erule condition_stepE) (auto simp: condition_rows Let_def split: prod.splits if_splits)

lemma condition_step_resolved:
  "condition_step now c c' \<Longrightarrow> oc_state c = ConditionResolved \<Longrightarrow> c' = c \<or> oc_generation c' = oc_generation c + 1"
  by (erule condition_stepE) (auto simp: condition_rows Let_def split: prod.splits if_splits)

text \<open>Each operation steps the rows it finds, and the first observation adds a row.\<close>

definition conditions_step :: "int \<Rightarrow> condition_row list \<Rightarrow> condition_row list \<Rightarrow> bool" where
  "conditions_step now cs cs' \<longleftrightarrow> (\<exists>stepped new. cs' = stepped @ new \<and> list_all2 (condition_step now) cs stepped \<and>
     (new = [] \<or> (\<exists>q. new = [new_condition q now] \<and> (co_kind q, co_subject q) \<notin> condition_key ` set cs)))"

lemma conditions_step_update:
  assumes "\<And>c. c \<in> set cs \<Longrightarrow> p c \<Longrightarrow> condition_step now c (f c)"
  shows "conditions_step now cs (update_where p f cs)"
proof -
  have "list_all2 (condition_step now) cs (update_where p f cs)"
    using assms by (induction cs) (auto intro: stay)
  then show ?thesis unfolding conditions_step_def by (intro exI [of _ "update_where p f cs"] exI [of _ "[]"]) simp
qed

lemma conditions_step_ok:
  assumes "conditions_step now (conditions db) (conditions db')" and "conditions_ok db"
  shows "conditions_ok db'"
proof -
  obtain stepped new where cs': "conditions db' = stepped @ new"
    and st: "list_all2 (condition_step now) (conditions db) stepped"
    and new: "new = [] \<or> (\<exists>q. new = [new_condition q now] \<and> (co_kind q, co_subject q) \<notin> condition_key ` set (conditions db))"
    using assms(1) unfolding conditions_step_def by blast
  from st have keys: "map condition_key stepped = map condition_key (conditions db)"
    by (induction rule: list_all2_induct) (auto dest: condition_step_key)
  from st assms(2) have shape: "\<forall>c\<in>set stepped. condition_shape c"
    unfolding conditions_ok_def by (induction rule: list_all2_induct) (auto dest: condition_step_shape)
  have set_keys: "condition_key ` set stepped = condition_key ` set (conditions db)"
    by (simp only: list.set_map [symmetric] keys)
  have k: "condition_key (new_condition q now) = (co_kind q, co_subject q)" "condition_shape (new_condition q now)" for q
    by (simp_all add: new_condition_def condition_shape_def)
  have d: "distinct (map condition_key stepped)" using assms(2) by (simp add: conditions_ok_def keys)
  from new show ?thesis
  proof (elim disjE exE conjE)
    assume "new = []"
    then show ?thesis using d shape by (simp add: conditions_ok_def cs')
  next
    fix q
    assume q: "new = [new_condition q now]" and "(co_kind q, co_subject q) \<notin> condition_key ` set (conditions db)"
    then have "condition_key (new_condition q now) \<notin> condition_key ` set stepped" by (simp only: k set_keys not_False_eq_True)
    then show ?thesis using d shape k(2) by (simp add: conditions_ok_def cs' q)
  qed
qed

lemma conditions_step_new:
  "(co_kind q, co_subject q) \<notin> condition_key ` set cs \<Longrightarrow> conditions_step now cs (cs @ [new_condition q now])"
  unfolding conditions_step_def by (intro exI [of _ cs] exI [of _ "[new_condition q now]"]) (auto simp: list.rel_refl stay)

lemma ObserveCondition_step:
  assumes "ObserveCondition env q db = Inr (c, db')"
  shows "conditions_step (e_now env) (conditions db) (conditions db')"
proof -
  obtain n where db': "db' = db\<lparr>conditions := (if row_by condition_key (co_kind n, co_subject n) (conditions db) = None
          then conditions db @ [new_condition n (e_now env)]
          else update_where (\<lambda>c. condition_key c = (co_kind n, co_subject n)) (observe_row n (e_now env)) (conditions db))\<rparr>"
    using assms by (auto simp: ObserveCondition_def Let_def bindE_Inr_iff)
  show ?thesis
  proof (cases "row_by condition_key (co_kind n, co_subject n) (conditions db)")
    case None
    then show ?thesis using conditions_step_new [of n "conditions db"] by (simp add: db' row_by_None_key)
  next
    case (Some row)
    have "conditions_step (e_now env) (conditions db)
        (update_where (\<lambda>c. condition_key c = (co_kind n, co_subject n)) (observe_row n (e_now env)) (conditions db))"
      by (rule conditions_step_update) (rule condition_step.observe)
    then show ?thesis using Some by (simp add: db')
  qed
qed

lemma ResolveCondition_step:
  "ResolveCondition env k s db = Inr db' \<Longrightarrow> conditions_step (e_now env) (conditions db) (conditions db')"
  by (auto simp: ResolveCondition_def Let_def bindE_Inr_iff intro!: conditions_step_update condition_step.resolve)

lemma ResolveConditionIfReason_step:
  "ResolveConditionIfReason env k s r db = Inr db' \<Longrightarrow> conditions_step (e_now env) (conditions db) (conditions db')"
  by (auto simp: ResolveConditionIfReason_def Let_def bindE_Inr_iff intro!: conditions_step_update condition_step.resolve)

lemma ListConditions_step:
  "ListConditions env b n db = (cs, db') \<Longrightarrow> conditions_step (e_now env) (conditions db) (conditions db')"
  by (auto simp: ListConditions_def Let_def intro!: conditions_step_update condition_step.wake)

lemma AcknowledgeCondition_step:
  "AcknowledgeCondition env k s g db = Inr (c, db') \<Longrightarrow> conditions_step (e_now env) (conditions db) (conditions db')"
  by (auto simp: AcknowledgeCondition_def changeConditionPresentation_def Let_def bindE_Inr_iff
      intro!: conditions_step_update condition_step.acknowledge)

lemma SnoozeCondition_step:
  "SnoozeCondition env k s g u db = Inr (c, db') \<Longrightarrow> conditions_step (e_now env) (conditions db) (conditions db')"
  by (auto simp: SnoozeCondition_def changeConditionPresentation_def Let_def bindE_Inr_iff requireE_Inr_iff
      intro!: conditions_step_update condition_step.snooze)

lemma ClaimConditionPresentation_step:
  "ClaimConditionPresentation env k s g p l db = Inr (b, db') \<Longrightarrow> conditions_step (e_now env) (conditions db) (conditions db')"
  by (auto simp: ClaimConditionPresentation_def Let_def bindE_Inr_iff requireE_Inr_iff presentable_def
      intro!: conditions_step_update condition_step.present)

end
