(* ===== verification/ConditionProps.thy ===== *)
theory ConditionProps
  imports Conditions
begin

text \<open>
  What an operator can rely on about conditions: one presenter at a time, and a decision is
  about the generation that was shown.
\<close>

section \<open>Properties\<close>

lemma condition_row_unique:
  assumes "conditions_ok db" and "c \<in> set (conditions db)" and "c' \<in> set (conditions db)" and "condition_key c = condition_key c'"
  shows "c = c'"
  using assms by (auto simp: conditions_ok_def distinct_map dest: inj_onD)

interpretation present_upd: keyed_update condition_key "claim_presentation_row p u"
  by unfold_locales (simp add: claim_presentation_row_def)

lemma ClaimConditionPresentationD:
  assumes "ClaimConditionPresentation env kind subject g p lease db = Inr (won, db')"
  shows "(won \<longleftrightarrow> affected (presentable (kind, subject) g (trim p) (e_now env)) (conditions db) = 1) \<and>
    db' = db\<lparr>conditions := update_where (presentable (kind, subject) g (trim p) (e_now env))
      (claim_presentation_row (trim p) (e_now env + lease)) (conditions db)\<rparr>"
  using assms by (auto simp add: ClaimConditionPresentation_def Let_def bindE_Inr_iff)

text \<open>
  One presenter at a time: after a presenter has won a condition, another presenter
  that asks before the presentation lease runs out is told no, and nothing changes.
\<close>

theorem presentation_exclusive:
  assumes "conditions_ok db" and "ClaimConditionPresentation env kind subject g p lease db = Inr (True, db1)"
    and "ClaimConditionPresentation env2 kind subject g q lease2 db1 = Inr (won, db2)"
    and "trim q \<noteq> trim p" and "e_now env2 < e_now env + lease"
  shows "\<not> won \<and> db2 = db1"
proof -
  let ?p = "presentable (kind, subject) g (trim p) (e_now env)"
  let ?q = "presentable (kind, subject) g (trim q) (e_now env2)"
  from ClaimConditionPresentationD [OF assms(2)]
  have 1: "affected ?p (conditions db) = 1"
    and db1: "db1 = db\<lparr>conditions := update_where ?p (claim_presentation_row (trim p) (e_now env + lease)) (conditions db)\<rparr>"
    by (metis, blast)
  from ClaimConditionPresentationD [OF assms(3)]
  have won: "won \<longleftrightarrow> affected ?q (conditions db1) = 1"
    and db2: "db2 = db1\<lparr>conditions := update_where ?q (claim_presentation_row (trim q) (e_now env2 + lease2)) (conditions db1)\<rparr>"
    by blast+
  have "0 < affected ?p (conditions db)" by (simp only: 1)
  then obtain w where w: "w \<in> set (conditions db)" "?p w" unfolding affected_pos_iff ..
  have none: "\<not> ?q c" if "c \<in> set (conditions db1)" for c
  proof
    assume q: "?q c"
    have "c \<in> set (update_where ?p (claim_presentation_row (trim p) (e_now env + lease)) (conditions db))"
      using that by (simp only: db1) simp
    then obtain c0 where c0: "c0 \<in> set (conditions db)"
      "c = (if ?p c0 then claim_presentation_row (trim p) (e_now env + lease) c0 else c0)"
      by (meson in_update_whereD)
    have "condition_key c = condition_key c0" using c0(2) by (simp add: claim_presentation_row_def)
    then have "condition_key c0 = condition_key w"
      using q w(2) by (metis presentable_def)
    then have "c0 = w" using condition_row_unique [OF assms(1) c0(1) w(1)] by blast
    then have "c = claim_presentation_row (trim p) (e_now env + lease) c0" using c0(2) w(2) by simp
    then show False
      using q assms(4,5) by (simp add: presentable_def claim_presentation_row_def)
  qed
  then have "affected ?q (conditions db1) = 0"
    "update_where ?q (claim_presentation_row (trim q) (e_now env2 + lease2)) (conditions db1) = conditions db1"
    by (simp add: affected_zero_iff, intro update_where_none ballI) (rule none)
  then show ?thesis using won db2 by simp
qed

text \<open>
  An operator's decision is about what was shown: when a resolved condition is seen
  again it becomes visible under a new generation, and acknowledging or snoozing the
  generation that was resolved is refused.
\<close>

theorem reopened_needs_new_decision:
  assumes "conditions_ok db" and "ObserveCondition env q db = Inr (c, db1)"
    and "row_by condition_key (condition_key c) (conditions db) = Some old" and "oc_state old = ConditionResolved"
  shows "oc_state c = ActiveVisible \<and> oc_generation c = oc_generation old + 1 \<and>
    AcknowledgeCondition env2 (oc_kind c) (oc_subject c) (oc_generation old) db1 = Inl ErrNotFound \<and>
    (e_now env2 < until \<longrightarrow> SnoozeCondition env2 (oc_kind c) (oc_subject c) (oc_generation old) until db1 = Inl ErrNotFound)"
proof -
  obtain n where n: "normalize_observation q = Inr n"
    and db1: "db1 = db\<lparr>conditions := (if row_by condition_key (co_kind n, co_subject n) (conditions db) = None
          then conditions db @ [new_condition n (e_now env)]
          else update_where (\<lambda>c. condition_key c = (co_kind n, co_subject n)) (observe_row n (e_now env)) (conditions db))\<rparr>"
    and c: "row_by condition_key (co_kind n, co_subject n) (conditions db1) = Some c"
    using assms(2) by (auto simp: ObserveCondition_def getCondition_def Let_def bindE_Inr_iff split: option.splits)
  have key: "condition_key c = (co_kind n, co_subject n)" using row_by_SomeD [OF c] by simp
  have trimmed: "trim (co_kind n) = co_kind n" "trim (co_subject n) = co_subject n" "co_kind n \<noteq> []" "co_subject n \<noteq> []"
    using n by (auto simp: normalize_observation_def Let_def bindE_Inr_iff forE_Inr_iff require_text_Inr)
  let ?obs = "observe_row n (e_now env)"
  have old: "old \<in> set (conditions db)" "condition_key old = (co_kind n, co_subject n)"
    using row_by_SomeD [OF assms(3)] key by auto
  have upd: "conditions db1 = update_where (\<lambda>c. condition_key c = (co_kind n, co_subject n)) ?obs (conditions db)"
    using assms(3) key by (simp add: db1)
  obtain c0 where c0: "c0 \<in> set (conditions db)" "c = (if condition_key c0 = (co_kind n, co_subject n) then ?obs c0 else c0)"
    using in_update_whereD [OF row_by_SomeD [OF c, THEN conjunct1, unfolded upd]] by auto
  have kobs: "condition_key (?obs x) = condition_key x" for x by (simp add: observe_row_def Let_def split: prod.splits)
  have "condition_key c0 = (co_kind n, co_subject n)" using c0(2) key by (auto split: if_splits)
  then have "c0 = old" using condition_row_unique [OF assms(1) c0(1) old(1)] old(2) by simp
  then have fresh: "oc_state c = ActiveVisible" "oc_generation c = oc_generation old + 1"
    using c0(2) old(2) assms(4) by (simp_all add: observe_row_def observed_state_def)
  have gen: "oc_generation c' \<noteq> oc_generation old"
    if "c' \<in> set (conditions db1)" "condition_key c' = (co_kind n, co_subject n)" for c'
  proof -
    have "c' \<in> set (conditions db1)" by (rule that(1))
    then have "\<exists>c1\<in>set (conditions db). c' = (if condition_key c1 = (co_kind n, co_subject n) then ?obs c1 else c1)"
      unfolding upd by (rule in_update_whereD)
    then obtain c1 where c1: "c1 \<in> set (conditions db)" "c' = (if condition_key c1 = (co_kind n, co_subject n) then ?obs c1 else c1)"
      by auto
    then have "condition_key c1 = (co_kind n, co_subject n)" using that(2) by (auto split: if_splits)
    then have "c1 = old" using condition_row_unique [OF assms(1) c1(1) old(1)] old(2) by simp
    then show ?thesis using c1(2) old(2) assms(4) by (simp add: observe_row_def observed_state_def)
  qed
  have none: "affected (\<lambda>c'. condition_key c' = (co_kind n, co_subject n) \<and> oc_generation c' = oc_generation old \<and>
      oc_state c' \<noteq> ConditionResolved) (conditions db1) = 0"
    using gen by (auto simp: affected_zero_iff)
  have g: "0 < oc_generation old" using assms(1) old(1) by (auto simp: conditions_ok_def condition_shape_def)
  have "oc_kind c = co_kind n" "oc_subject c = co_subject n" using key by auto
  then show ?thesis
    using fresh none trimmed g
    by (simp add: AcknowledgeCondition_def SnoozeCondition_def changeConditionPresentation_def Let_def)
qed

section \<open>The properties at a concrete store\<close>

definition sample_observation :: condition_observation where
  "sample_observation = \<lparr>co_kind = ''stale_unread'', co_subject = ''alice'', co_reason_code = ''r'',
     co_summary = ''mail waits'', co_details = []\<rparr>"

definition sample_condition_db :: db where
  "sample_condition_db = snd (projr (ObserveCondition (sample_env 10) sample_observation sample_db))"

definition sample_resolved_db :: db where
  "sample_resolved_db = projr (ResolveCondition (sample_env 20) ''stale_unread'' ''alice'' sample_condition_db)"

lemma presentation_exclusive_witness:
  "fst (projr (ClaimConditionPresentation (sample_env 40) ''stale_unread'' ''alice'' 1 ''web'' 60
     (snd (projr (ClaimConditionPresentation (sample_env 30) ''stale_unread'' ''alice'' 1 ''cli'' 60 sample_condition_db))))) = False"
proof -
  let ?first = "ClaimConditionPresentation (sample_env 30) ''stale_unread'' ''alice'' 1 ''cli'' 60 sample_condition_db"
  let ?second = "ClaimConditionPresentation (sample_env 40) ''stale_unread'' ''alice'' 1 ''web'' 60 (snd (projr ?first))"
  have 0: "conditions_ok sample_condition_db" by code_simp
  have "case ?first of Inl e \<Rightarrow> False | Inr (won, db) \<Rightarrow> won" by code_simp
  then have 1: "?first = Inr (True, snd (projr ?first))" by (cases ?first) auto
  have "\<not> isl ?second" by code_simp
  then have 2: "?second = Inr (fst (projr ?second), snd (projr ?second))" by (rule answered)
  have 3: "trim ''web'' \<noteq> trim ''cli''" "e_now (sample_env 40) < e_now (sample_env 30) + 60" by code_simp+
  from presentation_exclusive [OF 0 1 2 3] show ?thesis by simp
qed

lemma reopened_needs_new_decision_witness:
  "\<exists>c db1. ObserveCondition (sample_env 30) sample_observation sample_resolved_db = Inr (c, db1) \<and> oc_generation c = 2 \<and>
    AcknowledgeCondition (sample_env 40) (oc_kind c) (oc_subject c) 1 db1 = Inl ErrNotFound"
proof -
  let ?run = "ObserveCondition (sample_env 30) sample_observation sample_resolved_db"
  let ?old = "hd (conditions sample_resolved_db)"
  have 0: "conditions_ok sample_resolved_db" by code_simp
  have "\<not> isl ?run" by code_simp
  then have 1: "?run = Inr (fst (projr ?run), snd (projr ?run))" by (rule answered)
  have 2: "row_by condition_key (condition_key (fst (projr ?run))) (conditions sample_resolved_db) = Some ?old"
    "oc_state ?old = ConditionResolved" by code_simp+
  have 3: "oc_generation ?old = 1" by code_simp
  from reopened_needs_new_decision [OF 0 1 2, of "sample_env 40"] 1 3 show ?thesis by force
qed

end
