(* ===== verification/Sessions.thy ===== *)
theory Sessions
  imports Aliases Delivery
begin

text \<open>
  \<open>registration.go\<close> and \<open>host_attention.go\<close>: the sessions of an actor. A session is registered
  under a lease, renewed by heartbeats or by its monitor, superseded when a newer session takes
  over the actor's attention, and ended for good by \<open>ExpireRegistration\<close>. A host-injected
  Claude session is bound to one process and the host process that owns it.
\<close>

section \<open>Requests and results\<close>

record registration =
  rn_actor :: string
  rn_run_id :: string
  rn_harness :: string
  rn_attention_mode :: string
  rn_session_id :: string
  rn_delivery_handle :: string
  rn_project_id :: string
  rn_working_dir :: string
  rn_epoch :: int
  rn_updated_at :: int
  rn_lease_expires_at :: int
  rn_host_admitted :: bool

record process_identity =
  pi_pid :: int
  pi_start :: string

record host_attention_binding =
  hab_handle :: string
  hab_harness :: process_identity
  hab_host :: process_identity
  hab_actor :: string
  hab_run_id :: string
  hab_session_id :: string
  hab_admitted :: bool

record registration_request =
  rq_actor :: string
  rq_run_id :: string
  rq_harness :: string
  rq_attention_mode :: string
  rq_session_id :: string
  rq_delivery_handle :: string
  rq_project_id :: string
  rq_working_dir :: string
  rq_lease :: int
  rq_host :: "host_attention_binding option"

definition registration_of :: "registration_row \<Rightarrow> bool \<Rightarrow> registration" where
  "registration_of r admitted = \<lparr>rn_actor = rg_actor r, rn_run_id = rg_run_id r, rn_harness = rg_harness r,
     rn_attention_mode = rg_attention_mode r, rn_session_id = rg_session_id r,
     rn_delivery_handle = rg_delivery_handle r, rn_project_id = rg_project_id r,
     rn_working_dir = rg_working_dir r, rn_epoch = rg_epoch r, rn_updated_at = rg_updated_at r,
     rn_lease_expires_at = rg_lease_expires r, rn_host_admitted = admitted\<rparr>"

definition getRegistration :: "db \<Rightarrow> string \<times> string \<times> string \<Rightarrow> error + registration" where
  "getRegistration db k = (case row_by session_key k (registrations db) of
     None \<Rightarrow> Inl (InternalError ''scan registration'') | Some r \<Rightarrow> Inr (registration_of r False))"

section \<open>RegisterSession\<close>

definition default_mode :: "string \<Rightarrow> string \<Rightarrow> string" where
  "default_mode harness mode =
    (if mode \<noteq> [] then mode
     else if harness = ''codex'' then ''native-queue''
     else if harness = ''claude'' then ''hook-long-poll''
     else if harness = ''opencode'' then ''native-prompt'' else mode)"

definition trim_registration :: "registration_request \<Rightarrow> registration_request" where
  "trim_registration q =
    (let session = trim (rq_session_id q); handle = trim (rq_delivery_handle q); project = trim (rq_project_id q);
         harness = trim (rq_harness q) in
     q\<lparr>rq_actor := trim (rq_actor q), rq_run_id := trim (rq_run_id q), rq_harness := harness,
       rq_attention_mode := default_mode harness (trim (rq_attention_mode q)), rq_session_id := session,
       rq_delivery_handle := (if handle = [] then session else handle),
       rq_project_id := (if project = [] then ''default'' else project), rq_working_dir := trim (rq_working_dir q)\<rparr>)"

definition mode_allowed :: "string \<Rightarrow> string \<Rightarrow> error + unit" where
  "mode_allowed harness mode =
    (if harness = ''codex'' then requireE (mode \<in> {''native-queue'', ''startup-only''})
       (ValidationError ''registration.attention_mode'' ''must be native-queue or startup-only for codex'')
     else if harness = ''claude'' then requireE (mode \<in> {''hook-long-poll'', ''host-injected'', ''startup-only''})
       (ValidationError ''registration.attention_mode'' ''must be hook-long-poll, host-injected, or startup-only for claude'')
     else if harness = ''opencode'' then requireE (mode \<in> {''native-prompt'', ''startup-only''})
       (ValidationError ''registration.attention_mode'' ''must be native-prompt or startup-only for opencode'')
     else Inr ())"

definition validateHostAttentionBinding :: "host_attention_binding \<Rightarrow> error + unit" where
  "validateHostAttentionBinding b = requireE (trim (hab_handle b) \<noteq> [] \<and> 1 < pi_pid (hab_harness b) \<and>
     trim (pi_start (hab_harness b)) \<noteq> [] \<and> 1 < pi_pid (hab_host b) \<and> trim (pi_start (hab_host b)) \<noteq> [])
     (HostAttentionUnavailableError ''process_proof_unavailable''
       ''eligible harness and direct-parent process identities are required'')"

text \<open>A host-injected registration takes its identity into the binding before it is checked.\<close>

definition host_proof :: "registration_request \<Rightarrow> error + registration_request" where
  "host_proof q =
    (if rq_attention_mode q = ''host-injected'' then
       (case rq_host q of
          None \<Rightarrow> Inl (HostAttentionUnavailableError ''process_proof_unavailable'' ''daemon-derived process evidence is missing'')
        | Some h \<Rightarrow>
            let h' = h\<lparr>hab_actor := rq_actor q, hab_run_id := rq_run_id q, hab_session_id := rq_session_id q\<rparr> in
            bindE (validateHostAttentionBinding h') (\<lambda>_. Inr (q\<lparr>rq_host := Some h'\<rparr>)))
     else Inr q)"

definition normalize_registration :: "registration_request \<Rightarrow> error + registration_request" where
  "normalize_registration request =
    (let q = trim_registration request in
     bindE (requireE (0 < rq_lease q \<and> rq_lease q \<le> 7 * 24 * hour)
       (ValidationError ''registration.lease'' ''must be between 0 and 7d'')) (\<lambda>_.
     bindE (forE [(''actor'', rq_actor q), (''run_id'', rq_run_id q), (''harness'', rq_harness q),
         (''session_id'', rq_session_id q), (''delivery_handle'', rq_delivery_handle q)]
       (\<lambda>(name, value). requireE (value \<noteq> []) (ValidationError (''registration.'' @ name) ''is required''))) (\<lambda>_.
     bindE (requireE (rq_harness q \<in> {''codex'', ''claude'', ''opencode'', ''test''})
       (ValidationError ''registration.harness'' ''must be codex, claude, opencode, or test'')) (\<lambda>_.
     bindE (ValidateTextIdentifier ''registration.working_directory'' (rq_working_dir q) 4096) (\<lambda>_.
     bindE (mode_allowed (rq_harness q) (rq_attention_mode q)) (\<lambda>_.
     host_proof q))))))"

definition new_session :: "registration_request \<Rightarrow> int \<Rightarrow> registration_row" where
  "new_session q now = \<lparr>rg_actor = rq_actor q, rg_run_id = rq_run_id q, rg_harness = rq_harness q,
     rg_attention_mode = rq_attention_mode q, rg_session_id = rq_session_id q,
     rg_delivery_handle = rq_delivery_handle q, rg_project_id = rq_project_id q, rg_working_dir = rq_working_dir q,
     rg_epoch = 1, rg_registered_at = now, rg_updated_at = now, rg_lease_expires = now + rq_lease q,
     rg_ended_at = None, rg_superseded_at = None\<rparr>"

definition again_session :: "registration_request \<Rightarrow> int \<Rightarrow> registration_row \<Rightarrow> registration_row" where
  "again_session q now r = r\<lparr>rg_harness := rq_harness q, rg_attention_mode := rq_attention_mode q,
     rg_delivery_handle := rq_delivery_handle q, rg_project_id := rq_project_id q, rg_working_dir := rq_working_dir q,
     rg_epoch := rg_epoch r + 1, rg_registered_at := now, rg_updated_at := now,
     rg_lease_expires := now + rq_lease q, rg_ended_at := None, rg_superseded_at := None\<rparr>"

definition request_key :: "registration_request \<Rightarrow> string \<times> string \<times> string" where
  "request_key q = (rq_actor q, rq_run_id q, rq_session_id q)"

definition upsert_session :: "registration_request \<Rightarrow> int \<Rightarrow> registration_row list \<Rightarrow> registration_row list" where
  "upsert_session q now rows =
    (if row_by session_key (request_key q) rows = None then rows @ [new_session q now]
     else update_where (\<lambda>r. session_key r = request_key q) (again_session q now) rows)"

definition supersede_row :: "int \<Rightarrow> registration_row \<Rightarrow> registration_row" where
  "supersede_row now r = r\<lparr>rg_superseded_at := Some now\<rparr>"

definition attending :: "registration_row \<Rightarrow> bool" where
  "attending r \<longleftrightarrow> rg_ended_at r = None \<and> rg_superseded_at r = None"

abbreviation process_key :: "host_row \<Rightarrow> int \<times> string" where
  "process_key h \<equiv> (ha_harness_pid h, ha_harness_start h)"

abbreviation owner_key :: "host_row \<Rightarrow> string \<times> string \<times> string" where
  "owner_key h \<equiv> (ha_actor h, ha_run_id h, ha_session_id h)"

definition new_host_row :: "host_attention_binding \<Rightarrow> int \<Rightarrow> host_row" where
  "new_host_row b now = \<lparr>ha_harness_pid = pi_pid (hab_harness b), ha_harness_start = pi_start (hab_harness b),
     ha_handle = hab_handle b, ha_host_pid = pi_pid (hab_host b), ha_host_start = pi_start (hab_host b),
     ha_actor = hab_actor b, ha_run_id = hab_run_id b, ha_session_id = hab_session_id b,
     ha_admitted_at = None, ha_created_at = now, ha_updated_at = now\<rparr>"

definition replace_host_row :: "host_attention_binding \<Rightarrow> int \<Rightarrow> host_row \<Rightarrow> host_row" where
  "replace_host_row b now h = h\<lparr>ha_handle := hab_handle b, ha_host_pid := pi_pid (hab_host b),
     ha_host_start := pi_start (hab_host b), ha_actor := hab_actor b, ha_run_id := hab_run_id b,
     ha_session_id := hab_session_id b, ha_admitted_at := None, ha_updated_at := now\<rparr>"

definition refresh_host_row :: "host_attention_binding \<Rightarrow> int \<Rightarrow> host_row \<Rightarrow> host_row" where
  "refresh_host_row b now h = h\<lparr>ha_handle := hab_handle b, ha_host_pid := pi_pid (hab_host b),
     ha_host_start := pi_start (hab_host b), ha_updated_at := now\<rparr>"

text \<open>\<open>UNIQUE (actor, run_id, session_id)\<close>: the statement fails when another process holds the key.\<close>

definition bindHostAttention :: "host_attention_binding \<Rightarrow> int \<Rightarrow> db \<Rightarrow> error + db" where
  "bindHostAttention b now db =
    (case row_by hb_handle (hab_handle b) (harness_bindings db) of
       None \<Rightarrow> Inl (HostAttentionUnavailableError ''harness_instance_unbound'' ''harness instance is not daemon-bound'')
     | Some hb \<Rightarrow>
       bindE (requireE (hb_actor hb = hab_actor b \<and> hb_run_id hb = hab_run_id b)
         (HostAttentionUnavailableError ''harness_identity_mismatch''
           ''actor and run do not match the daemon-bound harness instance'')) (\<lambda>_.
       let k = (pi_pid (hab_harness b), pi_start (hab_harness b)); owner = (hab_actor b, hab_run_id b, hab_session_id b);
           taken = list_ex (\<lambda>h. owner_key h = owner \<and> process_key h \<noteq> k) (host_bindings db) in
       case row_by process_key k (host_bindings db) of
         None \<Rightarrow>
           bindE (requireE (\<not> taken) (SqlConstraint ''host_attention_bindings'')) (\<lambda>_.
           Inr (db\<lparr>host_bindings := host_bindings db @ [new_host_row b now]\<rparr>))
       | Some h \<Rightarrow>
           bindE (requireE (ha_actor h = hab_actor b \<and> ha_run_id h = hab_run_id b)
             (HostAttentionUnavailableError ''process_binding_conflict'' ''harness process is bound to another actor or run'')) (\<lambda>_.
           if ha_session_id h \<noteq> hab_session_id b then
             bindE (requireE (\<not> taken) (SqlConstraint ''host_attention_bindings'')) (\<lambda>_.
             Inr (db\<lparr>registrations := update_where (\<lambda>r. session_key r = owner_key h \<and> attending r) (supersede_row now) (registrations db),
                    host_bindings := update_where (\<lambda>x. process_key x = k) (replace_host_row b now) (host_bindings db)\<rparr>))
           else Inr (db\<lparr>host_bindings := update_where (\<lambda>x. process_key x = k) (refresh_host_row b now) (host_bindings db)\<rparr>))))"

definition registered_payload :: "env \<Rightarrow> registration_request \<Rightarrow> registration \<Rightarrow> payload" where
  "registered_payload env q r =
    (let p = pput ''epoch'' (PInt (rn_epoch r)) (pput ''session_id'' (PStr (rq_session_id q))
           (pput ''attention_mode'' (PStr (rq_attention_mode q)) (pput ''harness'' (PStr (rq_harness q))
           (EventProvenance (e_caller env) (rq_run_id q))))) in
     if rq_working_dir q \<noteq> [] then pput ''working_directory'' (PStr (rq_working_dir q)) p else p)"

definition RegisterSession :: "env \<Rightarrow> registration_request \<Rightarrow> db \<Rightarrow> error + (registration \<times> db)" where
  "RegisterSession env request db =
    bindE (normalize_registration request) (\<lambda>q.
    bindE (assertActorNotAdopted db (rq_actor q)) (\<lambda>_.
    let now = e_now env; db1 = db\<lparr>registrations := upsert_session q now (registrations db)\<rparr> in
    bindE (case rq_host q of None \<Rightarrow> Inr db1 | Some b \<Rightarrow> bindHostAttention b now db1) (\<lambda>db2.
    bindE (getRegistration db2 (request_key q)) (\<lambda>r.
    bindE (appendEvent env (rq_project_id q) ''operational'' ''session.registered'' [] (rq_actor q)
      (Some (registered_payload env q r)) db2) (\<lambda>db3. Inr (r, db3))))))"

section \<open>Reading and renewing\<close>

definition admitted_session :: "db \<Rightarrow> registration_row \<Rightarrow> bool" where
  "admitted_session db r = list_ex (\<lambda>h. owner_key h = session_key r \<and> ha_admitted_at h \<noteq> None) (host_bindings db)"

definition LiveRegistrations :: "env \<Rightarrow> string \<Rightarrow> db \<Rightarrow> error + registration list" where
  "LiveRegistrations env actor0 db =
    (let actor = trim actor0 in
     bindE (requireE (actor \<noteq> []) (ValidationError ''actor'' ''is required'')) (\<lambda>_.
     Inr (map (\<lambda>r. registration_of r (admitted_session db r))
       (sort_key (\<lambda>r. (- rg_registered_at r, rg_run_id r, rg_session_id r))
         (filter (\<lambda>r. rg_actor r = actor \<and> live_registration (e_now env) r) (registrations db))))))"

definition renew_row :: "int \<Rightarrow> int \<Rightarrow> registration_row \<Rightarrow> registration_row" where
  "renew_row now lease r = r\<lparr>rg_updated_at := now, rg_lease_expires := now + lease\<rparr>"

text \<open>The newest registration of a run: registered last, then the highest epoch, then the last row.\<close>

definition newest_session :: "db \<Rightarrow> string \<Rightarrow> string \<Rightarrow> registration_row option" where
  "newest_session db actor run =
    (case rev (sort_key (\<lambda>r. (rg_registered_at r, rg_epoch r))
        (filter (\<lambda>r. rg_actor r = actor \<and> rg_run_id r = run) (registrations db))) of
       [] \<Rightarrow> None | r # _ \<Rightarrow> Some r)"

definition HeartbeatRegistrations :: "env \<Rightarrow> string \<Rightarrow> string \<Rightarrow> int \<Rightarrow> db \<Rightarrow> error + (nat \<times> db)" where
  "HeartbeatRegistrations env actor0 run0 lease db =
    (let actor = trim actor0; run = trim run0;
         p = (\<lambda>r. map_option session_key (newest_session db actor run) = Some (session_key r) \<and> attending r) in
     bindE (requireE (actor \<noteq> [] \<and> run \<noteq> []) (ValidationError ''registration'' ''actor and run_id are required'')) (\<lambda>_.
     bindE (requireE (valid_lease lease) (ValidationError ''registration.lease'' ''must be between 0 and 24h'')) (\<lambda>_.
     bindE (assertActorNotAdopted db actor) (\<lambda>_.
     Inr (affected p (registrations db),
       db\<lparr>registrations := update_where p (renew_row (e_now env) lease) (registrations db)\<rparr>)))))"

text \<open>
  \<open>AttachMonitor\<close> commits also when it reports that a newer session took over, so its result is
  an error without effect, or a committed state with an error or the renewed registration.
\<close>

definition newer_monitor :: "db \<Rightarrow> registration_row \<Rightarrow> bool" where
  "newer_monitor db r =
    (let later = tl (dropWhile (\<lambda>x. session_key x \<noteq> session_key r) (registrations db));
         peer = (\<lambda>x. rg_actor x = rg_actor r \<and> rg_harness x = rg_harness r \<and>
           rg_attention_mode x = rg_attention_mode r \<and> attending x) in
     list_ex (\<lambda>x. peer x \<and> rg_registered_at r < rg_registered_at x) (registrations db) \<or>
     list_ex (\<lambda>x. peer x \<and> rg_registered_at x = rg_registered_at r) later)"

definition AttachMonitor ::
  "env \<Rightarrow> string \<Rightarrow> string \<Rightarrow> string \<Rightarrow> string \<Rightarrow> string \<Rightarrow> int \<Rightarrow> db \<Rightarrow> error + ((error + registration) \<times> db)" where
  "AttachMonitor env actor0 run0 session0 harness0 mode0 lease db =
    (let actor = trim actor0; run = trim run0; session = trim session0; harness = trim harness0; mode = trim mode0;
         k = (actor, run, session); now = e_now env in
     bindE (requireE (actor \<noteq> [] \<and> run \<noteq> [] \<and> session \<noteq> [])
       (ValidationError ''registration'' ''actor, run_id, and session_id are required'')) (\<lambda>_.
     bindE (requireE (harness = ''claude'' \<and> mode = ''hook-long-poll'')
       (ValidationError ''monitor'' ''requires claude hook-long-poll'')) (\<lambda>_.
     bindE (requireE (valid_lease lease) (ValidationError ''registration.lease'' ''must be between 0 and 24h'')) (\<lambda>_.
     bindE (assertActorNotAdopted db actor) (\<lambda>_.
     case row_by session_key k (registrations db) of
       None \<Rightarrow> Inl ErrRegistrationExpired
     | Some r \<Rightarrow>
       bindE (requireE (rg_ended_at r = None) ErrSessionEnded) (\<lambda>_.
       bindE (requireE (rg_superseded_at r = None) ErrPresenceSuperseded) (\<lambda>_.
       bindE (requireE (rg_harness r = harness \<and> rg_attention_mode r = mode)
         (ValidationError ''monitor'' ''does not match the registered harness attention adapter'')) (\<lambda>_.
       if newer_monitor db r
       then Inr (Inl ErrPresenceSuperseded, db\<lparr>registrations := update_where (\<lambda>x. session_key x = k) (supersede_row now) (registrations db)\<rparr>)
       else
         let rows1 = update_where (\<lambda>x. rg_actor x = actor \<and> rg_harness x = harness \<and> rg_attention_mode x = mode \<and>
               attending x \<and> \<not> (rg_run_id x = run \<and> rg_session_id x = session)) (supersede_row now) (registrations db);
             rows2 = update_where (\<lambda>x. session_key x = k \<and> rg_ended_at x = None) (renew_row now lease) rows1;
             db1 = db\<lparr>registrations := rows2\<rparr> in
         bindE (getRegistration db1 k) (\<lambda>reg. Inr (Inr reg, db1))))))))))"

section \<open>Ending a session\<close>

definition end_row :: "int \<Rightarrow> registration_row \<Rightarrow> registration_row" where
  "end_row now r = r\<lparr>rg_updated_at := now, rg_lease_expires := now, rg_ended_at := Some now\<rparr>"

definition ExpireRegistration :: "env \<Rightarrow> string \<Rightarrow> string \<Rightarrow> string \<Rightarrow> string \<Rightarrow> db \<Rightarrow> error + db" where
  "ExpireRegistration env actor0 run0 session0 reason db =
    (let actor = trim actor0; run = trim run0; session = trim session0; k = (actor, run, session); now = e_now env in
     bindE (requireE (actor \<noteq> [] \<and> run \<noteq> [] \<and> session \<noteq> [])
       (ValidationError ''registration'' ''actor, run_id, and session_id are required'')) (\<lambda>_.
     case row_by session_key k (registrations db) of
       None \<Rightarrow> Inr db
     | Some r \<Rightarrow>
       if rg_ended_at r \<noteq> None then Inr db
       else bindE (appendEvent env (rg_project_id r) ''operational'' ''session.stale'' [] actor
           (Some [(''run_id'', PStr run), (''session_id'', PStr session), (''reason'', PStr reason)])
           (db\<lparr>registrations := update_where (\<lambda>x. session_key x = k) (end_row now) (registrations db),
              host_bindings := filter (\<lambda>h. owner_key h \<noteq> k) (host_bindings db)\<rparr>)) (\<lambda>db1.
         Inr (db1\<lparr>attention_clients := filter (\<lambda>c. \<not> (ck_actor c = actor \<and> ck_run_id c = run)) (attention_clients db1)\<rparr>))))"

definition RecordHydration :: "env \<Rightarrow> string \<Rightarrow> string \<Rightarrow> string \<Rightarrow> string \<Rightarrow> string \<Rightarrow> int \<Rightarrow> db \<Rightarrow> error + db" where
  "RecordHydration env project actor run harness session unread db =
    bindE (assertActorNotAdopted db actor) (\<lambda>_.
    appendEvent env project ''operational'' ''startup.hydrated'' [] actor
      (Some (pput ''unread'' (PInt unread) (pput ''session_id'' (PStr session) (pput ''harness'' (PStr harness)
        (EventProvenance (e_caller env) run))))) db)"

section \<open>Host-injected sessions\<close>

definition host_session_live :: "db \<Rightarrow> int \<Rightarrow> host_row \<Rightarrow> bool" where
  "host_session_live db now h = list_ex (\<lambda>r. session_key r = owner_key h \<and> rg_harness r = ''claude'' \<and>
     rg_attention_mode r = ''host-injected'' \<and> live_registration now r) (registrations db)"

definition binding_of :: "host_row \<Rightarrow> host_attention_binding" where
  "binding_of h = \<lparr>hab_handle = ha_handle h, hab_harness = \<lparr>pi_pid = ha_harness_pid h, pi_start = ha_harness_start h\<rparr>,
     hab_host = \<lparr>pi_pid = ha_host_pid h, pi_start = ha_host_start h\<rparr>, hab_actor = ha_actor h, hab_run_id = ha_run_id h,
     hab_session_id = ha_session_id h, hab_admitted = (ha_admitted_at h \<noteq> None)\<rparr>"

definition HostAttentionBinding :: "env \<Rightarrow> int \<Rightarrow> string \<Rightarrow> db \<Rightarrow> error + (host_attention_binding \<times> db)" where
  "HostAttentionBinding env pid start db =
    bindE (requireE (1 < pid) (ValidationError ''claude_pid'' ''must identify an eligible process'')) (\<lambda>_.
    bindE (requireE (start \<noteq> []) (ValidationError ''claude_process'' ''start fingerprint is required'')) (\<lambda>_.
    let rows = filter (host_session_live db (e_now env)) (host_bindings db) in
    case row_by process_key (pid, start) rows of
      None \<Rightarrow> Inl ErrNotFound
    | Some h \<Rightarrow> Inr (binding_of h, db\<lparr>host_bindings := rows\<rparr>)))"

definition MarkHostAttentionAdmitted :: "env \<Rightarrow> host_attention_binding \<Rightarrow> db \<Rightarrow> error + db" where
  "MarkHostAttentionAdmitted env b db =
    (let p = (\<lambda>h. process_key h = (pi_pid (hab_harness b), pi_start (hab_harness b)) \<and>
           owner_key h = (hab_actor b, hab_run_id b, hab_session_id b)) in
     bindE (requireE (affected p (host_bindings db) = 1) ErrNotFound) (\<lambda>_.
     Inr (db\<lparr>host_bindings := update_where p (\<lambda>h. h\<lparr>ha_admitted_at := Some (e_now env), ha_updated_at := e_now env\<rparr>)
       (host_bindings db)\<rparr>)))"

end
