(* ===== verification/SessionProps.thy ===== *)
theory SessionProps
  imports Sessions Samples
begin

text \<open>
  The state machine of one session, and what the attention paths rely on: a registration makes
  its actor live, one monitor holds the actor's attention, the newest session wins, and a
  session that ended stays ended until it is registered again.
\<close>

section \<open>Keys\<close>

definition sessions_ok :: "db \<Rightarrow> bool" where
  "sessions_ok db \<longleftrightarrow> distinct (map session_key (registrations db))"

interpretation again_upd: keyed_update session_key "again_session q now"
  by unfold_locales (simp add: again_session_def)

interpretation supersede_upd: keyed_update session_key "supersede_row now"
  by unfold_locales (simp add: supersede_row_def)

interpretation renew_upd: keyed_update session_key "renew_row now lease"
  by unfold_locales (simp add: renew_row_def)

interpretation end_upd: keyed_update session_key "end_row now"
  by unfold_locales (simp add: end_row_def)

lemma upsert_session_keys:
  "map session_key (upsert_session q now rows) =
    (if row_by session_key (request_key q) rows = None then map session_key rows @ [request_key q] else map session_key rows)"
  by (simp add: upsert_session_def again_upd.map_key_update new_session_def request_key_def)

lemma row_by_upsert_session:
  "row_by session_key k (upsert_session q now rows) =
    (if k = request_key q then Some (case row_by session_key k rows of None \<Rightarrow> new_session q now | Some r \<Rightarrow> again_session q now r)
     else row_by session_key k rows)"
proof -
  have new: "session_key (new_session q now) = request_key q" by (simp add: new_session_def request_key_def)
  show ?thesis
    by (auto simp: upsert_session_def row_by_append again_upd.row_by_update new split: option.splits dest: row_by_SomeD)
qed

section \<open>The state machine of one session\<close>

inductive session_step :: "int \<Rightarrow> registration_row \<Rightarrow> registration_row \<Rightarrow> bool" for now where
  stay: "session_step now r r"
| renew: "attending r \<Longrightarrow> 0 < lease \<Longrightarrow> session_step now r (renew_row now lease r)"
| supersede: "attending r \<Longrightarrow> session_step now r (supersede_row now r)"
| finish: "rg_ended_at r = None \<Longrightarrow> session_step now r (end_row now r)"

inductive_cases session_stepE: "session_step now r r'"

lemmas session_rows = renew_row_def supersede_row_def end_row_def attending_def

lemma session_step_key: "session_step now r r' \<Longrightarrow> session_key r' = session_key r"
  by (erule session_stepE) (simp_all add: session_rows)

lemma session_step_closed: "session_step now r r' \<Longrightarrow> \<not> attending r \<Longrightarrow> \<not> attending r'"
  by (erule session_stepE) (auto simp: session_rows)

lemma session_step_ended: "session_step now r r' \<Longrightarrow> rg_ended_at r \<noteq> None \<Longrightarrow> r' = r"
  by (erule session_stepE) (auto simp: session_rows)

definition sessions_step :: "db \<Rightarrow> db \<Rightarrow> bool" where
  "sessions_step db db' \<longleftrightarrow> (\<exists>now. list_all2 (session_step now) (registrations db) (registrations db'))"

lemma session_step_update:
  assumes "\<And>r. r \<in> set rows \<Longrightarrow> p r \<Longrightarrow> session_step now r (f r)"
  shows "list_all2 (session_step now) rows (update_where p f rows)"
  using assms by (induction rows) (auto intro: stay)

lemma sessions_step_update:
  assumes "registrations db' = update_where p f (registrations db)"
    and "\<And>r. r \<in> set (registrations db) \<Longrightarrow> p r \<Longrightarrow> session_step now r (f r)"
  shows "sessions_step db db'"
  using session_step_update [of "registrations db" p now f] assms by (auto simp: sessions_step_def)

lemma sessions_step_same: "registrations db' = registrations db \<Longrightarrow> sessions_step db db'"
  by (auto simp: sessions_step_def intro!: exI list.rel_refl stay)

lemma sessions_step_row:
  assumes "sessions_step db db'" and "row_by session_key k (registrations db) = Some r"
  obtains now r' where "row_by session_key k (registrations db') = Some r'" "session_step now r r'"
proof -
  obtain now where "list_all2 (session_step now) (registrations db) (registrations db')"
    using assms(1) by (auto simp: sessions_step_def)
  then have "\<exists>r'. row_by session_key k (registrations db') = Some r' \<and> session_step now r r'"
    using assms(2) by (induction rule: list_all2_induct) (auto split: if_splits dest: session_step_key)
  then show thesis using that by blast
qed

lemma sessions_run_row:
  assumes "sessions_step\<^sup>*\<^sup>* db db'" and "row_by session_key k (registrations db) = Some r" and "\<not> attending r"
  shows "\<exists>r'. row_by session_key k (registrations db') = Some r' \<and> \<not> attending r'"
  using assms(1)
proof (induction rule: rtranclp_induct)
  case (step db1 db2)
  then obtain r1 where r1: "row_by session_key k (registrations db1) = Some r1" "\<not> attending r1" by blast
  obtain now r2 where "row_by session_key k (registrations db2) = Some r2" "session_step now r1 r2"
    by (rule sessions_step_row [OF step(2) r1(1)])
  then show ?case using session_step_closed r1(2) by blast
qed (use assms in simp)

section \<open>Every operation but a registration steps the rows\<close>

lemma HeartbeatRegistrations_step:
  assumes "HeartbeatRegistrations env a run lease db = Inr (n, db')"
  shows "sessions_step db db'"
proof -
  have "valid_lease lease" and db': "registrations db' = update_where (\<lambda>r. map_option session_key (newest_session db (trim a) (trim run)) =
      Some (session_key r) \<and> attending r) (renew_row (e_now env) lease) (registrations db)"
    using assms by (auto simp: HeartbeatRegistrations_def Let_def bindE_Inr_iff requireE_Inr_iff)
  then show ?thesis by (intro sessions_step_update [OF db']) (auto simp: valid_lease_def intro: renew)
qed

lemma session_unique:
  assumes "sessions_ok db" and "row_by session_key k (registrations db) = Some r" and "x \<in> set (registrations db)" and "session_key x = k"
  shows "x = r"
  using row_by_unique [of session_key "registrations db" x] assms by (simp add: sessions_ok_def)

lemma ExpireRegistrationD:
  assumes "ExpireRegistration env a run s reason db = Inr db'" and "row_by session_key (trim a, trim run, trim s) (registrations db) = Some r"
    and "rg_ended_at r = None"
  shows "registrations db' = update_where (\<lambda>x. session_key x = (trim a, trim run, trim s)) (end_row (e_now env)) (registrations db)"
    "host_bindings db' = filter (\<lambda>h. owner_key h \<noteq> (trim a, trim run, trim s)) (host_bindings db)"
    "messages db' = messages db" "deliveries db' = deliveries db" "outbox db' = outbox db"
proof -
  let ?db0 = "db\<lparr>registrations := update_where (\<lambda>x. session_key x = (trim a, trim run, trim s)) (end_row (e_now env)) (registrations db),
         host_bindings := filter (\<lambda>h. owner_key h \<noteq> (trim a, trim run, trim s)) (host_bindings db)\<rparr>"
  obtain db1 pl where ev: "appendEvent env (rg_project_id r) ''operational'' ''session.stale'' [] (trim a) pl ?db0 = Inr db1"
    and db': "db' = db1\<lparr>attention_clients := filter (\<lambda>c. \<not> (ck_actor c = trim a \<and> ck_run_id c = trim run)) (attention_clients db1)\<rparr>"
    using assms by (auto simp: ExpireRegistration_def Let_def bindE_Inr_iff)
  show "registrations db' = update_where (\<lambda>x. session_key x = (trim a, trim run, trim s)) (end_row (e_now env)) (registrations db)"
    "host_bindings db' = filter (\<lambda>h. owner_key h \<noteq> (trim a, trim run, trim s)) (host_bindings db)"
    "messages db' = messages db" "deliveries db' = deliveries db" "outbox db' = outbox db"
    using appendEvent_frame [OF ev] by (simp_all add: db')
qed

lemma ExpireRegistration_step:
  assumes "ExpireRegistration env a run s reason db = Inr db'" and "sessions_ok db"
  shows "sessions_step db db'"
proof (cases "\<exists>r. row_by session_key (trim a, trim run, trim s) (registrations db) = Some r \<and> rg_ended_at r = None")
  case True
  then obtain r where r: "row_by session_key (trim a, trim run, trim s) (registrations db) = Some r" "rg_ended_at r = None" by blast
  show ?thesis
    by (rule sessions_step_update [OF ExpireRegistrationD(1) [OF assms(1) r]])
      (use session_unique [OF assms(2) r(1)] r(2) in \<open>auto intro: finish\<close>)
next
  case False
  then have "db' = db" using assms(1)
    by (auto simp: ExpireRegistration_def Let_def bindE_Inr_iff split: option.splits)
  then show ?thesis by (simp add: sessions_step_same)
qed

lemma AttachMonitorD:
  assumes "AttachMonitor env a run s h md lease db = Inr (res, db')"
  obtains (newer) r where "row_by session_key (trim a, trim run, trim s) (registrations db) = Some r" "attending r"
      "rg_harness r = trim h" "rg_attention_mode r = trim md" "newer_monitor db r" "res = Inl ErrPresenceSuperseded"
      "registrations db' = update_where (\<lambda>x. session_key x = (trim a, trim run, trim s)) (supersede_row (e_now env)) (registrations db)"
      "db' = db\<lparr>registrations := registrations db'\<rparr>"
  | (held) r reg where "row_by session_key (trim a, trim run, trim s) (registrations db) = Some r" "attending r"
      "rg_harness r = trim h" "rg_attention_mode r = trim md" "\<not> newer_monitor db r" "valid_lease lease"
      "trim h = ''claude''" "trim md = ''hook-long-poll''"
      "res = Inr reg" "getRegistration db' (trim a, trim run, trim s) = Inr reg"
      "registrations db' = update_where (\<lambda>x. session_key x = (trim a, trim run, trim s) \<and> rg_ended_at x = None) (renew_row (e_now env) lease)
         (update_where (\<lambda>x. rg_actor x = trim a \<and> rg_harness x = trim h \<and> rg_attention_mode x = trim md \<and>
           attending x \<and> \<not> (rg_run_id x = trim run \<and> rg_session_id x = trim s)) (supersede_row (e_now env)) (registrations db))"
      "db' = db\<lparr>registrations := registrations db'\<rparr>"
proof -
  let ?k = "(trim a, trim run, trim s)"
  obtain r where r: "row_by session_key ?k (registrations db) = Some r" "attending r"
      "rg_harness r = trim h" "rg_attention_mode r = trim md" "valid_lease lease" "trim h = ''claude''" "trim md = ''hook-long-poll''"
    using assms by (auto simp: AttachMonitor_def Let_def bindE_Inr_iff requireE_Inr_iff attending_def split: option.splits)
  show thesis
  proof (cases "newer_monitor db r")
    case True
    then have "res = Inl ErrPresenceSuperseded \<and>
        db' = db\<lparr>registrations := update_where (\<lambda>x. session_key x = ?k) (supersede_row (e_now env)) (registrations db)\<rparr>"
      using assms r(1) by (auto simp: AttachMonitor_def Let_def bindE_Inr_iff requireE_Inr_iff)
    then show thesis using newer [OF r(1-4) True] by simp
  next
    case False
    then show thesis
      using assms r held [OF r(1-4) False r(5-7)]
      by (auto simp: AttachMonitor_def Let_def bindE_Inr_iff requireE_Inr_iff)
  qed
qed

lemma session_steps_trans_update:
  assumes "\<And>r. r \<in> set rows \<Longrightarrow> session_step now r (if q (if p r then f r else r) then g (if p r then f r else r) else if p r then f r else r)"
  shows "list_all2 (session_step now) rows (update_where q g (update_where p f rows))"
  using assms by (induction rows) auto

lemma AttachMonitor_step:
  assumes "AttachMonitor env a run s h md lease db = Inr (res, db')" and "sessions_ok db"
  shows "sessions_step db db'"
  using assms(1)
proof (cases rule: AttachMonitorD)
  case (newer r)
  show ?thesis
    by (rule sessions_step_update [OF newer(7)])
      (use session_unique [OF assms(2) newer(1)] newer(2) in \<open>auto intro: supersede\<close>)
next
  case (held r reg)
  have "0 < lease" using held(6) by (simp add: valid_lease_def)
  have "list_all2 (session_step (e_now env)) (registrations db) (registrations db')"
    unfolding held(11)
  proof (rule session_steps_trans_update)
    fix x assume x: "x \<in> set (registrations db)"
    show "session_step (e_now env) x (if session_key (if rg_actor x = trim a \<and> rg_harness x = trim h \<and> rg_attention_mode x = trim md \<and>
             attending x \<and> \<not> (rg_run_id x = trim run \<and> rg_session_id x = trim s) then supersede_row (e_now env) x else x) = (trim a, trim run, trim s) \<and>
           rg_ended_at (if rg_actor x = trim a \<and> rg_harness x = trim h \<and> rg_attention_mode x = trim md \<and>
             attending x \<and> \<not> (rg_run_id x = trim run \<and> rg_session_id x = trim s) then supersede_row (e_now env) x else x) = None
         then renew_row (e_now env) lease (if rg_actor x = trim a \<and> rg_harness x = trim h \<and> rg_attention_mode x = trim md \<and>
             attending x \<and> \<not> (rg_run_id x = trim run \<and> rg_session_id x = trim s) then supersede_row (e_now env) x else x)
         else if rg_actor x = trim a \<and> rg_harness x = trim h \<and> rg_attention_mode x = trim md \<and>
             attending x \<and> \<not> (rg_run_id x = trim run \<and> rg_session_id x = trim s) then supersede_row (e_now env) x else x)"
    proof (cases "session_key x = (trim a, trim run, trim s)")
      case True
      then have "x = r" using session_unique [OF assms(2) held(1) x] by blast
      then show ?thesis using True held(2) \<open>0 < lease\<close> by (auto simp: attending_def intro: renew stay)
    next
      case False
      then show ?thesis by (auto simp: supersede_upd.key_upd supersede_row_def [of _ x, symmetric] intro: supersede stay simp del: prod.inject)
    qed
  qed
  then show ?thesis by (auto simp: sessions_step_def)
qed

lemma sessions_step_keys: "sessions_step db db' \<Longrightarrow> map session_key (registrations db') = map session_key (registrations db)"
  unfolding sessions_step_def
  by (elim exE, erule list_all2_induct) (auto dest: session_step_key)

lemma sessions_step_ok: "sessions_step db db' \<Longrightarrow> sessions_ok db \<Longrightarrow> sessions_ok db'"
  by (simp add: sessions_ok_def sessions_step_keys)

text \<open>The operations on sessions that are not registrations, in any order.\<close>

inductive quiet_op :: "db \<Rightarrow> db \<Rightarrow> bool" where
  heartbeat: "HeartbeatRegistrations env a run lease db = Inr (n, db') \<Longrightarrow> quiet_op db db'"
| attach: "AttachMonitor env a run s h md lease db = Inr (res, db') \<Longrightarrow> quiet_op db db'"
| expire: "ExpireRegistration env a run s reason db = Inr db' \<Longrightarrow> quiet_op db db'"

inductive_cases quiet_opE: "quiet_op db db'"

lemma quiet_op_step: "quiet_op db db' \<Longrightarrow> sessions_ok db \<Longrightarrow> sessions_step db db'"
  by (erule quiet_opE) (auto intro: HeartbeatRegistrations_step AttachMonitor_step ExpireRegistration_step)

lemma quiet_run:
  assumes "quiet_op\<^sup>*\<^sup>* db db'" and "sessions_ok db"
  shows "sessions_step\<^sup>*\<^sup>* db db' \<and> sessions_ok db'"
  using assms(1)
proof (induction rule: rtranclp_induct)
  case (step x y)
  then show ?case using quiet_op_step sessions_step_ok by (meson rtranclp.simps)
qed (use assms(2) in simp)

lemma live_sessions:
  assumes "LiveRegistrations env a db = Inr rs" and "g \<in> set rs"
  shows "\<exists>r\<in>set (registrations db). g = registration_of r (admitted_session db r) \<and> rg_actor r = trim a \<and> live_registration (e_now env) r"
  using assms by (auto simp: LiveRegistrations_def Let_def bindE_Inr_iff)

abbreviation registration_key :: "registration \<Rightarrow> string \<times> string \<times> string" where
  "registration_key g \<equiv> (rn_actor g, rn_run_id g, rn_session_id g)"

lemma live_not_closed:
  assumes "sessions_ok db" and "row_by session_key k (registrations db) = Some r" and "\<not> attending r"
    and "LiveRegistrations env a db = Inr rs"
  shows "k \<notin> registration_key ` set rs"
proof
  assume "k \<in> registration_key ` set rs"
  then obtain g where g: "g \<in> set rs" "k = registration_key g" by blast
  obtain x where "x \<in> set (registrations db)" "g = registration_of x (admitted_session db x)" "live_registration (e_now env) x"
    using live_sessions [OF assms(4) g(1)] by blast
  then have x: "x \<in> set (registrations db)" "session_key x = k" "live_registration (e_now env) x"
    using g(2) by (simp_all add: registration_of_def)
  then have "x = r" using session_unique [OF assms(1,2)] by blast
  then show False using x(3) assms(3) by (simp add: live_registration_def attending_def)
qed

section \<open>Properties\<close>


text \<open>
  One monitor holds the actor's attention: after a monitor attached, its session is live
  until its lease runs out, and every other session of the actor with the same adapter is closed.
\<close>

theorem AttachMonitor_single:
  assumes "sessions_ok db" and "AttachMonitor env a run s h md lease db = Inr (Inr reg, db')"
    and "LiveRegistrations env2 a db' = Inr rs" and "g \<in> set rs" and "rn_harness g = trim h" and "rn_attention_mode g = trim md"
  shows "registration_key g = (trim a, trim run, trim s) \<and> rn_lease_expires_at g = e_now env + lease"
  using assms(2)
proof (cases rule: AttachMonitorD)
  case (held r reg')
  let ?k = "(trim a, trim run, trim s)"
  let ?others = "\<lambda>x. rg_actor x = trim a \<and> rg_harness x = trim h \<and> rg_attention_mode x = trim md \<and>
    attending x \<and> \<not> (rg_run_id x = trim run \<and> rg_session_id x = trim s)"
  let ?rows = "update_where ?others (supersede_row (e_now env)) (registrations db)"
  have r: "r \<in> set (registrations db)" "session_key r = ?k" using row_by_SomeD [OF held(1)] by simp_all
  obtain x where x: "x \<in> set (registrations db')" "g = registration_of x (admitted_session db' x)" "rg_actor x = trim a"
    "live_registration (e_now env2) x"
    using live_sessions [OF assms(3,4)] by blast
  have mode: "rg_harness x = trim h" "rg_attention_mode x = trim md" using assms(5,6) x(2) by (simp_all add: registration_of_def)
  have att: "attending x" using x(4) by (simp add: live_registration_def attending_def)
  obtain y where y: "y \<in> set ?rows" "x = (if session_key y = ?k \<and> rg_ended_at y = None then renew_row (e_now env) lease y else y)"
    using in_update_whereD [OF x(1) [unfolded held(11)]] by blast
  obtain z where z: "z \<in> set (registrations db)" "y = (if ?others z then supersede_row (e_now env) z else z)"
    using in_update_whereD [OF y(1)] by blast
  have keys: "session_key x = session_key z"
    using y(2) z(2) by (simp add: renew_row_def supersede_row_def)
  have same: "session_key z = ?k"
  proof (rule ccontr)
    assume "session_key z \<noteq> ?k"
    then have yz: "x = y" using y(2) keys by (auto simp: renew_row_def)
    show False
    proof (cases "?others z")
      case True
      then show False using z(2) att yz by (simp add: supersede_row_def attending_def)
    next
      case False
      then have "x = z" using z(2) unfolding yz if_not_P [OF False] by simp
      then show False using False x(3) mode att \<open>session_key z \<noteq> ?k\<close> by auto
    qed
  qed
  then have "z = r" using session_unique [OF assms(1) held(1) z(1)] by blast
  then have "y = r" using z(2) same by auto
  then have "x = renew_row (e_now env) lease r" using y(2) r(2) held(2) by (simp add: attending_def)
  then show ?thesis using x(2) r(2) by (simp add: registration_of_def renew_row_def)
qed simp

text \<open>
  The newest session wins: a monitor of a session that a newer one overtook is told so, and
  from then on, whatever heartbeats and monitors follow, that session is never live again.
\<close>

theorem overtaken_session_closed:
  assumes "sessions_ok db" and "AttachMonitor env a run s h md lease db = Inr (Inl e, db1)"
    and "quiet_op\<^sup>*\<^sup>* db1 db2" and "LiveRegistrations env2 b db2 = Inr rs"
  shows "e = ErrPresenceSuperseded \<and> (trim a, trim run, trim s) \<notin> registration_key ` set rs"
  using assms(2)
proof (cases rule: AttachMonitorD)
  case (newer r)
  let ?k = "(trim a, trim run, trim s)"
  have ok1: "sessions_ok db1" by (rule sessions_step_ok [OF AttachMonitor_step [OF assms(2,1)] assms(1)])
  have run: "sessions_step\<^sup>*\<^sup>* db1 db2" "sessions_ok db2" using quiet_run [OF assms(3) ok1] by simp_all
  have "row_by session_key ?k (registrations db1) = Some (supersede_row (e_now env) r)"
    using newer(1) row_by_SomeD [OF newer(1)] by (simp add: newer(7) supersede_upd.row_by_update)
  moreover have "\<not> attending (supersede_row (e_now env) r)" by (simp add: supersede_row_def attending_def)
  ultimately obtain r2 where "row_by session_key ?k (registrations db2) = Some r2" "\<not> attending r2"
    using sessions_run_row [OF run(1)] by blast
  then show ?thesis using live_not_closed [OF run(2) _ _ assms(4)] newer(6) by simp
qed simp

lemma bindHostAttention_rows:
  assumes "bindHostAttention b now db = Inr db'" and "k = (hab_actor b, hab_run_id b, hab_session_id b)"
  shows "row_by session_key k (registrations db') = row_by session_key k (registrations db)"
    "map session_key (registrations db') = map session_key (registrations db)" "same_mail db db'"
proof -
  have "registrations db' = registrations db \<or> (\<exists>h. owner_key h \<noteq> k \<and> registrations db' =
      update_where (\<lambda>r. session_key r = owner_key h \<and> attending r) (supersede_row now) (registrations db))"
    using assms by (auto simp: bindHostAttention_def Let_def bindE_Inr_iff split: option.splits if_splits)
  then show "row_by session_key k (registrations db') = row_by session_key k (registrations db)"
  proof (elim disjE exE conjE)
    fix h assume ne: "owner_key h \<noteq> k" and u: "registrations db' =
      update_where (\<lambda>r. session_key r = owner_key h \<and> attending r) (supersede_row now) (registrations db)"
    show ?thesis
    proof (cases "row_by session_key k (registrations db)")
      case (Some r)
      then have "session_key r \<noteq> owner_key h" using ne row_by_SomeD [OF Some] by metis
      then show ?thesis using Some by (auto simp: u supersede_upd.row_by_update)
    qed (simp add: u supersede_upd.row_by_update)
  qed simp
  show "map session_key (registrations db') = map session_key (registrations db)" "same_mail db db'"
    using assms(1)
    by (auto simp: bindHostAttention_def Let_def bindE_Inr_iff supersede_upd.map_key_update same_mail_def split: option.splits if_splits)
qed

text \<open>
  A registration takes effect: the session it names is live until its lease runs out and
  makes its actor present; its epoch counts the registrations of the session; keys stay unique.
\<close>

theorem RegisterSession_live:
  assumes "sessions_ok db" and "RegisterSession env q db = Inr (g, db')"
    and "rq_host q = None \<or> trim (rq_attention_mode q) = ''host-injected''"
  shows "sessions_ok db' \<and> actorRunHasLivePresence db' (trim (rq_actor q)) (trim (rq_run_id q)) (e_now env) \<and>
    rn_lease_expires_at g = e_now env + rq_lease q \<and>
    rn_epoch g = (case row_by session_key (trim (rq_actor q), trim (rq_run_id q), trim (rq_session_id q)) (registrations db) of
      None \<Rightarrow> 1 | Some old \<Rightarrow> rg_epoch old + 1)"
proof -
  let ?now = "e_now env"
  let ?k = "(trim (rq_actor q), trim (rq_run_id q), trim (rq_session_id q))"
  obtain q' db2 pl where n: "normalize_registration q = Inr q'"
    and db2: "(case rq_host q' of None \<Rightarrow> Inr (db\<lparr>registrations := upsert_session q' ?now (registrations db)\<rparr>)
        | Some b \<Rightarrow> bindHostAttention b ?now (db\<lparr>registrations := upsert_session q' ?now (registrations db)\<rparr>)) = Inr db2"
    and g: "getRegistration db2 (request_key q') = Inr g"
    and ev: "appendEvent env (rq_project_id q') ''operational'' ''session.registered'' [] (rq_actor q') pl db2 = Inr db'"
    using assms(2) by (auto simp: RegisterSession_def Let_def bindE_Inr_iff)
  have q': "request_key q' = ?k" "rq_lease q' = rq_lease q" "0 < rq_lease q"
    and host: "rq_host q' = None \<or> (\<exists>b. rq_host q' = Some b \<and> (hab_actor b, hab_run_id b, hab_session_id b) = ?k)"
  proof -
    let ?t = "trim_registration q"
    have hp: "host_proof ?t = Inr q'" and lease: "0 < rq_lease ?t"
      using n unfolding normalize_registration_def Let_def bindE_Inr_iff requireE_Inr_iff by blast+
    have t: "request_key ?t = ?k" "rq_lease ?t = rq_lease q" "rq_host ?t = rq_host q"
      "trim (rq_attention_mode q) = ''host-injected'' \<longrightarrow> rq_attention_mode ?t = ''host-injected''"
      by (simp_all add: trim_registration_def request_key_def default_mode_def Let_def)
    have "q' = ?t \<and> rq_host q = None \<or>
        (\<exists>b. q' = ?t\<lparr>rq_host := Some b\<rparr> \<and> (hab_actor b, hab_run_id b, hab_session_id b) = request_key ?t)"
      using hp t(3,4) assms(3) by (auto simp: host_proof_def request_key_def Let_def bindE_Inr_iff split: if_splits option.splits)
    then show "request_key q' = ?k" "rq_lease q' = rq_lease q" "0 < rq_lease q"
      "rq_host q' = None \<or> (\<exists>b. rq_host q' = Some b \<and> (hab_actor b, hab_run_id b, hab_session_id b) = ?k)"
      using t lease by (auto simp: request_key_def)
  qed
  let ?db1 = "db\<lparr>registrations := upsert_session q' ?now (registrations db)\<rparr>"
  have db1_row: "row_by session_key ?k (registrations ?db1) =
      Some (case row_by session_key ?k (registrations db) of None \<Rightarrow> new_session q' ?now | Some r \<Rightarrow> again_session q' ?now r)"
    using q'(1) by (simp add: row_by_upsert_session)
  have keys1: "distinct (map session_key (registrations ?db1))"
    using assms(1) by (auto simp: sessions_ok_def upsert_session_keys row_by_None_key)
  have both: "row_by session_key ?k (registrations db2) = row_by session_key ?k (registrations ?db1) \<and>
      map session_key (registrations db2) = map session_key (registrations ?db1)"
  proof (cases "rq_host q'")
    case None
    then show ?thesis using db2 by simp
  next
    case (Some b)
    then have "(hab_actor b, hab_run_id b, hab_session_id b) = ?k" using host by simp
    then show ?thesis using db2 Some bindHostAttention_rows [of b ?now ?db1 db2 ?k] by simp
  qed
  have regs: "registrations db' = registrations db2" by (rule appendEvent_frame(4) [OF ev])
  define row where "row = (case row_by session_key ?k (registrations db) of None \<Rightarrow> new_session q' ?now | Some r \<Rightarrow> again_session q' ?now r)"
  have row: "row_by session_key ?k (registrations db2) = Some row" using both db1_row by (simp add: row_def)
  have facts: "rg_lease_expires row = ?now + rq_lease q" "attending row"
    "rg_epoch row = (case row_by session_key ?k (registrations db) of None \<Rightarrow> 1 | Some old \<Rightarrow> rg_epoch old + 1)"
    using q'(2) by (simp_all add: row_def new_session_def again_session_def attending_def split: option.splits)
  have "g = registration_of row False" using g row q'(1) by (simp add: getRegistration_def)
  then have "rn_lease_expires_at g = ?now + rq_lease q" "rn_epoch g = rg_epoch row" using facts by (simp_all add: registration_of_def)
  moreover have "live_registration ?now row" using facts q'(3) by (simp add: live_registration_def attending_def)
  then have "actorRunHasLivePresence db' (trim (rq_actor q)) (trim (rq_run_id q)) ?now"
    using row_by_SomeD [OF row] regs by (auto simp: actorRunHasLivePresence_def list_ex_iff)
  moreover have "sessions_ok db'" using both keys1 regs by (simp add: sessions_ok_def)
  ultimately show ?thesis using facts(3) by simp
qed

section \<open>The properties at a concrete store\<close>

definition sample_registration_request :: "string \<Rightarrow> string \<Rightarrow> registration_request" where
  "sample_registration_request run session = \<lparr>rq_actor = ''alice'', rq_run_id = run, rq_harness = ''claude'',
     rq_attention_mode = [], rq_session_id = session, rq_delivery_handle = [], rq_project_id = ''p'',
     rq_working_dir = [], rq_lease = 1000, rq_host = None\<rparr>"

definition sample_session_db :: db where
  "sample_session_db = snd (projr (RegisterSession (sample_env 10) (sample_registration_request ''r1'' ''s1'') sample_db))"

definition sample_two_sessions :: db where
  "sample_two_sessions = snd (projr (RegisterSession (sample_env 20) (sample_registration_request ''r2'' ''s2'') sample_session_db))"

definition sample_attached :: "registration \<times> db" where
  "sample_attached = (let (res, db) = projr (AttachMonitor (sample_env 30) ''alice'' ''r2'' ''s2'' ''claude'' ''hook-long-poll'' 500 sample_two_sessions)
     in (projr res, db))"

definition sample_overtaken_db :: db where
  "sample_overtaken_db = snd (projr (AttachMonitor (sample_env 30) ''alice'' ''r1'' ''s1'' ''claude'' ''hook-long-poll'' 500 sample_two_sessions))"

definition sample_ended_db :: db where
  "sample_ended_db = projr (ExpireRegistration (sample_env 40) ''alice'' ''r2'' ''s2'' ''session_end'' sample_two_sessions)"

definition live_list :: "int \<Rightarrow> db \<Rightarrow> registration list" where
  "live_list t db = projr (LiveRegistrations (sample_env t) ''alice'' db)"

lemma RegisterSession_live_witness:
  "actorRunHasLivePresence sample_two_sessions ''alice'' ''r2'' 20 \<and> sessions_ok sample_two_sessions"
proof -
  let ?q = "sample_registration_request ''r2'' ''s2''"
  have 0: "sessions_ok sample_session_db" by code_simp
  have 1: "RegisterSession (sample_env 20) ?q sample_session_db =
    Inr (fst (projr (RegisterSession (sample_env 20) ?q sample_session_db)), sample_two_sessions)" by code_simp
  have 2: "rq_host ?q = None \<or> trim (rq_attention_mode ?q) = ''host-injected''" by (simp add: sample_registration_request_def)
  have 3: "trim (rq_actor ?q) = ''alice''" "trim (rq_run_id ?q) = ''r2''" "e_now (sample_env 20) = 20" by code_simp+
  from RegisterSession_live [OF 0 1 2] show ?thesis unfolding 3 by simp
qed

lemma AttachMonitor_single_witness:
  "registration_key (hd (live_list 100 (snd sample_attached))) = (''alice'', ''r2'', ''s2'')"
proof -
  let ?g = "hd (live_list 100 (snd sample_attached))"
  have 0: "sessions_ok sample_two_sessions" by code_simp
  have 1: "AttachMonitor (sample_env 30) ''alice'' ''r2'' ''s2'' ''claude'' ''hook-long-poll'' 500 sample_two_sessions =
    Inr (Inr (fst sample_attached), snd sample_attached)" by code_simp
  have 2: "LiveRegistrations (sample_env 100) ''alice'' (snd sample_attached) = Inr (live_list 100 (snd sample_attached))" by code_simp
  have 3: "?g \<in> set (live_list 100 (snd sample_attached))" by code_simp
  have 4: "rn_harness ?g = trim ''claude''" "rn_attention_mode ?g = trim ''hook-long-poll''" by code_simp+
  have 5: "(trim ''alice'', trim ''r2'', trim ''s2'') = (''alice'', ''r2'', ''s2'')" by code_simp
  from AttachMonitor_single [OF 0 1 2 3 4] show ?thesis unfolding 5 by simp
qed

lemma overtaken_session_closed_witness:
  "(trim ''alice'', trim ''r1'', trim ''s1'') \<notin> registration_key ` set (live_list 100 sample_overtaken_db)"
proof -
  have 0: "sessions_ok sample_two_sessions" by code_simp
  have 1: "AttachMonitor (sample_env 30) ''alice'' ''r1'' ''s1'' ''claude'' ''hook-long-poll'' 500 sample_two_sessions =
    Inr (Inl ErrPresenceSuperseded, sample_overtaken_db)" by code_simp
  have 2: "LiveRegistrations (sample_env 100) ''alice'' sample_overtaken_db = Inr (live_list 100 sample_overtaken_db)" by code_simp
  from overtaken_session_closed [OF 0 1 rtranclp.rtrancl_refl 2] show ?thesis by simp
qed


end
