(* ===== verification/Notifications.thy ===== *)
theory Notifications
  imports StoreState
begin

text \<open>
  The interface between the daemon's workers and their queues: notification jobs and
  dispositions of \<open>internal/bus/model.go\<close>, and the contract of \<open>notificationQueue\<close> and
  \<open>managedNotificationQueue\<close> in \<open>internal/daemon\<close> as the locale
  \<open>notification_queue\<close>. The legacy outbox and the managed outbox both provide it.
\<close>

section \<open>Jobs and dispositions\<close>

record notification_job =
  nj_message :: message
  nj_recipient :: string
  nj_attempt :: int

datatype disposition = NotificationComplete | NotificationRetry | NotificationAccepted | OtherDisposition string

record notification_attempt =
  na_actor :: string
  na_run_id :: string
  na_session_id :: string
  na_harness :: string
  na_result :: string
  na_detail :: string

abbreviation job_key :: "notification_job \<Rightarrow> string \<times> string" where
  "job_key j \<equiv> (msg_id (nj_message j), nj_recipient j)"

section \<open>The contract of a queue\<close>

text \<open>
  A job waits until a time, runs under a lease until a time, awaits the recipient's claim, or is
  closed. The two queues agree on the lease, the backoff and the bound on retries.
\<close>

datatype job_status = Waiting int | Running int | AwaitingClaim | Closed

definition due :: "int \<Rightarrow> job_status option \<Rightarrow> bool" where
  "due now s \<longleftrightarrow> (case s of Some (Waiting t) \<Rightarrow> t \<le> now | Some (Running t) \<Rightarrow> t \<le> now | _ \<Rightarrow> False)"

definition processing_lease :: int where
  "processing_lease = 30 * 1000000000"

definition max_attempts :: int where
  "max_attempts = 5"

definition backoff :: "int \<Rightarrow> int" where
  "backoff attempt = attempt * attempt * 1000000000"

definition next_status :: "int \<Rightarrow> disposition \<Rightarrow> int \<Rightarrow> job_status" where
  "next_status now d attempt = (case d of
     NotificationAccepted \<Rightarrow> AwaitingClaim
   | NotificationRetry \<Rightarrow> if attempt \<ge> max_attempts then Closed else Waiting (now + backoff attempt)
   | _ \<Rightarrow> Closed)"

locale notification_queue =
  fixes claim :: "env \<Rightarrow> 'q \<Rightarrow> error + (notification_job \<times> 'q)"
    and finish :: "env \<Rightarrow> notification_job \<Rightarrow> disposition \<Rightarrow> string \<Rightarrow> 'q \<Rightarrow> error + 'q"
    and status :: "string \<times> string \<Rightarrow> 'q \<Rightarrow> job_status option"
    and attempts :: "string \<times> string \<Rightarrow> 'q \<Rightarrow> int"
    and ok :: "'q \<Rightarrow> bool"
  assumes claim_ok: "ok q \<Longrightarrow> claim env q = Inr (j, q') \<Longrightarrow> ok q'"
    and claim_due: "ok q \<Longrightarrow> claim env q = Inr (j, q') \<Longrightarrow> due (e_now env) (status (job_key j) q)"
    and claim_runs: "ok q \<Longrightarrow> claim env q = Inr (j, q') \<Longrightarrow>
      status (job_key j) q' = Some (Running (e_now env + processing_lease)) \<and>
      attempts (job_key j) q' = nj_attempt j \<and> nj_attempt j = attempts (job_key j) q + 1"
    and finish_ok: "ok q \<Longrightarrow> finish env j d detail q = Inr q' \<Longrightarrow> ok q'"
    and finish_runs: "ok q \<Longrightarrow> status (job_key j) q = Some (Running t) \<Longrightarrow> attempts (job_key j) q = nj_attempt j \<Longrightarrow>
      finish env j d detail q = Inr q' \<Longrightarrow>
      status (job_key j) q' = Some (next_status (e_now env) d (nj_attempt j)) \<and> attempts (job_key j) q' = nj_attempt j"
begin

text \<open>A job that was just handed out is not handed out again before its lease has run out.\<close>

lemma not_due_again:
  assumes "ok q" and "claim env q = Inr (j, q')" and "claim env2 q' = Inr (j', q'')"
    and "e_now env2 < e_now env + processing_lease"
  shows "job_key j' \<noteq> job_key j"
proof
  assume same: "job_key j' = job_key j"
  have "due (e_now env2) (status (job_key j') q')" by (rule claim_due [OF claim_ok [OF assms(1,2)] assms(3)])
  then show False using claim_runs [OF assms(1,2)] assms(4) by (simp only: same due_def) simp
qed

text \<open>One turn of a worker: a claim, then a finish with the outcome.\<close>

lemma turn_status:
  assumes "ok q" and "claim env q = Inr (j, q1)" and "finish env2 j d detail q1 = Inr q2"
  shows "status (job_key j) q2 = Some (next_status (e_now env2) d (attempts (job_key j) q + 1))"
    "attempts (job_key j) q2 = attempts (job_key j) q + 1" "ok q2"
proof -
  note run = claim_runs [OF assms(1,2)] and ok1 = claim_ok [OF assms(1,2)]
  have "status (job_key j) q1 = Some (Running (e_now env + processing_lease))" "attempts (job_key j) q1 = nj_attempt j"
    using run by simp_all
  note f = finish_runs [OF ok1 this assms(3)]
  show "status (job_key j) q2 = Some (next_status (e_now env2) d (attempts (job_key j) q + 1))"
    "attempts (job_key j) q2 = attempts (job_key j) q + 1" using f run by simp_all
  show "ok q2" by (rule finish_ok [OF ok1 assms(3)])
qed

text \<open>A job is handed out at most five times when every turn ends in a retry.\<close>

lemma retries_bounded:
  assumes "ok q" and "claim env q = Inr (j, q1)" and "finish env2 j NotificationRetry detail q1 = Inr q2"
    and "max_attempts \<le> attempts (job_key j) q + 1"
  shows "status (job_key j) q2 = Some Closed" and "claim env3 q2 = Inr (j', q3) \<Longrightarrow> job_key j' \<noteq> job_key j"
proof -
  note s = turn_status [OF assms(1-3)]
  show 1: "status (job_key j) q2 = Some Closed" using s(1) assms(4) by (simp add: next_status_def)
  assume c: "claim env3 q2 = Inr (j', q3)"
  have "due (e_now env3) (status (job_key j') q2)" by (rule claim_due [OF s(3) c])
  then show "job_key j' \<noteq> job_key j" using 1 by (auto simp: due_def)
qed

end

end
