(* ===== verification/Outbox.thy ===== *)
theory Outbox
  imports Delivery Notifications Samples
begin

text \<open>
  \<open>notification_outbox.go\<close> and the notification parts of \<open>registration.go\<close>: the durable queue
  of wake-ups of the legacy bus. A row is pending until a time, processing under a lease,
  accepted by an adapter, or done; it is keyed by message and recipient.
\<close>

section \<open>Operations\<close>

definition expired_mail :: "db \<Rightarrow> int \<Rightarrow> string \<Rightarrow> bool" where
  "expired_mail db now mid = list_ex (\<lambda>m. mr_id m = mid \<and> sql_le (mr_expires_at m) now) (legacy_messages db)"

definition retire_row :: "string \<Rightarrow> int \<Rightarrow> outbox_row \<Rightarrow> outbox_row" where
  "retire_row reason now n = n\<lparr>ob_state := Done, ob_available_at := now, ob_last_error := Some reason\<rparr>"

definition open_job :: "int \<Rightarrow> outbox_row \<Rightarrow> bool" where
  "open_job now n \<longleftrightarrow> ob_state n \<in> {Pending, Processing} \<and> ob_available_at n \<le> now"

definition job_rows :: "db \<Rightarrow> int \<Rightarrow> outbox_row list \<Rightarrow> (outbox_row \<times> message_row) list" where
  "job_rows db now rows = sort_key (\<lambda>(n, m). (ob_created_at n, ob_message_id n, ob_recipient n))
     (filter (\<lambda>(n, m). mr_id m = ob_message_id n \<and> open_job now n \<and> unexpired now m)
       (List.product rows (legacy_messages db)))"

definition process_row :: "int \<Rightarrow> outbox_row \<Rightarrow> outbox_row" where
  "process_row until n = n\<lparr>ob_state := Processing, ob_attempt := ob_attempt n + 1, ob_available_at := until\<rparr>"

definition expire_jobs :: "db \<Rightarrow> int \<Rightarrow> outbox_row list" where
  "expire_jobs db now = update_where (\<lambda>n. ob_state n \<in> {Pending, Processing, Accepted} \<and> expired_mail db now (ob_message_id n))
     (retire_row ''message expired before notification'' now) (outbox db)"

definition ClaimNotification :: "env \<Rightarrow> db \<Rightarrow> error + (notification_job \<times> db)" where
  "ClaimNotification env db =
    (let now = e_now env; rows = expire_jobs db now in
     case job_rows db now rows of
       [] \<Rightarrow> Inl ErrNoMessage
     | (n, m) # _ \<Rightarrow>
       let p = (\<lambda>r. outbox_key r = outbox_key n \<and> open_job now r);
           db1 = db\<lparr>outbox := update_where p (process_row (now + 30 * second)) rows\<rparr> in
       bindE (requireE (affected p rows = 1) ErrNoMessage) (\<lambda>_.
       bindE (getMessageByID db1 (ob_message_id n)) (\<lambda>message.
       case row_by outbox_key (outbox_key n) (outbox db1) of
         None \<Rightarrow> Inl (InternalError ''read notification attempt'')
       | Some r \<Rightarrow> Inr (\<lparr>nj_message = message, nj_recipient = ob_recipient n, nj_attempt = ob_attempt r\<rparr>, db1))))"

text \<open>State and time after each disposition; an unknown one is an error.\<close>

definition outbox_disposition :: "int \<Rightarrow> disposition \<Rightarrow> int \<Rightarrow> error + (outbox_state \<times> int)" where
  "outbox_disposition now d attempt = (case d of
     NotificationAccepted \<Rightarrow> Inr (Accepted, now)
   | NotificationRetry \<Rightarrow> if attempt \<ge> 5 then Inr (Done, now) else Inr (Pending, now + attempt * attempt * second)
   | NotificationComplete \<Rightarrow> Inr (Done, now)
   | OtherDisposition s \<Rightarrow> Inl (InternalError (''unsupported notification disposition '' @ s)))"

definition finish_job_row :: "outbox_state \<Rightarrow> int \<Rightarrow> string \<Rightarrow> outbox_row \<Rightarrow> outbox_row" where
  "finish_job_row s available detail n = n\<lparr>ob_state := s, ob_available_at := available, ob_last_error := nullif detail\<rparr>"

definition FinishNotification :: "env \<Rightarrow> notification_job \<Rightarrow> disposition \<Rightarrow> string \<Rightarrow> db \<Rightarrow> error + db" where
  "FinishNotification env job disposition detail0 db =
    (let now = e_now env; detail = take 4096 (trim detail0) in
     bindE (outbox_disposition now disposition (nj_attempt job)) (\<lambda>(s, available).
     let p = (\<lambda>n. outbox_key n = job_key job \<and> ob_state n = Processing) in
     if affected p (outbox db) \<noteq> 1
     then (if map_option ob_state (row_by outbox_key (job_key job) (outbox db)) = Some Done then Inr db
           else Inl (InternalError ''notification job is not processing''))
     else let db1 = db\<lparr>outbox := update_where p (finish_job_row s available detail) (outbox db)\<rparr> in
       if disposition = NotificationRetry \<and> nj_attempt job \<ge> 5
       then appendEvent env (msg_project_id (nj_message job)) ''operational'' ''delivery.notification_abandoned''
         (msg_id (nj_message job)) (nj_recipient job)
         (Some (pput ''detail'' (PStr detail) (pput ''attempts'' (PInt (nj_attempt job)) (EventProvenance (e_caller env) [])))) db1
       else Inr db1))"

text \<open>
  \<open>RearmAcceptedNotifications\<close>, which a new attention presence triggers: expired and
  exhausted wake-ups are closed, the others become pending again.
\<close>

definition rearm_row :: "int \<Rightarrow> outbox_row \<Rightarrow> outbox_row" where
  "rearm_row now n = n\<lparr>ob_state := Pending, ob_available_at := now, ob_last_error := None\<rparr>"

definition RearmAcceptedNotifications :: "env \<Rightarrow> string \<Rightarrow> db \<Rightarrow> error + db" where
  "RearmAcceptedNotifications env actor0 db =
    (let actor = trim actor0; now = e_now env in
     bindE (requireE (actor \<noteq> []) (ValidationError ''actor'' ''is required'')) (\<lambda>_.
     let rows1 = update_where (\<lambda>n. ob_recipient n = actor \<and> ob_state n = Accepted \<and> expired_mail db now (ob_message_id n))
           (retire_row ''message expired before recipient claim'' now) (outbox db);
         rows2 = update_where (\<lambda>n. ob_recipient n = actor \<and> ob_state n = Accepted \<and> ob_attempt n \<ge> 5)
           (retire_row ''accepted wake rearm limit reached'' now) rows1;
         rows3 = update_where (\<lambda>n. ob_recipient n = actor \<and> ob_state n = Accepted \<and> ob_attempt n < 5 \<and>
             list_ex (\<lambda>m. mr_id m = ob_message_id n \<and> unexpired now m) (legacy_messages db))
           (rearm_row now) rows2 in
     Inr (db\<lparr>outbox := rows3\<rparr>)))"

definition RecordNotification :: "env \<Rightarrow> string \<Rightarrow> string \<Rightarrow> notification_attempt \<Rightarrow> db \<Rightarrow> error + db" where
  "RecordNotification env project mid a db =
    (let base = [(''run_id'', PStr (na_run_id a)), (''session_id'', PStr (na_session_id a)),
           (''harness'', PStr (na_harness a)), (''result'', PStr (na_result a))];
         merged = fold (\<lambda>(k, v). pput k v) (EventProvenance (e_caller env) (na_run_id a)) base;
         payload = (if na_detail a \<noteq> [] then pput ''detail'' (PStr (na_detail a)) merged else merged) in
     appendEvent env project ''operational'' ''delivery.notification'' mid (na_actor a) (Some payload) db)"

section \<open>Keys and what a successful operation did\<close>

interpretation process_upd: keyed_update outbox_key "process_row until"
  by unfold_locales (simp add: process_row_def)

interpretation retire_upd: keyed_update outbox_key "retire_row reason now"
  by unfold_locales (simp add: retire_row_def)

interpretation job_upd: keyed_update outbox_key "finish_job_row s t detail"
  by unfold_locales (simp add: finish_job_row_def)

interpretation rearm_upd: keyed_update outbox_key "rearm_row now"
  by unfold_locales (simp add: rearm_row_def)

lemma row_by_expire_jobs:
  "row_by outbox_key k (expire_jobs db now) = map_option (\<lambda>n. if ob_state n \<in> {Pending, Processing, Accepted} \<and>
     expired_mail db now (ob_message_id n) then retire_row ''message expired before notification'' now n else n)
     (row_by outbox_key k (outbox db))"
  unfolding expire_jobs_def by (rule retire_upd.row_by_update)

lemma open_survives_expiry:
  assumes "row_by outbox_key k (expire_jobs db now) = Some n" and "open_job now n"
  shows "row_by outbox_key k (outbox db) = Some n"
proof -
  obtain n0 where n0: "row_by outbox_key k (outbox db) = Some n0"
    and n: "n = (if ob_state n0 \<in> {Pending, Processing, Accepted} \<and> expired_mail db now (ob_message_id n0)
      then retire_row ''message expired before notification'' now n0 else n0)"
    using assms(1) by (auto simp: row_by_expire_jobs)
  show ?thesis
  proof (cases "ob_state n0 \<in> {Pending, Processing, Accepted} \<and> expired_mail db now (ob_message_id n0)")
    case True
    then have "n = retire_row ''message expired before notification'' now n0" using n by simp
    then show ?thesis using assms(2) by (simp add: open_job_def retire_row_def)
  next
    case False
    show ?thesis using n0 unfolding n if_not_P [OF False] .
  qed
qed

lemma getMessageByID_outbox [simp]: "getMessageByID (db\<lparr>outbox := x\<rparr>) mid = getMessageByID db mid"
proof -
  have "message_of_row (db\<lparr>outbox := x\<rparr>) m = message_of_row db m" for m
    by (simp add: message_of_row_def recipients_of_def)
  then show ?thesis by (simp add: getMessageByID_def split: option.split)
qed

lemma ClaimNotificationD:
  assumes "ClaimNotification env db = Inr (j, db')" and "outbox_ok db"
  obtains n where "row_by outbox_key (job_key j) (outbox db) = Some n" "open_job (e_now env) n"
    "row_by outbox_key (job_key j) (outbox db') = Some (process_row (e_now env + 30 * second) n)"
    "nj_attempt j = ob_attempt n + 1" "map outbox_key (outbox db') = map outbox_key (outbox db)"
    "db' = db\<lparr>outbox := outbox db'\<rparr>" "getMessageByID db (fst (job_key j)) = Inr (nj_message j)"
proof -
  let ?now = "e_now env"
  let ?rows = "expire_jobs db ?now"
  obtain n m rest where jr: "job_rows db ?now ?rows = (n, m) # rest"
    using assms(1) by (auto simp: ClaimNotification_def Let_def split: list.splits)
  let ?p = "\<lambda>r. outbox_key r = outbox_key n \<and> open_job ?now r"
  obtain msg and r :: outbox_row where db': "db' = db\<lparr>outbox := update_where ?p (process_row (?now + 30 * second)) ?rows\<rparr>"
    and msg: "getMessageByID db' (ob_message_id n) = Inr msg"
    and r: "row_by outbox_key (outbox_key n) (outbox db') = Some r"
    and j: "j = \<lparr>nj_message = msg, nj_recipient = ob_recipient n, nj_attempt = ob_attempt r\<rparr>"
    using assms(1) jr by (auto simp: ClaimNotification_def Let_def bindE_Inr_iff split: option.splits)
  have id: "msg_id msg = ob_message_id n"
    using msg by (auto simp: getMessageByID_Inr_iff dest!: row_by_SomeD)
  then have key: "job_key j = outbox_key n" by (simp add: j)
  have n: "n \<in> set ?rows" "open_job ?now n" "mr_id m = ob_message_id n" "unexpired ?now m" "m \<in> set (legacy_messages db)"
    using sort_key_Cons_in [OF jr [unfolded job_rows_def]] by auto
  have keys: "map outbox_key ?rows = map outbox_key (outbox db)"
    unfolding expire_jobs_def by (rule retire_upd.map_key_update)
  then have d: "distinct (map outbox_key ?rows)" using assms(2) by (simp add: outbox_ok_def)
  have row: "row_by outbox_key (outbox_key n) ?rows = Some n" using row_by_unique [OF d n(1)] by simp
  have r': "row_by outbox_key (outbox_key n) (outbox db') = Some (process_row (?now + 30 * second) n)"
    using row n(2)
    by (simp add: db' process_upd.row_by_update)
  show thesis
  proof (rule that [of n])
    show "row_by outbox_key (job_key j) (outbox db) = Some n"
      unfolding key by (rule open_survives_expiry [OF row n(2)])
    show "row_by outbox_key (job_key j) (outbox db') = Some (process_row (?now + 30 * second) n)" using r' by (simp only: key)
    have "r = process_row (?now + 30 * second) n" using r r' by simp
    then show "nj_attempt j = ob_attempt n + 1" by (simp add: j process_row_def)
    show "map outbox_key (outbox db') = map outbox_key (outbox db)" using keys by (simp add: db' process_upd.map_key_update)
    show "getMessageByID db (fst (job_key j)) = Inr (nj_message j)"
      using msg id by (simp add: j db')
  qed (use n(2) in \<open>simp_all add: db'\<close>)
qed

lemma FinishNotificationD:
  assumes "FinishNotification env j d detail db = Inr db'"
  obtains (closed) "db' = db" "map_option ob_state (row_by outbox_key (job_key j) (outbox db)) = Some Done"
      "affected (\<lambda>n. outbox_key n = job_key j \<and> ob_state n = Processing) (outbox db) \<noteq> 1"
  | (running) s t where "outbox_disposition (e_now env) d (nj_attempt j) = Inr (s, t)"
      "affected (\<lambda>n. outbox_key n = job_key j \<and> ob_state n = Processing) (outbox db) = 1"
      "outbox db' = update_where (\<lambda>n. outbox_key n = job_key j \<and> ob_state n = Processing)
         (finish_job_row s t (take 4096 (trim detail))) (outbox db)"
      "messages db' = messages db" "deliveries db' = deliveries db" "same_actors db db'" "actor_names db' = actor_names db"
      "events_ok db \<Longrightarrow> events_ok db'"
      "if d = NotificationRetry \<and> nj_attempt j \<ge> 5 then \<exists>e. events db' = events db @ [e] \<and>
         ev_kind e = ''delivery.notification_abandoned'' \<and> ev_message_id e = nullif (msg_id (nj_message j))
       else events db' = events db"
proof -
  let ?p = "\<lambda>n. outbox_key n = job_key j \<and> ob_state n = Processing"
  obtain s t where st: "outbox_disposition (e_now env) d (nj_attempt j) = Inr (s, t)"
    using assms by (auto simp: FinishNotification_def Let_def bindE_Inr_iff)
  let ?db1 = "db\<lparr>outbox := update_where ?p (finish_job_row s t (take 4096 (trim detail))) (outbox db)\<rparr>"
  show thesis
  proof (cases "affected ?p (outbox db) = 1")
    case False
    then show thesis using assms closed st by (simp add: FinishNotification_def Let_def split: if_splits)
  next
    case aff: True
    show thesis
    proof (cases "d = NotificationRetry \<and> nj_attempt j \<ge> 5")
      case True
      then obtain pl where ev: "appendEvent env (msg_project_id (nj_message j)) ''operational'' ''delivery.notification_abandoned''
          (msg_id (nj_message j)) (nj_recipient j) pl ?db1 = Inr db'"
        using assms st aff by (auto simp: FinishNotification_def Let_def)
      have "same_actors db db'" using appendEvent_same(1) [OF ev] by (simp add: same_actors_def)
      moreover obtain e where "events db' = events db @ [e]" "ev_kind e = ''delivery.notification_abandoned''"
        "ev_message_id e = nullif (msg_id (nj_message j))" using appendEvent_shape [OF ev] by auto
      ultimately show thesis
        using running [OF st aff] True appendEvent_frame [OF ev] appendEvent_events_ok [OF ev] by auto
    next
      case False
      have "db' = ?db1" using assms st aff unfolding FinishNotification_def Let_def by (simp add: if_not_P [OF False])
      then show thesis using running [OF st aff] False by (simp add: same_actors_def)
    qed
  qed
qed

lemma FinishNotification_keys:
  assumes "FinishNotification env j d detail db = Inr db'"
  shows "map outbox_key (outbox db') = map outbox_key (outbox db)"
  using assms by (rule FinishNotificationD) (simp_all add: job_upd.map_key_update)

text \<open>A due wake-up of an unexpired message makes a claim succeed, with one created no later.\<close>

lemma ClaimNotification_available:
  assumes "outbox_ok db" and "messages_ok db" and "n \<in> set (outbox db)" and "open_job (e_now env) n"
    and "m \<in> set (legacy_messages db)" and "mr_id m = ob_message_id n" and "unexpired (e_now env) m"
  shows "\<exists>j db' n'. ClaimNotification env db = Inr (j, db') \<and> row_by outbox_key (job_key j) (outbox db) = Some n' \<and>
    ob_created_at n' \<le> ob_created_at n"
proof -
  let ?now = "e_now env"
  let ?rows = "expire_jobs db ?now"
  let ?pairs = "filter (\<lambda>(n, m). mr_id m = ob_message_id n \<and> open_job ?now n \<and> unexpired ?now m)
    (List.product ?rows (legacy_messages db))"
  let ?k = "\<lambda>(n, m :: message_row). (ob_created_at n, ob_message_id n, ob_recipient n)"
  have legacy: "distinct (map mr_id (legacy_messages db))"
    using assms(2) by (simp add: messages_ok_def legacy_messages_def distinct_map_filter)
  have "m' = m" if "m' \<in> set (legacy_messages db)" "mr_id m' = mr_id m" for m'
    using legacy that assms(5) by (meson distinct_map inj_onD)
  then have "\<not> expired_mail db ?now (ob_message_id n)"
    using assms(6,7) by (auto simp: expired_mail_def list_ex_iff unexpired_def split: option.splits)
  then have "n \<in> set ?rows"
    using assms(3) by (force simp: expire_jobs_def set_update_where)
  then have in_pairs: "(n, m) \<in> set ?pairs" using assms(4-7) by simp
  then have "(n, m) \<in> set (job_rows db ?now ?rows)" by (simp add: job_rows_def)
  then obtain n1 m1 rest where jr: "job_rows db ?now ?rows = (n1, m1) # rest"
    by (cases "job_rows db ?now ?rows") auto
  have keys: "map outbox_key ?rows = map outbox_key (outbox db)"
    unfolding expire_jobs_def by (rule retire_upd.map_key_update)
  then have d: "distinct (map outbox_key ?rows)" using assms(1) by (simp add: outbox_ok_def)
  have n1: "n1 \<in> set ?rows" "open_job ?now n1" "mr_id m1 = ob_message_id n1" "m1 \<in> set (legacy_messages db)"
    using sort_key_Cons_in [OF jr [unfolded job_rows_def]] by auto
  let ?p = "\<lambda>r. outbox_key r = outbox_key n1 \<and> open_job ?now r"
  have aff: "affected ?p ?rows = 1" by (rule affected_unique [OF d n1(1)]) (use n1(2) in simp_all)
  have row1: "row_by outbox_key (outbox_key n1) ?rows = Some n1" using row_by_unique [OF d n1(1)] by simp
  have msg: "row_by mr_id (ob_message_id n1) (legacy_messages db) = Some m1"
    using row_by_unique [OF legacy n1(4)] n1(3) by simp
  let ?db1 = "db\<lparr>outbox := update_where ?p (process_row (?now + 30 * second)) ?rows\<rparr>"
  have "row_by outbox_key (outbox_key n1) (outbox ?db1) = Some (process_row (?now + 30 * second) n1)"
    using row1 n1(2) by (simp add: process_upd.row_by_update)
  then have c: "\<exists>j db'. ClaimNotification env db = Inr (j, db') \<and> job_key j = outbox_key n1"
    using jr aff msg n1(3) by (simp add: ClaimNotification_def Let_def getMessageByID_def)
  have "?k (n1, m1) \<le> ?k (n, m)"
    by (rule hd_sort_key_le [OF jr [unfolded job_rows_def] in_pairs])
  then have le: "ob_created_at n1 \<le> ob_created_at n" by (auto simp: less_eq_prod_def)
  have "row_by outbox_key (outbox_key n1) (outbox db) = Some n1" by (rule open_survives_expiry [OF row1 n1(2)])
  then show ?thesis using c le by (metis (no_types, lifting))
qed

section \<open>The outbox is a notification queue\<close>

definition row_status :: "outbox_row \<Rightarrow> job_status option" where
  "row_status n = (case ob_state n of
     Pending \<Rightarrow> Some (Waiting (ob_available_at n)) | Processing \<Rightarrow> Some (Running (ob_available_at n))
   | Accepted \<Rightarrow> Some AwaitingClaim | Done \<Rightarrow> Some Closed | _ \<Rightarrow> None)"

definition outbox_status :: "string \<times> string \<Rightarrow> db \<Rightarrow> job_status option" where
  "outbox_status k db = Option.bind (row_by outbox_key k (outbox db)) row_status"

definition outbox_attempts :: "string \<times> string \<Rightarrow> db \<Rightarrow> int" where
  "outbox_attempts k db = (case row_by outbox_key k (outbox db) of None \<Rightarrow> 0 | Some n \<Rightarrow> ob_attempt n)"

lemma open_job_due: "open_job now n \<longleftrightarrow> due now (row_status n)"
  by (auto simp: open_job_def due_def row_status_def split: outbox_state.splits)

lemma disposition_status:
  assumes "outbox_disposition now d a = Inr (s, t)"
  shows "row_status (finish_job_row s t detail n) = Some (next_status now d a)"
  using assms by (auto simp: outbox_disposition_def next_status_def finish_job_row_def row_status_def max_attempts_def
      backoff_def second_def split: disposition.splits if_splits)

interpretation legacy_queue: notification_queue ClaimNotification FinishNotification outbox_status outbox_attempts outbox_ok
proof unfold_locales
  fix env db j db'
  assume ok: "outbox_ok db" and c: "ClaimNotification env db = Inr (j, db')"
  obtain n where n: "row_by outbox_key (job_key j) (outbox db) = Some n" "open_job (e_now env) n"
    "row_by outbox_key (job_key j) (outbox db') = Some (process_row (e_now env + 30 * second) n)"
    "nj_attempt j = ob_attempt n + 1" "map outbox_key (outbox db') = map outbox_key (outbox db)"
    by (rule ClaimNotificationD [OF c ok])
  show "outbox_ok db'" using ok n(5) by (simp add: outbox_ok_def)
  show "due (e_now env) (outbox_status (job_key j) db)"
    using n(1,2) by (simp add: outbox_status_def open_job_due)
  show "outbox_status (job_key j) db' = Some (Running (e_now env + processing_lease)) \<and>
      outbox_attempts (job_key j) db' = nj_attempt j \<and> nj_attempt j = outbox_attempts (job_key j) db + 1"
    using n by (simp add: outbox_status_def outbox_attempts_def process_row_def row_status_def processing_lease_def second_def)
next
  fix env db j d detail db'
  assume ok: "outbox_ok db" and f: "FinishNotification env j d detail db = Inr db'"
  show "outbox_ok db'" using ok FinishNotification_keys [OF f] by (simp add: outbox_ok_def)
  fix t
  assume st: "outbox_status (job_key j) db = Some (Running t)" and a: "outbox_attempts (job_key j) db = nj_attempt j"
  obtain n where n: "row_by outbox_key (job_key j) (outbox db) = Some n" "row_status n = Some (Running t)"
    using st by (auto simp: outbox_status_def split: Option.bind_splits)
  then have p: "ob_state n = Processing" by (auto simp: row_status_def split: outbox_state.splits)
  from f show "outbox_status (job_key j) db' = Some (next_status (e_now env) d (nj_attempt j)) \<and>
      outbox_attempts (job_key j) db' = nj_attempt j"
  proof (cases rule: FinishNotificationD)
    case closed
    then show ?thesis using n(1) p by simp
  next
    case (running s t')
    have "row_by outbox_key (job_key j) (outbox db') = Some (finish_job_row s t' (take 4096 (trim detail)) n)"
      using n(1) p row_by_SomeD [OF n(1)] by (simp add: running(3) job_upd.row_by_update)
    then show ?thesis
      using a n(1) disposition_status [OF running(1)] by (simp add: outbox_status_def outbox_attempts_def finish_job_row_def)
  qed
qed

end
