(* ===== verification/OutboxProps.thy ===== *)
theory OutboxProps
  imports Outbox
begin

text \<open>
  What the notification worker relies on, through the contract of \<open>Notifications\<close>: exclusive
  leases, bounded retries, progress, and the race with the recipient's own claim.
\<close>


text \<open>
  Retries back off and end: after a turn that ends in a retry the job waits for the square
  of its attempts in seconds, and at the fifth attempt it is closed for good, with an
  \<open>delivery.notification_abandoned\<close> event in the log.
\<close>

theorem retry_backs_off:
  assumes "outbox_ok db" and "ClaimNotification env db = Inr (j, db1)"
    and "FinishNotification env2 j NotificationRetry detail db1 = Inr db2"
  shows "outbox_status (job_key j) db2 = Some (if 5 \<le> nj_attempt j then Closed
      else Waiting (e_now env2 + nj_attempt j * nj_attempt j * second)) \<and>
    nj_attempt j = outbox_attempts (job_key j) db + 1 \<and>
    (5 \<le> nj_attempt j \<longrightarrow> (\<exists>e. events db2 = events db1 @ [e] \<and> ev_kind e = ''delivery.notification_abandoned'' \<and>
      ev_message_id e = nullif (msg_id (nj_message j))))"
proof -
  have a: "nj_attempt j = outbox_attempts (job_key j) db + 1" using legacy_queue.claim_runs [OF assms(1,2)] by simp
  have run: "outbox_status (job_key j) db1 = Some (Running (e_now env + processing_lease))"
    using legacy_queue.claim_runs [OF assms(1,2)] by simp
  have s: "outbox_status (job_key j) db2 = Some (next_status (e_now env2) NotificationRetry (nj_attempt j))"
    using legacy_queue.turn_status(1) [OF assms] by (simp add: a)
  have "\<exists>e. events db2 = events db1 @ [e] \<and> ev_kind e = ''delivery.notification_abandoned'' \<and>
      ev_message_id e = nullif (msg_id (nj_message j))" if five: "5 \<le> nj_attempt j"
    using assms(3)
  proof (cases rule: FinishNotificationD)
    case closed
    then have "outbox_status (job_key j) db1 = Some Closed"
      by (auto simp: outbox_status_def row_status_def)
    then show ?thesis using run by simp
  next
    case running
    then show ?thesis using five by simp
  qed
  then show ?thesis using s a by (simp add: next_status_def max_attempts_def backoff_def second_def)
qed

interpretation close_upd: keyed_update outbox_key "\<lambda>n. n\<lparr>ob_state := Done, ob_available_at := now\<rparr>"
  by unfold_locales simp

text \<open>
  The recipient may be faster than the adapter: when it claims the message while the
  notification is in flight, finishing the notification succeeds whatever the adapter reported,
  and changes nothing.
\<close>

theorem claim_while_notifying:
  assumes "outbox_ok db" and "ClaimNotification env db = Inr (j, db1)" and "Claim env2 a mid lease db1 = Inr (c, db2)"
    and "trim a = nj_recipient j" and "msg_id (cl_message c) = msg_id (nj_message j)"
    and "d \<in> {NotificationComplete, NotificationRetry, NotificationAccepted}"
  shows "FinishNotification env3 j d detail db2 = Inr db2"
  using assms(3)
proof (rule ClaimD)
  fix m :: message_row and d0 :: delivery_row
  assume o: "outbox db2 = close_notification (mr_id m) (trim a) (e_now env2) (outbox db1)"
    and id: "msg_id (cl_message c) = mr_id m"
  have run: "outbox_status (job_key j) db1 = Some (Running (e_now env + processing_lease))"
    using legacy_queue.claim_runs [OF assms(1,2)] by simp
  then obtain n where n: "row_by outbox_key (job_key j) (outbox db1) = Some n" "ob_state n = Processing"
    by (auto simp: outbox_status_def row_status_def split: Option.bind_splits outbox_state.splits)
  have key: "(mr_id m, trim a) = job_key j" using assms(4,5) id by simp
  have close: "outbox db2 = update_where (\<lambda>n. outbox_key n = job_key j \<and> ob_state n \<noteq> Done)
      (\<lambda>n. n\<lparr>ob_state := Done, ob_available_at := e_now env2\<rparr>) (outbox db1)"
    unfolding o close_notification_def key [symmetric] by simp
  have "row_by outbox_key (job_key j) (outbox db2) = Some (n\<lparr>ob_state := Done, ob_available_at := e_now env2\<rparr>)"
    using n row_by_SomeD [OF n(1)] by (simp add: close close_upd.row_by_update)
  moreover have "affected (\<lambda>n. outbox_key n = job_key j \<and> ob_state n = Processing) (outbox db2) = 0"
    by (auto simp: affected_zero_iff close set_update_where)
  ultimately show ?thesis
    using assms(6) by (auto simp: FinishNotification_def Let_def outbox_disposition_def)
qed

section \<open>The properties at a concrete store\<close>

definition sample_wake :: "string \<Rightarrow> int \<Rightarrow> int \<Rightarrow> outbox_row" where
  "sample_wake mid attempt created = \<lparr>ob_message_id = mid, ob_recipient = ''alice'', ob_state = Pending, ob_attempt = attempt,
     ob_available_at = created, ob_last_error = None, ob_created_at = created, ob_source = LegacySource\<rparr>"

definition sample_wake_db :: db where
  "sample_wake_db = sample_db\<lparr>outbox := [sample_wake ''m1'' 0 10, sample_wake ''m2'' 4 20]\<rparr>"

definition sample_job :: "notification_job \<times> db" where
  "sample_job = projr (ClaimNotification (sample_env 100) sample_wake_db)"

definition sample_second_job :: "notification_job \<times> db" where
  "sample_second_job = projr (ClaimNotification (sample_env 200) (snd sample_job))"

lemma sample_wake_ok: "outbox_ok sample_wake_db"
  by code_simp

lemma sample_job_run: "ClaimNotification (sample_env 100) sample_wake_db = Inr (fst sample_job, snd sample_job)"
  by code_simp

lemma sample_second_job_run: "ClaimNotification (sample_env 200) (snd sample_job) = Inr (fst sample_second_job, snd sample_second_job)"
  by code_simp


lemma retry_backs_off_witness:
  "outbox_status (''m2'', ''alice'') (projr (FinishNotification (sample_env 300) (fst sample_second_job) NotificationRetry ''busy'' (snd sample_second_job))) =
    Some Closed"
proof -
  let ?run = "FinishNotification (sample_env 300) (fst sample_second_job) NotificationRetry ''busy'' (snd sample_second_job)"
  have 0: "outbox_ok (snd sample_job)" by code_simp
  have 1: "?run = Inr (projr ?run)" by code_simp
  have 2: "job_key (fst sample_second_job) = (''m2'', ''alice'')" "nj_attempt (fst sample_second_job) = 5" by code_simp+
  from retry_backs_off [OF 0 sample_second_job_run 1] show ?thesis unfolding 2 by simp
qed

lemma claim_while_notifying_witness:
  "FinishNotification (sample_env 300) (fst sample_job) NotificationRetry ''busy''
     (snd (projr (Claim (sample_env 200) ''alice'' ''m1'' 60 (snd sample_job)))) =
   Inr (snd (projr (Claim (sample_env 200) ''alice'' ''m1'' 60 (snd sample_job))))"
proof -
  let ?run = "Claim (sample_env 200) ''alice'' ''m1'' 60 (snd sample_job)"
  have 1: "?run = Inr (fst (projr ?run), snd (projr ?run))" by code_simp
  have 2: "trim ''alice'' = nj_recipient (fst sample_job)" by code_simp
  have 3: "msg_id (cl_message (fst (projr ?run))) = msg_id (nj_message (fst sample_job))" by code_simp
  have 4: "NotificationRetry \<in> {NotificationComplete, NotificationRetry, NotificationAccepted}" by simp
  from claim_while_notifying [OF sample_wake_ok sample_job_run 1 2 3 4] show ?thesis .
qed

end
