(* ===== verification/Broker.thy ===== *)
theory Broker
  imports BusModel
begin

text \<open>
  \<open>internal/attention/broker.go\<close>: the in-memory broker between the notification dispatcher and
  the parked monitors. The state is the two maps the mutex protects, and beside them what the
  goroutines hold: each call of \<open>Wait\<close> with the channel of capacity one it made, and the sends
  that \<open>Attach\<close> and \<open>Cancel\<close> still have to make after they released the mutex. Every critical
  section is one step, so the relation \<open>broker_step\<close> has all interleavings of the calls.
\<close>

section \<open>State\<close>

record session_id =
  se_actor :: string
  se_run :: string
  se_session :: string

record attention_notice =
  no_message_id :: string
  no_thread_id :: string
  no_from_actor :: string
  no_type :: string
  no_delivery_request :: delivery_request

datatype wait_result = Notice attention_notice | Failed error

text \<open>
  Where a call of \<open>Wait\<close> is: parked in the first select, on its way out because the context is
  done (before and after \<open>remove\<close>), holding what it received but not yet done with
  \<open>remove\<close>, or returned, with \<open>None\<close> for the context's own error.
\<close>

datatype wait_pc = Parked | ContextDone | Removed | Received wait_result | Returned "wait_result option"

record wait_call =
  wc_key :: session_id
  wc_pc :: wait_pc
  wc_channel :: "wait_result option"

record broker =
  bk_waiters :: "session_id \<rightharpoonup> string \<times> nat"
  bk_current :: "string \<rightharpoonup> session_id"
  bk_calls :: "wait_call list"
  bk_sends :: "(nat \<times> wait_result) list"

definition NewBroker :: broker where
  "NewBroker = \<lparr>bk_waiters = Map.empty, bk_current = Map.empty, bk_calls = [], bk_sends = []\<rparr>"

section \<open>The operations under the mutex\<close>

definition Attached :: "session_id \<Rightarrow> broker \<Rightarrow> bool" where
  "Attached k b \<longleftrightarrow> bk_current b (se_actor k) = Some k"

text \<open>\<open>Attach\<close>: the callback's outcome is the argument, \<open>Some e\<close> when it fails.\<close>

definition Attach :: "session_id \<Rightarrow> error option \<Rightarrow> broker \<Rightarrow> error option \<times> broker" where
  "Attach k transition b =
    (case bk_current b (se_actor k) of
       Some previous \<Rightarrow>
         if previous = k then (None, b)
         else (case transition of
           Some e \<Rightarrow> (Some e, b)
         | None \<Rightarrow> (None, b\<lparr>bk_waiters := (bk_waiters b)(previous := None), bk_current := (bk_current b)(se_actor k \<mapsto> k),
             bk_sends := (case bk_waiters b previous of
               Some (_, c) \<Rightarrow> bk_sends b @ [(c, Failed ErrPresenceSuperseded)] | None \<Rightarrow> bk_sends b)\<rparr>))
     | None \<Rightarrow>
         (case transition of
           Some e \<Rightarrow> (Some e, b)
         | None \<Rightarrow> (None, b\<lparr>bk_current := (bk_current b)(se_actor k \<mapsto> k)\<rparr>)))"

text \<open>The first critical section of \<open>Wait\<close>: refused, or parked on a new channel.\<close>

definition Wait_begin :: "session_id \<Rightarrow> string \<Rightarrow> broker \<Rightarrow> error option \<times> broker" where
  "Wait_begin k adapter b =
    (case bk_current b (se_actor k) of
       None \<Rightarrow> (Some ErrRegistrationExpired, b)
     | Some c \<Rightarrow>
         if c \<noteq> k then (Some ErrPresenceSuperseded, b)
         else if bk_waiters b k \<noteq> None then (Some ErrAttentionWaiterBusy, b)
         else (None, b\<lparr>bk_waiters := (bk_waiters b)(k \<mapsto> (adapter, length (bk_calls b))),
                bk_calls := bk_calls b @ [\<lparr>wc_key = k, wc_pc = Parked, wc_channel = None\<rparr>]\<rparr>))"

text \<open>A send that does not block: into an empty channel, or dropped.\<close>

definition offer :: "nat \<Rightarrow> wait_result \<Rightarrow> wait_call list \<Rightarrow> wait_call list" where
  "offer c r cs = (if wc_channel (cs ! c) = None then cs[c := (cs ! c)\<lparr>wc_channel := Some r\<rparr>] else cs)"

text \<open>The closure \<open>remove\<close> of the call on channel \<open>c\<close>.\<close>

definition remove_waiter :: "nat \<Rightarrow> broker \<Rightarrow> broker" where
  "remove_waiter c b = (let k = wc_key (bk_calls b ! c) in
     case bk_waiters b k of
       Some (_, c') \<Rightarrow> if c' = c then b\<lparr>bk_waiters := (bk_waiters b)(k := None)\<rparr> else b
     | None \<Rightarrow> b)"

definition notice_of :: "message \<Rightarrow> attention_notice" where
  "notice_of m = \<lparr>no_message_id = msg_id m, no_thread_id = msg_thread_id m, no_from_actor = msg_from_actor m,
     no_type = msg_type m, no_delivery_request = msg_delivery_request m\<rparr>"

definition Notify :: "session_id \<Rightarrow> string \<Rightarrow> message \<Rightarrow> broker \<Rightarrow> (string \<times> bool) \<times> broker" where
  "Notify k mode m b =
    (case (bk_current b (se_actor k), bk_waiters b k) of
       (Some c, Some (adapter, w)) \<Rightarrow>
         if c \<noteq> k \<or> adapter \<noteq> mode then (([], False), b)
         else if wc_channel (bk_calls b ! w) = None
         then ((adapter, True), b\<lparr>bk_waiters := (bk_waiters b)(k := None), bk_calls := offer w (Notice (notice_of m)) (bk_calls b)\<rparr>)
         else (([], False), b)
     | _ \<Rightarrow> (([], False), b))"

definition Cancel :: "session_id \<Rightarrow> error \<Rightarrow> broker \<Rightarrow> broker" where
  "Cancel k outcome b = b\<lparr>bk_waiters := (bk_waiters b)(k := None),
     bk_current := (if bk_current b (se_actor k) = Some k then (bk_current b)(se_actor k := None) else bk_current b),
     bk_sends := (case bk_waiters b k of Some (_, c) \<Rightarrow> bk_sends b @ [(c, Failed outcome)] | None \<Rightarrow> bk_sends b)\<rparr>"

section \<open>The interleavings\<close>

definition set_pc :: "nat \<Rightarrow> wait_pc \<Rightarrow> broker \<Rightarrow> broker" where
  "set_pc c p b = b\<lparr>bk_calls := (bk_calls b)[c := (bk_calls b ! c)\<lparr>wc_pc := p\<rparr>]\<rparr>"

definition drain :: "nat \<Rightarrow> wait_pc \<Rightarrow> broker \<Rightarrow> broker" where
  "drain c p b = b\<lparr>bk_calls := (bk_calls b)[c := (bk_calls b ! c)\<lparr>wc_pc := p, wc_channel := None\<rparr>]\<rparr>"

datatype broker_event = EAttach session_id | EWait session_id | ENotify nat attention_notice | ECancel session_id | EWorker nat

inductive broker_step :: "broker \<Rightarrow> broker_event \<Rightarrow> broker \<Rightarrow> bool" where
  attach: "Attach k t b = (e, b') \<Longrightarrow> broker_step b (EAttach k) b'"
| wait_call: "Wait_begin k a b = (e, b') \<Longrightarrow> broker_step b (EWait k) b'"
| notified: "Notify k mode m b = ((a, True), b') \<Longrightarrow> bk_waiters b k = Some (a, c) \<Longrightarrow>
    broker_step b (ENotify c (notice_of m)) b'"
| cancelled: "broker_step b (ECancel k) (Cancel k e b)"
| late_send: "bk_sends b = ss @ (c, r) # ts \<Longrightarrow>
    broker_step b (EWorker c) (b\<lparr>bk_sends := ss @ ts, bk_calls := offer c r (bk_calls b)\<rparr>)"
| context_done: "c < length (bk_calls b) \<Longrightarrow> wc_pc (bk_calls b ! c) = Parked \<Longrightarrow>
    broker_step b (EWorker c) (set_pc c ContextDone b)"
| give_up: "c < length (bk_calls b) \<Longrightarrow> wc_pc (bk_calls b ! c) = ContextDone \<Longrightarrow>
    broker_step b (EWorker c) (set_pc c Removed (remove_waiter c b))"
| last_look: "c < length (bk_calls b) \<Longrightarrow> wc_pc (bk_calls b ! c) = Removed \<Longrightarrow>
    broker_step b (EWorker c) (drain c (Returned (wc_channel (bk_calls b ! c))) b)"
| receive: "c < length (bk_calls b) \<Longrightarrow> wc_pc (bk_calls b ! c) = Parked \<Longrightarrow> wc_channel (bk_calls b ! c) = Some r \<Longrightarrow>
    broker_step b (EWorker c) (drain c (Received r) b)"
| deliver: "c < length (bk_calls b) \<Longrightarrow> wc_pc (bk_calls b ! c) = Received r \<Longrightarrow>
    broker_step b (EWorker c) (set_pc c (Returned (Some r)) (remove_waiter c b))"

inductive_cases broker_stepE: "broker_step b e b'"

inductive broker_run :: "broker_event list \<Rightarrow> broker \<Rightarrow> bool" where
  start: "broker_run [] NewBroker"
| turn: "broker_run es b \<Longrightarrow> broker_step b e b' \<Longrightarrow> broker_run (es @ [e]) b'"

section \<open>The invariant\<close>

definition notices :: "broker_event list \<Rightarrow> nat \<Rightarrow> attention_notice list" where
  "notices es c = concat (map (\<lambda>e. case e of ENotify c' n \<Rightarrow> if c' = c then [n] else [] | _ \<Rightarrow> []) es)"

lemma notices_append [simp]: "notices (es @ fs) c = notices es c @ notices fs c"
  by (simp add: notices_def)

lemma notices_simps [simp]:
  "notices [] c = []" "notices [ENotify c' n] c = (if c' = c then [n] else [])" "notices [EAttach k] c = []"
  "notices [EWait k] c = []" "notices [ECancel k] c = []" "notices [EWorker i] c = []"
  by (simp_all add: notices_def)

text \<open>A call is untouched by notices, or on its way to return the one it was given.\<close>

definition carries :: "wait_call \<Rightarrow> attention_notice \<Rightarrow> bool" where
  "carries w n \<longleftrightarrow> wc_channel w = Some (Notice n) \<or> wc_pc w = Received (Notice n) \<or> wc_pc w = Returned (Some (Notice n))"

definition holds :: "wait_call \<Rightarrow> attention_notice \<Rightarrow> bool" where
  "holds w n \<longleftrightarrow> wc_pc w \<in> {Parked, ContextDone, Removed} \<and> wc_channel w = Some (Notice n) \<or>
     wc_pc w = Received (Notice n) \<and> wc_channel w = None \<or> wc_pc w = Returned (Some (Notice n)) \<and> wc_channel w = None"

definition waiters_ok :: "broker \<Rightarrow> bool" where
  "waiters_ok b \<longleftrightarrow> (\<forall>k a c. bk_waiters b k = Some (a, c) \<longrightarrow> c < length (bk_calls b) \<and> wc_key (bk_calls b ! c) = k \<and>
     wc_pc (bk_calls b ! c) \<in> {Parked, ContextDone} \<and> wc_channel (bk_calls b ! c) = None \<and>
     c \<notin> fst ` set (bk_sends b) \<and> bk_current b (se_actor k) = Some k)"

lemma waiters_okD:
  "waiters_ok b \<Longrightarrow> bk_waiters b k = Some (a, c) \<Longrightarrow> c < length (bk_calls b) \<and> wc_key (bk_calls b ! c) = k \<and>
     wc_pc (bk_calls b ! c) \<in> {Parked, ContextDone} \<and> wc_channel (bk_calls b ! c) = None \<and>
     c \<notin> fst ` set (bk_sends b) \<and> bk_current b (se_actor k) = Some k"
  by (simp add: waiters_ok_def)

lemma waiters_okI:
  assumes "\<And>k a c. bk_waiters b k = Some (a, c) \<Longrightarrow> c < length (bk_calls b) \<and> wc_key (bk_calls b ! c) = k \<and>
     wc_pc (bk_calls b ! c) \<in> {Parked, ContextDone} \<and> wc_channel (bk_calls b ! c) = None \<and>
     c \<notin> fst ` set (bk_sends b) \<and> bk_current b (se_actor k) = Some k"
  shows "waiters_ok b"
  using assms by (simp add: waiters_ok_def)

definition sends_ok :: "broker \<Rightarrow> bool" where
  "sends_ok b \<longleftrightarrow> distinct (map fst (bk_sends b)) \<and>
     (\<forall>(c, r)\<in>set (bk_sends b). c < length (bk_calls b) \<and> wc_channel (bk_calls b ! c) = None \<and> (\<exists>e. r = Failed e))"

definition registered :: "broker \<Rightarrow> nat \<Rightarrow> bool" where
  "registered b c \<longleftrightarrow> (\<exists>k a. bk_waiters b k = Some (a, c))"

definition call_ok :: "broker_event list \<Rightarrow> broker \<Rightarrow> nat \<Rightarrow> bool" where
  "call_ok es b c \<longleftrightarrow> (notices es c = [] \<and> (\<forall>n. \<not> carries (bk_calls b ! c) n)) \<or>
     (\<exists>n. notices es c = [n] \<and> holds (bk_calls b ! c) n \<and> \<not> registered b c \<and> c \<notin> fst ` set (bk_sends b))"

definition calls_ok :: "broker_event list \<Rightarrow> broker \<Rightarrow> bool" where
  "calls_ok es b \<longleftrightarrow> (\<forall>c \<ge> length (bk_calls b). notices es c = []) \<and> (\<forall>c < length (bk_calls b). call_ok es b c)"

lemma call_ok_mono:
  assumes "call_ok es b c" and "bk_calls b' ! c = bk_calls b ! c" and "registered b' c \<Longrightarrow> registered b c"
    and "c \<in> fst ` set (bk_sends b') \<Longrightarrow> c \<in> fst ` set (bk_sends b) \<or> registered b c"
  shows "call_ok es b' c"
  using assms unfolding call_ok_def by metis

definition broker_ok :: "broker_event list \<Rightarrow> broker \<Rightarrow> bool" where
  "broker_ok es b \<longleftrightarrow> waiters_ok b \<and> sends_ok b \<and> calls_ok es b"

text \<open>\<open>Attach\<close> and \<open>Cancel\<close> take a waiter out and owe it an error.\<close>

definition evict :: "session_id \<Rightarrow> error \<Rightarrow> (string \<rightharpoonup> session_id) \<Rightarrow> broker \<Rightarrow> broker" where
  "evict k e cur b = b\<lparr>bk_waiters := (bk_waiters b)(k := None), bk_current := cur,
     bk_sends := (case bk_waiters b k of Some (_, c) \<Rightarrow> bk_sends b @ [(c, Failed e)] | None \<Rightarrow> bk_sends b)\<rparr>"

lemma evict_ok:
  assumes ok: "broker_ok es b" and cur: "\<And>k'. k' \<noteq> k \<Longrightarrow> bk_waiters b k' \<noteq> None \<Longrightarrow> cur (se_actor k') = Some k'"
  shows "broker_ok es (evict k e cur b)"
proof -
  have w: "waiters_ok b" and s: "sends_ok b" and c: "calls_ok es b" using ok by (simp_all add: broker_ok_def)
  show ?thesis
  proof (cases "bk_waiters b k")
    case None
    then have e: "evict k e cur b = b\<lparr>bk_current := cur\<rparr>" by (simp add: evict_def fun_upd_idem)
    have "waiters_ok (b\<lparr>bk_current := cur\<rparr>)"
    proof (rule waiters_okI)
      fix k' a' c' assume "bk_waiters (b\<lparr>bk_current := cur\<rparr>) k' = Some (a', c')"
      then have k': "bk_waiters b k' = Some (a', c')" by simp
      then have "k' \<noteq> k" using None by auto
      then show "c' < length (bk_calls (b\<lparr>bk_current := cur\<rparr>)) \<and> wc_key (bk_calls (b\<lparr>bk_current := cur\<rparr>) ! c') = k' \<and>
        wc_pc (bk_calls (b\<lparr>bk_current := cur\<rparr>) ! c') \<in> {Parked, ContextDone} \<and>
        wc_channel (bk_calls (b\<lparr>bk_current := cur\<rparr>) ! c') = None \<and>
        c' \<notin> fst ` set (bk_sends (b\<lparr>bk_current := cur\<rparr>)) \<and> bk_current (b\<lparr>bk_current := cur\<rparr>) (se_actor k') = Some k'"
        using waiters_okD [OF w k'] cur k' by simp
    qed
    then show ?thesis
      using s c by (simp add: broker_ok_def e sends_ok_def calls_ok_def call_ok_def registered_def)
  next
    case (Some ac)
    obtain a i where ac: "ac = (a, i)" by (cases ac)
    have i: "i < length (bk_calls b)" "wc_channel (bk_calls b ! i) = None" "i \<notin> fst ` set (bk_sends b)"
      "wc_key (bk_calls b ! i) = k"
      using w Some ac by (auto simp: waiters_ok_def)
    have "waiters_ok (evict k e cur b)"
    proof (rule waiters_okI)
      fix k' a' c' assume "bk_waiters (evict k e cur b) k' = Some (a', c')"
      then have k': "bk_waiters b k' = Some (a', c')" "k' \<noteq> k" by (simp_all add: evict_def split: if_splits)
      then have "c' \<noteq> i" using waiters_okD [OF w k'(1)] i(4) by auto
      then show "c' < length (bk_calls (evict k e cur b)) \<and> wc_key (bk_calls (evict k e cur b) ! c') = k' \<and>
        wc_pc (bk_calls (evict k e cur b) ! c') \<in> {Parked, ContextDone} \<and>
        wc_channel (bk_calls (evict k e cur b) ! c') = None \<and>
        c' \<notin> fst ` set (bk_sends (evict k e cur b)) \<and> bk_current (evict k e cur b) (se_actor k') = Some k'"
        using waiters_okD [OF w k'(1)] cur [OF k'(2)] k'(1) by (simp add: evict_def Some ac)
    qed
    moreover have "sends_ok (evict k e cur b)"
      using s Some ac i by (auto simp: evict_def sends_ok_def)
    moreover have "calls_ok es (evict k e cur b)"
      unfolding calls_ok_def
    proof (intro conjI allI impI)
      fix j assume "j < length (bk_calls (evict k e cur b))"
      then have "call_ok es b j" using c by (simp add: calls_ok_def evict_def)
      then show "call_ok es (evict k e cur b) j"
      proof (rule call_ok_mono)
        show "registered b j" if "registered (evict k e cur b) j"
          using that by (auto simp: registered_def evict_def split: if_splits)
        show "j \<in> fst ` set (bk_sends b) \<or> registered b j" if "j \<in> fst ` set (bk_sends (evict k e cur b))"
          using that Some ac by (auto simp: registered_def evict_def)
      qed (simp add: evict_def)
    qed (use c in \<open>simp add: calls_ok_def evict_def\<close>)
    ultimately show ?thesis by (simp add: broker_ok_def)
  qed
qed

text \<open>A call that is not registered moves by itself, keeping what it carries.\<close>

lemma worker_ok:
  assumes ok: "broker_ok es b" and c: "c < length (bk_calls b)" and nr: "\<not> registered b c \<or> wc_pc w \<in> {Parked, ContextDone} \<and> wc_channel w = None"
    and key: "wc_key w = wc_key (bk_calls b ! c)"
    and chan: "c \<in> fst ` set (bk_sends b) \<Longrightarrow> wc_channel w = None"
    and none: "\<And>n. carries w n \<Longrightarrow> carries (bk_calls b ! c) n" and held: "\<And>n. holds (bk_calls b ! c) n \<Longrightarrow> holds w n"
  shows "broker_ok es (b\<lparr>bk_calls := (bk_calls b)[c := w]\<rparr>)"
proof -
  have w: "waiters_ok b" and s: "sends_ok b" and cs: "calls_ok es b" using ok by (simp_all add: broker_ok_def)
  have "waiters_ok (b\<lparr>bk_calls := (bk_calls b)[c := w]\<rparr>)"
    using w nr key c by (auto simp: waiters_ok_def nth_list_update registered_def)
  moreover have "sends_ok (b\<lparr>bk_calls := (bk_calls b)[c := w]\<rparr>)"
    using s chan c by (auto simp: sends_ok_def nth_list_update rev_image_eqI)
  moreover have "calls_ok es (b\<lparr>bk_calls := (bk_calls b)[c := w]\<rparr>)"
    unfolding calls_ok_def
  proof (intro conjI allI impI)
    fix i assume i: "i < length (bk_calls (b\<lparr>bk_calls := (bk_calls b)[c := w]\<rparr>))"
    show "call_ok es (b\<lparr>bk_calls := (bk_calls b)[c := w]\<rparr>) i"
    proof (cases "i = c")
      case True
      then show ?thesis using cs c none held by (simp add: calls_ok_def call_ok_def registered_def) blast
    next
      case False
      then show ?thesis using cs i by (simp add: calls_ok_def call_ok_def registered_def)
    qed
  qed (use cs in \<open>simp add: calls_ok_def\<close>)
  ultimately show ?thesis by (simp add: broker_ok_def)
qed

lemma unregister_ok:
  assumes "broker_ok es b"
  shows "broker_ok es (b\<lparr>bk_waiters := (bk_waiters b)(k := None)\<rparr>)"
proof -
  have w: "waiters_ok b" and s: "sends_ok b" and cs: "calls_ok es b" using assms by (simp_all add: broker_ok_def)
  have "waiters_ok (b\<lparr>bk_waiters := (bk_waiters b)(k := None)\<rparr>)"
    using w by (simp add: waiters_ok_def)
  moreover have "sends_ok (b\<lparr>bk_waiters := (bk_waiters b)(k := None)\<rparr>)"
    using s by (simp add: sends_ok_def)
  moreover have "call_ok es b c \<Longrightarrow> call_ok es (b\<lparr>bk_waiters := (bk_waiters b)(k := None)\<rparr>) c" for c
    by (erule call_ok_mono) (auto simp: registered_def split: if_splits)
  then have "calls_ok es (b\<lparr>bk_waiters := (bk_waiters b)(k := None)\<rparr>)"
    using cs by (simp add: calls_ok_def)
  ultimately show ?thesis by (simp add: broker_ok_def)
qed

lemma remove_waiter_ok:
  assumes "broker_ok es b"
  shows "broker_ok es (remove_waiter c b)" "bk_calls (remove_waiter c b) = bk_calls b"
    "bk_sends (remove_waiter c b) = bk_sends b" "\<not> registered (remove_waiter c b) c"
proof -
  have w: "waiters_ok b" using assms by (simp add: broker_ok_def)
  show "bk_calls (remove_waiter c b) = bk_calls b" "bk_sends (remove_waiter c b) = bk_sends b"
    by (auto simp: remove_waiter_def Let_def split: option.splits)
  show "\<not> registered (remove_waiter c b) c"
  proof (cases "bk_waiters b (wc_key (bk_calls b ! c)) = None")
    case True
    then show ?thesis using w by (fastforce simp: remove_waiter_def registered_def waiters_ok_def Let_def)
  next
    case False
    then obtain a c' where kc: "bk_waiters b (wc_key (bk_calls b ! c)) = Some (a, c')" by auto
    have uniq: "bk_waiters b k = Some (a', c) \<Longrightarrow> k = wc_key (bk_calls b ! c)" for k a'
      using w by (simp add: waiters_ok_def)
    show ?thesis
    proof
      assume "registered (remove_waiter c b) c"
      then obtain k a' where k: "bk_waiters (remove_waiter c b) k = Some (a', c)" by (auto simp: registered_def)
      then have kb: "bk_waiters b k = Some (a', c)"
        by (simp add: remove_waiter_def Let_def kc split: if_splits)
      then have "c' = c" using uniq [OF kb] kc by simp
      then show False using k uniq [OF kb] by (simp add: remove_waiter_def Let_def kc)
    qed
  qed
  show "broker_ok es (remove_waiter c b)"
    unfolding remove_waiter_def Let_def
    by (simp add: assms unregister_ok [OF assms] split: option.split prod.split)
qed

text \<open>Each operation keeps the invariant.\<close>

lemma broker_ok_quiet: "broker_ok es b \<Longrightarrow> (\<And>c. notices [e] c = []) \<Longrightarrow> broker_ok (es @ [e]) b"
  by (simp add: broker_ok_def calls_ok_def call_ok_def)

lemma waiter_current:
  "broker_ok es b \<Longrightarrow> bk_waiters b k \<noteq> None \<Longrightarrow> bk_current b (se_actor k) = Some k"
  by (auto simp: broker_ok_def waiters_ok_def)

lemma Attach_ok:
  assumes ok: "broker_ok es b" and "Attach k t b = (e, b')"
  shows "broker_ok es b'"
proof (cases "b' = b")
  case False
  show ?thesis
  proof (cases "bk_current b (se_actor k)")
    case None
    then have b': "b' = b\<lparr>bk_current := (bk_current b)(se_actor k \<mapsto> k)\<rparr>"
      using assms(2) False by (auto simp: Attach_def split: option.splits)
    have "\<And>k'. bk_waiters b k' \<noteq> None \<Longrightarrow> se_actor k' \<noteq> se_actor k"
      using waiter_current [OF ok] None by (metis option.distinct(1))
    then have "waiters_ok b'" using ok unfolding broker_ok_def waiters_ok_def b' by simp
    then show ?thesis using ok by (simp add: broker_ok_def b' sends_ok_def calls_ok_def call_ok_def registered_def)
  next
    case (Some previous)
    then have b': "b' = evict previous ErrPresenceSuperseded ((bk_current b)(se_actor k \<mapsto> k)) b"
      using assms(2) False by (auto simp: Attach_def evict_def split: option.splits if_splits)
    show ?thesis unfolding b'
    proof (rule evict_ok [OF ok])
      fix k' assume "k' \<noteq> previous" "bk_waiters b k' \<noteq> None"
      then show "((bk_current b)(se_actor k \<mapsto> k)) (se_actor k') = Some k'"
        using waiter_current [OF ok, of k'] Some by (cases "se_actor k' = se_actor k") simp_all
    qed
  qed
qed (simp add: ok)

lemma Cancel_ok:
  assumes ok: "broker_ok es b"
  shows "broker_ok es (Cancel k e b)"
proof -
  let ?cur = "if bk_current b (se_actor k) = Some k then (bk_current b)(se_actor k := None) else bk_current b"
  have "broker_ok es (evict k e ?cur b)"
  proof (rule evict_ok [OF ok])
    fix k' assume "k' \<noteq> k" "bk_waiters b k' \<noteq> None"
    then show "?cur (se_actor k') = Some k'"
      using waiter_current [OF ok, of k'] by (cases "se_actor k' = se_actor k") simp_all
  qed
  then show ?thesis by (simp only: Cancel_def evict_def)
qed

lemma Wait_begin_ok:
  assumes ok: "broker_ok es b" and "Wait_begin k a b = (e, b')"
  shows "broker_ok es b'"
proof (cases "b' = b")
  case False
  then have b': "b' = b\<lparr>bk_waiters := (bk_waiters b)(k \<mapsto> (a, length (bk_calls b))),
        bk_calls := bk_calls b @ [\<lparr>wc_key = k, wc_pc = Parked, wc_channel = None\<rparr>]\<rparr>"
      and cur: "bk_current b (se_actor k) = Some k"
    using assms(2) by (auto simp: Wait_begin_def split: option.splits if_splits)
  have w: "waiters_ok b" and s: "sends_ok b" and cs: "calls_ok es b" using ok by (simp_all add: broker_ok_def)
  have new: "length (bk_calls b) \<notin> fst ` set (bk_sends b)" using s by (auto simp: sends_ok_def)
  have "waiters_ok b'"
  proof (rule waiters_okI)
    fix k' a' c' assume "bk_waiters b' k' = Some (a', c')"
    then have "k' = k \<and> c' = length (bk_calls b) \<or> bk_waiters b k' = Some (a', c')" by (auto simp: b' split: if_splits)
    then show "c' < length (bk_calls b') \<and> wc_key (bk_calls b' ! c') = k' \<and>
      wc_pc (bk_calls b' ! c') \<in> {Parked, ContextDone} \<and> wc_channel (bk_calls b' ! c') = None \<and>
      c' \<notin> fst ` set (bk_sends b') \<and> bk_current b' (se_actor k') = Some k'"
    proof
      assume "bk_waiters b k' = Some (a', c')"
      from waiters_okD [OF w this] show ?thesis by (simp add: b' nth_append)
    qed (use new cur in \<open>simp add: b'\<close>)
  qed
  moreover have "sends_ok b'" using s by (auto simp: sends_ok_def b' nth_append)
  moreover have reg: "registered b' c \<Longrightarrow> registered b c \<or> c = length (bk_calls b)" for c
    by (auto simp: registered_def b' split: if_splits)
  have "calls_ok es b'"
    unfolding calls_ok_def
  proof (intro conjI allI impI)
    fix c assume "length (bk_calls b') \<le> c"
    then show "notices es c = []" using cs by (simp add: calls_ok_def b')
  next
    fix c assume c: "c < length (bk_calls b')"
    show "call_ok es b' c"
    proof (cases "c = length (bk_calls b)")
      case True
      then show ?thesis using cs by (simp add: calls_ok_def call_ok_def b' carries_def)
    next
      case False
      then have "c < length (bk_calls b)" using c b' by simp
      then have "call_ok es b c" using cs by (simp add: calls_ok_def)
      then show ?thesis by (rule call_ok_mono) (use False reg \<open>c < length (bk_calls b)\<close> in \<open>auto simp: b' nth_append\<close>)
    qed
  qed
  ultimately show ?thesis by (simp add: broker_ok_def)
qed (simp add: ok)

lemma Notify_ok:
  assumes ok: "broker_ok es b" and n: "Notify k mode m b = ((a, True), b')" and c: "bk_waiters b k = Some (a, c)"
  shows "broker_ok (es @ [ENotify c (notice_of m)]) b'"
proof -
  have w: "waiters_ok b" and s: "sends_ok b" and cs: "calls_ok es b" using ok by (simp_all add: broker_ok_def)
  have wc: "c < length (bk_calls b)" "wc_pc (bk_calls b ! c) \<in> {Parked, ContextDone}" "wc_key (bk_calls b ! c) = k"
    "wc_channel (bk_calls b ! c) = None" "c \<notin> fst ` set (bk_sends b)"
    using w c by (auto simp: waiters_ok_def)
  have b': "b' = b\<lparr>bk_waiters := (bk_waiters b)(k := None),
      bk_calls := (bk_calls b)[c := (bk_calls b ! c)\<lparr>wc_channel := Some (Notice (notice_of m))\<rparr>]\<rparr>"
    using n c wc(4) by (auto simp: Notify_def offer_def split: option.splits if_splits)
  have other: "bk_waiters b k' = Some (a', c') \<Longrightarrow> k' \<noteq> k \<Longrightarrow> c' \<noteq> c" for k' a' c'
    using waiters_okD [OF w, of k'] wc(3) by auto
  have "waiters_ok b'"
    unfolding waiters_ok_def
  proof (intro allI impI)
    fix k' a' c' assume "bk_waiters b' k' = Some (a', c')"
    then have 1: "bk_waiters b k' = Some (a', c')" "k' \<noteq> k" by (simp_all add: b' split: if_splits)
    then have "c' \<noteq> c" by (rule other)
    then show "c' < length (bk_calls b') \<and> wc_key (bk_calls b' ! c') = k' \<and>
      wc_pc (bk_calls b' ! c') \<in> {Parked, ContextDone} \<and> wc_channel (bk_calls b' ! c') = None \<and>
      c' \<notin> fst ` set (bk_sends b') \<and> bk_current b' (se_actor k') = Some k'"
      using w 1(1) by (simp add: waiters_ok_def b')
  qed
  moreover have "sends_ok b'"
  proof -
    have ne: "(i, r) \<in> set (bk_sends b) \<Longrightarrow> c \<noteq> i" for i r using wc(5) by force
    show ?thesis using s by (auto simp: sends_ok_def b' ne)
  qed
  moreover have nr: "\<not> registered b' c" using other by (auto simp: registered_def b' split: if_splits)
  have reg: "registered b' i \<Longrightarrow> registered b i" for i by (auto simp: registered_def b' split: if_splits)
  have "registered b c" using c by (auto simp: registered_def)
  then have nc: "notices es c = []" using cs wc(1) by (auto simp: calls_ok_def call_ok_def)
  have "calls_ok (es @ [ENotify c (notice_of m)]) b'"
    unfolding calls_ok_def
  proof (intro conjI allI impI)
    fix i assume "length (bk_calls b') \<le> i"
    then show "notices (es @ [ENotify c (notice_of m)]) i = []" using cs wc(1) by (auto simp: calls_ok_def b')
  next
    fix i assume i: "i < length (bk_calls b')"
    show "call_ok (es @ [ENotify c (notice_of m)]) b' i"
    proof (cases "i = c")
      case True
      then show ?thesis using nc wc nr by (auto simp: call_ok_def b' holds_def)
    next
      case False
      then have i': "i < length (bk_calls b)" "bk_calls b' ! i = bk_calls b ! i" using i by (simp_all add: b')
      then have "call_ok es b i" using cs by (simp add: calls_ok_def)
      then have "call_ok es b' i" by (rule call_ok_mono) (use i'(2) reg in \<open>simp_all add: b'\<close>)
      then show ?thesis using False by (simp add: call_ok_def)
    qed
  qed
  ultimately show ?thesis by (simp add: broker_ok_def)
qed

lemma late_send_ok:
  assumes ok: "broker_ok es b" and ss: "bk_sends b = ss @ (c, r) # ts"
  shows "broker_ok es (b\<lparr>bk_sends := ss @ ts, bk_calls := offer c r (bk_calls b)\<rparr>)"
proof -
  let ?b = "b\<lparr>bk_sends := ss @ ts\<rparr>"
  have w: "waiters_ok b" and s: "sends_ok b" and cs: "calls_ok es b" using ok by (simp_all add: broker_ok_def)
  obtain e where c: "c < length (bk_calls b)" "wc_channel (bk_calls b ! c) = None" "r = Failed e" "c \<notin> fst ` set (ss @ ts)"
    using s by (auto simp: sends_ok_def ss)
  have nr: "\<not> registered b c"
  proof
    assume "registered b c"
    then obtain k a where "bk_waiters b k = Some (a, c)" by (auto simp: registered_def)
    from waiters_okD [OF w this] show False by (simp add: ss)
  qed
  have "\<not> (\<exists>n. notices es c = [n] \<and> holds (bk_calls b ! c) n \<and> \<not> registered b c \<and> c \<notin> fst ` set (bk_sends b))"
    by (simp add: ss)
  then have "\<forall>n. \<not> carries (bk_calls b ! c) n" using cs c(1) by (auto simp: calls_ok_def call_ok_def)
  then have nc: "\<not> holds (bk_calls b ! c) n" for n by (auto simp: carries_def holds_def)
  have sub: "fst ` set (ss @ ts) \<subseteq> fst ` set (bk_sends b)" by (auto simp: ss)
  have "waiters_ok ?b"
  proof (rule waiters_okI)
    fix k a i assume "bk_waiters ?b k = Some (a, i)"
    then have "bk_waiters b k = Some (a, i)" by simp
    from waiters_okD [OF w this] sub
    show "i < length (bk_calls ?b) \<and> wc_key (bk_calls ?b ! i) = k \<and> wc_pc (bk_calls ?b ! i) \<in> {Parked, ContextDone} \<and>
      wc_channel (bk_calls ?b ! i) = None \<and> i \<notin> fst ` set (bk_sends ?b) \<and> bk_current ?b (se_actor k) = Some k" by auto
  qed
  moreover have "sends_ok ?b" using s by (auto simp: sends_ok_def ss)
  moreover have "call_ok es b i \<Longrightarrow> call_ok es ?b i" for i
    by (erule call_ok_mono) (use sub in \<open>auto simp: registered_def\<close>)
  then have "calls_ok es ?b" using cs by (simp add: calls_ok_def)
  ultimately have "broker_ok es ?b" by (simp add: broker_ok_def)
  then have "broker_ok es (?b\<lparr>bk_calls := (bk_calls ?b)[c := (bk_calls b ! c)\<lparr>wc_channel := Some r\<rparr>]\<rparr>)"
  proof (rule worker_ok)
    show "\<not> registered ?b c \<or> wc_pc ((bk_calls b ! c)\<lparr>wc_channel := Some r\<rparr>) \<in> {Parked, ContextDone} \<and>
      wc_channel ((bk_calls b ! c)\<lparr>wc_channel := Some r\<rparr>) = None" using nr by (simp add: registered_def)
  qed (use c nc in \<open>auto simp: carries_def\<close>)
  then show ?thesis using c(2) by (simp add: offer_def)
qed

lemma worker_step_ok:
  assumes ok: "broker_ok es b" and "broker_step b e b'" and e: "e = EWorker c"
  shows "broker_ok es b'"
  using assms(2) unfolding e
proof (cases rule: broker_step.cases)
  case (late_send ss r ts)
  then show ?thesis using late_send_ok [OF ok] by simp
next
  case context_done
  have "broker_ok es (b\<lparr>bk_calls := (bk_calls b)[c := (bk_calls b ! c)\<lparr>wc_pc := ContextDone\<rparr>]\<rparr>)"
  proof (rule worker_ok [OF ok])
    have "wc_channel (bk_calls b ! c) = None" if "registered b c"
      using that ok waiters_okD by (auto simp: registered_def broker_ok_def)
    then show "\<not> registered b c \<or> wc_pc ((bk_calls b ! c)\<lparr>wc_pc := ContextDone\<rparr>) \<in> {Parked, ContextDone} \<and>
      wc_channel ((bk_calls b ! c)\<lparr>wc_pc := ContextDone\<rparr>) = None" by auto
    show "wc_channel ((bk_calls b ! c)\<lparr>wc_pc := ContextDone\<rparr>) = None" if "c \<in> fst ` set (bk_sends b)"
      using that ok by (auto simp: broker_ok_def sends_ok_def)
  qed (use context_done in \<open>auto simp: carries_def holds_def\<close>)
  then show ?thesis using context_done by (simp add: set_pc_def)
next
  case give_up
  note r = remove_waiter_ok [OF ok, of c]
  have "broker_ok es ((remove_waiter c b)\<lparr>bk_calls := (bk_calls (remove_waiter c b))[c := (bk_calls b ! c)\<lparr>wc_pc := Removed\<rparr>]\<rparr>)"
  proof (rule worker_ok [OF r(1)])
    show "wc_channel ((bk_calls b ! c)\<lparr>wc_pc := Removed\<rparr>) = None" if "c \<in> fst ` set (bk_sends (remove_waiter c b))"
      using that ok r(3) by (auto simp: broker_ok_def sends_ok_def)
  qed (use give_up r in \<open>auto simp: carries_def holds_def\<close>)
  then show ?thesis using give_up r(2) by (simp add: set_pc_def)
next
  case last_look
  have "broker_ok es (b\<lparr>bk_calls := (bk_calls b)[c := (bk_calls b ! c)\<lparr>wc_pc := Returned (wc_channel (bk_calls b ! c)), wc_channel := None\<rparr>]\<rparr>)"
  proof (rule worker_ok [OF ok])
    show "\<not> registered b c \<or> wc_pc ((bk_calls b ! c)\<lparr>wc_pc := Returned (wc_channel (bk_calls b ! c)), wc_channel := None\<rparr>) \<in> {Parked, ContextDone} \<and>
      wc_channel ((bk_calls b ! c)\<lparr>wc_pc := Returned (wc_channel (bk_calls b ! c)), wc_channel := None\<rparr>) = None"
      using last_look ok waiters_okD by (fastforce simp: registered_def broker_ok_def)
  qed (use last_look in \<open>auto simp: carries_def holds_def\<close>)
  then show ?thesis using last_look by (simp add: drain_def)
next
  case (receive r)
  have "broker_ok es (b\<lparr>bk_calls := (bk_calls b)[c := (bk_calls b ! c)\<lparr>wc_pc := Received r, wc_channel := None\<rparr>]\<rparr>)"
  proof (rule worker_ok [OF ok])
    show "\<not> registered b c \<or> wc_pc ((bk_calls b ! c)\<lparr>wc_pc := Received r, wc_channel := None\<rparr>) \<in> {Parked, ContextDone} \<and>
      wc_channel ((bk_calls b ! c)\<lparr>wc_pc := Received r, wc_channel := None\<rparr>) = None"
      using receive ok waiters_okD by (fastforce simp: registered_def broker_ok_def)
  qed (use receive in \<open>auto simp: carries_def holds_def\<close>)
  then show ?thesis using receive by (simp add: drain_def)
next
  case (deliver r)
  note k = remove_waiter_ok [OF ok, of c]
  have "broker_ok es ((remove_waiter c b)\<lparr>bk_calls := (bk_calls (remove_waiter c b))[c := (bk_calls b ! c)\<lparr>wc_pc := Returned (Some r)\<rparr>]\<rparr>)"
  proof (rule worker_ok [OF k(1)])
    show "wc_channel ((bk_calls b ! c)\<lparr>wc_pc := Returned (Some r)\<rparr>) = None" if "c \<in> fst ` set (bk_sends (remove_waiter c b))"
      using that ok k(3) by (auto simp: broker_ok_def sends_ok_def)
  qed (use deliver k in \<open>auto simp: carries_def holds_def\<close>)
  then show ?thesis using deliver k(2) by (simp add: set_pc_def)
qed

lemma broker_step_ok:
  assumes ok: "broker_ok es b" and st: "broker_step b e b'"
  shows "broker_ok (es @ [e]) b'"
  using st
proof (cases rule: broker_step.cases)
  case attach then show ?thesis using Attach_ok [OF ok] broker_ok_quiet by simp
next
  case wait_call then show ?thesis using Wait_begin_ok [OF ok] broker_ok_quiet by simp
next
  case notified then show ?thesis using Notify_ok [OF ok] by simp
next
  case cancelled then show ?thesis using Cancel_ok [OF ok] broker_ok_quiet by simp
qed (use worker_step_ok [OF ok st] in \<open>simp_all add: broker_ok_quiet\<close>)

lemma broker_run_ok: "broker_run es b \<Longrightarrow> broker_ok es b"
proof (induction rule: broker_run.induct)
  case start
  then show ?case by (simp add: broker_ok_def NewBroker_def waiters_ok_def sends_ok_def calls_ok_def)
next
  case (turn es b e b')
  then show ?case by (simp add: broker_step_ok)
qed

end
