(* ===== verification/BrokerProps.thy ===== *)
theory BrokerProps
  imports Broker
begin

text \<open>
  What the dispatcher relies on: a notification the broker accepted reaches the monitor that was
  parked, whatever the interleaving, and a parked monitor is always ready to accept.
\<close>

lemma offered_worker_step:
  assumes "c < length (bk_calls b)" and "wc_channel (bk_calls b ! c) = Some r" and "wc_pc (bk_calls b ! c) \<in> {Parked, ContextDone, Removed}"
  shows "\<exists>b'. broker_step b (EWorker c) b'"
  using assms by (auto intro: broker_step.receive broker_step.give_up broker_step.last_look)

text \<open>
  \<^bold>\<open>C33\<close> An accepted notification is not lost and not doubled: the call of \<open>Wait\<close> that was parked
  is given that one notice, it can always take its next step until it has returned, and it returns
  the notice, also when its context ended before it looked.
\<close>

theorem accepted_notice_delivered:
  assumes "broker_run es b" and "ENotify c n \<in> set es"
  shows "notices es c = [n] \<and> c < length (bk_calls b) \<and>
    (wc_pc (bk_calls b ! c) = Returned (Some (Notice n)) \<or> (\<exists>b'. broker_step b (EWorker c) b')) \<and>
    (wc_pc (bk_calls b ! c) = Returned r \<longrightarrow> r = Some (Notice n))"
proof -
  have ok: "calls_ok es b" using broker_run_ok [OF assms(1)] by (simp add: broker_ok_def)
  have "n \<in> set (notices es c)" using assms(2) by (force simp: notices_def)
  then have "notices es c \<noteq> []" by auto
  then have c: "c < length (bk_calls b)" using ok by (meson calls_ok_def not_less)
  then have "call_ok es b c" using ok by (simp add: calls_ok_def)
  then have n: "notices es c = [n]" and h: "holds (bk_calls b ! c) n"
    using \<open>n \<in> set (notices es c)\<close> by (auto simp: call_ok_def)
  then have "wc_pc (bk_calls b ! c) = Returned (Some (Notice n)) \<or> (\<exists>b'. broker_step b (EWorker c) b')"
    using c offered_worker_step [OF c] by (auto simp: holds_def intro: broker_step.deliver)
  moreover have "wc_pc (bk_calls b ! c) = Returned r \<longrightarrow> r = Some (Notice n)" using h by (auto simp: holds_def)
  ultimately show ?thesis using n c by simp
qed

text \<open>
  No phantom notices: a call of \<open>Wait\<close> returns a notice only if \<open>Notify\<close> accepted exactly
  that notice for it.
\<close>

theorem returned_notice_accepted:
  assumes "broker_run es b" and "c < length (bk_calls b)" and "wc_pc (bk_calls b ! c) = Returned (Some (Notice n))"
  shows "ENotify c n \<in> set es \<and> notices es c = [n]"
proof -
  have "call_ok es b c" using broker_run_ok [OF assms(1)] assms(2) by (simp add: broker_ok_def calls_ok_def)
  then have n: "notices es c = [n]" using assms(3) by (auto simp: call_ok_def carries_def holds_def)
  then have "n \<in> set (notices es c)" by simp
  then have "ENotify c n \<in> set es" by (auto simp: notices_def split: broker_event.splits if_splits)
  then show ?thesis using n by simp
qed

text \<open>
  One monitor per actor, and it is ready: a registered waiter belongs to its actor's
  current session, no second session of the actor is waiting, and a notification for its adapter
  is accepted (the refusal for a full channel never happens).
\<close>

theorem waiter_ready:
  assumes "broker_run es b" and "bk_waiters b k = Some (a, c)"
  shows "Attached k b \<and> (bk_waiters b k' \<noteq> None \<and> se_actor k' = se_actor k \<longrightarrow> k' = k) \<and>
    fst (Notify k a m b) = (a, True) \<and> bk_waiters (snd (Notify k a m b)) k = None"
proof -
  have ok: "broker_ok es b" by (rule broker_run_ok [OF assms(1)])
  have w: "waiters_ok b" using ok by (simp add: broker_ok_def)
  have c: "bk_current b (se_actor k) = Some k" using waiter_current [OF ok] assms(2) by simp
  have uniq: "bk_waiters b k' \<noteq> None \<and> se_actor k' = se_actor k \<longrightarrow> k' = k"
  proof (intro impI, elim conjE)
    assume "bk_waiters b k' \<noteq> None" and a: "se_actor k' = se_actor k"
    then have "bk_current b (se_actor k') = Some k'" using waiter_current [OF ok, of k'] by simp
    then show "k' = k" using c unfolding a by simp
  qed
  have "wc_channel (bk_calls b ! c) = None" using waiters_okD [OF w assms(2)] by simp
  then have "fst (Notify k a m b) = (a, True)" "bk_waiters (snd (Notify k a m b)) k = None"
    using c assms(2) by (simp_all add: Notify_def)
  then show ?thesis using uniq c by (simp only: Attached_def simp_thms)
qed

section \<open>The properties in a concrete run\<close>

text \<open>The notification arrives between the end of the context and the removal of the waiter.\<close>

definition sample_session :: session_id where
  "sample_session = \<lparr>se_actor = ''alice'', se_run = ''r1'', se_session = ''s1''\<rparr>"

definition sample_notice :: attention_notice where
  "sample_notice = \<lparr>no_message_id = ''m1'', no_thread_id = [], no_from_actor = ''bob'', no_type = ''note'', no_delivery_request = Wake\<rparr>"

definition sample_wait_message :: message where
  "sample_wait_message = \<lparr>msg_id = ''m1'', msg_schema_version = 1, msg_idempotency_key = ''k'', msg_project_id = ''p'',
     msg_channel_id = ''c'', msg_thread_id = [], msg_from_actor = ''bob'', msg_from_run = ''r'', msg_from_role = [],
     msg_to_actors = [''alice''], msg_requested_routes = [], msg_type = ''note'', msg_delivery_request = Wake,
     msg_in_reply_to = [], msg_body = ''{}'', msg_created_at = 1, msg_expires_at = None, msg_requested_to_actors = []\<rparr>"

definition waiting_broker :: broker where
  "waiting_broker = snd (Wait_begin sample_session ''hook'' (snd (Attach sample_session None NewBroker)))"

definition late_broker :: broker where
  "late_broker = drain 0 (Returned (Some (Notice sample_notice)))
     (set_pc 0 Removed (remove_waiter 0 (snd (Notify sample_session ''hook'' sample_wait_message (set_pc 0 ContextDone waiting_broker)))))"

lemmas sample_broker_defs = waiting_broker_def late_broker_def Wait_begin_def Attach_def NewBroker_def Notify_def set_pc_def
  drain_def remove_waiter_def offer_def Let_def sample_session_def notice_of_def sample_wait_message_def sample_notice_def

lemma waiting_run: "broker_run ([] @ [EAttach sample_session] @ [EWait sample_session]) waiting_broker"
proof -
  have 1: "broker_step NewBroker (EAttach sample_session) (snd (Attach sample_session None NewBroker))"
    by (rule broker_step.attach [of _ None _ None]) (simp add: sample_broker_defs)
  have 2: "broker_step (snd (Attach sample_session None NewBroker)) (EWait sample_session) waiting_broker"
    by (rule broker_step.wait_call [of _ "''hook''" _ None]) (simp add: sample_broker_defs)
  show ?thesis using broker_run.turn [OF broker_run.turn [OF broker_run.start 1] 2] by simp
qed

lemma late_run:
  "broker_run (([] @ [EAttach sample_session] @ [EWait sample_session]) @
     [EWorker 0, ENotify 0 sample_notice, EWorker 0, EWorker 0]) late_broker"
proof -
  let ?b1 = "set_pc 0 ContextDone waiting_broker"
  let ?b2 = "snd (Notify sample_session ''hook'' sample_wait_message ?b1)"
  let ?b3 = "set_pc 0 Removed (remove_waiter 0 ?b2)"
  have n: "notice_of sample_wait_message = sample_notice"
    by (simp add: sample_broker_defs)
  have 1: "broker_step waiting_broker (EWorker 0) ?b1"
    by (rule broker_step.context_done) (simp_all add: sample_broker_defs)
  have 2: "broker_step ?b1 (ENotify 0 (notice_of sample_wait_message)) ?b2"
    by (rule broker_step.notified [of sample_session "''hook''" _ _ "''hook''"]) (simp_all add: sample_broker_defs)
  have 3: "broker_step ?b2 (EWorker 0) ?b3"
    by (rule broker_step.give_up) (simp_all add: sample_broker_defs)
  have "wc_channel (bk_calls ?b3 ! 0) = Some (Notice sample_notice)" "0 < length (bk_calls ?b3)" "wc_pc (bk_calls ?b3 ! 0) = Removed"
    by (simp_all add: sample_broker_defs)
  then have 4: "broker_step ?b3 (EWorker 0) late_broker"
    using broker_step.last_look [of 0 ?b3] by (simp add: late_broker_def)
  show ?thesis
    using broker_run.turn [OF broker_run.turn [OF broker_run.turn [OF broker_run.turn [OF waiting_run 1] 2] 3] 4]
    by (simp add: n)
qed

lemma accepted_notice_delivered_witness:
  "wc_pc (bk_calls late_broker ! 0) = Returned (Some (Notice sample_notice)) \<and>
   notices (([] @ [EAttach sample_session] @ [EWait sample_session]) @
     [EWorker 0, ENotify 0 sample_notice, EWorker 0, EWorker 0]) 0 = [sample_notice]"
  using accepted_notice_delivered [OF late_run, of 0 sample_notice] by (simp add: sample_broker_defs)

lemma returned_notice_accepted_witness:
  "notices (([] @ [EAttach sample_session] @ [EWait sample_session]) @
     [EWorker 0, ENotify 0 sample_notice, EWorker 0, EWorker 0]) 0 = [sample_notice]"
  using returned_notice_accepted [OF late_run, of 0 sample_notice] by (simp add: sample_broker_defs)

lemma waiter_ready_witness:
  "Attached sample_session waiting_broker \<and> fst (Notify sample_session ''hook'' sample_wait_message waiting_broker) = (''hook'', True)"
proof -
  have "bk_waiters waiting_broker sample_session = Some (''hook'', 0)" by (simp add: sample_broker_defs)
  from waiter_ready [OF waiting_run this, of sample_session sample_wait_message] show ?thesis by simp
qed

end
