(* ===== verification/GoUtf8.thy ===== *)
theory GoUtf8
  imports GoText
begin

text \<open>
  UTF-8 as Go's \<open>unicode/utf8\<close> reads it, on byte strings, with \<open>strings.ToValidUTF8\<close> and the
  substring test of \<open>strings.Contains\<close>. A byte that belongs to no well-formed encoding is
  read as one invalid rune of width 1.
\<close>

section \<open>Runes\<close>

text \<open>
  The length of the well-formed UTF-8 encoding a string starts with, and 0 when it starts
  with a byte that belongs to none.
\<close>

definition byte_in :: "nat \<Rightarrow> nat \<Rightarrow> char \<Rightarrow> bool" where
  "byte_in lo hi c \<longleftrightarrow> lo \<le> of_char c \<and> of_char c \<le> hi"

abbreviation continuation :: "char \<Rightarrow> bool" where
  "continuation \<equiv> byte_in 0x80 0xBF"

definition second_byte :: "char \<Rightarrow> char \<Rightarrow> bool" where
  "second_byte c d \<longleftrightarrow>
    (if c = CHR 0xE0 then byte_in 0xA0 0xBF d else if c = CHR 0xED then byte_in 0x80 0x9F d
     else if c = CHR 0xF0 then byte_in 0x90 0xBF d else if c = CHR 0xF4 then byte_in 0x80 0x8F d
     else continuation d)"

fun rune_length :: "string \<Rightarrow> nat" where
  "rune_length [] = 0"
| "rune_length (c # s) =
    (if byte_in 0 0x7F c then 1
     else if byte_in 0xC2 0xDF c then (case s of d # _ \<Rightarrow> if continuation d then 2 else 0 | _ \<Rightarrow> 0)
     else if byte_in 0xE0 0xEF c then
       (case s of d # e # _ \<Rightarrow> if second_byte c d \<and> continuation e then 3 else 0 | _ \<Rightarrow> 0)
     else if byte_in 0xF0 0xF4 c then
       (case s of d # e # f # _ \<Rightarrow> if second_byte c d \<and> continuation e \<and> continuation f then 4 else 0 | _ \<Rightarrow> 0)
     else 0)"

text \<open>The runes of a string, \<open>None\<close> for each byte that belongs to none.\<close>

function runes :: "string \<Rightarrow> string option list" where
  "runes s = (if s = [] then []
     else if rune_length s = 0 then None # runes (tl s)
     else Some (take (rune_length s) s) # runes (drop (rune_length s) s))"
  by pat_completeness auto
termination
  by (relation "measure length") auto

declare runes.simps [simp del]

text \<open>\<open>strings.ToValidUTF8\<close>: one replacement for each run of bytes that belong to no rune.\<close>

fun replace_invalid :: "string \<Rightarrow> bool \<Rightarrow> string option list \<Rightarrow> string list" where
  "replace_invalid rep skipping [] = []"
| "replace_invalid rep skipping (None # rs) = (if skipping then [] else [rep]) @ replace_invalid rep True rs"
| "replace_invalid rep skipping (Some r # rs) = r # replace_invalid rep False rs"

definition to_valid_utf8 :: "string \<Rightarrow> string \<Rightarrow> string" where
  "to_valid_utf8 rep s = concat (replace_invalid rep False (runes s))"

definition rune :: "string \<Rightarrow> bool" where
  "rune r \<longleftrightarrow> r \<noteq> [] \<and> rune_length r = length r"

lemma rune_length_le: "rune_length s \<le> length s"
  by (cases s rule: rune_length.cases) (auto split: list.splits)

lemma rune_length_local:
  assumes "rune_length s \<noteq> 0"
  shows "rune_length (take (rune_length s) s @ t) = rune_length s"
  using assms by (cases s rule: rune_length.cases) (auto split: list.splits if_splits)

lemma rune_length_take:
  assumes "rune_length s \<noteq> 0"
  shows "rune (take (rune_length s) s)"
  using rune_length_local [OF assms, of "[]"] rune_length_le [of s] assms by (auto simp: rune_def)

lemma rune_length_append:
  assumes "rune r"
  shows "rune_length (r @ s) = length r"
  using rune_length_local [of r s] assms by (simp add: rune_def)

lemma runes_rune_append: "rune r \<Longrightarrow> runes (r @ s) = Some r # runes s"
  by (subst runes.simps) (simp add: rune_length_append, auto simp: rune_def)

lemma runes_concat: "\<forall>r\<in>set rs. rune r \<Longrightarrow> runes (concat rs) = map Some rs"
proof (induction rs)
  case Nil
  show ?case by (simp add: runes.simps)
qed (simp add: runes_rune_append)

lemma runes_are_runes: "Some r \<in> set (runes s) \<Longrightarrow> rune r"
proof (induction s rule: runes.induct)
  case (1 s)
  show ?case
  proof (cases "s = [] \<or> rune_length s = 0")
    case True
    then show ?thesis using 1 by (auto simp: runes.simps [of s] split: if_splits)
  next
    case False
    then have "Some r = Some (take (rune_length s) s) \<or> Some r \<in> set (runes (drop (rune_length s) s))"
      using 1(3) by (simp add: runes.simps [of s])
    then show ?thesis using 1(2) False rune_length_take by blast
  qed
qed

lemma replace_invalid_runes:
  assumes "rune rep" and "\<forall>r. Some r \<in> set rs \<longrightarrow> rune r"
  shows "\<forall>r\<in>set (replace_invalid rep b rs). rune r"
  using assms by (induction rep b rs rule: replace_invalid.induct) auto

lemma replace_invalid_valid: "None \<notin> set rs \<Longrightarrow> replace_invalid rep b rs = map the rs"
  by (induction rep b rs rule: replace_invalid.induct) auto

lemma runes_to_valid:
  assumes "rune rep"
  shows "runes (to_valid_utf8 rep s) = map Some (replace_invalid rep False (runes s))"
  unfolding to_valid_utf8_def
  using replace_invalid_runes [OF assms, of "runes s" False] runes_are_runes by (simp add: runes_concat)

lemma concat_runes: "None \<notin> set (runes s) \<Longrightarrow> concat (map the (runes s)) = s"
proof (induction s rule: runes.induct)
  case (1 s)
  show ?case
  proof (cases "s = [] \<or> rune_length s = 0")
    case True
    then show ?thesis using 1(3) by (auto simp: runes.simps [of s])
  next
    case False
    then have e: "runes s = Some (take (rune_length s) s) # runes (drop (rune_length s) s)"
      by (simp add: runes.simps [of s])
    then have "concat (map the (runes (drop (rune_length s) s))) = drop (rune_length s) s"
      using 1(2,3) False by simp
    then show ?thesis by (simp add: e)
  qed
qed

lemma to_valid_id: "None \<notin> set (runes s) \<Longrightarrow> to_valid_utf8 rep s = s"
  by (simp add: to_valid_utf8_def replace_invalid_valid concat_runes)

section \<open>Substrings\<close>

text \<open>
  \<open>strings.Contains(strings.ToLower(s), w)\<close> for an ASCII word: besides the ASCII capitals,
  the two runes U+0130 and U+212A have ASCII lower case letters.
\<close>

fun lower_ascii :: "string \<Rightarrow> string" where
  "lower_ascii [] = []"
| "lower_ascii (c # s) =
    (if c = CHR 0xC4 \<and> prefix [CHR 0xB0] s then CHR ''i'' # lower_ascii (drop 1 s)
     else if c = CHR 0xE2 \<and> prefix [CHR 0x84, CHR 0xAA] s then CHR ''k'' # lower_ascii (drop 2 s)
     else ascii_lower c # lower_ascii s)"

fun contains :: "string \<Rightarrow> string \<Rightarrow> bool" where
  "contains w [] = (w = [])"
| "contains w (c # s) = (prefix w (c # s) \<or> contains w s)"

lemma contains_iff: "contains w s \<longleftrightarrow> (\<exists>u v. s = u @ w @ v)"
proof (induction w s rule: contains.induct)
  case (2 w c s)
  have "(\<exists>u v. c # s = u @ w @ v) \<longleftrightarrow> prefix w (c # s) \<or> (\<exists>u v. s = u @ w @ v)"
    by (metis append_Cons append_Nil neq_Nil_conv list.inject prefix_def)
  then show ?case using 2 by simp
qed auto

end
