(* ===== verification/Lifecycle.thy ===== *)
theory Lifecycle
  imports Aliases Delivery Conditions GoUtf8
begin

text \<open>
  \<open>lifecycle.go\<close>: archiving an actor. \<open>ArchivePreflight\<close> reports what keeps an actor from being
  archived, \<open>ArchiveActor\<close> checks it again inside its transaction and archives,
  \<open>RestoreActor\<close> undoes it, and \<open>ArchiveEligibleActors\<close> is the sweep over inactive actors.
  (\<open>RevokeDeliveryLease\<close> is in \<open>Delivery\<close>.)
\<close>

section \<open>Previews of message bodies\<close>

definition boundedArchivePreview :: "string \<Rightarrow> string" where
  "boundedArchivePreview body =
    (let text = to_valid_utf8 [CHR 0xEF, CHR 0xBF, CHR 0xBD] body; rs = runes text in
     if length rs \<le> 256 then text
     else concat (map (case_option [] id) (take 256 rs)) @ [CHR 0xE2, CHR 0x80, CHR 0xA6])"

section \<open>Preflight\<close>

record archive_message =
  am_message_id :: string
  am_from_actor :: string
  am_created_at :: int
  am_thread_id :: string
  am_type :: string
  am_body_preview :: string
  am_preview_untrusted :: bool

record archive_preflight =
  ap_actor :: string
  ap_archived :: bool
  ap_aliases :: "string list"
  ap_unread :: "archive_message list"
  ap_unread_truncated :: bool
  ap_active_claims :: nat
  ap_control_presence :: nat
  ap_continuity_bindings :: nat
  ap_automatic_eligible :: bool
  ap_operator_eligible :: bool
  ap_blockers :: "string list"

record archive_result =
  ar_actor :: string
  ar_archived :: bool
  ar_with_unread :: bool
  ar_changed_at :: int

definition channel_member :: "db \<Rightarrow> string \<Rightarrow> bool" where
  "channel_member db actor = list_ex (\<lambda>g. cg_actor g = actor \<and> cg_revoked_seq g = None) (grants db)"

text \<open>\<open>COALESCE(a.adopting_actor, d.recipient_actor)\<close>.\<close>

definition delivery_owner :: "db \<Rightarrow> delivery_row \<Rightarrow> string" where
  "delivery_owner db d = (case adopter db (dl_recipient d) of Some a \<Rightarrow> a | None \<Rightarrow> dl_recipient d)"

definition actor_mail :: "db \<Rightarrow> string \<Rightarrow> (delivery_row \<Rightarrow> bool) \<Rightarrow> int \<Rightarrow> (message_row \<times> delivery_row) list" where
  "actor_mail db actor p now =
    filter (\<lambda>(m, d). mr_id m = dl_message_id d \<and> delivery_owner db d = actor \<and> p d \<and> unexpired now m)
      (List.product (legacy_messages db) (deliveries db))"

abbreviation leased :: "int \<Rightarrow> delivery_row \<Rightarrow> bool" where
  "leased now d \<equiv> dl_state d = Claimed \<and> sql_gt (dl_lease_expires d) now"

text \<open>\<open>ROW_NUMBER() OVER (PARTITION BY m.message_id ORDER BY d.recipient_actor) = 1\<close>.\<close>

definition first_per_message :: "(message_row \<times> delivery_row) list \<Rightarrow> (message_row \<times> delivery_row) list" where
  "first_per_message rows =
    filter (\<lambda>(m, d). list_all (\<lambda>(m', d'). mr_id m' = mr_id m \<longrightarrow> dl_recipient d \<le> dl_recipient d') rows) rows"

definition archive_message_of :: "message_row \<Rightarrow> archive_message" where
  "archive_message_of m = \<lparr>am_message_id = mr_id m, am_from_actor = mr_from_actor m, am_created_at = mr_created_at m,
     am_thread_id = coalesce (mr_thread_id m), am_type = mr_type m,
     am_body_preview = boundedArchivePreview (mr_body m), am_preview_untrusted = True\<rparr>"

definition control_presence :: "db \<Rightarrow> string \<Rightarrow> int \<Rightarrow> nat" where
  "control_presence db actor now = affected (\<lambda>r. rg_actor r = actor \<and> live_registration now r) (registrations db)"

definition ArchivePreflight :: "env \<Rightarrow> string \<Rightarrow> int \<Rightarrow> db \<Rightarrow> error + archive_preflight" where
  "ArchivePreflight env actor0 limit0 db =
    (let actor = trim actor0; limit = (if limit0 \<le> 0 \<or> limit0 > 100 then 25 else nat limit0); now = e_now env in
     bindE (requireE (actor \<noteq> []) (ValidationError ''actor'' ''is required'')) (\<lambda>_.
     bindE (requireE (actor \<in> an_actor ` set (actor_names db)) ErrNotFound) (\<lambda>_.
     bindE (requireE (\<not> channel_member db actor \<and> \<not> is_human_actor actor) ErrChannelCapability) (\<lambda>_.
     let names = sort (map al_alias (filter (\<lambda>r. al_actor r = actor) (aliases db)));
         live = control_presence db actor now;
         bindings = affected (\<lambda>c. cb_actor c = actor) (continuity db);
         claims = length (actor_mail db actor (leased now) now);
         mail = take (limit + 1) (sort_key age_key (first_per_message (actor_mail db actor (claimable now) now)));
         unread = map (\<lambda>(m, d). archive_message_of m) (take limit mail);
         operator = (names = [] \<and> live = 0 \<and> claims = 0) in
     Inr \<lparr>ap_actor = actor, ap_archived = actorArchived db actor, ap_aliases = names, ap_unread = unread,
       ap_unread_truncated = (limit < length mail), ap_active_claims = claims, ap_control_presence = live,
       ap_continuity_bindings = bindings,
       ap_automatic_eligible = (operator \<and> unread = [] \<and> \<not> limit < length mail \<and> bindings = 0),
       ap_operator_eligible = operator,
       ap_blockers = (if names \<noteq> [] then [''aliases_point_to_actor''] else []) @
         (if live > 0 then [''control_presence_live''] else []) @ (if claims > 0 then [''active_claims''] else [])\<rparr>))))"

section \<open>Archiving and restoring\<close>

definition upsert_lifecycle :: "lifecycle_row \<Rightarrow> lifecycle_row list \<Rightarrow> lifecycle_row list" where
  "upsert_lifecycle l rows =
    (if row_by lc_actor (lc_actor l) rows = None then rows @ [l]
     else update_where (\<lambda>r. lc_actor r = lc_actor l) (\<lambda>_. l) rows)"

text \<open>The transaction; the blockers are checked again, on the actor's name as it was given.\<close>

definition archive_tx :: "env \<Rightarrow> string \<Rightarrow> string \<Rightarrow> bool \<Rightarrow> db \<Rightarrow> error + (bool \<times> db)" where
  "archive_tx env actor changedBy allowUnread db =
    (let now = e_now env in
     bindE (requireE (\<not> channel_member db actor \<and> \<not> is_human_actor actor) ErrChannelCapability) (\<lambda>_.
     let names = affected (\<lambda>r. al_actor r = actor) (aliases db);
         live = control_presence db actor now;
         claims = affected (\<lambda>d. delivery_owner db d = actor \<and> leased now d) (deliveries db);
         unread = length (actor_mail db actor (claimable now) now) in
     bindE (requireE (names = 0 \<and> live = 0 \<and> claims = 0)
       (ValidationError ''actor'' ''archive eligibility changed; run preflight again'')) (\<lambda>_.
     bindE (requireE (unread = 0 \<or> allowUnread)
       (ValidationError ''allow_unread'' ''archive eligibility changed; review unread messages again'')) (\<lambda>_.
     Inr (0 < unread, db\<lparr>continuity := filter (\<lambda>c. cb_actor c \<noteq> actor) (continuity db),
       harness_bindings := filter (\<lambda>h. hb_actor h \<noteq> actor) (harness_bindings db),
       lifecycle := upsert_lifecycle \<lparr>lc_actor = actor, lc_archived = True, lc_with_unread = (0 < unread),
         lc_changed_by = changedBy, lc_changed_at = now\<rparr> (lifecycle db)\<rparr>)))))"

definition unread_observation :: "string \<Rightarrow> condition_observation" where
  "unread_observation actor = \<lparr>co_kind = ''stale_unread'', co_subject = actor, co_reason_code = ''archived_with_unread'',
     co_summary = ''Archived actor retains unread messages by explicit operator choice'', co_details = []\<rparr>"

text \<open>The operator's choice to archive unread mail, recorded as an acknowledged condition; its errors are dropped.\<close>

definition note_unread :: "env \<Rightarrow> string \<Rightarrow> db \<Rightarrow> db" where
  "note_unread env actor db = (case ObserveCondition env (unread_observation actor) db of
     Inl _ \<Rightarrow> db
   | Inr (c, db1) \<Rightarrow> (case AcknowledgeCondition env (oc_kind c) (oc_subject c) (oc_generation c) db1 of
       Inl _ \<Rightarrow> db1 | Inr (_, db2) \<Rightarrow> db2))"

text \<open>
  The preflight reads the state before the transaction, so other operations may come between:
  it has a clock reading and a state of its own.
\<close>

definition ArchiveActor ::
  "env \<Rightarrow> db \<Rightarrow> env \<Rightarrow> string \<Rightarrow> string \<Rightarrow> bool \<Rightarrow> db \<Rightarrow> error + (archive_result \<times> db)" where
  "ArchiveActor env0 db0 env actor changedBy allowUnread db =
    bindE (ArchivePreflight env0 actor 100 db0) (\<lambda>p.
    bindE (requireE (ap_operator_eligible p) (ValidationError ''actor''
      ''cannot archive while aliases, live control presence, or active claims remain'')) (\<lambda>_.
    bindE (requireE (ap_unread p = [] \<and> \<not> ap_unread_truncated p \<or> allowUnread) (ValidationError ''allow_unread''
      ''must be explicitly true after reviewing unread message previews'')) (\<lambda>_.
    bindE (archive_tx env actor changedBy allowUnread db) (\<lambda>(withUnread, db1).
    Inr (\<lparr>ar_actor = actor, ar_archived = True, ar_with_unread = withUnread, ar_changed_at = e_now env\<rparr>,
      if withUnread then note_unread env actor db1 else db1)))))"

definition RestoreActor :: "env \<Rightarrow> string \<Rightarrow> string \<Rightarrow> db \<Rightarrow> error + (archive_result \<times> db)" where
  "RestoreActor env actor changedBy db =
    (let p = (\<lambda>l. lc_actor l = actor \<and> lc_archived l) in
     bindE (requireE (affected p (lifecycle db) \<noteq> 0) ErrNotFound) (\<lambda>_.
     Inr (\<lparr>ar_actor = actor, ar_archived = False, ar_with_unread = False, ar_changed_at = e_now env\<rparr>,
       db\<lparr>lifecycle := update_where p (\<lambda>l. l\<lparr>lc_archived := False, lc_with_unread := False,
         lc_changed_by := changedBy, lc_changed_at := e_now env\<rparr>) (lifecycle db)\<rparr>)))"

section \<open>The sweep over inactive actors\<close>

definition inactive_since :: "db \<Rightarrow> int \<Rightarrow> string \<Rightarrow> bool" where
  "inactive_since db cutoff a \<longleftrightarrow>
    \<not> list_ex (\<lambda>e. ev_actor_id e = Some a \<and> cutoff < ev_created_at e) (events db) \<and>
    \<not> list_ex (\<lambda>m. mr_from_actor m = a \<and> cutoff < mr_created_at m) (legacy_messages db) \<and>
    \<not> list_ex (\<lambda>r. rg_actor r = a \<and> cutoff < rg_updated_at r) (registrations db) \<and>
    \<not> list_ex (\<lambda>p. pf_actor p = a \<and> cutoff < pf_updated_at p) (profiles db)"

definition has_open_mail :: "db \<Rightarrow> int \<Rightarrow> string \<Rightarrow> bool" where
  "has_open_mail db now a = list_ex (\<lambda>(m, d). mr_id m = dl_message_id d \<and> dl_recipient d = a \<and> claimable now d \<and> unexpired now m)
     (List.product (legacy_messages db) (deliveries db))"

text \<open>SQL's LIKE does not distinguish the case of ASCII letters.\<close>

definition sweepable :: "db \<Rightarrow> int \<Rightarrow> int \<Rightarrow> name_row \<Rightarrow> bool" where
  "sweepable db now inactiveFor n \<longleftrightarrow>
    (let a = an_actor n; cutoff = now - inactiveFor in
     a \<noteq> ''operator'' \<and> \<not> actorArchived db a \<and> \<not> prefix ''human:'' (map ascii_lower a) \<and> \<not> channel_member db a \<and>
     an_first_seen n \<le> cutoff \<and> inactive_since db cutoff a \<and>
     \<not> list_ex (\<lambda>r. al_actor r = a) (aliases db) \<and> \<not> list_ex (\<lambda>c. cb_actor c = a) (continuity db) \<and>
     \<not> list_ex (\<lambda>r. ad_adopting r = a) (adoptions db) \<and> control_presence db a now = 0 \<and> \<not> has_open_mail db now a)"

text \<open>The actors are archived one transaction at a time, and the first error ends the sweep.\<close>

fun archive_each :: "env \<Rightarrow> string list \<Rightarrow> db \<Rightarrow> (error + unit) \<times> db" where
  "archive_each env [] db = (Inr (), db)"
| "archive_each env (a # as) db = (case ArchiveActor env db env a ''operator:auto-archive'' False db of
     Inl e \<Rightarrow> (Inl e, db) | Inr (_, db1) \<Rightarrow> archive_each env as db1)"

definition ArchiveEligibleActors :: "env \<Rightarrow> int \<Rightarrow> db \<Rightarrow> (error + string list) \<times> db" where
  "ArchiveEligibleActors env inactiveFor db =
    (if inactiveFor \<le> 0 then (Inl (ValidationError ''archive_after'' ''must be positive''), db)
     else let actors = sort (map an_actor (filter (sweepable db (e_now env) inactiveFor) (actor_names db))) in
       (case archive_each env actors db of (Inl e, db1) \<Rightarrow> (Inl e, db1) | (Inr _, db1) \<Rightarrow> (Inr actors, db1)))"

end
