(* ===== verification/LifecycleProps.thy ===== *)
theory LifecycleProps
  imports Lifecycle SendProps
begin

text \<open>
  Properties of the actor lifecycle: what archiving guarantees, that an archived actor gets no
  mail until it is restored, when a preflight is honoured, and what the sweep may touch.
\<close>

section \<open>What the operations did\<close>

lemma upsert_lifecycle_archived:
  "list_ex (\<lambda>l. lc_actor l = a \<and> lc_archived l) (upsert_lifecycle r rows) \<longleftrightarrow>
    (if a = lc_actor r then lc_archived r else list_ex (\<lambda>l. lc_actor l = a \<and> lc_archived l) rows)"
proof (cases "row_by lc_actor (lc_actor r) rows")
  case None
  then show ?thesis by (auto simp: upsert_lifecycle_def row_by_None_iff list_ex_iff)
next
  case (Some l)
  then have "\<exists>l\<in>set rows. lc_actor l = lc_actor r" by (auto dest: row_by_SomeD)
  then show ?thesis using Some by (auto simp: upsert_lifecycle_def list_ex_iff set_update_where)
qed

lemma note_unread_frame: "\<exists>cs. note_unread env actor db = db\<lparr>conditions := cs\<rparr>"
proof (cases "ObserveCondition env (unread_observation actor) db")
  case (Inl e)
  then show ?thesis by (intro exI [of _ "conditions db"]) (simp add: note_unread_def)
next
  case (Inr x)
  obtain c and db1 :: db where x: "x = (c, db1)" by (cases x)
  then obtain cs where db1: "db1 = db\<lparr>conditions := cs\<rparr>"
    using Inr by (auto simp: ObserveCondition_def Let_def ok_iff)
  show ?thesis
  proof (cases "AcknowledgeCondition env (oc_kind c) (oc_subject c) (oc_generation c) db1")
    case (Inl e)
    then show ?thesis using Inr x db1 by (intro exI [of _ cs]) (simp add: note_unread_def)
  next
    case (Inr y)
    obtain c2 and db2 :: db where y: "y = (c2, db2)" by (cases y)
    then obtain cs2 where "db2 = db1\<lparr>conditions := cs2\<rparr>"
      using Inr by (auto simp: AcknowledgeCondition_def changeConditionPresentation_def Let_def ok_iff)
    then show ?thesis using Inr x y db1 \<open>ObserveCondition _ _ _ = _\<close>
      by (intro exI [of _ cs2]) (simp add: note_unread_def)
  qed
qed

lemma archive_txD:
  assumes "archive_tx env actor by_actor allow db = Inr (w, db')"
  shows "\<not> channel_member db actor" "\<not> is_human_actor actor" "\<forall>r\<in>set (aliases db). al_actor r \<noteq> actor"
    "control_presence db actor (e_now env) = 0"
    "\<forall>d\<in>set (deliveries db). delivery_owner db d = actor \<longrightarrow> \<not> leased (e_now env) d"
    "actor_mail db actor (claimable (e_now env)) (e_now env) = [] \<or> allow"
    "w \<longleftrightarrow> actor_mail db actor (claimable (e_now env)) (e_now env) \<noteq> []"
    "db' = db\<lparr>continuity := filter (\<lambda>c. cb_actor c \<noteq> actor) (continuity db),
       harness_bindings := filter (\<lambda>h. hb_actor h \<noteq> actor) (harness_bindings db),
       lifecycle := upsert_lifecycle \<lparr>lc_actor = actor, lc_archived = True, lc_with_unread = w,
         lc_changed_by = by_actor, lc_changed_at = e_now env\<rparr> (lifecycle db)\<rparr>"
  using assms by (auto simp: archive_tx_def Let_def ok_iff affected_zero_iff)

lemma ArchiveActorD:
  assumes "ArchiveActor env0 db0 env actor by_actor allow db = Inr (r, db')"
  obtains p w db1 cs where "ArchivePreflight env0 actor 100 db0 = Inr p" "ap_operator_eligible p"
    "ap_unread p = [] \<and> \<not> ap_unread_truncated p \<or> allow"
    "archive_tx env actor by_actor allow db = Inr (w, db1)" "db' = db1\<lparr>conditions := cs\<rparr>" "w \<or> cs = conditions db"
    "r = \<lparr>ar_actor = actor, ar_archived = True, ar_with_unread = w, ar_changed_at = e_now env\<rparr>"
proof -
  obtain p w db1 where *: "ArchivePreflight env0 actor 100 db0 = Inr p" "ap_operator_eligible p"
    "ap_unread p = [] \<and> \<not> ap_unread_truncated p \<or> allow" "archive_tx env actor by_actor allow db = Inr (w, db1)"
    "r = \<lparr>ar_actor = actor, ar_archived = True, ar_with_unread = w, ar_changed_at = e_now env\<rparr>"
    and db': "db' = (if w then note_unread env actor db1 else db1)"
    using assms by (auto simp: ArchiveActor_def bindE_Inr_iff requireE_Inr_iff)
  obtain cs where cs: "note_unread env actor db1 = db1\<lparr>conditions := cs\<rparr>" using note_unread_frame by blast
  have c: "conditions db1 = conditions db" using archive_txD(8) [OF *(4)] by simp
  show thesis
  proof (cases w)
    case True
    then show thesis using that [of p w db1 cs] * db' cs by simp
  next
    case False
    then show thesis using that [of p w db1 "conditions db"] * db' c by simp
  qed
qed

lemma ArchiveActor_tx:
  assumes "ArchiveActor env0 db0 env actor by_actor allow db = Inr (r, db')"
  shows "\<exists>w db1 cs. archive_tx env actor by_actor allow db = Inr (w, db1) \<and> db' = db1\<lparr>conditions := cs\<rparr>"
  by (rule ArchiveActorD [OF assms]) blast

lemma delivery_owner_cong: "adoptions db' = adoptions db \<Longrightarrow> delivery_owner db' = delivery_owner db"
  by (simp add: delivery_owner_def adopter_def fun_eq_iff)

lemma actor_mail_cong:
  "messages db' = messages db \<Longrightarrow> deliveries db' = deliveries db \<Longrightarrow> adoptions db' = adoptions db \<Longrightarrow>
    actor_mail db' = actor_mail db"
  using delivery_owner_cong [of db' db] by (simp add: actor_mail_def legacy_messages_def fun_eq_iff)

lemma ArchiveActor_archived:
  assumes "ArchiveActor env0 db0 env actor by_actor allow db = Inr (r, db')"
  shows "actorArchived db' a \<longleftrightarrow> a = actor \<or> actorArchived db a"
proof -
  obtain w db1 cs where tx: "archive_tx env actor by_actor allow db = Inr (w, db1)" and db': "db' = db1\<lparr>conditions := cs\<rparr>"
    using ArchiveActor_tx [OF assms] by blast
  then show ?thesis using archive_txD(8) [OF tx] by (simp add: actorArchived_def upsert_lifecycle_archived)
qed

lemma ArchiveActor_frame:
  assumes "ArchiveActor env0 db0 env actor by_actor allow db = Inr (r, db')"
  shows "same_mail db db'" "adoptions db' = adoptions db" "aliases db' = aliases db"
    "alias_history db' = alias_history db" "registrations db' = registrations db" "actor_names db' = actor_names db"
    "profiles db' = profiles db" "grants db' = grants db" "events db' = events db"
    "\<forall>c\<in>set (continuity db'). cb_actor c \<noteq> actor" "\<forall>h\<in>set (harness_bindings db'). hb_actor h \<noteq> actor"
    "\<forall>c\<in>set (continuity db). cb_actor c \<noteq> actor \<longrightarrow> c \<in> set (continuity db')"
    "\<forall>h\<in>set (harness_bindings db). hb_actor h \<noteq> actor \<longrightarrow> h \<in> set (harness_bindings db')"
proof -
  obtain w db1 cs where tx: "archive_tx env actor by_actor allow db = Inr (w, db1)" and db': "db' = db1\<lparr>conditions := cs\<rparr>"
    using ArchiveActor_tx [OF assms] by blast
  note d = archive_txD(8) [OF tx]
  show "same_mail db db'" "adoptions db' = adoptions db" "aliases db' = aliases db"
    "alias_history db' = alias_history db" "registrations db' = registrations db" "actor_names db' = actor_names db"
    "profiles db' = profiles db" "grants db' = grants db" "events db' = events db"
    "\<forall>c\<in>set (continuity db'). cb_actor c \<noteq> actor" "\<forall>h\<in>set (harness_bindings db'). hb_actor h \<noteq> actor"
    "\<forall>c\<in>set (continuity db). cb_actor c \<noteq> actor \<longrightarrow> c \<in> set (continuity db')"
    "\<forall>h\<in>set (harness_bindings db). hb_actor h \<noteq> actor \<longrightarrow> h \<in> set (harness_bindings db')"
    by (simp_all add: d db' same_mail_def)
qed

lemma restored_rows:
  "list_ex (\<lambda>l. lc_actor l = a \<and> lc_archived l)
     (update_where (\<lambda>l. lc_actor l = b \<and> lc_archived l)
       (\<lambda>l. l\<lparr>lc_archived := False, lc_with_unread := u, lc_changed_by := c, lc_changed_at := t\<rparr>) rows) \<longleftrightarrow>
   a \<noteq> b \<and> list_ex (\<lambda>l. lc_actor l = a \<and> lc_archived l) rows"
  by (induction rows) auto

lemma RestoreActor_restores:
  assumes "actorArchived db actor"
  shows "\<exists>r db'. RestoreActor env actor by_actor db = Inr (r, db') \<and> \<not> actorArchived db' actor \<and>
    (\<forall>a. a \<noteq> actor \<longrightarrow> actorArchived db' a = actorArchived db a) \<and> same_mail db db'"
proof -
  have "affected (\<lambda>l. lc_actor l = actor \<and> lc_archived l) (lifecycle db) \<noteq> 0"
    using assms unfolding affected_zero_iff by (auto simp: actorArchived_def list_ex_iff)
  then show ?thesis
    by (simp add: RestoreActor_def actorArchived_def restored_rows same_mail_def)
qed

section \<open>Archiving\<close>

text \<open>
  \<^bold>\<open>C34\<close> An archived actor is out of use: whatever happened between the preflight and the
  transaction, a successful \<open>ArchiveActor\<close> leaves the actor archived, with no alias that
  points to it, no live session, no running lease on its inbox, and no identity binding through
  which a client could come back as it. It had no unread mail unless the operator allowed that,
  its mail stays where it was, and no other actor's state changes.
\<close>
theorem ArchiveActor_detaches:
  assumes "ArchiveActor env0 db0 env actor by_actor allow db = Inr (r, db')"
  shows "actorArchived db' actor \<and> (\<forall>al\<in>set (aliases db'). al_actor al \<noteq> actor) \<and> \<not> actorHasLivePresence db' actor (e_now env) \<and>
    (\<forall>d\<in>set (deliveries db'). delivery_owner db' d = actor \<longrightarrow> \<not> leased (e_now env) d) \<and>
    (\<forall>c\<in>set (continuity db'). cb_actor c \<noteq> actor) \<and> (\<forall>h\<in>set (harness_bindings db'). hb_actor h \<noteq> actor) \<and>
    (allow \<or> actor_mail db' actor (claimable (e_now env)) (e_now env) = []) \<and>
    messages db' = messages db \<and> deliveries db' = deliveries db \<and> outbox db' = outbox db \<and>
    (\<forall>a. a \<noteq> actor \<longrightarrow> actorArchived db' a = actorArchived db a)"
proof -
  obtain w db1 where tx: "archive_tx env actor by_actor allow db = Inr (w, db1)"
    using ArchiveActor_tx [OF assms] by blast
  note d = archive_txD [OF tx] and f = ArchiveActor_frame [OF assms] and ar = ArchiveActor_archived [OF assms]
  have "\<not> actorHasLivePresence db' actor (e_now env)"
    using d(4) f(5) by (auto simp: actorHasLivePresence_def control_presence_def affected_zero_iff list_ex_iff)
  then have 1: "actorArchived db' actor \<and> (\<forall>al\<in>set (aliases db'). al_actor al \<noteq> actor) \<and>
      \<not> actorHasLivePresence db' actor (e_now env)"
    using ar d(3) f(3) by simp
  have 2: "\<forall>d\<in>set (deliveries db'). delivery_owner db' d = actor \<longrightarrow> \<not> leased (e_now env) d"
    using d(5) f(1) delivery_owner_cong [OF f(2)] by (simp add: same_mail_def)
  have 3: "allow \<or> actor_mail db' actor (claimable (e_now env)) (e_now env) = []"
    using d(6) f(1,2) actor_mail_cong [of db' db] by (auto simp: same_mail_def)
  have "messages db' = messages db" "deliveries db' = deliveries db" "outbox db' = outbox db"
    using f(1) by (simp_all add: same_mail_def)
  moreover have "\<forall>a. a \<noteq> actor \<longrightarrow> actorArchived db' a = actorArchived db a" using ar by simp
  ultimately show ?thesis using 1 2 3 f(10,11) by blast
qed


lemma first_per_message_Nil: "first_per_message rows = [] \<longleftrightarrow> rows = []"
proof
  show "rows = []" if empty: "first_per_message rows = []"
  proof (rule ccontr)
    assume "rows \<noteq> []"
    then obtain m d where r: "(m, d) \<in> set rows" by (metis list.set_intros(1) neq_Nil_conv surj_pair)
    let ?same = "filter (\<lambda>(m', d'). mr_id m' = mr_id m) rows"
    let ?xs = "sort_key (\<lambda>(m', d'). dl_recipient d') ?same"
    have ne: "?same \<noteq> []" using r by (auto simp: filter_empty_conv)
    then obtain y ys where y: "?xs = y # ys" by (metis length_0_conv length_sort neq_Nil_conv)
    then have in_y: "y \<in> set rows \<and> mr_id (fst y) = mr_id m" using sort_key_Cons_in [OF y] by auto
    have "\<forall>(m', d')\<in>set rows. mr_id m' = mr_id (fst y) \<longrightarrow> dl_recipient (snd y) \<le> dl_recipient d'"
      using hd_sort_key_le [OF y] in_y by (fastforce simp: case_prod_beta)
    then have "y \<in> set (first_per_message rows)"
      using in_y by (auto simp: first_per_message_def list_all_iff case_prod_beta)
    then show False using empty by simp
  qed
qed (simp add: first_per_message_def)

lemma ArchivePreflightD:
  assumes "ArchivePreflight env actor 100 db = Inr p" and "trim actor = actor"
  shows "\<not> channel_member db actor" "\<not> is_human_actor actor"
    "ap_operator_eligible p \<longleftrightarrow> (\<forall>r\<in>set (aliases db). al_actor r \<noteq> actor) \<and> control_presence db actor (e_now env) = 0 \<and>
       actor_mail db actor (leased (e_now env)) (e_now env) = []"
    "ap_unread p = [] \<and> \<not> ap_unread_truncated p \<longleftrightarrow> actor_mail db actor (claimable (e_now env)) (e_now env) = []"
proof -
  let ?mail = "sort_key age_key (first_per_message (actor_mail db actor (claimable (e_now env)) (e_now env)))"
  have p: "\<not> channel_member db actor \<and> \<not> is_human_actor actor"
    "ap_operator_eligible p \<longleftrightarrow> sort (map al_alias (filter (\<lambda>r. al_actor r = actor) (aliases db))) = [] \<and>
       control_presence db actor (e_now env) = 0 \<and> length (actor_mail db actor (leased (e_now env)) (e_now env)) = 0"
    "ap_unread p = map (\<lambda>(m, d). archive_message_of m) (take 100 (take (100 + 1) ?mail))"
    "ap_unread_truncated p \<longleftrightarrow> 100 < length (take (100 + 1) ?mail)"
    using assms by (auto simp: ArchivePreflight_def Let_def bindE_Inr_iff requireE_Inr_iff)
  show "\<not> channel_member db actor" "\<not> is_human_actor actor" using p(1) by simp_all
  have sn: "sort (xs :: string list) = [] \<longleftrightarrow> xs = []" for xs by (metis length_0_conv length_sort)
  show "ap_operator_eligible p \<longleftrightarrow> (\<forall>r\<in>set (aliases db). al_actor r \<noteq> actor) \<and> control_presence db actor (e_now env) = 0 \<and>
       actor_mail db actor (leased (e_now env)) (e_now env) = []"
    unfolding p(2) sn by (simp add: filter_empty_conv)
  have "ap_unread p = [] \<longleftrightarrow> ?mail = []" by (simp add: p(3))
  also have "\<dots> \<longleftrightarrow> actor_mail db actor (claimable (e_now env)) (e_now env) = []"
    by (metis first_per_message_Nil length_0_conv length_sort)
  finally show "ap_unread p = [] \<and> \<not> ap_unread_truncated p \<longleftrightarrow> actor_mail db actor (claimable (e_now env)) (e_now env) = []"
    by (auto simp: p(4) first_per_message_def)
qed

lemma actor_mail_Nil: "actor_mail db actor p now = [] \<longleftrightarrow>
    (\<forall>m\<in>set (legacy_messages db). \<forall>d\<in>set (deliveries db).
      mr_id m = dl_message_id d \<and> delivery_owner db d = actor \<and> p d \<longrightarrow> \<not> unexpired now m)"
  by (auto simp: actor_mail_def filter_empty_conv)

text \<open>
  A preflight is honoured: when nothing changes after a preflight that found the actor
  eligible, \<open>ArchiveActor\<close> archives it, provided no claim on a message that has expired still
  holds its lease.
\<close>
theorem preflight_honoured:
  assumes "ArchivePreflight env actor 100 db = Inr p" and "ap_operator_eligible p" and "trim actor = actor"
    and "ap_unread p = [] \<and> \<not> ap_unread_truncated p \<or> allow"
    and "\<forall>d\<in>set (deliveries db). delivery_owner db d = actor \<and> leased (e_now env) d \<longrightarrow>
      (\<exists>m\<in>set (legacy_messages db). mr_id m = dl_message_id d \<and> unexpired (e_now env) m)"
  shows "\<exists>r db'. ArchiveActor env db env actor by_actor allow db = Inr (r, db') \<and> actorArchived db' actor"
proof -
  note p = ArchivePreflightD [OF assms(1,3)]
  have "\<forall>r\<in>set (aliases db). al_actor r \<noteq> actor" "control_presence db actor (e_now env) = 0"
    and mail: "actor_mail db actor (leased (e_now env)) (e_now env) = []"
    using assms(2) unfolding p(3) by blast+
  moreover have "\<forall>d\<in>set (deliveries db). delivery_owner db d = actor \<longrightarrow> \<not> leased (e_now env) d"
    using mail [unfolded actor_mail_Nil] assms(5) by blast
  moreover have "actor_mail db actor (claimable (e_now env)) (e_now env) = [] \<or> allow"
    using assms(4) p(4) by blast
  ultimately have "\<exists>x. archive_tx env actor by_actor allow db = Inr x"
    using p(1,2) by (auto simp: archive_tx_def Let_def affected_zero_iff [THEN iffD2])
  then obtain w db1 where tx: "archive_tx env actor by_actor allow db = Inr (w, db1)" by (metis surj_pair)
  let ?r = "\<lparr>ar_actor = actor, ar_archived = True, ar_with_unread = w, ar_changed_at = e_now env\<rparr>"
  have "requireE (ap_unread p = [] \<and> \<not> ap_unread_truncated p \<or> allow) e = Inr ()" for e :: error
    using assms(4) by (simp only: requireE_True)
  then have "ArchiveActor env db env actor by_actor allow db = Inr (?r, if w then note_unread env actor db1 else db1)"
    by (simp add: ArchiveActor_def assms(1,2) tx)
  then show ?thesis using ArchiveActor_archived by blast
qed

text \<open>
  The recheck counts every running lease, the preflight only those on messages that have not
  expired: with a lease on an expired message the actor is reported eligible and refused.
\<close>
lemma expired_claim_blocks:
  assumes "ArchivePreflight env actor 100 db = Inr p" and "ap_operator_eligible p" and "trim actor = actor"
    and "ap_unread p = [] \<and> \<not> ap_unread_truncated p \<or> allow"
    and "d \<in> set (deliveries db)" and "delivery_owner db d = actor" and "leased (e_now env) d"
  shows "ArchiveActor env db env actor by_actor allow db =
    Inl (ValidationError ''actor'' ''archive eligibility changed; run preflight again'')"
proof -
  have "affected (\<lambda>d. delivery_owner db d = actor \<and> leased (e_now env) d) (deliveries db) \<noteq> 0"
    using assms(5-7) unfolding affected_zero_iff by blast
  then have "archive_tx env actor by_actor allow db =
      Inl (ValidationError ''actor'' ''archive eligibility changed; run preflight again'')"
    using ArchivePreflightD(1,2) [OF assms(1,3)] by (simp add: archive_tx_def Let_def)
  moreover have "requireE (ap_unread p = [] \<and> \<not> ap_unread_truncated p \<or> allow) e = Inr ()" for e :: error
    using assms(4) by (simp only: requireE_True)
  ultimately show ?thesis by (simp add: ArchiveActor_def assms(1,2))
qed

text \<open>
  The preflight trims the name it is given, the transaction uses it as it is: for a name with
  white space around it the operation reports success and archives nothing.
\<close>
lemma untrimmed_name_not_archived:
  assumes "ArchiveActor env0 db0 env actor by_actor allow db = Inr (r, db')" and "trim actor \<noteq> actor"
  shows "ar_archived r \<and> actorArchived db' (trim actor) = actorArchived db (trim actor)"
proof -
  have "ar_archived r" by (rule ArchiveActorD [OF assms(1)]) simp
  then show ?thesis using ArchiveActor_archived [OF assms(1)] assms(2) by simp
qed

section \<open>The sweep\<close>

lemma archive_each_archived:
  assumes "archive_each env as db = (out, db')"
  shows "\<exists>done. prefix done as \<and> (\<forall>a. actorArchived db' a \<longleftrightarrow> a \<in> set done \<or> actorArchived db a) \<and>
    (out = Inr () \<longrightarrow> done = as) \<and> same_mail db db' \<and> adoptions db' = adoptions db \<and> aliases db' = aliases db"
  using assms
proof (induction env "as" db rule: archive_each.induct)
  case (1 env db)
  then show ?case by (intro exI [of _ "[]"]) (auto simp: same_mail_def)
next
  case (2 env b bs db)
  show ?case
  proof (cases "ArchiveActor env db env b ''operator:auto-archive'' False db")
    case (Inl e)
    then show ?thesis using 2 by (intro exI [of _ "[]"]) (auto simp: same_mail_def)
  next
    case (Inr x)
    obtain r and db1 :: db where x: "x = (r, db1)" by (cases x)
    then have run: "ArchiveActor env db env b ''operator:auto-archive'' False db = Inr (r, db1)" using Inr by simp
    moreover have "archive_each env bs db1 = (out, db')" using 2(2) run by simp
    ultimately obtain dn where dn: "prefix dn bs" "\<forall>a. actorArchived db' a \<longleftrightarrow> a \<in> set dn \<or> actorArchived db1 a"
      "out = Inr () \<longrightarrow> dn = bs" "same_mail db1 db'" "adoptions db' = adoptions db1" "aliases db' = aliases db1"
      using 2(1) [OF run refl] by blast
    show ?thesis
      using dn ArchiveActor_archived [OF run] ArchiveActor_frame(1-3) [OF run]
      by (intro exI [of _ "b # dn"]) (auto intro: same_mail_trans)
  qed
qed

text \<open>
  The sweep spares everybody who is in use: whether it runs through or stops at an error,
  it archives only actors that were inactive for the whole period, hold no alias, no adopted
  inbox and no open mail, and are neither the operator nor a human or channel member, in the
  order of their names; and when it reports a list of actors, exactly those have been archived.
\<close>
theorem sweep_spares:
  assumes "ArchiveEligibleActors env inactive db = (out, db')"
  shows "(\<forall>a. actorArchived db' a \<and> \<not> actorArchived db a \<longrightarrow>
      (\<exists>n\<in>set (actor_names db). an_actor n = a \<and> an_first_seen n \<le> e_now env - inactive) \<and>
      inactive_since db (e_now env - inactive) a \<and> \<not> has_open_mail db (e_now env) a \<and>
      (\<forall>al\<in>set (aliases db). al_actor al \<noteq> a) \<and> (\<forall>ad\<in>set (adoptions db). ad_adopting ad \<noteq> a) \<and>
      a \<noteq> ''operator'' \<and> \<not> channel_member db a \<and> control_presence db a (e_now env) = 0) \<and>
    (\<forall>a. actorArchived db a \<longrightarrow> actorArchived db' a) \<and>
    (\<forall>actors. out = Inr actors \<longrightarrow> sorted actors \<and> (\<forall>a. actorArchived db' a \<longleftrightarrow> a \<in> set actors \<or> actorArchived db a)) \<and>
    messages db' = messages db \<and> deliveries db' = deliveries db \<and> outbox db' = outbox db"
proof -
  let ?names = "sort (map an_actor (filter (sweepable db (e_now env) inactive) (actor_names db)))"
  obtain dn where dn: "prefix dn ?names" "\<forall>a. actorArchived db' a \<longleftrightarrow> a \<in> set dn \<or> actorArchived db a"
    "\<forall>actors. out = Inr actors \<longrightarrow> dn = ?names \<and> actors = ?names" "same_mail db db'"
  proof (cases "inactive \<le> 0")
    case True
    then show thesis using assms by (intro that [of "[]"]) (auto simp: ArchiveEligibleActors_def same_mail_def)
  next
    case False
    obtain o' db1 where each: "archive_each env ?names db = (o', db1)" by fastforce
    then have "db1 = db'" "\<forall>actors. out = Inr actors \<longrightarrow> o' = Inr () \<and> actors = ?names"
      using assms False by (auto simp: ArchiveEligibleActors_def Let_def split: sum.splits)
    then show thesis using that archive_each_archived [OF each] by blast
  qed
  have 1: "(\<exists>n\<in>set (actor_names db). an_actor n = a \<and> an_first_seen n \<le> e_now env - inactive) \<and>
      inactive_since db (e_now env - inactive) a \<and> \<not> has_open_mail db (e_now env) a \<and>
      (\<forall>al\<in>set (aliases db). al_actor al \<noteq> a) \<and> (\<forall>ad\<in>set (adoptions db). ad_adopting ad \<noteq> a) \<and>
      a \<noteq> ''operator'' \<and> \<not> channel_member db a \<and> control_presence db a (e_now env) = 0"
    if "actorArchived db' a" "\<not> actorArchived db a" for a
  proof -
    have "a \<in> set ?names" using that dn(1,2) set_mono_prefix by blast
    then obtain n where "n \<in> set (actor_names db)" "an_actor n = a" "sweepable db (e_now env) inactive n" by auto
    then show ?thesis by (auto simp: sweepable_def Let_def list_ex_iff)
  qed
  have "\<forall>actors. out = Inr actors \<longrightarrow> sorted actors \<and> (\<forall>a. actorArchived db' a \<longleftrightarrow> a \<in> set actors \<or> actorArchived db a)"
    using dn(2,3) by (metis sorted_sort)
  moreover have "\<forall>a. actorArchived db a \<longrightarrow> actorArchived db' a" using dn(2) by simp
  moreover have "messages db' = messages db \<and> deliveries db' = deliveries db \<and> outbox db' = outbox db"
    using dn(4) by (simp add: same_mail_def)
  ultimately show ?thesis using 1 by blast
qed

section \<open>Previews\<close>

lemma rune_length_4: "rune_length s \<le> 4"
  by (cases s rule: rune_length.cases) (auto split: list.splits)

lemma concat_runes_length: "\<forall>r\<in>set rs. rune r \<Longrightarrow> length (concat rs) \<le> 4 * length rs"
proof (induction rs)
  case (Cons r rs)
  then show ?case using rune_length_4 [of r] by (simp add: rune_def)
qed simp

lemma utf8_constants: "rune [CHR 0xEF, CHR 0xBF, CHR 0xBD]" "rune [CHR 0xE2, CHR 0x80, CHR 0xA6]"
  by code_simp+

lemma runes_read: "concat (map (case_option [] id \<circ> Some) rs) = concat rs"
  by (induction rs) simp_all

text \<open>
  \<^bold>\<open>C36\<close> A preview of an unread body is bounded and harmless whatever the bytes of the body:
  it is valid UTF-8, of at most 256 runes and an ellipsis, and so at most 1027 bytes.
\<close>
theorem preview_bounded:
  "None \<notin> set (runes (boundedArchivePreview body)) \<and> length (runes (boundedArchivePreview body)) \<le> 257 \<and>
    length (boundedArchivePreview body) \<le> 1027"
proof -
  let ?rep = "[CHR 0xEF, CHR 0xBF, CHR 0xBD]"
  define rs where "rs = replace_invalid ?rep False (runes body)"
  have rs: "\<forall>r\<in>set rs. rune r"
    unfolding rs_def using utf8_constants(1) runes_are_runes by (intro replace_invalid_runes) blast+
  have valid: "to_valid_utf8 ?rep body = concat rs" by (simp add: to_valid_utf8_def rs_def)
  have read: "runes (concat rs) = map Some rs" by (rule runes_concat [OF rs])
  show ?thesis
  proof (cases "length rs \<le> 256")
    case True
    then have "boundedArchivePreview body = concat rs" by (simp add: boundedArchivePreview_def valid read)
    then show ?thesis using True concat_runes_length [OF rs] by (auto simp: read)
  next
    case False
    let ?cut = "take 256 rs @ [[CHR 0xE2, CHR 0x80, CHR 0xA6]]"
    have b: "boundedArchivePreview body = concat ?cut"
      using False by (simp add: boundedArchivePreview_def valid read take_map runes_read)
    have cut: "\<forall>r\<in>set ?cut. rune r" using rs utf8_constants(2) by (auto dest: in_set_takeD)
    have "length (concat (take 256 rs)) \<le> 4 * length (take 256 rs)"
      by (rule concat_runes_length) (use rs in \<open>auto dest: in_set_takeD\<close>)
    then have "length (concat ?cut) \<le> 1027" by simp
    then show ?thesis unfolding b using False by (simp only: runes_concat [OF cut]) auto
  qed
qed
section \<open>Witnesses\<close>

text \<open>carol, who has unread mail, is known and archived by the operator; dave has none.\<close>

definition sample_archive_db :: db where
  "sample_archive_db = sample_db\<lparr>actor_names := map (\<lambda>a. \<lparr>an_actor = a, an_first_seen = 0\<rparr>) [''operator'', ''carol'', ''dave'', ''alice'']\<rparr>"

definition sample_archived :: "archive_result \<times> db" where
  "sample_archived = projr (ArchiveActor (sample_env 50) sample_archive_db (sample_env 60) ''carol'' ''operator'' True sample_archive_db)"

lemma sample_archived_run:
  "ArchiveActor (sample_env 50) sample_archive_db (sample_env 60) ''carol'' ''operator'' True sample_archive_db =
    Inr (fst sample_archived, snd sample_archived)"
  by code_simp

lemma ArchiveActor_detaches_witness:
  "actorArchived (snd sample_archived) ''carol'' \<and> \<not> actorArchived (snd sample_archived) ''alice''"
proof -
  have "\<not> actorArchived sample_archive_db ''alice''" by code_simp
  then show ?thesis using ArchiveActor_detaches [OF sample_archived_run] by simp
qed


lemma preflight_honoured_witness:
  "\<exists>r db'. ArchiveActor (sample_env 50) sample_archive_db (sample_env 50) ''dave'' ''operator'' False sample_archive_db = Inr (r, db')"
proof -
  let ?p = "projr (ArchivePreflight (sample_env 50) ''dave'' 100 sample_archive_db)"
  have "ArchivePreflight (sample_env 50) ''dave'' 100 sample_archive_db = Inr ?p" "ap_operator_eligible ?p" "trim ''dave'' = ''dave''"
    "ap_unread ?p = [] \<and> \<not> ap_unread_truncated ?p \<or> False"
    by code_simp+
  moreover have "\<forall>d\<in>set (deliveries sample_archive_db). dl_state d = Queued" by code_simp
  ultimately show ?thesis using preflight_honoured [of "sample_env 50" "''dave''" sample_archive_db ?p False] by (metis delivery_state.distinct(1))
qed

lemma sweep_spares_witness: "actorArchived (snd (ArchiveEligibleActors (sample_env 500) 10 sample_archive_db)) ''dave'' \<and>
    \<not> has_open_mail sample_archive_db 500 ''dave''"
proof -
  have 1: "actorArchived (snd (ArchiveEligibleActors (sample_env 500) 10 sample_archive_db)) ''dave''"
    "\<not> actorArchived sample_archive_db ''dave''" "e_now (sample_env 500) = 500"
    by code_simp+
  then show ?thesis
    using sweep_spares [of "sample_env 500" 10 sample_archive_db _ "snd (ArchiveEligibleActors (sample_env 500) 10 sample_archive_db)"]
    by (metis prod.collapse)
qed

end
