(* ===== verification/JsonText.thy ===== *)
theory JsonText
  imports GoJson GoUtf8
begin

text \<open>
  \<open>json.Marshal\<close> of a map from strings to strings, as the encoder of the library writes it: keys
  in order, no spaces, every string quoted with the escapes for control characters, quotes, the
  characters HTML cares about, the two line separators, and bytes that are not UTF-8. The text
  passes \<open>json.Valid\<close>, whatever bytes the strings have.
\<close>

definition hex_digit :: "nat \<Rightarrow> char" where
  "hex_digit n = ''0123456789abcdef'' ! (n mod 16)"

definition plain_byte :: "char \<Rightarrow> bool" where
  "plain_byte c \<longleftrightarrow> 0x20 \<le> (of_char c :: nat) \<and> c \<notin> {CHR 0x22, CHR 0x5C, CHR 0x3C, CHR 0x3E, CHR 0x26}"

definition escape_byte :: "char \<Rightarrow> string" where
  "escape_byte c =
    (if c = CHR 0x5C \<or> c = CHR 0x22 then [CHR 0x5C, c]
     else if c = CHR 0x08 then [CHR 0x5C, CHR ''b''] else if c = CHR 0x0C then [CHR 0x5C, CHR ''f'']
     else if c = CHR 0x0A then [CHR 0x5C, CHR ''n''] else if c = CHR 0x0D then [CHR 0x5C, CHR ''r'']
     else if c = CHR 0x09 then [CHR 0x5C, CHR ''t'']
     else CHR 0x5C # ''u00'' @ [hex_digit (of_char c div 16), hex_digit (of_char c)])"

definition quote_rune :: "string option \<Rightarrow> string" where
  "quote_rune r = (case r of
     None \<Rightarrow> CHR 0x5C # ''ufffd''
   | Some [] \<Rightarrow> []
   | Some [c] \<Rightarrow> if plain_byte c then [c] else escape_byte c
   | Some w \<Rightarrow> if w = [CHR 0xE2, CHR 0x80, CHR 0xA8] then CHR 0x5C # ''u2028''
       else if w = [CHR 0xE2, CHR 0x80, CHR 0xA9] then CHR 0x5C # ''u2029'' else w)"

definition json_quote :: "string \<Rightarrow> string" where
  "json_quote s = CHR 0x22 # concat (map quote_rune (runes s)) @ [CHR 0x22]"

fun join :: "string \<Rightarrow> string list \<Rightarrow> string" where
  "join sep [] = []"
| "join sep [s] = s"
| "join sep (s # ss) = s @ sep @ join sep ss"

definition json_member :: "string \<times> string \<Rightarrow> string" where
  "json_member kv = json_quote (fst kv) @ '':'' @ json_quote (snd kv)"

definition json_object :: "(string \<times> string) list \<Rightarrow> string" where
  "json_object kvs = ''{'' @ join '','' (map json_member kvs) @ ''}''"

section \<open>The text is valid\<close>

lemma rune_bytes:
  assumes "rune r"
  shows "(\<exists>c. r = [c]) \<or> (\<forall>c\<in>set r. 0x80 \<le> (of_char c :: nat))"
  using assms
  by (cases r rule: rune_length.cases) (auto simp: rune_def byte_in_def second_byte_def split: list.splits if_splits)

lemma scan_high: "\<forall>c\<in>set w. 0x80 \<le> (of_char c :: nat) \<Longrightarrow> json_scan (InString, st) w = Some (InString, st)"
  by (induction w) auto

lemma json_hex_digit: "json_hex (hex_digit n)"
proof -
  have "\<forall>k\<in>set [0..<16]. json_hex (''0123456789abcdef'' ! k)" by code_simp
  then show ?thesis by (simp add: hex_digit_def)
qed

lemma scan_escape: "json_scan (InString, st) (escape_byte c) = Some (InString, st)"
  by (simp add: escape_byte_def json_hex_digit) (simp add: json_hex_def json_digit_def)

lemma quote_rune_long:
  assumes "\<nexists>c. w = [c]"
  shows "quote_rune (Some w) = (if w = [CHR 0xE2, CHR 0x80, CHR 0xA8] then CHR 0x5C # ''u2028''
       else if w = [CHR 0xE2, CHR 0x80, CHR 0xA9] then CHR 0x5C # ''u2029'' else w)"
  using assms unfolding quote_rune_def by (cases w rule: remdups_adj.cases) simp_all

lemma scan_quote_rune:
  assumes "\<And>w. r = Some w \<Longrightarrow> rune w"
  shows "json_scan (InString, st) (quote_rune r) = Some (InString, st)"
proof (cases r)
  case None
  then show ?thesis by (simp add: quote_rune_def json_hex_def json_digit_def)
next
  case (Some w)
  show ?thesis
  proof (cases "\<exists>c. w = [c]")
    case True
    then show ?thesis using Some scan_escape by (auto simp: quote_rune_def plain_byte_def)
  next
    case False
    then have high: "\<forall>c\<in>set w. 0x80 \<le> (of_char c :: nat)" using assms Some rune_bytes by blast
    have "json_scan (InString, st) (CHR 0x5C # ''u2028'') = Some (InString, st)"
      "json_scan (InString, st) (CHR 0x5C # ''u2029'') = Some (InString, st)"
      by (simp_all add: json_hex_def json_digit_def)
    then show ?thesis using quote_rune_long [OF False] scan_high [OF high] Some by simp
  qed
qed

lemma scan_quoted_runes:
  "(\<And>w. Some w \<in> set rs \<Longrightarrow> rune w) \<Longrightarrow> json_scan (InString, st) (concat (map quote_rune rs)) = Some (InString, st)"
  by (induction rs) (simp_all add: json_scan_append scan_quote_rune)

lemma scan_json_quote:
  assumes "json_step (s, st) CHR 0x22 = Some (InString, st)"
  shows "json_scan (s, st) (json_quote t) = Some (EndValue, st)"
  using assms by (simp add: json_quote_def json_scan_append scan_quoted_runes runes_are_runes)

lemma scan_member:
  assumes "json_step (s, [ObjectKey]) CHR 0x22 = Some (InString, [ObjectKey])"
  shows "json_scan (s, [ObjectKey]) (json_member kv) = Some (EndValue, [ObjectValue])"
proof -
  have "json_scan (BeginValue, [ObjectValue]) (json_quote t) = Some (EndValue, [ObjectValue])" for t
    by (rule scan_json_quote) (simp add: json_begin_value_def json_space_def)
  then show ?thesis
    using scan_json_quote [OF assms] by (simp add: json_member_def json_scan_append json_space_def)
qed

lemma scan_members:
  assumes "json_step (s, [ObjectKey]) CHR 0x22 = Some (InString, [ObjectKey])"
  shows "json_scan (s, [ObjectKey]) (join '','' (map json_member (kv # kvs))) = Some (EndValue, [ObjectValue])"
  using assms
proof (induction kvs arbitrary: kv s)
  case Nil
  then show ?case by (simp add: scan_member)
next
  case (Cons kv2 kvs)
  have "json_step (BeginString, [ObjectKey]) CHR 0x22 = Some (InString, [ObjectKey])"
    by (simp add: json_begin_string_def json_space_def)
  from Cons.IH [OF this, of kv2] show ?case
    using scan_member [OF Cons.prems] by (simp add: json_scan_append json_space_def)
qed

lemma json_object_valid: "kvs \<noteq> [] \<Longrightarrow> valid_json (json_object kvs)"
proof -
  assume "kvs \<noteq> []"
  then obtain kv kvs' where kvs: "kvs = kv # kvs'" by (cases kvs) auto
  have "json_step (BeginValue, []) CHR ''{'' = Some (BeginStringOrEmpty, [ObjectKey])"
    by (simp add: json_begin_value_def json_space_def json_push_def json_max_depth_def)
  moreover have "json_step (BeginStringOrEmpty, [ObjectKey]) CHR 0x22 = Some (InString, [ObjectKey])"
    by (simp add: json_begin_string_def json_space_def)
  then have "json_scan (BeginStringOrEmpty, [ObjectKey]) (join '','' (map json_member kvs)) = Some (EndValue, [ObjectValue])"
    unfolding kvs by (rule scan_members)
  ultimately have "json_scan (BeginValue, []) (json_object kvs) = Some (EndTop, [])"
    by (simp add: json_object_def json_scan_append json_space_def json_pop_def)
  then show ?thesis by (simp add: valid_json_def json_at_top_def)
qed

end
