(* ===== verification/Dispatch.thy ===== *)
theory Dispatch
  imports Outbox Sessions Conditions JsonText
begin

text \<open>
  The notification worker of \<open>internal/daemon/daemon.go\<close> with \<open>Notify\<close> of
  \<open>internal/connector/runtime.go\<close>: it claims a wake-up, rings every run of the recipient
  through the adapter of its harness, records each attempt, settles the wake-up with the outcome
  and keeps the operator condition \<open>attention_unavailable\<close> up to date, until no wake-up is due.
  The adapters run other programs: they are the argument \<open>notifier\<close>, with the daemon's build
  identifier and the text of an error value. Messages of managed conversations (schema
  version 2) come from another queue, in \<open>ChannelDispatch\<close>.
\<close>

record notifier =
  nf_codex :: "registration \<Rightarrow> message \<Rightarrow> string \<times> bool"
  nf_claude :: "(registration \<Rightarrow> message \<Rightarrow> string \<times> bool) option"
  nf_opencode :: "registration \<Rightarrow> message \<Rightarrow> string \<times> bool"
  nf_error_text :: "error \<Rightarrow> string"
  nf_build_id :: string

section \<open>Ringing the sessions of an actor\<close>

text \<open>The registrations come newest first; the first of each run is rung.\<close>

fun newest_runs :: "registration list \<Rightarrow> string list \<Rightarrow> registration list" where
  "newest_runs [] seen = []"
| "newest_runs (r # rs) seen =
    (if rn_run_id r \<in> set seen then newest_runs rs seen else r # newest_runs rs (rn_run_id r # seen))"

definition rung :: "string \<times> bool \<Rightarrow> string \<Rightarrow> string \<times> string" where
  "rung answer failure = (if snd answer then (''accepted'', fst answer) else (''retryable'', failure))"

lemma newest_runs_subset: "set (newest_runs rs seen) \<subseteq> set rs"
  by (induction rs seen rule: newest_runs.induct) auto

text \<open>Result and detail of the attempt on one registration.\<close>

definition ring :: "notifier \<Rightarrow> message \<Rightarrow> registration \<Rightarrow> string \<times> string" where
  "ring nf m r =
    (if rn_harness r = ''codex'' then
       if rn_attention_mode r = ''startup-only'' then (''unsupported'', ''Codex session selected startup-only attention'')
       else rung (nf_codex nf r m) (fst (nf_codex nf r m))
     else if rn_harness r = ''claude'' then
       if rn_attention_mode r = ''startup-only'' then (''unsupported'', ''Claude session selected startup-only attention'')
       else if rn_attention_mode r = ''host-injected'' \<and> \<not> rn_host_admitted r
       then (''unsupported'', ''experimental Claude host attention has never admitted its host'')
       else (case nf_claude nf of
         None \<Rightarrow> (''unsupported'', ''Claude attention broker is unavailable'')
       | Some claude \<Rightarrow> rung (claude r m) ''registered Claude session has no active attention waiter'')
     else if rn_harness r = ''opencode'' then
       if rn_attention_mode r = ''startup-only'' then (''unsupported'', ''OpenCode session selected startup-only attention'')
       else rung (nf_opencode nf r m) (fst (nf_opencode nf r m))
     else (''unsupported'', []))"

definition attempt_of :: "notifier \<Rightarrow> string \<Rightarrow> message \<Rightarrow> registration \<Rightarrow> notification_attempt" where
  "attempt_of nf recipient m r = \<lparr>na_actor = recipient, na_run_id = rn_run_id r, na_session_id = rn_session_id r,
     na_harness = rn_harness r, na_result = fst (ring nf m r), na_detail = snd (ring nf m r)\<rparr>"

definition unregistered_attempt :: "string \<Rightarrow> notification_attempt" where
  "unregistered_attempt recipient = \<lparr>na_actor = recipient, na_run_id = [], na_session_id = [], na_harness = [],
     na_result = ''retryable'', na_detail = ''no live registration''\<rparr>"

text \<open>Each attempt is recorded in a transaction of its own; an error keeps the earlier ones.\<close>

fun record_each :: "env \<Rightarrow> message \<Rightarrow> notification_attempt list \<Rightarrow> db \<Rightarrow> error option \<times> db" where
  "record_each env m [] db = (None, db)"
| "record_each env m (a # as) db = (case RecordNotification env (msg_project_id m) (msg_id m) a db of
     Inl e \<Rightarrow> (Some e, db) | Inr db1 \<Rightarrow> record_each env m as db1)"

definition runtime_notify ::
  "env \<Rightarrow> notifier \<Rightarrow> string \<Rightarrow> message \<Rightarrow> db \<Rightarrow> (error + notification_attempt list) \<times> db" where
  "runtime_notify env nf recipient m db =
    (case LiveRegistrations env recipient db of
       Inl e \<Rightarrow> (Inl e, db)
     | Inr rs \<Rightarrow>
       let attempts = (if rs = [] then [unregistered_attempt recipient]
             else map (attempt_of nf recipient m) (newest_runs rs [])) in
       (case record_each env m attempts db of
          (Some e, db1) \<Rightarrow> (Inl e, db1) | (None, db1) \<Rightarrow> (Inr attempts, db1)))"

section \<open>The outcome\<close>

definition notificationOutcome :: "notifier \<Rightarrow> error + notification_attempt list \<Rightarrow> disposition \<times> string" where
  "notificationOutcome nf out = (case out of
     Inl e \<Rightarrow> (NotificationRetry, nf_error_text nf e)
   | Inr attempts \<Rightarrow>
       if list_ex (\<lambda>a. na_result a = ''accepted'') attempts
       then (NotificationAccepted, ''accepted; awaiting recipient claim'')
       else let retryable = filter (\<lambda>a. na_result a = ''retryable'') attempts in
         (if retryable = [] then NotificationComplete else NotificationRetry,
          case filter (\<lambda>a. na_detail a \<noteq> []) retryable of [] \<Rightarrow> [] | a # _ \<Rightarrow> na_detail a))"

definition unsupported_reason :: "string \<Rightarrow> string" where
  "unsupported_reason detail =
    (let d = lower_ascii detail in
     if contains ''startup-only'' d then ''startup_only_selected''
     else if contains ''never admitted'' d then ''host_not_attached''
     else if contains ''unavailable'' d \<or> contains ''missing'' d then ''host_attention_adapter_missing''
     else ''harness_wake_unsupported'')"

definition unsupported_observation :: "string \<Rightarrow> notification_attempt \<Rightarrow> condition_observation" where
  "unsupported_observation actor a = \<lparr>co_kind = ''attention_unavailable'', co_subject = actor,
     co_reason_code = unsupported_reason (na_detail a), co_summary = ''Automatic wake is unavailable for '' @ actor,
     co_details = json_object [(''actor'', actor), (''detail'', na_detail a), (''harness'', na_harness a),
       (''session_id'', na_session_id a)]\<rparr>"

definition observeNotificationCondition :: "env \<Rightarrow> string \<Rightarrow> notification_attempt list \<Rightarrow> db \<Rightarrow> db" where
  "observeNotificationCondition env actor attempts db =
    (if list_ex (\<lambda>a. na_result a = ''accepted'') attempts
     then (case ResolveCondition env ''attention_unavailable'' actor db of Inl _ \<Rightarrow> db | Inr db1 \<Rightarrow> db1)
     else (case filter (\<lambda>a. na_result a = ''unsupported'') attempts of
       [] \<Rightarrow> db
     | a # _ \<Rightarrow> (case ObserveCondition env (unsupported_observation actor a) db of Inl _ \<Rightarrow> db | Inr (_, db1) \<Rightarrow> db1)))"

section \<open>The worker\<close>

definition daemon_env :: "env \<Rightarrow> notifier \<Rightarrow> env" where
  "daemon_env env nf = env\<lparr>e_caller := WithCaller \<lparr>ca_actor = [], ca_run_id = [], ca_client = ''hollerd/0.1'',
     ca_build_id = nf_build_id nf, ca_daemon_build_id = nf_build_id nf\<rparr>\<rparr>"

text \<open>One turn: \<open>None\<close> when there is nothing to claim and the worker waits for its ticker.\<close>

definition worker_turn :: "env \<Rightarrow> notifier \<Rightarrow> db \<Rightarrow> db option" where
  "worker_turn env nf db = (case ClaimNotification env db of
     Inl _ \<Rightarrow> None
   | Inr (job, db1) \<Rightarrow>
     let (out, db2) = runtime_notify (daemon_env env nf) nf (nj_recipient job) (nj_message job) db1;
         (disposition, detail) = notificationOutcome nf out;
         db3 = (case FinishNotification env job disposition detail db2 of Inl _ \<Rightarrow> db2 | Inr db' \<Rightarrow> db') in
     Some (observeNotificationCondition env (nj_recipient job) (case out of Inl _ \<Rightarrow> [] | Inr attempts \<Rightarrow> attempts) db3))"

partial_function (option) worker_drain :: "env \<Rightarrow> notifier \<Rightarrow> db \<Rightarrow> db option" where
  "worker_drain env nf db = (case worker_turn env nf db of None \<Rightarrow> Some db | Some db1 \<Rightarrow> worker_drain env nf db1)"

declare worker_drain.simps [code]

end
