(* ===== verification/DispatchProps.thy ===== *)
theory DispatchProps
  imports Dispatch
begin

text \<open>
  Properties of the notification worker: whom it rings, that one pass over the queue ends, and
  what it leaves behind. The bound on a pass is the number of due wake-ups, which every turn
  lowers: a claim moves its wake-up out of reach for thirty seconds, and no outcome makes one
  due again at once.
\<close>

section \<open>Whom a notification rings\<close>

lemma sort_key_Nil_iff: "sort_key k xs = [] \<longleftrightarrow> xs = []"
  by (metis length_0_conv length_sort)

lemma newest_runs_runs: "rn_run_id ` set (newest_runs rs seen) = rn_run_id ` set rs - set seen"
  by (induction rs seen rule: newest_runs.induct) auto

lemma newest_runs_distinct: "distinct (map rn_run_id (newest_runs rs seen))"
  by (induction rs seen rule: newest_runs.induct) (simp_all add: newest_runs_runs)

lemma newest_runs_first:
  "g \<in> set (newest_runs rs seen) \<Longrightarrow>
    rn_run_id g \<notin> set seen \<and> (\<exists>us vs. rs = us @ g # vs \<and> rn_run_id g \<notin> rn_run_id ` set us)"
proof (induction rs seen rule: newest_runs.induct)
  case (2 r rs seen)
  have later: "\<exists>us vs. r # rs = us @ g # vs \<and> rn_run_id g \<notin> rn_run_id ` set us"
    if "rs = us @ g # vs" "rn_run_id g \<notin> rn_run_id ` set us" "rn_run_id g \<noteq> rn_run_id r" for us vs
    using that by (intro exI [of _ "r # us"] exI [of _ vs]) simp
  show ?case
  proof (cases "rn_run_id r \<in> set seen")
    case True
    then show ?thesis using 2(1) 2(3) later by fastforce
  next
    case False
    show ?thesis
    proof (cases "g = r")
      case True
      have "r # rs = [] @ g # rs \<and> rn_run_id g \<notin> rn_run_id ` set []" using True by simp
      then show ?thesis using True False by blast
    next
      case ne: False
      have "g \<in> set (newest_runs rs (rn_run_id r # seen))" using 2(3) False ne by simp
      then show ?thesis using 2(2) [OF False] later by fastforce
    qed
  qed
qed simp

lemma RecordNotification_event:
  assumes "RecordNotification env p mid a db = Inr db'"
  shows "\<exists>e. events db' = events db @ [e] \<and> ev_kind e = ''delivery.notification'' \<and> ev_message_id e = nullif mid \<and>
      ev_actor_id e = nullif (na_actor a)"
    and "same_mail db db'" "same_actors db db'" "conditions db' = conditions db" "registrations db' = registrations db"
proof -
  obtain pl where ev: "appendEvent env p ''operational'' ''delivery.notification'' mid (na_actor a) pl db = Inr db'"
    using assms by (auto simp: RecordNotification_def Let_def)
  show "\<exists>e. events db' = events db @ [e] \<and> ev_kind e = ''delivery.notification'' \<and> ev_message_id e = nullif mid \<and>
      ev_actor_id e = nullif (na_actor a)"
    using appendEvent_shape [OF ev] by auto
  show "same_mail db db'" "same_actors db db'" using appendEvent_same [OF ev] by simp_all
  show "conditions db' = conditions db" "registrations db' = registrations db" using appendEvent_frame [OF ev] by simp_all
qed

lemma record_each_events:
  "record_each env m as db = (out, db') \<Longrightarrow> same_mail db db' \<and> conditions db' = conditions db \<and>
    (\<exists>es. events db' = events db @ es \<and> (out = None \<longrightarrow> map ev_actor_id es = map (\<lambda>a. nullif (na_actor a)) as) \<and>
      (\<forall>e\<in>set es. ev_kind e = ''delivery.notification'' \<and> ev_message_id e = nullif (msg_id m)))"
proof (induction env m "as" db rule: record_each.induct)
  case (2 env m a as' db)
  show ?case
  proof (cases "RecordNotification env (msg_project_id m) (msg_id m) a db")
    case (Inl e)
    then show ?thesis using 2(2) by (auto simp: same_mail_def)
  next
    case (Inr db1)
    note r = RecordNotification_event [OF Inr]
    obtain e where e: "events db1 = events db @ [e]" "ev_kind e = ''delivery.notification''" "ev_message_id e = nullif (msg_id m)"
      "ev_actor_id e = nullif (na_actor a)" using r(1) by blast
    obtain es where es: "same_mail db1 db'" "conditions db' = conditions db1" "events db' = events db1 @ es"
      "out = None \<longrightarrow> map ev_actor_id es = map (\<lambda>a. nullif (na_actor a)) as'"
      "\<forall>e\<in>set es. ev_kind e = ''delivery.notification'' \<and> ev_message_id e = nullif (msg_id m)"
      using 2(1) [OF Inr] 2(2) Inr by auto
    have "same_mail db db'" using r(2) es(1) by (rule same_mail_trans)
    then show ?thesis using e es r(4) by (intro conjI exI [of _ "e # es"]) auto
  qed
qed (auto simp: same_mail_def)

lemma runtime_notify_frame:
  assumes "runtime_notify env nf a m db = (out, db')"
  shows "same_mail db db'" "conditions db' = conditions db"
proof -
  obtain "as" o' where "record_each env m as db = (o', db') \<or> db' = db"
    using assms by (auto simp: runtime_notify_def Let_def split: sum.splits prod.splits option.splits)
  then show "same_mail db db'" "conditions db' = conditions db"
    using record_each_events by (auto simp: same_mail_def)
qed

lemma newest_of_run:
  assumes "g \<in> set (newest_runs (map reg rows) [])" and "sorted (map k rows)" and "\<And>r. rn_run_id (reg r) = rg_run_id r"
  shows "\<exists>r\<in>set rows. g = reg r \<and> (\<forall>r'\<in>set rows. rg_run_id r' = rg_run_id r \<longrightarrow> k r \<le> k r')"
proof -
  obtain us vs where uv: "map reg rows = us @ g # vs" "rn_run_id g \<notin> rn_run_id ` set us"
    using newest_runs_first [OF assms(1)] by blast
  then obtain ru r rv where r: "rows = ru @ r # rv" "us = map reg ru" "g = reg r"
    by (auto simp: map_eq_append_conv map_eq_Cons_conv)
  have "\<forall>x\<in>set ru. rg_run_id x \<noteq> rg_run_id r" using uv(2) r assms(3) by (auto simp: image_iff)
  moreover have "\<forall>x\<in>set rv. k r \<le> k x" using assms(2) by (simp add: r sorted_append)
  ultimately show ?thesis using r by auto
qed

text \<open>
  A notification rings every run of the recipient once, through its newest live session:
  the attempts name each run with a live session exactly once, each with the session of that run
  that registered last, and one event per attempt is in the log; an actor without a live session
  gets one attempt, to be retried.
\<close>
theorem notify_rings_runs:
  assumes "runtime_notify env nf actor m db = (Inr attempts, db')"
  shows "(if actorHasLivePresence db (trim actor) (e_now env)
     then distinct (map na_run_id attempts) \<and>
       na_run_id ` set attempts = rg_run_id ` {r \<in> set (registrations db). rg_actor r = trim actor \<and> live_registration (e_now env) r} \<and>
       (\<forall>a\<in>set attempts. \<exists>r\<in>set (registrations db). rg_actor r = trim actor \<and> live_registration (e_now env) r \<and>
         na_run_id a = rg_run_id r \<and> na_session_id a = rg_session_id r \<and>
         (\<forall>r'\<in>set (registrations db). rg_actor r' = trim actor \<and> live_registration (e_now env) r' \<and> rg_run_id r' = rg_run_id r \<longrightarrow>
           rg_registered_at r' \<le> rg_registered_at r))
     else attempts = [unregistered_attempt actor]) \<and>
    (\<exists>es. events db' = events db @ es \<and> length es = length attempts \<and> (\<forall>e\<in>set es. ev_kind e = ''delivery.notification''))"
proof -
  let ?live = "filter (\<lambda>r. rg_actor r = trim actor \<and> live_registration (e_now env) r) (registrations db)"
  let ?k = "\<lambda>r. (- rg_registered_at r, rg_run_id r, rg_session_id r)"
  let ?rows = "sort_key ?k ?live"
  let ?reg = "\<lambda>r. registration_of r (admitted_session db r)"
  have lr: "LiveRegistrations env actor db = Inr (map ?reg ?rows)"
    using assms by (auto simp: runtime_notify_def LiveRegistrations_def Let_def requireE_def split: sum.splits if_splits)
  have att: "attempts = (if map ?reg ?rows = [] then [unregistered_attempt actor]
      else map (attempt_of nf actor m) (newest_runs (map ?reg ?rows) []))"
    and rec: "record_each env m attempts db = (None, db')"
    using assms unfolding runtime_notify_def lr by (auto simp: Let_def split: prod.splits option.splits if_splits)
  have log: "\<exists>es. events db' = events db @ es \<and> length es = length attempts \<and> (\<forall>e\<in>set es. ev_kind e = ''delivery.notification'')"
    using record_each_events [OF rec] by (metis length_map)
  have live: "actorHasLivePresence db (trim actor) (e_now env) \<longleftrightarrow> ?live \<noteq> []"
    by (auto simp: actorHasLivePresence_def list_ex_iff filter_empty_conv)
  have nil: "map ?reg ?rows = [] \<longleftrightarrow> ?live = []" by (simp add: sort_key_Nil_iff)
  have "if actorHasLivePresence db (trim actor) (e_now env)
     then distinct (map na_run_id attempts) \<and>
       na_run_id ` set attempts = rg_run_id ` {r \<in> set (registrations db). rg_actor r = trim actor \<and> live_registration (e_now env) r} \<and>
       (\<forall>a\<in>set attempts. \<exists>r\<in>set (registrations db). rg_actor r = trim actor \<and> live_registration (e_now env) r \<and>
         na_run_id a = rg_run_id r \<and> na_session_id a = rg_session_id r \<and>
         (\<forall>r'\<in>set (registrations db). rg_actor r' = trim actor \<and> live_registration (e_now env) r' \<and> rg_run_id r' = rg_run_id r \<longrightarrow>
           rg_registered_at r' \<le> rg_registered_at r))
     else attempts = [unregistered_attempt actor]"
  proof (cases "?live = []")
    case True
    then show ?thesis using att nil live by simp
  next
    case False
    let ?rs = "newest_runs (map ?reg ?rows) []"
    have a: "attempts = map (attempt_of nf actor m) ?rs" using att nil False by simp
    have runs: "map na_run_id attempts = map rn_run_id ?rs" by (simp add: a attempt_of_def)
    have "rn_run_id ` set ?rs = rg_run_id ` set ?live"
      unfolding newest_runs_runs by (simp add: image_image registration_of_def)
    then have "na_run_id ` set attempts = rg_run_id ` {r \<in> set (registrations db). rg_actor r = trim actor \<and> live_registration (e_now env) r}"
      using runs by (metis list.set_map set_filter)
    moreover have "\<exists>r\<in>set (registrations db). rg_actor r = trim actor \<and> live_registration (e_now env) r \<and>
        na_run_id x = rg_run_id r \<and> na_session_id x = rg_session_id r \<and>
        (\<forall>r'\<in>set (registrations db). rg_actor r' = trim actor \<and> live_registration (e_now env) r' \<and> rg_run_id r' = rg_run_id r \<longrightarrow>
          rg_registered_at r' \<le> rg_registered_at r)" if x: "x \<in> set attempts" for x
    proof -
      obtain g where g: "g \<in> set ?rs" "x = attempt_of nf actor m g" using x a by auto
      have "sorted (map ?k ?rows)" by (rule sorted_sort_key)
      then obtain r where r: "r \<in> set ?rows" "g = ?reg r" "\<forall>r'\<in>set ?rows. rg_run_id r' = rg_run_id r \<longrightarrow> ?k r \<le> ?k r'"
        using newest_of_run [OF g(1), of ?k] by (auto simp: registration_of_def)
      then have "\<forall>r'\<in>set ?rows. rg_run_id r' = rg_run_id r \<longrightarrow> rg_registered_at r' \<le> rg_registered_at r"
        by (auto simp: less_eq_prod_def)
      then show ?thesis using r g(2) by (auto simp: attempt_of_def registration_of_def)
    qed
    moreover have "distinct (map na_run_id attempts)" unfolding runs by (rule newest_runs_distinct)
    ultimately show ?thesis using False live by simp
  qed
  then show ?thesis using log by blast
qed

section \<open>The worker's pass over the queue\<close>

definition due_jobs :: "int \<Rightarrow> db \<Rightarrow> nat" where
  "due_jobs now db = length (filter (open_job now) (outbox db))"

definition counts_ok :: "db \<Rightarrow> bool" where
  "counts_ok db \<longleftrightarrow> (\<forall>n\<in>set (outbox db). 0 \<le> ob_attempt n)"

lemma due_update_le:
  assumes "\<And>n. n \<in> set rows \<Longrightarrow> p n \<Longrightarrow> open_job now (f n) \<Longrightarrow> open_job now n"
  shows "length (filter (open_job now) (update_where p f rows)) \<le> length (filter (open_job now) rows)"
  using assms by (induction rows) auto

lemma due_update_less:
  assumes "\<And>n. n \<in> set rows \<Longrightarrow> p n \<Longrightarrow> \<not> open_job now (f n)" and "n \<in> set rows" and "p n" and "open_job now n"
  shows "length (filter (open_job now) (update_where p f rows)) < length (filter (open_job now) rows)"
  using assms
proof (induction rows)
  case (Cons r rows)
  have le: "length (filter (open_job now) (update_where p f rows)) \<le> length (filter (open_job now) rows)"
    by (rule due_update_le) (use Cons(2) in auto)
  show ?case
  proof (cases "n = r")
    case True
    then show ?thesis using Cons le by (simp add: less_Suc_eq_le)
  next
    case False
    then have "length (filter (open_job now) (update_where p f rows)) < length (filter (open_job now) rows)"
      using Cons by auto
    then show ?thesis using Cons(2) by auto
  qed
qed simp

lemma claim_less_due:
  assumes "ClaimNotification env db = Inr (j, db1)" and "outbox_ok db" and "counts_ok db"
  shows "due_jobs (e_now env) db1 < due_jobs (e_now env) db" "counts_ok db1" "1 \<le> nj_attempt j"
    "outbox_ok db1" "messages db1 = messages db" "deliveries db1 = deliveries db"
proof -
  let ?now = "e_now env"
  let ?rows = "expire_jobs db ?now"
  obtain n m rest where jr: "job_rows db ?now ?rows = (n, m) # rest"
    using assms(1) by (auto simp: ClaimNotification_def Let_def split: list.splits)
  let ?p = "\<lambda>r. outbox_key r = outbox_key n \<and> open_job ?now r"
  obtain msg and r :: outbox_row where db1: "db1 = db\<lparr>outbox := update_where ?p (process_row (?now + 30 * second)) ?rows\<rparr>"
    and r: "row_by outbox_key (outbox_key n) (outbox db1) = Some r"
    and j: "j = \<lparr>nj_message = msg, nj_recipient = ob_recipient n, nj_attempt = ob_attempt r\<rparr>"
    and aff: "affected ?p ?rows = 1"
    using assms(1) jr by (auto simp: ClaimNotification_def Let_def bindE_Inr_iff requireE_Inr_iff split: option.splits)
  have n: "n \<in> set ?rows" "open_job ?now n" using sort_key_Cons_in [OF jr [unfolded job_rows_def]] by auto
  have "length (filter (open_job ?now) ?rows) \<le> due_jobs ?now db"
    unfolding due_jobs_def expire_jobs_def by (rule due_update_le) (simp add: open_job_def retire_row_def)
  moreover have "length (filter (open_job ?now) (update_where ?p (process_row (?now + 30 * second)) ?rows)) <
      length (filter (open_job ?now) ?rows)"
    by (rule due_update_less [OF _ n(1)]) (use n(2) in \<open>simp_all add: open_job_def process_row_def second_def\<close>)
  ultimately show "due_jobs ?now db1 < due_jobs ?now db" by (simp add: due_jobs_def db1)
  have counts: "\<forall>n\<in>set ?rows. 0 \<le> ob_attempt n"
    using assms(3) by (auto simp: counts_ok_def expire_jobs_def set_update_where retire_row_def)
  then show "counts_ok db1" by (auto simp: counts_ok_def db1 set_update_where process_row_def)
  show "outbox_ok db1" "messages db1 = messages db" "deliveries db1 = deliveries db"
    using assms(2) by (simp_all add: db1 outbox_ok_def process_upd.map_key_update expire_jobs_def retire_upd.map_key_update)
  show "1 \<le> nj_attempt j"
  proof (rule ClaimNotificationD [OF assms(1,2)])
    fix n1
    assume "row_by outbox_key (job_key j) (outbox db) = Some n1" "nj_attempt j = ob_attempt n1 + 1"
    then show "1 \<le> nj_attempt j" using assms(3) row_by_SomeD [of outbox_key _ "outbox db" n1] by (auto simp: counts_ok_def)
  qed
qed

lemma finish_not_due:
  assumes "FinishNotification env j d detail db = Inr db'" and "1 \<le> nj_attempt j" and "counts_ok db"
  shows "due_jobs (e_now env) db' \<le> due_jobs (e_now env) db" "counts_ok db'" "outbox_ok db \<Longrightarrow> outbox_ok db'"
    "messages db' = messages db" "deliveries db' = deliveries db"
proof -
  show "outbox_ok db \<Longrightarrow> outbox_ok db'" using FinishNotification_keys [OF assms(1)] by (simp add: outbox_ok_def)
  have "due_jobs (e_now env) db' \<le> due_jobs (e_now env) db \<and> counts_ok db' \<and> messages db' = messages db \<and>
      deliveries db' = deliveries db"
    using assms(1)
  proof (cases rule: FinishNotificationD)
    case closed
    then show ?thesis using assms(3) by simp
  next
    case (running s t)
    have "\<not> open_job (e_now env) (finish_job_row s t detail' n)" for detail' n
    proof -
      have "0 < nj_attempt j * nj_attempt j" using assms(2) by simp
      then have "0 < nj_attempt j * nj_attempt j * second" by (simp add: second_def)
      then show ?thesis using running(1)
        by (auto simp: outbox_disposition_def open_job_def finish_job_row_def split: disposition.splits if_splits)
    qed
    then have "due_jobs (e_now env) db' \<le> due_jobs (e_now env) db"
      unfolding due_jobs_def running(3) by (intro due_update_le) simp
    moreover have "counts_ok db'" using assms(3) by (auto simp: counts_ok_def running(3) set_update_where finish_job_row_def)
    ultimately show ?thesis using running(4,5) by simp
  qed
  then show "due_jobs (e_now env) db' \<le> due_jobs (e_now env) db" "counts_ok db'"
    "messages db' = messages db" "deliveries db' = deliveries db" by simp_all
qed

lemma observe_frame: "\<exists>cs. observeNotificationCondition env actor attempts db = db\<lparr>conditions := cs\<rparr>"
proof -
  have id: "\<exists>cs. db = db\<lparr>conditions := cs\<rparr>" by (intro exI [of _ "conditions db"]) simp
  have "\<exists>cs. db1 = db\<lparr>conditions := cs\<rparr>" if "ResolveCondition env ''attention_unavailable'' actor db = Inr db1" for db1
    using that by (auto simp: ResolveCondition_def Let_def bindE_Inr_iff)
  moreover have "\<exists>cs. db1 = db\<lparr>conditions := cs\<rparr>" if "ObserveCondition env q db = Inr (c, db1)" for q c db1
    using that by (auto simp: ObserveCondition_def Let_def bindE_Inr_iff)
  ultimately show ?thesis
    using id by (auto simp: observeNotificationCondition_def split: sum.split list.split prod.split)
qed

lemma worker_turn_less:
  assumes "worker_turn env nf db = Some db'" and "outbox_ok db" and "counts_ok db"
  shows "due_jobs (e_now env) db' < due_jobs (e_now env) db" "outbox_ok db'" "counts_ok db'"
    "messages db' = messages db" "deliveries db' = deliveries db"
proof -
  obtain j and db1 :: db where c: "ClaimNotification env db = Inr (j, db1)"
    using assms(1) by (auto simp: worker_turn_def split: sum.splits)
  obtain out and db2 :: db where nt: "runtime_notify (daemon_env env nf) nf (nj_recipient j) (nj_message j) db1 = (out, db2)"
    by (cases "runtime_notify (daemon_env env nf) nf (nj_recipient j) (nj_message j) db1")
  have db': "db' = observeNotificationCondition env (nj_recipient j) (case out of Inl _ \<Rightarrow> [] | Inr attempts \<Rightarrow> attempts)
       (case FinishNotification env j (fst (notificationOutcome nf out)) (snd (notificationOutcome nf out)) db2 of
          Inl _ \<Rightarrow> db2 | Inr db' \<Rightarrow> db')"
    using assms(1) nt by (simp add: worker_turn_def Let_def case_prod_beta c cong: sum.case_cong)
  note cl = claim_less_due [OF c assms(2,3)]
  have same: "same_mail db1 db2" by (rule runtime_notify_frame [OF nt])
  then have db2: "outbox db2 = outbox db1" "messages db2 = messages db1" "deliveries db2 = deliveries db1"
    by (simp_all add: same_mail_def)
  define db3 where "db3 = (case FinishNotification env j (fst (notificationOutcome nf out)) (snd (notificationOutcome nf out)) db2 of
      Inl _ \<Rightarrow> db2 | Inr db' \<Rightarrow> db')"
  have "due_jobs (e_now env) db3 \<le> due_jobs (e_now env) db1 \<and> outbox_ok db3 \<and> counts_ok db3 \<and>
      messages db3 = messages db1 \<and> deliveries db3 = deliveries db1"
  proof (cases "FinishNotification env j (fst (notificationOutcome nf out)) (snd (notificationOutcome nf out)) db2")
    case (Inl e)
    then show ?thesis using cl(2,4) db2 by (simp add: db3_def due_jobs_def counts_ok_def outbox_ok_def)
  next
    case (Inr db4)
    have c2: "counts_ok db2" and o2: "outbox_ok db2" using cl(2,4) db2 by (simp_all add: counts_ok_def outbox_ok_def)
    have "db3 = db4" using Inr by (simp add: db3_def)
    then show ?thesis using finish_not_due [OF Inr cl(3) c2] o2 db2 by (simp add: due_jobs_def)
  qed
  moreover obtain cs where "db' = db3\<lparr>conditions := cs\<rparr>" using observe_frame db' unfolding db3_def by blast
  ultimately show "due_jobs (e_now env) db' < due_jobs (e_now env) db" "outbox_ok db'" "counts_ok db'"
    "messages db' = messages db" "deliveries db' = deliveries db"
    using cl by (simp_all add: due_jobs_def outbox_ok_def counts_ok_def)
qed


section \<open>Witnesses\<close>

definition sample_row :: "string \<Rightarrow> string \<Rightarrow> int \<Rightarrow> registration_row" where
  "sample_row run session t = \<lparr>rg_actor = ''alice'', rg_run_id = run, rg_harness = ''codex'', rg_attention_mode = ''native-queue'',
     rg_session_id = session, rg_delivery_handle = session, rg_project_id = ''p'', rg_working_dir = [], rg_epoch = 1,
     rg_registered_at = t, rg_updated_at = t, rg_lease_expires = 1000, rg_ended_at = None, rg_superseded_at = None\<rparr>"

definition sample_notifier :: notifier where
  "sample_notifier = \<lparr>nf_codex = (\<lambda>r m. (''queued'', rn_run_id r = ''r1'')), nf_claude = None,
     nf_opencode = (\<lambda>r m. ([], False)), nf_error_text = (\<lambda>e. []), nf_build_id = ''dev@unknown''\<rparr>"

definition sample_ring_db :: db where
  "sample_ring_db = sample_db\<lparr>registrations := [sample_row ''r1'' ''s1'' 10, sample_row ''r2'' ''s2'' 20, sample_row ''r1'' ''s3'' 30],
     outbox := [\<lparr>ob_message_id = ''m1'', ob_recipient = ''alice'', ob_state = Pending, ob_attempt = 0, ob_available_at = 10,
       ob_last_error = None, ob_created_at = 10, ob_source = LegacySource\<rparr>]\<rparr>"

definition sample_bell :: message where
  "sample_bell = projr (getMessageByID sample_ring_db ''m1'')"

definition sample_rung :: "(error + notification_attempt list) \<times> db" where
  "sample_rung = runtime_notify (sample_env 100) sample_notifier ''alice'' sample_bell sample_ring_db"

lemma notify_rings_runs_witness: "distinct (map na_run_id (projr (fst sample_rung)))"
proof -
  have "runtime_notify (sample_env 100) sample_notifier ''alice'' sample_bell sample_ring_db =
      (Inr (projr (fst sample_rung)), snd sample_rung)"
    "actorHasLivePresence sample_ring_db (trim ''alice'') (e_now (sample_env 100))" by code_simp+
  then show ?thesis using notify_rings_runs by (metis (no_types, lifting))
qed


end
