(* ===== verification/Identity.thy ===== *)
theory Identity
  imports Sessions Aliases GoUtf8
begin

text \<open>
  \<open>identity.go\<close>: binding a connection to an actor. A client asks for an exact name, or for a
  name to be allocated under a base and remembered through continuity handles
  (\<open>process:\<close>, \<open>session:\<close>, \<open>launch:\<close>, \<open>instance:\<close>); a later bind with the same
  handles gets the same actor back. One run holds an actor at a time: a bind supersedes the
  sessions of other runs, or is refused, or stays pending. Allocated names end in a digest of a
  generated seed; \<open>digest\<close> stands for the first three bytes of its SHA-256 in hexadecimal.
  The inserts keep the schema's keys because the same transaction has just looked them up.
\<close>

section \<open>Requests\<close>

datatype name_mode = NameExact | NameAllocate | NameOther string

record bind_request =
  bq_actor :: string
  bq_run :: string
  bq_mode :: name_mode
  bq_handles :: "string list"
  bq_project :: string
  bq_takeover :: bool

record bind_result =
  br_actor :: string
  br_run :: string
  br_requested :: string
  br_mode :: name_mode
  br_minted :: bool
  br_provisional :: bool
  br_reclaimed :: bool
  br_adopted_predecessor :: string
  br_pending_predecessor :: string
  br_accepted_handles :: "string list"
  br_superseded :: "registration list"

definition continuityHandleKind :: "string \<Rightarrow> string" where
  "continuityHandleKind handle = takeWhile (\<lambda>c. c \<noteq> CHR '':'') handle"

definition hasContinuityKind :: "string list \<Rightarrow> string \<Rightarrow> bool" where
  "hasContinuityKind handles wanted = list_ex (\<lambda>h. continuityHandleKind h = wanted) handles"

definition authoritative :: "string \<Rightarrow> bool" where
  "authoritative h \<longleftrightarrow> continuityHandleKind h \<noteq> ''process'' \<and> continuityHandleKind h \<noteq> ''instance''"

definition hasAuthoritativeContinuity :: "string list \<Rightarrow> bool" where
  "hasAuthoritativeContinuity handles = list_ex authoritative handles"

definition continuityHandleKinds :: "string list \<Rightarrow> string list" where
  "continuityHandleKinds handles = sort (nub (map continuityHandleKind handles))"

definition check_handle :: "string \<Rightarrow> error + unit" where
  "check_handle h =
    (let kind = continuityHandleKind h in
     bindE (requireE (h \<noteq> []) (ValidationError ''continuity_handles'' ''contains an empty handle'')) (\<lambda>_.
     bindE (ValidateTextIdentifier ''continuity_handles'' h 512) (\<lambda>_.
     bindE (requireE (kind \<noteq> [] \<and> length kind < length h \<and> length kind \<noteq> length h - 1)
       (ValidationError ''continuity_handles'' ''must contain a non-empty namespace and value'')) (\<lambda>_.
     requireE (kind \<in> {''process'', ''session'', ''launch'', ''instance''})
       (ValidationError ''continuity_handles'' ''namespace must be process, session, launch, or instance'')))))"

definition normalizeActorBindRequest :: "bind_request \<Rightarrow> error + bind_request" where
  "normalizeActorBindRequest q =
    (let actor = trim (bq_actor q); run = trim (bq_run q);
         project = (if trim (bq_project q) = [] then ''default'' else trim (bq_project q));
         handles = map trim (bq_handles q) in
     bindE (forE [(''actor'', actor, 128), (''run_id'', run, 256), (''project_id'', project, 256)] require_text) (\<lambda>_.
     bindE (requireE (bq_mode q = NameExact \<or> bq_mode q = NameAllocate)
       (ValidationError ''name_mode'' ''must be exact or allocate'')) (\<lambda>_.
     bindE (requireE (bq_mode q = NameExact \<longrightarrow> list_all (\<lambda>h. continuityHandleKind h = ''instance'') handles)
       (ValidationError ''continuity_handles'' ''exact mode accepts only the daemon-owned instance handle'')) (\<lambda>_.
     bindE (requireE (\<not> (bq_mode q = NameAllocate \<and> bq_handles q = []))
       (ValidationError ''continuity_handles'' ''requires at least one handle in allocate mode'')) (\<lambda>_.
     bindE (requireE (length (bq_handles q) \<le> 8) (ValidationError ''continuity_handles'' ''exceeds 8 entries'')) (\<lambda>_.
     bindE (forE handles check_handle) (\<lambda>_.
     Inr (q\<lparr>bq_actor := actor, bq_run := run, bq_project := project, bq_handles := sort (nub handles)\<rparr>))))))))"

section \<open>Who is present\<close>

definition runSupersededForActor :: "db \<Rightarrow> string \<Rightarrow> string \<Rightarrow> bool" where
  "runSupersededForActor db actor run =
    list_ex (\<lambda>r. rg_actor r = actor \<and> rg_run_id r = run \<and> rg_superseded_at r \<noteq> None) (registrations db)"

definition liveOtherPresences :: "db \<Rightarrow> string \<Rightarrow> string \<Rightarrow> int \<Rightarrow> registration list" where
  "liveOtherPresences db actor run now =
    map (\<lambda>r. registration_of r False) (sort_key (\<lambda>r. (- rg_registered_at r, rg_run_id r, rg_session_id r))
      (filter (\<lambda>r. rg_actor r = actor \<and> rg_run_id r \<noteq> run \<and> live_registration now r) (registrations db)))"

definition supersede_presence_row :: "int \<Rightarrow> registration_row \<Rightarrow> registration_row" where
  "supersede_presence_row now r = r\<lparr>rg_updated_at := now, rg_lease_expires := now, rg_superseded_at := Some now\<rparr>"

definition supersedePresences :: "registration list \<Rightarrow> int \<Rightarrow> db \<Rightarrow> db" where
  "supersedePresences presences now db =
    db\<lparr>registrations := fold (\<lambda>p. update_where (\<lambda>r. session_key r = (rn_actor p, rn_run_id p, rn_session_id p) \<and> attending r)
      (supersede_presence_row now)) presences (registrations db)\<rparr>"

text \<open>Superseding the sessions of other runs, with the event that reports it.\<close>

definition take_over :: "env \<Rightarrow> bind_request \<Rightarrow> string \<Rightarrow> string \<Rightarrow> registration list \<Rightarrow> db \<Rightarrow> error + db" where
  "take_over env q actor reason presences db =
    (if presences = [] then Inr db
     else appendEvent env (bq_project q) ''operational'' ''actor.presence_superseded'' [] actor
       (Some [(''run_id'', PStr (bq_run q)), (''reason'', PStr reason), (''superseded'', PInt (int (length presences)))])
       (supersedePresences presences (e_now env) db))"

section \<open>Continuity handles\<close>

definition handle_actor :: "db \<Rightarrow> string \<Rightarrow> string option" where
  "handle_actor db h = map_option cb_actor (row_by cb_handle h (continuity db))"

text \<open>The insert with \<open>ON CONFLICT DO UPDATE \<dots> WHERE\<close>: a handle of another actor is left alone.\<close>

definition bind_handle :: "string \<Rightarrow> string \<Rightarrow> int \<Rightarrow> string \<Rightarrow> continuity_row list \<Rightarrow> continuity_row list" where
  "bind_handle actor base now h rows =
    (if row_by cb_handle h rows = None
     then rows @ [\<lparr>cb_handle = h, cb_actor = actor, cb_base = base, cb_created_at = now, cb_updated_at = now\<rparr>]
     else update_where (\<lambda>c. cb_handle c = h \<and> cb_actor c = actor) (\<lambda>c. c\<lparr>cb_updated_at := now\<rparr>) rows)"

definition repoint_handle :: "string \<Rightarrow> string \<Rightarrow> int \<Rightarrow> string \<Rightarrow> continuity_row list \<Rightarrow> continuity_row list" where
  "repoint_handle actor base now h rows =
    (if row_by cb_handle h rows = None
     then rows @ [\<lparr>cb_handle = h, cb_actor = actor, cb_base = base, cb_created_at = now, cb_updated_at = now\<rparr>]
     else update_where (\<lambda>c. cb_handle c = h) (\<lambda>c. c\<lparr>cb_actor := actor, cb_base := base, cb_updated_at := now\<rparr>) rows)"

definition boundActorForHandles :: "db \<Rightarrow> string list \<Rightarrow> error + string option" where
  "boundActorForHandles db handles = (case nub (List.map_filter (handle_actor db) handles) of
     [] \<Rightarrow> Inr None | [a] \<Rightarrow> Inr (Some a) | _ \<Rightarrow> Inl ErrContinuityConflict)"

definition volatile_handle :: "string \<Rightarrow> bool" where
  "volatile_handle h \<longleftrightarrow> prefix ''process:'' (map ascii_lower h) \<or> prefix ''instance:'' (map ascii_lower h)"

definition provisionalActorIdle :: "db \<Rightarrow> string \<Rightarrow> bool" where
  "provisionalActorIdle db a \<longleftrightarrow>
    list_ex (\<lambda>r. ao_actor r = a \<and> ao_provisional r) (allocations db) \<and>
    \<not> list_ex (\<lambda>c. cb_actor c = a \<and> \<not> volatile_handle (cb_handle c)) (continuity db) \<and>
    a \<notin> pf_actor ` set (profiles db) \<and> a \<notin> rg_actor ` set (registrations db) \<and>
    a \<notin> mr_from_actor ` set (messages db) \<and> a \<notin> dl_recipient ` set (deliveries db)"

definition release_provisional :: "string \<Rightarrow> db \<Rightarrow> db" where
  "release_provisional a db = db\<lparr>continuity := filter (\<lambda>c. cb_actor c \<noteq> a) (continuity db),
     allocations := filter (\<lambda>r. \<not> (ao_actor r = a \<and> ao_provisional r)) (allocations db)\<rparr>"

text \<open>
  Handles of several actors: the one actor with an authoritative handle wins when all others
  are idle provisional allocations, which are released.
\<close>

definition resolveBoundActor :: "db \<Rightarrow> string list \<Rightarrow> error + (string option \<times> db)" where
  "resolveBoundActor db handles =
    (let actors = nub (List.map_filter (handle_actor db) handles);
         strong = nub (List.map_filter (handle_actor db) (filter authoritative handles)) in
     case actors of
       [] \<Rightarrow> Inr (None, db)
     | [a] \<Rightarrow> Inr (Some a, db)
     | _ \<Rightarrow> (case strong of
         [winner] \<Rightarrow>
           bindE (foldE (\<lambda>a d. bindE (requireE (provisionalActorIdle d a) ErrContinuityConflict) (\<lambda>_.
             Inr (release_provisional a d))) (filter (\<lambda>a. a \<noteq> winner) actors) db) (\<lambda>db1. Inr (Some winner, db1))
       | _ \<Rightarrow> Inl ErrContinuityConflict))"

text \<open>
  A new instance that presents a session whose actor is live elsewhere: pending, as the actor
  its instance is bound to already (if any), with the handles it may have.
\<close>

definition pendingLivePredecessor ::
  "db \<Rightarrow> string list \<Rightarrow> string \<Rightarrow> int \<Rightarrow> error + (string option \<times> string \<times> string list) option" where
  "pendingLivePredecessor db handles run now =
    (if \<not> hasContinuityKind handles ''instance'' then Inr None
     else let strong = nub (List.map_filter (handle_actor db) (filter authoritative handles));
              instances = nub (List.map_filter (handle_actor db) (filter (\<lambda>h. continuityHandleKind h = ''instance'') handles)) in
     case strong of
       [predecessor] \<Rightarrow>
         bindE (requireE (\<not> runSupersededForActor db predecessor run) ErrBindingStale) (\<lambda>_.
         if predecessor \<in> set instances \<or> liveOtherPresences db predecessor run now = [] then Inr None
         else bindE (requireE (length instances \<le> 1) ErrContinuityConflict) (\<lambda>_.
           let candidate = (case instances of [] \<Rightarrow> None | a # _ \<Rightarrow> Some a);
               accepted = filter (\<lambda>h. handle_actor db h = None \<or> handle_actor db h = candidate) handles in
           bindE (requireE (accepted \<noteq> []) ErrContinuityConflict) (\<lambda>_.
           Inr (Some (candidate, predecessor, accepted)))))
     | _ \<Rightarrow> Inr None)"

definition canonicalHarnessRun :: "db \<Rightarrow> string list \<Rightarrow> string \<Rightarrow> error + (string \<times> string)" where
  "canonicalHarnessRun db handles run =
    (case nub (filter (\<lambda>h. continuityHandleKind h = ''instance'') handles) of
       [] \<Rightarrow> Inr (run, [])
     | [h] \<Rightarrow> (case row_by hb_handle h (harness_bindings db) of
         None \<Rightarrow> Inr (run, h) | Some b \<Rightarrow> Inr (hb_run_id b, h))
     | _ \<Rightarrow> Inl (ValidationError ''continuity_handles'' ''contains more than one harness instance''))"

definition bindHarnessInstance :: "string \<Rightarrow> string \<Rightarrow> string \<Rightarrow> int \<Rightarrow> db \<Rightarrow> error + db" where
  "bindHarnessInstance handle actor run now db =
    (if handle = [] then Inr db
     else case row_by hb_handle handle (harness_bindings db) of
       None \<Rightarrow> Inr (db\<lparr>harness_bindings := harness_bindings db @
         [\<lparr>hb_handle = handle, hb_actor = actor, hb_run_id = run, hb_created_at = now, hb_updated_at = now\<rparr>]\<rparr>)
     | Some b \<Rightarrow>
         bindE (requireE (hb_actor b = actor \<or> \<not> actorIdentityExists db (hb_actor b)) ErrContinuityConflict) (\<lambda>_.
         Inr (db\<lparr>harness_bindings := update_where (\<lambda>x. hb_handle x = handle)
           (\<lambda>x. x\<lparr>hb_actor := actor, hb_updated_at := now\<rparr>) (harness_bindings db)\<rparr>)))"

section \<open>Allocated names\<close>

text \<open>\<open>utf8.DecodeLastRuneInString\<close>: the width of the last rune, 1 when it is not well-formed.\<close>

definition last_rune_length :: "string \<Rightarrow> nat" where
  "last_rune_length s = (case find (\<lambda>n. n \<le> length s \<and> rune (drop (length s - n) s)) [2, 3, 4] of Some n \<Rightarrow> n | None \<Rightarrow> 1)"

lemma last_rune_length_pos: "0 < last_rune_length s"
  by (auto simp: last_rune_length_def split: option.split)

function shorten_base :: "string \<Rightarrow> string" where
  "shorten_base s = (if length s \<le> 121 then s else shorten_base (take (length s - last_rune_length s) s))"
  by pat_completeness auto
termination
proof (relation "measure length")
  show "(take (length s - last_rune_length s) s, s) \<in> measure length" if "\<not> length s \<le> 121" for s
    using that last_rune_length_pos [of s] by simp
qed simp

declare shorten_base.simps [simp del]

definition actorBase :: "db \<Rightarrow> string \<Rightarrow> string \<Rightarrow> string" where
  "actorBase db actor fallback =
    (case row_by ao_actor actor (allocations db) of
       Some r \<Rightarrow> ao_base r
     | None \<Rightarrow> (case row_by cb_actor actor (continuity db) of Some c \<Rightarrow> cb_base c | None \<Rightarrow> fallback))"

definition first_ordinal :: "db \<Rightarrow> string \<Rightarrow> int" where
  "first_ordinal db base = fold max (map ao_ordinal (filter (\<lambda>r. ao_base r = base) (allocations db))) 0 + 1"

fun allocate_from :: "env \<Rightarrow> (string \<Rightarrow> string) \<Rightarrow> string \<Rightarrow> bool \<Rightarrow> int \<Rightarrow> nat \<Rightarrow> db \<Rightarrow> error + (string \<times> db)" where
  "allocate_from env digest base provisional ordinal 0 db = Inl (InternalError ''actor allocation space exhausted'')"
| "allocate_from env digest base provisional ordinal (Suc n) db =
    bindE (newID env ''actor'' db) (\<lambda>(seed, db1).
    let candidate = base @ ''-'' @ digest seed in
    bindE (ValidateTextIdentifier ''allocated_actor'' candidate 128) (\<lambda>_.
    if actorNameReserved db1 candidate then allocate_from env digest base provisional (ordinal + 1) n db1
    else Inr (candidate, db1\<lparr>allocations := allocations db1 @
      [\<lparr>ao_actor = candidate, ao_base = base, ao_ordinal = ordinal, ao_allocated_at = e_now env, ao_provisional = provisional\<rparr>]\<rparr>)))"

definition allocateActor :: "env \<Rightarrow> (string \<Rightarrow> string) \<Rightarrow> string \<Rightarrow> bool \<Rightarrow> db \<Rightarrow> error + (string \<times> db)" where
  "allocateActor env digest base0 provisional db =
    (let base = shorten_base base0 in allocate_from env digest base provisional (first_ordinal db base) 256 db)"

definition actorProvisional :: "db \<Rightarrow> string \<Rightarrow> bool" where
  "actorProvisional db a = (case row_by ao_actor a (allocations db) of None \<Rightarrow> False | Some r \<Rightarrow> ao_provisional r)"

definition finalizeActorAllocation ::
  "env \<Rightarrow> string \<Rightarrow> string \<Rightarrow> string \<Rightarrow> string list \<Rightarrow> db \<Rightarrow> error + (bool \<times> db)" where
  "finalizeActorAllocation env actor run project kinds db =
    (case row_by ao_actor actor (allocations db) of
       None \<Rightarrow> Inr (False, db)
     | Some r \<Rightarrow>
       if \<not> ao_provisional r then Inr (False, db)
       else bindE (appendEvent env project ''durable'' ''actor.minted'' [] actor
           (Some [(''run_id'', PStr run), (''base_actor'', PStr (ao_base r)), (''ordinal'', PInt (ao_ordinal r)),
             (''continuity_kinds'', PStrs kinds)])
           (reserve_name actor (e_now env) (db\<lparr>allocations := update_where (\<lambda>x. ao_actor x = actor \<and> ao_provisional x)
             (\<lambda>x. x\<lparr>ao_provisional := False\<rparr>) (allocations db)\<rparr>))) (\<lambda>db1. Inr (True, db1)))"

section \<open>BindActor\<close>

definition initial_result :: "bind_request \<Rightarrow> bind_result" where
  "initial_result q = \<lparr>br_actor = bq_actor q, br_run = bq_run q, br_requested = bq_actor q, br_mode = bq_mode q,
     br_minted = False, br_provisional = False, br_reclaimed = False, br_adopted_predecessor = [],
     br_pending_predecessor = [], br_accepted_handles = [], br_superseded = []\<rparr>"

definition bind_exact :: "env \<Rightarrow> bind_request \<Rightarrow> db \<Rightarrow> error + (bind_result \<times> db)" where
  "bind_exact env q db =
    (let actor = bq_actor q; now = e_now env in
     bindE (boundActorForHandles db (bq_handles q)) (\<lambda>bound.
     bindE (requireE (bound = None \<or> bound = Some actor) ErrContinuityConflict) (\<lambda>_.
     bindE (assertActorNameNotAlias db actor) (\<lambda>_.
     bindE (assertActorNotAdopted db actor) (\<lambda>_.
     let presences = liveOtherPresences db actor (bq_run q) now in
     bindE (requireE (presences = [] \<or> bq_takeover q) ErrActorLive) (\<lambda>_.
     bindE (take_over env q actor ''explicit_takeover'' presences db) (\<lambda>db1.
     Inr ((initial_result q)\<lparr>br_superseded := presences\<rparr>,
       db1\<lparr>continuity := fold (bind_handle actor actor now) (bq_handles q) (continuity db1)\<rparr>))))))))"

text \<open>The pending branch: no session is superseded, the handles of the predecessor stay with it.\<close>

definition bind_pending ::
  "env \<Rightarrow> (string \<Rightarrow> string) \<Rightarrow> bind_request \<Rightarrow> string option \<times> string \<times> string list \<Rightarrow> db \<Rightarrow> error + (bind_result \<times> db)" where
  "bind_pending env digest q = (\<lambda>(candidate, predecessor, accepted) db.
     bindE (case candidate of Some a \<Rightarrow> Inr (a, db) | None \<Rightarrow> allocateActor env digest (bq_actor q) True db) (\<lambda>(actor, db1).
     let db2 = db1\<lparr>continuity := fold (bind_handle actor (bq_actor q) (e_now env)) accepted (continuity db1)\<rparr>;
         r = (initial_result q)\<lparr>br_actor := actor, br_pending_predecessor := predecessor, br_accepted_handles := accepted\<rparr> in
     bindE (if hasAuthoritativeContinuity accepted
       then bindE (finalizeActorAllocation env actor (bq_run q) (bq_project q) (continuityHandleKinds accepted) db2)
         (\<lambda>(minted, db3). Inr (r\<lparr>br_minted := minted\<rparr>, db3))
       else Inr (r\<lparr>br_provisional := actorProvisional db2 actor\<rparr>, db2)) (\<lambda>(r1, db3).
     bindE (appendEvent env (bq_project q) ''operational'' ''actor.takeover_pending'' [] actor
       (Some [(''run_id'', PStr (bq_run q)), (''predecessor'', PStr predecessor)]) db3) (\<lambda>db4.
     Inr (r1, db4)))))"

text \<open>
  Which actor the handles stand for: the one they are bound to, a new one when it was adopted
  by another, a new one when they are not bound. The last component is the base of the bindings.
\<close>

definition choose_actor ::
  "env \<Rightarrow> (string \<Rightarrow> string) \<Rightarrow> bind_request \<Rightarrow> db \<Rightarrow> error + (bind_result \<times> string \<times> db)" where
  "choose_actor env digest q db =
    bindE (resolveBoundActor db (bq_handles q)) (\<lambda>(bound, db1).
    let provisional = \<not> hasAuthoritativeContinuity (bq_handles q); r = initial_result q in
    case bound of
      None \<Rightarrow>
        bindE (allocateActor env digest (bq_actor q) True db1) (\<lambda>(actor, db2).
        Inr (r\<lparr>br_actor := actor, br_provisional := provisional\<rparr>, bq_actor q, db2))
    | Some b \<Rightarrow>
        bindE (requireE (\<not> is_human_actor b) ErrChannelCapability) (\<lambda>_.
        bindE (requireE (\<not> actorArchived db1 b) ErrActorArchived) (\<lambda>_.
        bindE (requireE (hasContinuityKind (bq_handles q) ''instance'' \<longrightarrow> actorBase db1 b (bq_actor q) = bq_actor q)
          ErrContinuityConflict) (\<lambda>_.
        if adopter db1 b \<noteq> None
        then let base = actorBase db1 b (bq_actor q) in
          bindE (allocateActor env digest base True db1) (\<lambda>(actor, db2).
          Inr (r\<lparr>br_actor := actor, br_provisional := provisional, br_adopted_predecessor := b\<rparr>, base, db2))
        else bindE (requireE (\<not> runSupersededForActor db1 b (bq_run q)) ErrBindingStale) (\<lambda>_.
          Inr (r\<lparr>br_actor := b, br_reclaimed := True\<rparr>, actorBase db1 b (bq_actor q), db1))))))"

text \<open>An authoritative handle makes a provisional allocation final.\<close>

definition settle_allocation :: "env \<Rightarrow> bind_request \<Rightarrow> bind_result \<Rightarrow> db \<Rightarrow> error + (bind_result \<times> db)" where
  "settle_allocation env q r db =
    (if hasAuthoritativeContinuity (bq_handles q)
     then bindE (finalizeActorAllocation env (br_actor r) (bq_run q) (bq_project q) (continuityHandleKinds (bq_handles q)) db)
       (\<lambda>(minted, db1). Inr (r\<lparr>br_minted := minted, br_provisional := False\<rparr>, db1))
     else if br_reclaimed r then Inr (r\<lparr>br_provisional := actorProvisional db (br_actor r)\<rparr>, db)
     else Inr (r, db))"

definition bind_allocate :: "env \<Rightarrow> (string \<Rightarrow> string) \<Rightarrow> bind_request \<Rightarrow> db \<Rightarrow> error + (bind_result \<times> db)" where
  "bind_allocate env digest q db =
    bindE (pendingLivePredecessor db (bq_handles q) (bq_run q) (e_now env)) (\<lambda>pending.
    if pending \<noteq> None \<and> \<not> bq_takeover q then bind_pending env digest q (the pending) db
    else
      bindE (choose_actor env digest q db) (\<lambda>(r, base, db1).
      let actor = br_actor r; now = e_now env;
          bind = (if br_adopted_predecessor r \<noteq> [] then repoint_handle else bind_handle);
          db2 = db1\<lparr>continuity := fold (bind actor base now) (bq_handles q) (continuity db1)\<rparr> in
      bindE (settle_allocation env q r db2) (\<lambda>(r1, db3).
      if br_reclaimed r1
      then let presences = liveOtherPresences db3 actor (bq_run q) now in
        bindE (take_over env q actor ''continuity_reclaim'' presences db3) (\<lambda>db4.
        Inr (r1\<lparr>br_superseded := presences\<rparr>, db4))
      else Inr (r1, db3))))"

definition BindActor :: "env \<Rightarrow> (string \<Rightarrow> string) \<Rightarrow> bind_request \<Rightarrow> db \<Rightarrow> error + (bind_result \<times> db)" where
  "BindActor env digest request db =
    bindE (requireE (\<not> is_human_actor (bq_actor request)) ErrChannelCapability) (\<lambda>_.
    bindE (normalizeActorBindRequest request) (\<lambda>q0.
    bindE (requireE (\<not> is_human_actor (bq_actor q0)) ErrChannelCapability) (\<lambda>_.
    bindE (canonicalHarnessRun db (bq_handles q0) (bq_run q0)) (\<lambda>(run, instance_handle).
    let q = q0\<lparr>bq_run := run\<rparr> in
    bindE (requireE (\<not> (bq_mode q = NameExact \<and> actorArchived db (bq_actor q))) ErrActorArchived) (\<lambda>_.
    bindE (if bq_mode q = NameExact then bind_exact env q db else bind_allocate env digest q db) (\<lambda>(r, db1).
    bindE (requireE (\<not> is_human_actor (br_actor r)) ErrChannelCapability) (\<lambda>_.
    let db2 = (if br_provisional r then db1 else reserve_name (br_actor r) (e_now env) db1) in
    bindE (bindHarnessInstance instance_handle (br_actor r) run (e_now env) db2) (\<lambda>db3.
    Inr (r, db3)))))))))"

section \<open>The other operations\<close>

definition ReserveActorName :: "env \<Rightarrow> string \<Rightarrow> db \<Rightarrow> error + db" where
  "ReserveActorName env actor0 db =
    (let actor = trim actor0 in
     bindE (requireE (\<not> is_human_actor actor) ErrChannelCapability) (\<lambda>_.
     bindE (require_text (''actor'', actor, 128)) (\<lambda>_.
     bindE (assertActorNameNotAlias db actor) (\<lambda>_.
     Inr (reserve_name actor (e_now env) db)))))"

definition FinalizeActorAllocation :: "env \<Rightarrow> string \<Rightarrow> string \<Rightarrow> string \<Rightarrow> string list \<Rightarrow> db \<Rightarrow> error + db" where
  "FinalizeActorAllocation env actor run project handles db =
    bindE (finalizeActorAllocation env actor run project (continuityHandleKinds handles) db) (\<lambda>(_, db1). Inr db1)"

definition CurrentActorForContinuity :: "db \<Rightarrow> string list \<Rightarrow> error + string" where
  "CurrentActorForContinuity db handles =
    bindE (boundActorForHandles db handles) (\<lambda>bound. case bound of None \<Rightarrow> Inl ErrNotFound | Some a \<Rightarrow> Inr a)"

definition ReleaseProvisionalActor :: "string \<Rightarrow> db \<Rightarrow> db" where
  "ReleaseProvisionalActor actor db =
    (if provisionalActorIdle db actor
     then (release_provisional actor db)\<lparr>harness_bindings := filter (\<lambda>h. hb_actor h \<noteq> actor) (harness_bindings db)\<rparr>
     else db)"

end
