(* ===== verification/IdentityProps.thy ===== *)
theory IdentityProps
  imports Identity SessionProps
begin

text \<open>
  Properties of actor binding: one run holds an actor, allocated names are new, and a client
  that comes back with its handles gets its actor back. Names of more than 121 bytes are the
  exception: their allocation is recorded under a shortened base.
\<close>

section \<open>What the steps leave alone\<close>

lemma resolveBoundActor_shape:
  assumes "resolveBoundActor db handles = Inr (x, db')"
  shows "\<exists>cs as. db' = db\<lparr>continuity := cs, allocations := as\<rparr>"
proof -
  have id: "\<exists>cs as. db = db\<lparr>continuity := cs, allocations := as\<rparr>"
    by (rule exI [of _ "continuity db"], rule exI [of _ "allocations db"]) simp
  have step: "\<exists>cs as. d2 = db\<lparr>continuity := cs, allocations := as\<rparr>"
    if ex: "\<exists>cs as. d1 = db\<lparr>continuity := cs, allocations := as\<rparr>"
      and run: "bindE (requireE (provisionalActorIdle d1 a) ErrContinuityConflict) (\<lambda>_. Inr (release_provisional a d1)) = Inr d2"
    for a and d1 d2 :: db
  proof -
    obtain cs as where "d1 = db\<lparr>continuity := cs, allocations := as\<rparr>" using ex by blast
    then have "d2 = db\<lparr>continuity := filter (\<lambda>c. cb_actor c \<noteq> a) cs,
        allocations := filter (\<lambda>r. \<not> (ao_actor r = a \<and> ao_provisional r)) as\<rparr>"
      using run by (auto simp: bindE_Inr_iff release_provisional_def)
    then show ?thesis by blast
  qed
  have "\<exists>cs as. d = db\<lparr>continuity := cs, allocations := as\<rparr>"
    if "foldE (\<lambda>a d. bindE (requireE (provisionalActorIdle d a) ErrContinuityConflict) (\<lambda>_. Inr (release_provisional a d))) ys db = Inr d" for ys d
    by (rule foldE_inv [where P = "\<lambda>d. \<exists>cs as. d = db\<lparr>continuity := cs, allocations := as\<rparr>", OF that id]) (rule step)
  then show ?thesis
    using assms id by (auto simp: resolveBoundActor_def Let_def bindE_Inr_iff split: list.splits)
qed

lemma allocate_from_shape:
  assumes "allocate_from env digest base pr ordinal n db = Inr (a, db')"
  shows "\<exists>seed ids row. db' = db\<lparr>db_ids := ids, allocations := allocations db @ [row]\<rparr> \<and> ao_actor row = a \<and> ao_base row = base \<and>
    ao_provisional row = pr \<and> \<not> actorNameReserved db a \<and> a = base @ ''-'' @ digest seed \<and> length a \<le> 128"
  using assms
proof (induction env digest base pr ordinal n db rule: allocate_from.induct)
  case (2 env digest base pr ordinal n db)
  obtain seed where id: "e_gen env ''actor'' (db_ids db) = Some seed"
    and new: "newID env ''actor'' db = Inr (seed, db\<lparr>db_ids := Suc (db_ids db)\<rparr>)"
    using 2(2) by (auto simp: bindE_Inr_iff newID_Inr_iff)
  let ?db1 = "db\<lparr>db_ids := Suc (db_ids db)\<rparr>" and ?a = "base @ ''-'' @ digest seed"
  have res: "actorNameReserved ?db1 x = actorNameReserved db x" for x by (simp add: actorNameReserved_def)
  have val: "ValidateTextIdentifier ''allocated_actor'' ?a 128 = Inr ()"
    using 2(2) by (auto simp: new bindE_Inr_iff Let_def)
  show ?case
  proof (cases "actorNameReserved db ?a")
    case True
    then have "allocate_from env digest base pr (ordinal + 1) n ?db1 = Inr (a, db')"
      using 2(2) new val res by (simp add: Let_def)
    moreover have "actorNameReserved ?db1 (base @ ''-'' @ digest seed)" using True res by simp
    ultimately obtain seed' ids row where "db' = ?db1\<lparr>db_ids := ids, allocations := allocations ?db1 @ [row]\<rparr>" and
      row: "ao_actor row = a" "ao_base row = base" "ao_provisional row = pr" "\<not> actorNameReserved ?db1 a"
        "a = base @ ''-'' @ digest seed'" "length a \<le> 128"
      using 2(1) [OF new refl refl val] by blast
    then have "db' = db\<lparr>db_ids := ids, allocations := allocations db @ [row]\<rparr>" by simp
    then show ?thesis using row res by blast
  next
    case False
    define c where "c = ?a"
    let ?row = "\<lparr>ao_actor = c, ao_base = base, ao_ordinal = ordinal, ao_allocated_at = e_now env, ao_provisional = pr\<rparr>"
    have "allocate_from env digest base pr ordinal (Suc n) db =
        Inr (c, db\<lparr>db_ids := Suc (db_ids db), allocations := allocations db @ [?row]\<rparr>)"
      using False val unfolding c_def by (simp add: Let_def new res)
    then have "a = c" "db' = db\<lparr>db_ids := Suc (db_ids db), allocations := allocations db @ [?row]\<rparr>"
      unfolding 2(2) by (simp_all only: sum.inject prod.inject)
    moreover have "length c \<le> 128" using val by (simp add: c_def ValidateTextIdentifier_Inr)
    ultimately have "db' = db\<lparr>db_ids := Suc (db_ids db), allocations := allocations db @ [?row]\<rparr> \<and> ao_actor ?row = a \<and>
        ao_base ?row = base \<and> ao_provisional ?row = pr \<and> \<not> actorNameReserved db a \<and> a = base @ ''-'' @ digest seed \<and> length a \<le> 128"
      using False by (simp add: c_def)
    then show ?thesis by blast
  qed
qed simp

lemma allocateActor_shape:
  assumes "allocateActor env digest base pr db = Inr (a, db')"
  shows "\<exists>seed ids row. db' = db\<lparr>db_ids := ids, allocations := allocations db @ [row]\<rparr> \<and> ao_actor row = a \<and>
    ao_base row = shorten_base base \<and> ao_provisional row = pr \<and> \<not> actorNameReserved db a \<and> a = shorten_base base @ ''-'' @ digest seed"
  using allocate_from_shape assms unfolding allocateActor_def Let_def by fastforce

lemma shorten_base_length: "length (shorten_base s) \<le> 121"
proof (induction s rule: shorten_base.induct)
  case (1 s)
  then show ?case by (cases "length s \<le> 121") (simp_all add: shorten_base.simps [of s])
qed

lemma shorten_base_prefix: "prefix (shorten_base s) s"
proof (induction s rule: shorten_base.induct)
  case (1 s)
  then show ?case
    by (cases "length s \<le> 121") (auto simp: shorten_base.simps [of s] intro: prefix_order.trans take_is_prefix)
qed

lemma shorten_base_id: "length s \<le> 121 \<Longrightarrow> shorten_base s = s"
  by (simp add: shorten_base.simps)

interpretation settle_upd: keyed_update ao_actor "\<lambda>x. x\<lparr>ao_provisional := False\<rparr>"
  by unfold_locales simp

lemma finalizeActorAllocation_shape:
  assumes "finalizeActorAllocation env actor run project kinds db = Inr (minted, db')"
  shows "same_mail db db'" "registrations db' = registrations db" "continuity db' = continuity db"
    "harness_bindings db' = harness_bindings db" "adoptions db' = adoptions db" "lifecycle db' = lifecycle db"
    "\<not> actorProvisional db' actor"
    "map_option ao_base (row_by ao_actor x (allocations db')) = map_option ao_base (row_by ao_actor x (allocations db))"
    "minted \<longleftrightarrow> actorProvisional db actor"
proof -
  let ?rows = "update_where (\<lambda>x. ao_actor x = actor \<and> ao_provisional x) (\<lambda>x. x\<lparr>ao_provisional := False\<rparr>) (allocations db)"
  note rows = settle_upd.row_by_update
  have "same_mail db db' \<and> registrations db' = registrations db \<and> continuity db' = continuity db \<and>
    harness_bindings db' = harness_bindings db \<and> adoptions db' = adoptions db \<and> lifecycle db' = lifecycle db \<and>
    \<not> actorProvisional db' actor \<and>
    map_option ao_base (row_by ao_actor x (allocations db')) = map_option ao_base (row_by ao_actor x (allocations db)) \<and>
    (minted \<longleftrightarrow> actorProvisional db actor)"
  proof (cases "actorProvisional db actor")
    case True
    then obtain r pl where r: "row_by ao_actor actor (allocations db) = Some r" "ao_provisional r"
      and ev: "appendEvent env project ''durable'' ''actor.minted'' [] actor pl
        (reserve_name actor (e_now env) (db\<lparr>allocations := ?rows\<rparr>)) = Inr db'" and m: minted
      using assms by (auto simp: finalizeActorAllocation_def actorProvisional_def bindE_Inr_iff split: option.splits)
    obtain ns where ns: "reserve_name actor (e_now env) (db\<lparr>allocations := ?rows\<rparr>) = db\<lparr>allocations := ?rows, actor_names := ns\<rparr>"
      using reserve_name_shape [of actor "e_now env" "db\<lparr>allocations := ?rows\<rparr>"] by auto
    have al: "allocations db' = ?rows" using appendEvent_frame [OF ev] by (simp add: ns)
    have "ao_actor r = actor" using row_by_SomeD [OF r(1)] by simp
    then have "\<not> actorProvisional db' actor" using r by (simp add: actorProvisional_def al rows)
    moreover have "map_option ao_base (row_by ao_actor x (allocations db')) = map_option ao_base (row_by ao_actor x (allocations db))"
      unfolding al rows option.map_comp by (rule option.map_cong) simp_all
    ultimately show ?thesis using appendEvent_frame [OF ev] True m by (simp add: ns same_mail_def)
  next
    case False
    then show ?thesis using assms
      by (auto simp: finalizeActorAllocation_def actorProvisional_def same_mail_def split: option.splits if_splits)
  qed
  then show "same_mail db db'" "registrations db' = registrations db" "continuity db' = continuity db"
    "harness_bindings db' = harness_bindings db" "adoptions db' = adoptions db" "lifecycle db' = lifecycle db"
    "\<not> actorProvisional db' actor"
    "map_option ao_base (row_by ao_actor x (allocations db')) = map_option ao_base (row_by ao_actor x (allocations db))"
    "minted \<longleftrightarrow> actorProvisional db actor" by simp_all
qed

section \<open>Taking over\<close>

lemma fold_supersede:
  assumes "\<And>r. key (f r) = key r" and "\<And>r. \<not> P (f r)"
  shows "fold (\<lambda>p. update_where (\<lambda>r. key r = k p \<and> P r) f) ps rows = update_where (\<lambda>r. key r \<in> k ` set ps \<and> P r) f rows"
proof (induction ps arbitrary: rows)
  case Nil
  show ?case by (simp add: update_where_none)
next
  case (Cons p ps)
  have "update_where (\<lambda>r. key r \<in> k ` set ps \<and> P r) f (update_where (\<lambda>r. key r = k p \<and> P r) f rows) =
      update_where (\<lambda>r. key r \<in> k ` set (p # ps) \<and> P r) f rows"
    using assms by (induction rows) auto
  then show ?case using Cons by simp
qed

lemma supersede_not_attending: "\<not> attending (supersede_presence_row now r)"
  by (simp add: supersede_presence_row_def attending_def)

lemma take_over_clears:
  assumes "take_over env q actor reason (liveOtherPresences db actor (bq_run q) (e_now env)) db = Inr db'"
  shows "\<forall>g\<in>set (registrations db'). rg_actor g = actor \<and> live_registration (e_now env) g \<longrightarrow> rg_run_id g = bq_run q"
    "same_mail db db'" "continuity db' = continuity db" "harness_bindings db' = harness_bindings db"
    "allocations db' = allocations db" "adoptions db' = adoptions db" "lifecycle db' = lifecycle db"
proof -
  let ?now = "e_now env"
  let ?ps = "liveOtherPresences db actor (bq_run q) ?now"
  let ?k = "\<lambda>p. (rn_actor p, rn_run_id p, rn_session_id p)"
  have keys: "?k ` set ?ps = session_key ` {r \<in> set (registrations db). rg_actor r = actor \<and> rg_run_id r \<noteq> bq_run q \<and> live_registration ?now r}"
    by (simp add: liveOtherPresences_def image_image registration_of_def)
  let ?rows = "update_where (\<lambda>r. session_key r \<in> ?k ` set ?ps \<and> attending r) (supersede_presence_row ?now) (registrations db)"
  have rows: "fold (\<lambda>p. update_where (\<lambda>r. session_key r = ?k p \<and> attending r) (supersede_presence_row ?now)) ?ps (registrations db) = ?rows"
    by (rule fold_supersede) (simp_all add: supersede_presence_row_def supersede_not_attending [unfolded supersede_presence_row_def])
  have shape: "registrations db' = ?rows \<and> same_mail db db' \<and> continuity db' = continuity db \<and>
    harness_bindings db' = harness_bindings db \<and> allocations db' = allocations db \<and> adoptions db' = adoptions db \<and>
    lifecycle db' = lifecycle db"
  proof (cases "?ps = []")
    case True
    then have "db' = db" using assms by (simp add: take_over_def)
    moreover have "?rows = registrations db" using True by (simp add: update_where_none)
    ultimately show ?thesis by (simp add: same_mail_def)
  next
    case False
    then obtain pl where ev: "appendEvent env (bq_project q) ''operational'' ''actor.presence_superseded'' [] actor pl
        (supersedePresences ?ps ?now db) = Inr db'"
      using assms by (auto simp: take_over_def)
    show ?thesis using appendEvent_frame [OF ev] rows by (simp add: supersedePresences_def same_mail_def)
  qed
  show "\<forall>g\<in>set (registrations db'). rg_actor g = actor \<and> live_registration ?now g \<longrightarrow> rg_run_id g = bq_run q"
  proof (intro ballI impI)
    fix g
    assume "g \<in> set (registrations db')" and g: "rg_actor g = actor \<and> live_registration ?now g"
    then obtain r where r: "r \<in> set (registrations db)"
      "g = (if session_key r \<in> ?k ` set ?ps \<and> attending r then supersede_presence_row ?now r else r)"
      using shape by (auto dest: in_update_whereD)
    have "attending g" using g by (simp add: live_registration_def attending_def)
    then have nc: "\<not> (session_key r \<in> ?k ` set ?ps \<and> attending r)" using r(2) supersede_not_attending by auto
    then have "g = r" using r(2) by auto
    then show "rg_run_id g = bq_run q" using nc r(1) g \<open>attending g\<close> unfolding keys by blast
  qed
  show "same_mail db db'" "continuity db' = continuity db" "harness_bindings db' = harness_bindings db"
    "allocations db' = allocations db" "adoptions db' = adoptions db" "lifecycle db' = lifecycle db" using shape by simp_all
qed

section \<open>The steps of a bind\<close>

lemma choose_actorD:
  assumes "choose_actor env digest q db = Inr (r, base, db')"
  obtains (reclaimed) b where "resolveBoundActor db (bq_handles q) = Inr (Some b, db')"
      "r = (initial_result q)\<lparr>br_actor := b, br_reclaimed := True\<rparr>" "\<not> is_human_actor b" "\<not> actorArchived db' b"
      "hasContinuityKind (bq_handles q) ''instance'' \<longrightarrow> actorBase db' b (bq_actor q) = bq_actor q"
      "adopter db' b = None" "\<not> runSupersededForActor db' b (bq_run q)"
  | (fresh) d a where "resolveBoundActor db (bq_handles q) = Inr (None, d)" "base = bq_actor q"
      "allocateActor env digest (bq_actor q) True d = Inr (a, db')"
      "r = (initial_result q)\<lparr>br_actor := a, br_provisional := \<not> hasAuthoritativeContinuity (bq_handles q)\<rparr>"
  | (adopted) b d a where "resolveBoundActor db (bq_handles q) = Inr (Some b, d)" "base = actorBase d b (bq_actor q)"
      "hasContinuityKind (bq_handles q) ''instance'' \<longrightarrow> base = bq_actor q"
      "allocateActor env digest base True d = Inr (a, db')"
      "r = (initial_result q)\<lparr>br_actor := a, br_provisional := \<not> hasAuthoritativeContinuity (bq_handles q),
         br_adopted_predecessor := b\<rparr>"
proof -
  obtain bound and d :: db where res: "resolveBoundActor db (bq_handles q) = Inr (bound, d)"
    using assms by (auto simp: choose_actor_def bindE_Inr_iff)
  show thesis
  proof (cases bound)
    case None
    then show thesis using assms res by (auto simp: choose_actor_def bindE_Inr_iff Let_def intro: fresh)
  next
    case (Some b)
    have chk: "\<not> is_human_actor b" "\<not> actorArchived d b"
      "hasContinuityKind (bq_handles q) ''instance'' \<longrightarrow> actorBase d b (bq_actor q) = bq_actor q"
      using assms res Some by (auto simp: choose_actor_def bindE_Inr_iff requireE_Inr_iff Let_def)
    show thesis
    proof (cases "adopter d b")
      case None
      then have "\<not> runSupersededForActor d b (bq_run q)" "db' = d" "r = (initial_result q)\<lparr>br_actor := b, br_reclaimed := True\<rparr>"
        using assms res Some by (auto simp: choose_actor_def bindE_Inr_iff requireE_Inr_iff Let_def)
      then show thesis using reclaimed [of b] res Some chk None by simp
    next
      case (Some x)
      then obtain a where "allocateActor env digest (actorBase d b (bq_actor q)) True d = Inr (a, db')"
        "base = actorBase d b (bq_actor q)"
        "r = (initial_result q)\<lparr>br_actor := a, br_provisional := \<not> hasAuthoritativeContinuity (bq_handles q), br_adopted_predecessor := b\<rparr>"
        using assms res \<open>bound = Some b\<close> by (auto simp: choose_actor_def bindE_Inr_iff requireE_Inr_iff Let_def)
      then show thesis using adopted [of b d a] res \<open>bound = Some b\<close> chk by simp
    qed
  qed
qed

lemma choose_actor_run: "choose_actor env digest q db = Inr (r, base, db') \<Longrightarrow> br_run r = bq_run q \<and> br_pending_predecessor r = []"
  by (erule choose_actorD) (simp_all add: initial_result_def)

definition continuity_ok :: "db \<Rightarrow> bool" where
  "continuity_ok db \<longleftrightarrow> distinct (map cb_handle (continuity db)) \<and> (\<forall>c\<in>set (continuity db). cb_actor c \<noteq> [])"

lemma handle_actor_nonempty: "continuity_ok db \<Longrightarrow> handle_actor db h = Some a \<Longrightarrow> a \<noteq> []"
  by (auto simp: handle_actor_def continuity_ok_def dest: row_by_SomeD)

lemma pendingLivePredecessor_nonempty:
  assumes "pendingLivePredecessor db handles run now = Inr (Some (c, p, hs))" and "continuity_ok db"
  shows "p \<noteq> []"
proof -
  have "nub (List.map_filter (handle_actor db) (filter authoritative handles)) = [p]"
    using assms(1)
    by (auto simp: pendingLivePredecessor_def Let_def bindE_Inr_iff requireE_Inr_iff split: if_splits list.splits)
  then have "p \<in> set (List.map_filter (handle_actor db) (filter authoritative handles))"
    by (metis list.set_intros(1) set_nub)
  then show ?thesis using handle_actor_nonempty [OF assms(2)] by (auto simp: List.map_filter_def)
qed

lemma bind_pending_predecessor: "bind_pending env digest q (c, p, hs) db = Inr (r, db') \<Longrightarrow> br_pending_predecessor r = p"
  by (auto simp: bind_pending_def bindE_Inr_iff Let_def split: if_splits)

lemma settle_allocationD:
  assumes "settle_allocation env q r0 d2 = Inr (r1, d3)"
  shows "br_actor r1 = br_actor r0" "br_run r1 = br_run r0" "br_reclaimed r1 = br_reclaimed r0"
    "br_adopted_predecessor r1 = br_adopted_predecessor r0" "same_mail d2 d3" "continuity d3 = continuity d2"
    "harness_bindings d3 = harness_bindings d2" "adoptions d3 = adoptions d2" "lifecycle d3 = lifecycle d2"
    "registrations d3 = registrations d2"
    "\<forall>x. map_option ao_base (row_by ao_actor x (allocations d3)) = map_option ao_base (row_by ao_actor x (allocations d2))"
    "hasAuthoritativeContinuity (bq_handles q) \<longrightarrow> \<not> actorProvisional d3 (br_actor r0)"
proof -
  have "br_actor r1 = br_actor r0 \<and> br_run r1 = br_run r0 \<and> br_reclaimed r1 = br_reclaimed r0 \<and>
    br_adopted_predecessor r1 = br_adopted_predecessor r0 \<and> same_mail d2 d3 \<and> continuity d3 = continuity d2 \<and>
    harness_bindings d3 = harness_bindings d2 \<and> adoptions d3 = adoptions d2 \<and> lifecycle d3 = lifecycle d2 \<and>
    registrations d3 = registrations d2 \<and>
    (\<forall>x. map_option ao_base (row_by ao_actor x (allocations d3)) = map_option ao_base (row_by ao_actor x (allocations d2))) \<and>
    (hasAuthoritativeContinuity (bq_handles q) \<longrightarrow> \<not> actorProvisional d3 (br_actor r0))"
  proof (cases "hasAuthoritativeContinuity (bq_handles q)")
    case True
    then obtain minted where fin: "finalizeActorAllocation env (br_actor r0) (bq_run q) (bq_project q)
        (continuityHandleKinds (bq_handles q)) d2 = Inr (minted, d3)"
      and r1: "r1 = r0\<lparr>br_minted := minted, br_provisional := False\<rparr>"
      using assms by (auto simp: settle_allocation_def bindE_Inr_iff)
    show ?thesis using finalizeActorAllocation_shape [OF fin] r1 by simp
  next
    case False
    then show ?thesis using assms by (auto simp: settle_allocation_def same_mail_def split: if_splits)
  qed
  then show "br_actor r1 = br_actor r0" "br_run r1 = br_run r0" "br_reclaimed r1 = br_reclaimed r0"
    "br_adopted_predecessor r1 = br_adopted_predecessor r0" "same_mail d2 d3" "continuity d3 = continuity d2"
    "harness_bindings d3 = harness_bindings d2" "adoptions d3 = adoptions d2" "lifecycle d3 = lifecycle d2"
    "registrations d3 = registrations d2"
    "\<forall>x. map_option ao_base (row_by ao_actor x (allocations d3)) = map_option ao_base (row_by ao_actor x (allocations d2))"
    "hasAuthoritativeContinuity (bq_handles q) \<longrightarrow> \<not> actorProvisional d3 (br_actor r0)"
    by simp_all
qed

lemma bind_allocateD:
  assumes "bind_allocate env digest q db = Inr (r, db')" and "br_pending_predecessor r = []" and "continuity_ok db"
  obtains r0 base d1 where "choose_actor env digest q db = Inr (r0, base, d1)"
    "br_actor r = br_actor r0" "br_run r = bq_run q" "br_reclaimed r = br_reclaimed r0"
    "br_adopted_predecessor r = br_adopted_predecessor r0"
    "continuity db' = fold ((if br_adopted_predecessor r0 \<noteq> [] then repoint_handle else bind_handle) (br_actor r0) base (e_now env))
       (bq_handles q) (continuity d1)"
    "same_mail d1 db'" "harness_bindings db' = harness_bindings d1" "adoptions db' = adoptions d1" "lifecycle db' = lifecycle d1"
    "\<forall>x. map_option ao_base (row_by ao_actor x (allocations db')) = map_option ao_base (row_by ao_actor x (allocations d1))"
    "hasAuthoritativeContinuity (bq_handles q) \<longrightarrow> \<not> actorProvisional db' (br_actor r0)"
    "br_reclaimed r0 \<longrightarrow> (\<forall>g\<in>set (registrations db'). rg_actor g = br_actor r0 \<and> live_registration (e_now env) g \<longrightarrow> rg_run_id g = bq_run q)"
    "\<not> br_reclaimed r0 \<longrightarrow> registrations db' = registrations d1"
proof -
  obtain pending where pending: "pendingLivePredecessor db (bq_handles q) (bq_run q) (e_now env) = Inr pending"
    using assms(1) by (auto simp: bind_allocate_def bindE_Inr_iff)
  have np: "(pending \<noteq> None \<and> \<not> bq_takeover q) = False"
  proof (rule ccontr)
    assume "(pending \<noteq> None \<and> \<not> bq_takeover q) \<noteq> False"
    then have p: "pending \<noteq> None \<and> \<not> bq_takeover q" by simp
    then obtain c x hs where chs: "pending = Some (c, x, hs)" by (cases pending) auto
    then have "br_pending_predecessor r = x"
      using assms(1) pending p bind_pending_predecessor by (simp add: bind_allocate_def)
    then have "x = []" using assms(2) by simp
    then show False using pendingLivePredecessor_nonempty [OF _ assms(3)] pending chs by blast
  qed
  have after: "bindE (choose_actor env digest q db) (\<lambda>(r, base, db1).
      let actor = br_actor r; now = e_now env;
          bind = (if br_adopted_predecessor r \<noteq> [] then repoint_handle else bind_handle);
          db2 = db1\<lparr>continuity := fold (bind actor base now) (bq_handles q) (continuity db1)\<rparr> in
      bindE (settle_allocation env q r db2) (\<lambda>(r1, db3).
      if br_reclaimed r1
      then let presences = liveOtherPresences db3 actor (bq_run q) now in
        bindE (take_over env q actor ''continuity_reclaim'' presences db3) (\<lambda>db4.
        Inr (r1\<lparr>br_superseded := presences\<rparr>, db4))
      else Inr (r1, db3))) = Inr (r, db')"
    using assms(1) unfolding bind_allocate_def pending bindE_Inr np if_False .
  then obtain r0 base and d1 :: db where ch: "choose_actor env digest q db = Inr (r0, base, d1)"
    unfolding bindE_Inr_iff by auto
  let ?a = "br_actor r0" and ?bind = "if br_adopted_predecessor r0 \<noteq> [] then repoint_handle else bind_handle"
  let ?d2 = "d1\<lparr>continuity := fold (?bind ?a base (e_now env)) (bq_handles q) (continuity d1)\<rparr>"
  obtain x where x: "settle_allocation env q r0 ?d2 = Inr x" "(\<lambda>(r1, db3).
      if br_reclaimed r1
      then bindE (take_over env q ?a ''continuity_reclaim'' (liveOtherPresences db3 ?a (bq_run q) (e_now env)) db3)
        (\<lambda>db4. Inr (r1\<lparr>br_superseded := liveOtherPresences db3 ?a (bq_run q) (e_now env)\<rparr>, db4))
      else Inr (r1, db3)) x = Inr (r, db')"
    using after unfolding ch bindE_Inr prod.case Let_def unfolding bindE_Inr_iff [of "settle_allocation _ _ _ _"] by blast
  obtain r1 and d3 :: db where "x = (r1, d3)" by (cases x)
  then have step: "settle_allocation env q r0 ?d2 = Inr (r1, d3)"
    and last: "(if br_reclaimed r1
      then bindE (take_over env q ?a ''continuity_reclaim'' (liveOtherPresences d3 ?a (bq_run q) (e_now env)) d3)
        (\<lambda>db4. Inr (r1\<lparr>br_superseded := liveOtherPresences d3 ?a (bq_run q) (e_now env)\<rparr>, db4))
      else Inr (r1, d3)) = Inr (r, db')"
    using x by simp_all
  note set = settle_allocationD [OF step]
  have run: "br_run r0 = bq_run q" using choose_actor_run [OF ch] by simp
  show thesis
  proof (cases "br_reclaimed r0")
    case True
    then have "br_reclaimed r1" using set(3) by simp
    then have tk: "take_over env q ?a ''continuity_reclaim'' (liveOtherPresences d3 ?a (bq_run q) (e_now env)) d3 = Inr db'"
      and r: "r = r1\<lparr>br_superseded := liveOtherPresences d3 ?a (bq_run q) (e_now env)\<rparr>"
      using last by (auto simp: Let_def bindE_Inr_iff)
    note t = take_over_clears [OF tk]
    have "actorProvisional db' = actorProvisional d3" by (simp add: actorProvisional_def t(5) fun_eq_iff)
    moreover have "same_mail d1 db'" using set(5) t(2) by (simp add: same_mail_def)
    ultimately show thesis using that [OF ch] set run t r True by simp
  next
    case False
    then have "r = r1" "db' = d3" using last set(3) by simp_all
    moreover have "same_mail d1 d3" using set(5) by (simp add: same_mail_def)
    ultimately show thesis using that [OF ch] set run False by simp
  qed
qed

interpretation instance_upd: keyed_update hb_handle "\<lambda>x. x\<lparr>hb_actor := actor, hb_updated_at := now\<rparr>"
  by unfold_locales simp

lemma bindHarnessInstanceD:
  assumes "bindHarnessInstance h actor run now db = Inr db'"
  shows "\<exists>hs. db' = db\<lparr>harness_bindings := hs\<rparr>"
    "h \<noteq> [] \<Longrightarrow> \<exists>b. row_by hb_handle h (harness_bindings db') = Some b \<and> hb_actor b = actor \<and>
      hb_run_id b = (case row_by hb_handle h (harness_bindings db) of None \<Rightarrow> run | Some b0 \<Rightarrow> hb_run_id b0)"
proof -
  have *: "(\<exists>hs. db' = db\<lparr>harness_bindings := hs\<rparr>) \<and> (h \<noteq> [] \<longrightarrow>
    (\<exists>b. row_by hb_handle h (harness_bindings db') = Some b \<and> hb_actor b = actor \<and>
      hb_run_id b = (case row_by hb_handle h (harness_bindings db) of None \<Rightarrow> run | Some b0 \<Rightarrow> hb_run_id b0)))"
  proof (cases "h = []")
    case True
    then have "db' = db\<lparr>harness_bindings := harness_bindings db\<rparr>" using assms by (simp add: bindHarnessInstance_def)
    then show ?thesis using True by blast
  next
    case False
    show ?thesis
    proof (cases "row_by hb_handle h (harness_bindings db)")
      case None
      then have "db' = db\<lparr>harness_bindings := harness_bindings db @
          [\<lparr>hb_handle = h, hb_actor = actor, hb_run_id = run, hb_created_at = now, hb_updated_at = now\<rparr>]\<rparr>"
        using assms False by (simp add: bindHarnessInstance_def)
      then show ?thesis using None by (auto simp: row_by_append)
    next
      case (Some b0)
      then have "db' = db\<lparr>harness_bindings := update_where (\<lambda>x. hb_handle x = h)
          (\<lambda>x. x\<lparr>hb_actor := actor, hb_updated_at := now\<rparr>) (harness_bindings db)\<rparr>"
        using assms False by (auto simp: bindHarnessInstance_def bindE_Inr_iff)
      then show ?thesis using Some row_by_SomeD [OF Some] by (auto simp: instance_upd.row_by_update)
    qed
  qed
  show "\<exists>hs. db' = db\<lparr>harness_bindings := hs\<rparr>"
    "h \<noteq> [] \<Longrightarrow> \<exists>b. row_by hb_handle h (harness_bindings db') = Some b \<and> hb_actor b = actor \<and>
      hb_run_id b = (case row_by hb_handle h (harness_bindings db) of None \<Rightarrow> run | Some b0 \<Rightarrow> hb_run_id b0)"
    using * by blast+
qed

lemma BindActorD:
  assumes "BindActor env digest request db = Inr (r, db')"
  obtains q run handle db1 ns hs where "normalizeActorBindRequest request = Inr q"
    "canonicalHarnessRun db (bq_handles q) (bq_run q) = Inr (run, handle)"
    "if bq_mode q = NameExact then \<not> actorArchived db (bq_actor q) \<and> bind_exact env (q\<lparr>bq_run := run\<rparr>) db = Inr (r, db1)
     else bind_allocate env digest (q\<lparr>bq_run := run\<rparr>) db = Inr (r, db1)"
    "\<not> is_human_actor (br_actor r)" "\<not> is_human_actor (bq_actor request)" "\<not> is_human_actor (bq_actor q)"
    "bindHarnessInstance handle (br_actor r) run (e_now env) (db1\<lparr>actor_names := ns\<rparr>) = Inr db'"
    "db' = db1\<lparr>actor_names := ns, harness_bindings := hs\<rparr>"
proof -
  have h: "\<not> is_human_actor (bq_actor request)" and after: "bindE (normalizeActorBindRequest request) (\<lambda>q0.
    bindE (requireE (\<not> is_human_actor (bq_actor q0)) ErrChannelCapability) (\<lambda>_.
    bindE (canonicalHarnessRun db (bq_handles q0) (bq_run q0)) (\<lambda>(run, instance_handle).
    let q = q0\<lparr>bq_run := run\<rparr> in
    bindE (requireE (\<not> (bq_mode q = NameExact \<and> actorArchived db (bq_actor q))) ErrActorArchived) (\<lambda>_.
    bindE (if bq_mode q = NameExact then bind_exact env q db else bind_allocate env digest q db) (\<lambda>(r, db1).
    bindE (requireE (\<not> is_human_actor (br_actor r)) ErrChannelCapability) (\<lambda>_.
    let db2 = (if br_provisional r then db1 else reserve_name (br_actor r) (e_now env) db1) in
    bindE (bindHarnessInstance instance_handle (br_actor r) run (e_now env) db2) (\<lambda>db3.
    Inr (r, db3)))))))) = Inr (r, db')"
    using assms unfolding BindActor_def by (auto simp: bindE_Inr_iff requireE_Inr_iff)
  then obtain q where q: "normalizeActorBindRequest request = Inr q" "\<not> is_human_actor (bq_actor q)"
    by (auto simp: bindE_Inr_iff requireE_Inr_iff)
  obtain run handle where c: "canonicalHarnessRun db (bq_handles q) (bq_run q) = Inr (run, handle)"
    using after q by (auto simp: bindE_Inr_iff)
  let ?q = "q\<lparr>bq_run := run\<rparr>"
  have ar: "\<not> (bq_mode q = NameExact \<and> actorArchived db (bq_actor q))"
    and rest: "bindE (if bq_mode q = NameExact then bind_exact env ?q db else bind_allocate env digest ?q db) (\<lambda>(r, db1).
    bindE (requireE (\<not> is_human_actor (br_actor r)) ErrChannelCapability) (\<lambda>_.
    let db2 = (if br_provisional r then db1 else reserve_name (br_actor r) (e_now env) db1) in
    bindE (bindHarnessInstance handle (br_actor r) run (e_now env) db2) (\<lambda>db3. Inr (r, db3)))) = Inr (r, db')"
    using after q c by (auto simp: bindE_Inr requireE_Inr_iff bindE_Inr_iff [of "requireE _ _"])
  obtain db1 :: db where bound: "(if bq_mode q = NameExact then bind_exact env ?q db else bind_allocate env digest ?q db) = Inr (r, db1)"
    and human: "\<not> is_human_actor (br_actor r)"
    and inst: "bindHarnessInstance handle (br_actor r) run (e_now env)
      (if br_provisional r then db1 else reserve_name (br_actor r) (e_now env) db1) = Inr db'"
    using rest unfolding bindE_Inr_iff [of "if _ then _ else _"] by (auto simp: bindE_Inr_iff requireE_Inr_iff Let_def)
  obtain ns where ns: "(if br_provisional r then db1 else reserve_name (br_actor r) (e_now env) db1) = db1\<lparr>actor_names := ns\<rparr>"
  proof (cases "br_provisional r")
    case True
    then show thesis using that [of "actor_names db1"] by simp
  next
    case False
    then show thesis using that reserve_name_shape by metis
  qed
  obtain hs where "db' = db1\<lparr>actor_names := ns, harness_bindings := hs\<rparr>"
    using bindHarnessInstanceD(1) [OF inst] ns by auto
  moreover have "if bq_mode q = NameExact then \<not> actorArchived db (bq_actor q) \<and> bind_exact env ?q db = Inr (r, db1)
      else bind_allocate env digest ?q db = Inr (r, db1)"
    using ar bound by (cases "bq_mode q = NameExact") simp_all
  ultimately show thesis using that [OF q(1) c _ human h q(2) inst [unfolded ns]] by blast
qed

section \<open>One run holds an actor\<close>

lemma bind_exactD:
  assumes "bind_exact env q db = Inr (r, db')"
  shows "br_actor r = bq_actor q" "br_run r = bq_run q" "br_pending_predecessor r = []" "\<not> br_reclaimed r"
    "\<forall>g\<in>set (registrations db'). rg_actor g = bq_actor q \<and> live_registration (e_now env) g \<longrightarrow> rg_run_id g = bq_run q"
    "bq_takeover q \<or> (\<forall>g\<in>set (registrations db). rg_actor g = bq_actor q \<and> live_registration (e_now env) g \<longrightarrow> rg_run_id g = bq_run q)"
    "adopter db (bq_actor q) = None" "\<not> alias_recorded db (bq_actor q)"
proof -
  let ?ps = "liveOtherPresences db (bq_actor q) (bq_run q) (e_now env)"
  obtain db1 :: db where tk: "take_over env q (bq_actor q) ''explicit_takeover'' ?ps db = Inr db1"
    and r: "r = (initial_result q)\<lparr>br_superseded := ?ps\<rparr>"
    and db': "db' = db1\<lparr>continuity := fold (bind_handle (bq_actor q) (bq_actor q) (e_now env)) (bq_handles q) (continuity db1)\<rparr>"
    and live: "?ps = [] \<or> bq_takeover q"
    and names: "adopter db (bq_actor q) = None" "\<not> alias_recorded db (bq_actor q)"
    using assms by (auto simp: bind_exact_def Let_def bindE_Inr_iff requireE_Inr_iff assertActorNotAdopted_def assertActorNameNotAlias_def)
  show "br_actor r = bq_actor q" "br_run r = bq_run q" "br_pending_predecessor r = []" "\<not> br_reclaimed r"
    by (simp_all add: r initial_result_def)
  show "\<forall>g\<in>set (registrations db'). rg_actor g = bq_actor q \<and> live_registration (e_now env) g \<longrightarrow> rg_run_id g = bq_run q"
    using take_over_clears(1) [OF tk] by (simp add: db')
  have "set ?ps = {} \<Longrightarrow> \<forall>g\<in>set (registrations db). rg_actor g = bq_actor q \<and> live_registration (e_now env) g \<longrightarrow> rg_run_id g = bq_run q"
    by (auto simp: liveOtherPresences_def)
  then show "bq_takeover q \<or> (\<forall>g\<in>set (registrations db). rg_actor g = bq_actor q \<and> live_registration (e_now env) g \<longrightarrow> rg_run_id g = bq_run q)"
    using live by auto
  show "adopter db (bq_actor q) = None" "\<not> alias_recorded db (bq_actor q)" by (fact names)+
qed

lemma normalizeActorBindRequestD:
  assumes "normalizeActorBindRequest request = Inr q"
  shows "bq_actor q = trim (bq_actor request)" "bq_mode q = bq_mode request" "bq_takeover q = bq_takeover request"
    "bq_handles q = sort (nub (map trim (bq_handles request)))" "bq_mode q = NameExact \<or> bq_mode q = NameAllocate"
    "bq_mode q = NameAllocate \<longrightarrow> bq_handles q \<noteq> []" "\<forall>h\<in>set (bq_handles q). h \<noteq> []"
proof -
  have sn: "sort (nub (map trim (bq_handles request))) = [] \<longleftrightarrow> bq_handles request = []"
    by (metis Nil_is_map_conv length_0_conv length_sort nub_eq_Nil)
  have q: "bq_actor q = trim (bq_actor request) \<and> bq_mode q = bq_mode request \<and> bq_takeover q = bq_takeover request \<and>
      bq_handles q = sort (nub (map trim (bq_handles request)))"
    and m: "bq_mode request = NameExact \<or> bq_mode request = NameAllocate" "\<not> (bq_mode request = NameAllocate \<and> bq_handles request = [])"
    and h: "\<forall>h\<in>set (map trim (bq_handles request)). check_handle h = Inr ()"
    using assms by (auto simp: normalizeActorBindRequest_def Let_def bindE_Inr_iff requireE_Inr_iff forE_Inr_iff)
  show "bq_actor q = trim (bq_actor request)" "bq_mode q = bq_mode request" "bq_takeover q = bq_takeover request"
    "bq_handles q = sort (nub (map trim (bq_handles request)))" using q by simp_all
  show "bq_mode q = NameExact \<or> bq_mode q = NameAllocate" using q m(1) by simp
  show "bq_mode q = NameAllocate \<longrightarrow> bq_handles q \<noteq> []" using q m(2) sn by simp
  have "h \<noteq> []" if "check_handle h = Inr ()" for h
    using that by (auto simp: check_handle_def Let_def bindE_Inr_iff requireE_Inr_iff)
  then show "\<forall>h\<in>set (bq_handles q). h \<noteq> []" using q h by auto
qed

section \<open>What handles stand for\<close>

lemma row_by_filter:
  "distinct (map key rows) \<Longrightarrow>
    row_by key k (filter P rows) = (case row_by key k rows of None \<Rightarrow> None | Some r \<Rightarrow> if P r then Some r else None)"
proof (induction rows)
  case (Cons r rows)
  then have "key r = k \<Longrightarrow> row_by key k rows = None"
    by (auto simp: row_by_None_key)
  then show ?case using Cons by auto
qed simp

lemma in_map_filter: "a \<in> set (List.map_filter f xs) \<longleftrightarrow> (\<exists>x\<in>set xs. f x = Some a)"
  by (force simp: List.map_filter_def)

lemma resolve_none:
  assumes "resolveBoundActor db hs = Inr (None, d)"
  shows "d = db" "\<forall>h\<in>set hs. handle_actor db h = None"
proof -
  have "d = db \<and> nub (List.map_filter (handle_actor db) hs) = []"
    using assms by (auto simp: resolveBoundActor_def Let_def bindE_Inr_iff split: list.splits)
  then have "d = db" "set (List.map_filter (handle_actor db) hs) = {}" by simp_all
  then show "d = db" "\<forall>h\<in>set hs. handle_actor db h = None"
    using in_map_filter [of _ "handle_actor db" hs] by (auto intro: option.exhaust)
qed

lemma release_all:
  assumes "foldE (\<lambda>a d. bindE (requireE (provisionalActorIdle d a) ErrContinuityConflict) (\<lambda>_. Inr (release_provisional a d))) as db = Inr d"
  shows "continuity d = filter (\<lambda>c. cb_actor c \<notin> set as) (continuity db)"
  using assms
proof (induction "as" arbitrary: db)
  case (Cons a as)
  then have "continuity d = filter (\<lambda>c. cb_actor c \<notin> set as) (continuity (release_provisional a db))"
    by (auto simp: bindE_Inr_iff)
  then show ?case by (auto simp: release_provisional_def intro: filter_cong)
qed simp

lemma resolve_some:
  assumes "resolveBoundActor db hs = Inr (Some b, d)" and "continuity_ok db"
  shows "\<exists>h\<in>set hs. handle_actor db h = Some b" "\<forall>h\<in>set hs. handle_actor d h = None \<or> handle_actor d h = Some b"
    "continuity_ok d" "\<exists>h\<in>set hs. handle_actor d h = Some b"
proof -
  let ?actors = "nub (List.map_filter (handle_actor db) hs)"
  have in_actors: "a \<in> set ?actors \<longleftrightarrow> (\<exists>h\<in>set hs. handle_actor db h = Some a)" for a
    by (simp add: in_map_filter)
  have "(\<exists>h\<in>set hs. handle_actor db h = Some b) \<and> (\<forall>h\<in>set hs. handle_actor d h = None \<or> handle_actor d h = Some b) \<and>
    continuity_ok d \<and> (\<exists>h\<in>set hs. handle_actor d h = Some b)"
  proof (cases "?actors = [b] \<and> d = db")
    case True
    then have "\<forall>a. (\<exists>h\<in>set hs. handle_actor db h = Some a) \<longleftrightarrow> a = b" using in_actors by simp
    then show ?thesis using True assms(2) by (metis option.exhaust)
  next
    case False
    let ?strong = "nub (List.map_filter (handle_actor db) (filter authoritative hs))"
    have strong: "?strong = [b]" and rel: "foldE (\<lambda>a d. bindE (requireE (provisionalActorIdle d a) ErrContinuityConflict)
        (\<lambda>_. Inr (release_provisional a d))) (filter (\<lambda>a. a \<noteq> b) ?actors) db = Inr d"
      using assms(1) False by (auto simp: resolveBoundActor_def Let_def bindE_Inr_iff split: list.splits)
    have "b \<in> set ?strong" using strong by simp
    then have b: "\<exists>h\<in>set hs. handle_actor db h = Some b" by (auto simp: in_map_filter)
    have c: "continuity d = filter (\<lambda>c. cb_actor c \<notin> set (filter (\<lambda>a. a \<noteq> b) ?actors)) (continuity db)"
      by (rule release_all [OF rel])
    have dist: "distinct (map cb_handle (continuity db))" using assms(2) by (simp add: continuity_ok_def)
    have "handle_actor d h = None \<or> handle_actor d h = Some b" if h: "h \<in> set hs" for h
    proof (cases "row_by cb_handle h (continuity db)")
      case None
      then show ?thesis by (simp add: handle_actor_def c row_by_filter [OF dist])
    next
      case (Some r)
      then have "handle_actor db h = Some (cb_actor r)" by (simp add: handle_actor_def)
      then have "cb_actor r \<in> set ?actors" using in_actors h by blast
      then show ?thesis using Some by (auto simp: handle_actor_def c row_by_filter [OF dist])
    qed
    moreover have "continuity_ok d" using assms(2) by (auto simp: continuity_ok_def c distinct_map_filter)
    moreover have "\<exists>h\<in>set hs. handle_actor d h = Some b"
    proof -
      obtain h where h: "h \<in> set hs" "handle_actor db h = Some b" using b by blast
      then have "handle_actor d h = Some b" by (auto simp: handle_actor_def c row_by_filter [OF dist])
      then show ?thesis using h(1) by blast
    qed
    ultimately show ?thesis using b by blast
  qed
  then show "\<exists>h\<in>set hs. handle_actor db h = Some b" "\<forall>h\<in>set hs. handle_actor d h = None \<or> handle_actor d h = Some b"
    "continuity_ok d" "\<exists>h\<in>set hs. handle_actor d h = Some b" by blast+
qed

lemma fresh_actor_absent:
  assumes "choose_actor env digest q db = Inr (r, base, db')" and "\<not> br_reclaimed r" and "continuity_ok db"
  shows "br_actor r \<notin> rg_actor ` set (registrations db)" "br_actor r \<notin> mr_from_actor ` set (messages db)"
    "br_actor r \<notin> dl_recipient ` set (deliveries db)" "br_actor r \<notin> pf_actor ` set (profiles db)"
    "br_actor r \<notin> an_actor ` set (actor_names db)" "br_actor r \<notin> ah_alias ` set (alias_history db)"
    "registrations db' = registrations db"
    "\<exists>base suffix. br_actor r = base @ ''-'' @ suffix \<and> length base \<le> 121 \<and> (br_adopted_predecessor r = [] \<longrightarrow> prefix base (bq_actor q))"
proof -
  have *: "br_actor r \<notin> rg_actor ` set (registrations db) \<and> br_actor r \<notin> mr_from_actor ` set (messages db) \<and>
    br_actor r \<notin> dl_recipient ` set (deliveries db) \<and> br_actor r \<notin> pf_actor ` set (profiles db) \<and>
    br_actor r \<notin> an_actor ` set (actor_names db) \<and> br_actor r \<notin> ah_alias ` set (alias_history db) \<and>
    registrations db' = registrations db" if new: "resolveBoundActor db hs = Inr (x, d)" "allocateActor env digest b True d = Inr (br_actor r, db')"
    for hs x d b
  proof -
    obtain cs as' where d: "d = db\<lparr>continuity := cs, allocations := as'\<rparr>" using resolveBoundActor_shape [OF new(1)] by blast
    show ?thesis using allocateActor_shape [OF new(2)] unfolding d by (auto simp: actorNameReserved_def)
  qed
  have name: "\<exists>base suffix. br_actor r = base @ ''-'' @ suffix \<and> length base \<le> 121 \<and> prefix base b"
    if new: "allocateActor env digest b True d = Inr (br_actor r, db')" for b d
    using allocateActor_shape [OF new] shorten_base_length [of b] shorten_base_prefix [of b] by blast
  have "(br_actor r \<notin> rg_actor ` set (registrations db) \<and> br_actor r \<notin> mr_from_actor ` set (messages db) \<and>
    br_actor r \<notin> dl_recipient ` set (deliveries db) \<and> br_actor r \<notin> pf_actor ` set (profiles db) \<and>
    br_actor r \<notin> an_actor ` set (actor_names db) \<and> br_actor r \<notin> ah_alias ` set (alias_history db) \<and>
    registrations db' = registrations db) \<and>
    (\<exists>base suffix. br_actor r = base @ ''-'' @ suffix \<and> length base \<le> 121 \<and> (br_adopted_predecessor r = [] \<longrightarrow> prefix base (bq_actor q)))"
    using assms(1)
  proof (cases rule: choose_actorD)
    case (reclaimed b)
    then show ?thesis using assms(2) by (simp add: initial_result_def)
  next
    case (fresh d a)
    then have "allocateActor env digest (bq_actor q) True d = Inr (br_actor r, db')" by (simp add: initial_result_def)
    then show ?thesis using *[OF fresh(1)] name by blast
  next
    case (adopted b d a)
    then have al: "allocateActor env digest base True d = Inr (br_actor r, db')" by (simp add: initial_result_def)
    have "br_adopted_predecessor r = b" using adopted(5) by (simp add: initial_result_def)
    moreover have "b \<noteq> []" using resolve_some(1) [OF adopted(1) assms(3)] handle_actor_nonempty [OF assms(3)] by blast
    ultimately show ?thesis using *[OF adopted(1) al] name [OF al] by blast
  qed
  then show "br_actor r \<notin> rg_actor ` set (registrations db)" "br_actor r \<notin> mr_from_actor ` set (messages db)"
    "br_actor r \<notin> dl_recipient ` set (deliveries db)" "br_actor r \<notin> pf_actor ` set (profiles db)"
    "br_actor r \<notin> an_actor ` set (actor_names db)" "br_actor r \<notin> ah_alias ` set (alias_history db)"
    "registrations db' = registrations db"
    "\<exists>base suffix. br_actor r = base @ ''-'' @ suffix \<and> length base \<le> 121 \<and> (br_adopted_predecessor r = [] \<longrightarrow> prefix base (bq_actor q))"
    by blast+
qed

section \<open>One run holds an actor\<close>


text \<open>A first bind, and an explicit takeover of a live session.\<close>

definition sample_bind :: "string \<Rightarrow> string list \<Rightarrow> bind_request" where
  "sample_bind name handles = \<lparr>bq_actor = name, bq_run = ''run1'', bq_mode = NameAllocate, bq_handles = handles,
     bq_project = ''p'', bq_takeover = False\<rparr>"

definition sample_digest :: "string \<Rightarrow> string" where
  "sample_digest seed = ''0a1b2c''"

definition bound_once :: "bind_result \<times> db" where
  "bound_once = projr (BindActor (sample_env 100) sample_digest (sample_bind ''claude'' [''session:s1'', ''instance:i1'']) sample_db)"

lemma bound_once_ok:
  "BindActor (sample_env 100) sample_digest (sample_bind ''claude'' [''session:s1'', ''instance:i1'']) sample_db =
     Inr (fst bound_once, snd bound_once)"
  "br_pending_predecessor (fst bound_once) = []" "continuity_ok sample_db"
  by code_simp+

definition sample_takeover :: bind_request where
  "sample_takeover = \<lparr>bq_actor = '' alice'', bq_run = ''run9'', bq_mode = NameExact, bq_handles = [],
     bq_project = ''p'', bq_takeover = True\<rparr>"

definition taken_over :: "bind_result \<times> db" where
  "taken_over = projr (BindActor (sample_env 100) sample_digest sample_takeover sample_two_sessions)"

lemma taken_over_ok:
  "BindActor (sample_env 100) sample_digest sample_takeover sample_two_sessions = Inr (fst taken_over, snd taken_over)"
  "br_pending_predecessor (fst taken_over) = []" "continuity_ok sample_two_sessions"
  "map rg_run_id (filter (\<lambda>g. rg_actor g = ''alice'' \<and> live_registration 100 g) (registrations sample_two_sessions)) = [''r1'', ''r2'']"
  by code_simp+


text \<open>
  A name the daemon allocates is nobody's: a bind in allocate mode that reclaims no actor
  answers a name under which no session was registered, no message sent or delivered and no
  profile kept, that is not a known actor and was never an alias; it is a base of at most 121
  bytes, a dash and the digest, and unless a predecessor was adopted the base is a prefix of
  the name asked for.
\<close>
theorem allocated_name_new:
  assumes "BindActor env digest request db = Inr (r, db')" and "br_pending_predecessor r = []" and "continuity_ok db"
    and "bq_mode request = NameAllocate" and "\<not> br_reclaimed r"
  shows "br_actor r \<notin> rg_actor ` set (registrations db) \<and> br_actor r \<notin> mr_from_actor ` set (messages db) \<and>
    br_actor r \<notin> dl_recipient ` set (deliveries db) \<and> br_actor r \<notin> pf_actor ` set (profiles db) \<and>
    br_actor r \<notin> an_actor ` set (actor_names db) \<and> br_actor r \<notin> ah_alias ` set (alias_history db) \<and>
    (\<exists>base suffix. br_actor r = base @ ''-'' @ suffix \<and> length base \<le> 121 \<and>
      (br_adopted_predecessor r = [] \<longrightarrow> prefix base (trim (bq_actor request))))"
proof -
  obtain q run and db1 :: db where q: "normalizeActorBindRequest request = Inr q"
    and step: "if bq_mode q = NameExact then \<not> actorArchived db (bq_actor q) \<and> bind_exact env (q\<lparr>bq_run := run\<rparr>) db = Inr (r, db1)
      else bind_allocate env digest (q\<lparr>bq_run := run\<rparr>) db = Inr (r, db1)"
    by (rule BindActorD [OF assms(1)])
  note n = normalizeActorBindRequestD [OF q]
  have ba: "bind_allocate env digest (q\<lparr>bq_run := run\<rparr>) db = Inr (r, db1)" using step n(2) assms(4) by simp
  obtain r0 base and d1 :: db where ch: "choose_actor env digest (q\<lparr>bq_run := run\<rparr>) db = Inr (r0, base, d1)"
    and r0: "br_actor r = br_actor r0" "br_reclaimed r = br_reclaimed r0" "br_adopted_predecessor r = br_adopted_predecessor r0"
    by (rule bind_allocateD [OF ba assms(2,3)])
  have "\<not> br_reclaimed r0" using assms(5) r0(2) by simp
  then show ?thesis using fresh_actor_absent [OF ch _ assms(3)] r0 n(1) by simp
qed

theorem allocated_name_new_witness:
  "br_actor (fst bound_once) = ''claude-0a1b2c'' \<and> br_actor (fst bound_once) \<notin> an_actor ` set (actor_names sample_db)"
proof -
  have "\<not> br_reclaimed (fst bound_once)" "br_actor (fst bound_once) = ''claude-0a1b2c''" by code_simp+
  then show ?thesis using allocated_name_new [OF bound_once_ok(1,2,3)] by (simp add: sample_bind_def)
qed

section \<open>Coming back\<close>

abbreviation owner_in :: "continuity_row list \<Rightarrow> string \<Rightarrow> string option" where
  "owner_in rows h \<equiv> map_option cb_actor (row_by cb_handle h rows)"

interpretation touch_upd: keyed_update cb_handle "\<lambda>c. c\<lparr>cb_updated_at := now\<rparr>"
  by unfold_locales simp

interpretation touch_owner: keyed_update cb_actor "\<lambda>c. c\<lparr>cb_updated_at := now\<rparr>"
  by unfold_locales simp

interpretation repoint_upd: keyed_update cb_handle "\<lambda>c. c\<lparr>cb_actor := actor, cb_base := base, cb_updated_at := now\<rparr>"
  by unfold_locales simp

lemma owner_bind_handle:
  "owner_in (bind_handle a base now h rows) k = (if k = h \<and> row_by cb_handle h rows = None then Some a else owner_in rows k)"
proof (cases "row_by cb_handle h rows")
  case None
  then show ?thesis by (auto simp: bind_handle_def row_by_append split: option.splits)
next
  case (Some c)
  then show ?thesis by (cases "row_by cb_handle k rows") (simp_all add: bind_handle_def touch_upd.row_by_update)
qed

lemma owner_repoint_handle:
  "owner_in (repoint_handle a base now h rows) k = (if k = h then Some a else owner_in rows k)"
proof (cases "row_by cb_handle h rows")
  case None
  then show ?thesis by (auto simp: repoint_handle_def row_by_append split: option.splits)
next
  case (Some c)
  then show ?thesis
    by (cases "row_by cb_handle k rows") (auto simp: repoint_handle_def repoint_upd.row_by_update dest: row_by_SomeD)
qed

lemma fold_bind_handles:
  assumes "\<forall>h\<in>set hs. owner_in rows h = None \<or> owner_in rows h = Some a"
  shows "\<forall>h\<in>set hs. owner_in (fold (bind_handle a base now) hs rows) h = Some a"
proof -
  have keep: "owner_in rows k = Some a \<Longrightarrow> owner_in (fold (bind_handle a base now) xs rows) k = Some a" for xs k rows
  proof (induction xs arbitrary: rows)
    case (Cons x xs)
    have "owner_in (bind_handle a base now x rows) k = Some a" using Cons(2) by (simp add: owner_bind_handle)
    then show ?case using Cons(1) by simp
  qed simp
  show ?thesis using assms
  proof (induction hs arbitrary: rows)
    case (Cons x xs)
    have x: "owner_in (bind_handle a base now x rows) x = Some a" using Cons(2) by (auto simp: owner_bind_handle)
    have "\<forall>h\<in>set xs. owner_in (bind_handle a base now x rows) h = None \<or> owner_in (bind_handle a base now x rows) h = Some a"
      using Cons(2) by (simp add: owner_bind_handle)
    then show ?case using Cons(1) keep [OF x] by simp
  qed simp
qed

lemma fold_repoint_handles: "\<forall>h\<in>set hs. owner_in (fold (repoint_handle a base now) hs rows) h = Some a"
proof -
  have keep: "owner_in rows k = Some a \<Longrightarrow> owner_in (fold (repoint_handle a base now) xs rows) k = Some a" for xs k rows
  proof (induction xs arbitrary: rows)
    case (Cons x xs)
    have "owner_in (repoint_handle a base now x rows) k = Some a" using Cons(2) by (simp add: owner_repoint_handle)
    then show ?case using Cons(1) by simp
  qed simp
  show ?thesis
  proof (induction hs arbitrary: rows)
    case (Cons x xs)
    have x: "owner_in (repoint_handle a base now x rows) x = Some a" by (simp add: owner_repoint_handle)
    show ?case using Cons(1) keep [OF x] by simp
  qed simp
qed

lemma fold_bind_base:
  "row_by cb_actor a rows = Some c \<Longrightarrow>
    map_option cb_base (row_by cb_actor a (fold (bind_handle b base now) hs rows)) = Some (cb_base c)"
proof (induction hs arbitrary: rows c)
  case (Cons h hs)
  obtain c' where c': "row_by cb_actor a (bind_handle b base now h rows) = Some c'" "cb_base c' = cb_base c"
    using Cons(2) by (cases "row_by cb_handle h rows = None") (simp_all add: bind_handle_def row_by_append touch_owner.row_by_update)
  show ?case using Cons(1) [OF c'(1)] c'(2) by simp
qed simp

lemma actorBase_cong:
  assumes "map_option ao_base (row_by ao_actor a (allocations db')) = map_option ao_base (row_by ao_actor a (allocations db))"
    and "row_by ao_actor a (allocations db) = None \<Longrightarrow>
      map_option cb_base (row_by cb_actor a (continuity db')) = map_option cb_base (row_by cb_actor a (continuity db))"
  shows "actorBase db' a x = actorBase db a x"
  using assms by (auto simp: actorBase_def split: option.splits)

lemma owner_of_handle: "handle_actor db h = Some a \<Longrightarrow> \<exists>c. row_by cb_actor a (continuity db) = Some c"
  unfolding handle_actor_def using row_by_None_iff [of cb_actor a "continuity db"]
  by (cases "row_by cb_actor a (continuity db)") (auto dest: row_by_SomeD)

text \<open>What a bind that is not pending leaves for the next one.\<close>

lemma bind_allocate_binds:
  assumes "bind_allocate env digest q db = Inr (r, db')" and "br_pending_predecessor r = []" and "continuity_ok db"
  shows "\<forall>h\<in>set (bq_handles q). handle_actor db' h = Some (br_actor r)"
    "hasContinuityKind (bq_handles q) ''instance'' \<Longrightarrow> \<not> br_reclaimed r \<Longrightarrow> br_adopted_predecessor r = [] \<Longrightarrow>
      actorBase db' (br_actor r) (bq_actor q) = shorten_base (bq_actor q)"
    "hasContinuityKind (bq_handles q) ''instance'' \<Longrightarrow> length (bq_actor q) \<le> 121 \<Longrightarrow>
      actorBase db' (br_actor r) (bq_actor q) = bq_actor q"
    "hasAuthoritativeContinuity (bq_handles q) \<Longrightarrow> \<not> actorProvisional db' (br_actor r)"
proof -
  obtain r0 base and d1 :: db where ch: "choose_actor env digest q db = Inr (r0, base, d1)"
    and r: "br_actor r = br_actor r0" "br_reclaimed r = br_reclaimed r0" "br_adopted_predecessor r = br_adopted_predecessor r0"
    and cont: "continuity db' = fold ((if br_adopted_predecessor r0 \<noteq> [] then repoint_handle else bind_handle) (br_actor r0) base (e_now env))
       (bq_handles q) (continuity d1)"
    and al: "\<forall>x. map_option ao_base (row_by ao_actor x (allocations db')) = map_option ao_base (row_by ao_actor x (allocations d1))"
    and fin: "hasAuthoritativeContinuity (bq_handles q) \<longrightarrow> \<not> actorProvisional db' (br_actor r0)"
    by (rule bind_allocateD [OF assms])
  let ?hs = "bq_handles q" and ?a = "br_actor r0" and ?inst = "hasContinuityKind (bq_handles q) ''instance''"
  have new_base: "actorBase db' ?a x = shorten_base b" if new: "allocateActor env digest b True d = Inr (?a, d1)" for b d x
  proof -
    obtain row where row: "allocations d1 = allocations d @ [row]" "ao_actor row = ?a" "ao_base row = shorten_base b" "\<not> actorNameReserved d ?a"
      using allocateActor_shape [OF new] by auto
    then have "row_by ao_actor ?a (allocations d) = None" by (simp add: actorNameReserved_def row_by_None_key)
    then have "row_by ao_actor ?a (allocations d1) = Some row" using row by (simp add: row_by_append)
    then have "map_option ao_base (row_by ao_actor ?a (allocations db')) = Some (shorten_base b)" using al row(3) by simp
    then show ?thesis by (auto simp: actorBase_def)
  qed
  have "(\<forall>h\<in>set ?hs. owner_in (continuity db') h = Some ?a) \<and>
    (?inst \<and> \<not> br_reclaimed r0 \<and> br_adopted_predecessor r0 = [] \<longrightarrow> actorBase db' ?a (bq_actor q) = shorten_base (bq_actor q)) \<and>
    (?inst \<and> length (bq_actor q) \<le> 121 \<longrightarrow> actorBase db' ?a (bq_actor q) = bq_actor q)"
    using ch
  proof (cases rule: choose_actorD)
    case (reclaimed b)
    note res = resolve_some [OF reclaimed(1) assms(3)]
    have c: "continuity db' = fold (bind_handle b base (e_now env)) ?hs (continuity d1)" and a: "?a = b"
      using cont reclaimed(2) by (simp_all add: initial_result_def)
    have own: "\<forall>h\<in>set ?hs. owner_in (continuity db') h = Some b"
      unfolding c by (rule fold_bind_handles) (use res(2) in \<open>simp add: handle_actor_def\<close>)
    have "actorBase db' b (bq_actor q) = actorBase d1 b (bq_actor q)"
    proof (rule actorBase_cong)
      show "map_option ao_base (row_by ao_actor b (allocations db')) = map_option ao_base (row_by ao_actor b (allocations d1))"
        using al by simp
      have "\<exists>h\<in>set ?hs. handle_actor d1 h = Some b" using res(4) reclaimed(2) by simp
      then obtain c0 where "row_by cb_actor b (continuity d1) = Some c0" using owner_of_handle by blast
      then show "map_option cb_base (row_by cb_actor b (continuity db')) = map_option cb_base (row_by cb_actor b (continuity d1))"
        unfolding c by (simp add: fold_bind_base)
    qed
    then show ?thesis using own reclaimed(2,5) a by (simp add: initial_result_def)
  next
    case (fresh d a)
    have c: "continuity db' = fold (bind_handle a base (e_now env)) ?hs (continuity d1)" and a: "?a = a"
      using cont fresh(4) by (simp_all add: initial_result_def)
    have "d = db" "\<forall>h\<in>set ?hs. handle_actor db h = None" using resolve_none [OF fresh(1)] by simp_all
    moreover have "continuity d1 = continuity d" using allocateActor_shape [OF fresh(3)] by auto
    ultimately have "\<forall>h\<in>set ?hs. owner_in (continuity db') h = Some a"
      unfolding c by (intro fold_bind_handles) (simp add: handle_actor_def)
    moreover have "actorBase db' a (bq_actor q) = shorten_base (bq_actor q)" using new_base fresh(3) a by simp
    ultimately show ?thesis using a shorten_base_id by simp
  next
    case (adopted b d a)
    have ne: "b \<noteq> []" using resolve_some(1) [OF adopted(1) assms(3)] handle_actor_nonempty [OF assms(3)] by blast
    have c: "continuity db' = fold (repoint_handle a base (e_now env)) ?hs (continuity d1)" and a: "?a = a" "br_adopted_predecessor r0 = b"
      using cont adopted(5) ne by (simp_all add: initial_result_def)
    have "actorBase db' a (bq_actor q) = shorten_base base" using new_base adopted(4) a by simp
    then show ?thesis using c a ne fold_repoint_handles adopted(3) shorten_base_id by simp
  qed
  then show "\<forall>h\<in>set ?hs. handle_actor db' h = Some (br_actor r)"
    "?inst \<Longrightarrow> \<not> br_reclaimed r \<Longrightarrow> br_adopted_predecessor r = [] \<Longrightarrow>
      actorBase db' (br_actor r) (bq_actor q) = shorten_base (bq_actor q)"
    "?inst \<Longrightarrow> length (bq_actor q) \<le> 121 \<Longrightarrow> actorBase db' (br_actor r) (bq_actor q) = bq_actor q"
    using r by (auto simp: handle_actor_def)
  show "hasAuthoritativeContinuity ?hs \<Longrightarrow> \<not> actorProvisional db' (br_actor r)" using fin r(1) by simp
qed
text \<open>The store a later bind with the same handles sees.\<close>

definition bound_store :: "bind_request \<Rightarrow> string \<Rightarrow> db \<Rightarrow> bool" where
  "bound_store q a db \<longleftrightarrow> bq_handles q \<noteq> [] \<and> (\<forall>h\<in>set (bq_handles q). handle_actor db h = Some a) \<and>
    (hasContinuityKind (bq_handles q) ''instance'' \<longrightarrow> actorBase db a (bq_actor q) = bq_actor q) \<and>
    (hasAuthoritativeContinuity (bq_handles q) \<longrightarrow> \<not> actorProvisional db a)"

definition reclaimable :: "string \<Rightarrow> string \<Rightarrow> int \<Rightarrow> db \<Rightarrow> bool" where
  "reclaimable a run now db \<longleftrightarrow> \<not> actorArchived db a \<and> adopter db a = None \<and> \<not> runSupersededForActor db a run \<and>
    liveOtherPresences db a run now = []"

lemma nub_map_filter_const:
  assumes "\<forall>x\<in>set xs. f x = Some a"
  shows "nub (List.map_filter f xs) = (if xs = [] then [] else [a])"
proof -
  have "List.map_filter f xs = replicate (length xs) a"
    using assms by (induction xs) (simp_all add: List.map_filter_def)
  moreover have "remdups (replicate n a) = (if n = 0 then [] else [a])" for n
    by (induction n) (auto split: if_splits)
  ultimately show ?thesis by (simp add: nub_def)
qed

lemma resolve_bound: "bound_store q a db \<Longrightarrow> resolveBoundActor db (bq_handles q) = Inr (Some a, db)"
  using nub_map_filter_const [of "bq_handles q" "handle_actor db" a]
  by (simp add: bound_store_def resolveBoundActor_def Let_def)

lemma no_predecessor:
  assumes "bound_store q a db" "reclaimable a run now db"
  shows "pendingLivePredecessor db (bq_handles q) run now = Inr None"
proof -
  have "nub (List.map_filter (handle_actor db) (filter authoritative (bq_handles q))) =
      (if filter authoritative (bq_handles q) = [] then [] else [a])"
    by (rule nub_map_filter_const) (use assms(1) in \<open>simp add: bound_store_def\<close>)
  then show ?thesis using assms(2) by (simp add: pendingLivePredecessor_def Let_def reclaimable_def requireE_def)
qed

lemma bind_allocate_again:
  assumes b: "bound_store q a db" and r: "reclaimable a (bq_run q) (e_now env) db" and "\<not> is_human_actor a"
  shows "\<exists>r db'. bind_allocate env digest q db = Inr (r, db') \<and> br_actor r = a \<and> br_run r = bq_run q \<and> br_reclaimed r \<and>
    \<not> br_minted r \<and> br_superseded r = [] \<and> harness_bindings db' = harness_bindings db \<and> allocations db' = allocations db"
proof -
  let ?r = "(initial_result q)\<lparr>br_actor := a, br_reclaimed := True\<rparr>"
  let ?base = "actorBase db a (bq_actor q)"
  let ?d = "db\<lparr>continuity := fold (bind_handle a ?base (e_now env)) (bq_handles q) (continuity db)\<rparr>"
  have ch: "choose_actor env digest q db = Inr (?r, ?base, db)"
    using resolve_bound [OF b] b r assms(3)
    by (simp add: choose_actor_def requireE_def bound_store_def reclaimable_def Let_def)
  have prov: "actorProvisional ?d = actorProvisional db" by (simp add: actorProvisional_def fun_eq_iff)
  have "finalizeActorAllocation env a (bq_run q) (bq_project q) ks ?d = Inr (False, ?d)" if "\<not> actorProvisional db a" for ks
    using that by (auto simp: finalizeActorAllocation_def actorProvisional_def split: option.splits)
  moreover define m where "m = (\<not> hasAuthoritativeContinuity (bq_handles q) \<and> actorProvisional ?d a)"
  ultimately have st: "settle_allocation env q ?r ?d = Inr (?r\<lparr>br_provisional := m\<rparr>, ?d)"
    using b by (cases "hasAuthoritativeContinuity (bq_handles q)")
      (simp_all add: settle_allocation_def bound_store_def initial_result_def)
  have live: "liveOtherPresences ?d a (bq_run q) (e_now env) = []"
    using r by (simp add: reclaimable_def liveOtherPresences_def)
  have "bind_allocate env digest q db = Inr (?r\<lparr>br_provisional := m\<rparr>, ?d)"
    using no_predecessor [OF b r] ch st live
    by (simp add: bind_allocate_def initial_result_def take_over_def)
  then show ?thesis by (auto simp: initial_result_def)
qed
lemma canonical_again:
  assumes "canonicalHarnessRun db hs run0 = Inr (run, handle)"
    and "handle \<noteq> [] \<Longrightarrow> \<exists>b. row_by hb_handle handle (harness_bindings db') = Some b \<and> hb_run_id b = run"
    and "\<forall>h\<in>set hs. h \<noteq> []"
  shows "canonicalHarnessRun db' hs run0 = Inr (run, handle)"
proof -
  let ?is = "nub (filter (\<lambda>h. continuityHandleKind h = ''instance'') hs)"
  have "set ?is \<subseteq> set hs" by auto
  consider "?is = []" "run = run0" "handle = []" | "?is = [handle]"
    using assms(1) by (auto simp: canonicalHarnessRun_def split: list.splits option.splits)
  then show ?thesis
  proof cases
    case 1
    then show ?thesis by (simp add: canonicalHarnessRun_def)
  next
    case 2
    then have "handle \<in> set hs" using \<open>set ?is \<subseteq> set hs\<close> by simp
    then obtain b where "row_by hb_handle handle (harness_bindings db') = Some b" "hb_run_id b = run"
      using assms(2,3) by blast
    then show ?thesis using 2 by (simp add: canonicalHarnessRun_def)
  qed
qed

lemma canonical_recorded:
  assumes "canonicalHarnessRun db hs run0 = Inr (run, handle)" and "handle \<noteq> []"
  shows "(case row_by hb_handle handle (harness_bindings db) of None \<Rightarrow> run | Some b \<Rightarrow> hb_run_id b) = run"
  using assms by (auto simp: canonicalHarnessRun_def split: list.splits option.splits)

section \<open>Reconnecting\<close>

lemma choose_actor_bindings:
  assumes "choose_actor env digest q db = Inr (r, base, db')"
  shows "harness_bindings db' = harness_bindings db"
proof -
  have res: "harness_bindings d = harness_bindings db" if "resolveBoundActor db hs = Inr (x, d)" for hs x d
    using resolveBoundActor_shape [OF that] by auto
  have al: "harness_bindings d' = harness_bindings d" if "allocateActor env digest b pr d = Inr (a, d')" for b pr d a d'
    using allocateActor_shape [OF that] by auto
  show ?thesis using assms by (cases rule: choose_actorD) (simp_all add: res al)
qed

lemma after_bind:
  assumes "BindActor env digest request db = Inr (r, db1)" and "br_pending_predecessor r = []" and "continuity_ok db"
    and "bq_mode request = NameAllocate" and "length (trim (bq_actor request)) \<le> 121"
    and "continuity db2 = continuity db1" "allocations db2 = allocations db1" "harness_bindings db2 = harness_bindings db1"
  obtains q handle where "normalizeActorBindRequest request = Inr q" "\<not> is_human_actor (bq_actor request)"
    "\<not> is_human_actor (bq_actor q)" "\<not> is_human_actor (br_actor r)" "bq_mode q = NameAllocate"
    "bound_store (q\<lparr>bq_run := br_run r\<rparr>) (br_actor r) db2"
    "canonicalHarnessRun db2 (bq_handles q) (bq_run q) = Inr (br_run r, handle)"
    "handle \<noteq> [] \<Longrightarrow> \<exists>b. row_by hb_handle handle (harness_bindings db2) = Some b \<and> hb_actor b = br_actor r"
proof -
  obtain q run handle ns hs and d :: db where q: "normalizeActorBindRequest request = Inr q"
    and c: "canonicalHarnessRun db (bq_handles q) (bq_run q) = Inr (run, handle)"
    and step: "if bq_mode q = NameExact then \<not> actorArchived db (bq_actor q) \<and> bind_exact env (q\<lparr>bq_run := run\<rparr>) db = Inr (r, d)
      else bind_allocate env digest (q\<lparr>bq_run := run\<rparr>) db = Inr (r, d)"
    and human: "\<not> is_human_actor (br_actor r)" "\<not> is_human_actor (bq_actor request)" "\<not> is_human_actor (bq_actor q)"
    and inst: "bindHarnessInstance handle (br_actor r) run (e_now env) (d\<lparr>actor_names := ns\<rparr>) = Inr db1"
    and db1: "db1 = d\<lparr>actor_names := ns, harness_bindings := hs\<rparr>"
    by (rule BindActorD [OF assms(1)])
  note n = normalizeActorBindRequestD [OF q]
  let ?q = "q\<lparr>bq_run := run\<rparr>"
  have ba: "bind_allocate env digest ?q db = Inr (r, d)" using step n(2) assms(4) by simp
  note left = bind_allocate_binds [OF ba assms(2,3)]
  have run: "br_run r = run" by (rule bind_allocateD [OF ba assms(2,3)]) simp
  have db2: "continuity db2 = continuity d" "allocations db2 = allocations d" using assms(6,7) db1 by simp_all
  have eqs: "handle_actor db2 = handle_actor d" "actorBase db2 = actorBase d" "actorProvisional db2 = actorProvisional d"
    unfolding fun_eq_iff handle_actor_def actorBase_def actorProvisional_def db2 by simp_all
  have bound: "bound_store ?q (br_actor r) db2"
    using left n(1,2,6) assms(4,5) by (simp add: bound_store_def eqs)
  have rec: "\<exists>b. row_by hb_handle handle (harness_bindings db2) = Some b \<and> hb_actor b = br_actor r \<and> hb_run_id b = run"
    if "handle \<noteq> []"
  proof -
    have "harness_bindings (d\<lparr>actor_names := ns\<rparr>) = harness_bindings db"
      by (rule bind_allocateD [OF ba assms(2,3)]) (simp add: choose_actor_bindings)
    then show ?thesis
      using bindHarnessInstanceD(2) [OF inst that] canonical_recorded [OF c that] assms(8) by auto
  qed
  show thesis
  proof (rule that [OF q human(2,3,1)])
    show "canonicalHarnessRun db2 (bq_handles q) (bq_run q) = Inr (br_run r, handle)"
      unfolding run by (rule canonical_again [OF c _ n(7)]) (use rec in blast)
  qed (use bound rec n(2) assms(4) run in auto)
qed


lemma bound_once_reclaimable:
  "reclaimable (br_actor (fst bound_once)) (br_run (fst bound_once)) (e_now (sample_env 900)) (snd bound_once)"
  by code_simp


section \<open>Names that do not come back\<close>

text \<open>
  A requested name of 122 to 128 bytes is accepted, and its allocation stores the shortened base;
  the reconnect compares that base with the full name and is refused.
\<close>
lemma long_base_refused:
  "case BindActor (sample_env 100) sample_digest (sample_bind (replicate 125 CHR ''a'') [''instance:i1'']) sample_db of
     Inr (r, db1) \<Rightarrow> BindActor (sample_env 900) sample_digest (sample_bind (replicate 125 CHR ''a'') [''instance:i1'']) db1 =
       Inl ErrContinuityConflict
   | Inl _ \<Rightarrow> False"
  by code_simp

end
