(* ===== verification/StoreFrames.thy ===== *)
theory StoreFrames
  imports AdoptionProps LifecycleProps IdentityProps DispatchProps DeliveryProps
begin

text \<open>
  Which tables each operation of the store may change. The table names stand for the tables
  the invariants speak about; an operation that keeps a table keeps what is said of it, and
  every operation keeps the event log well-formed.
\<close>

section \<open>What an operation changes\<close>

datatype db_table = TMessages | TDeliveries | TOutbox | TSessions | TAliases | TAdoptions | TContinuity | TConditions | TGrants

fun same_table :: "db_table \<Rightarrow> db \<Rightarrow> db \<Rightarrow> bool" where
  "same_table TMessages db db' = (messages db' = messages db)"
| "same_table TDeliveries db db' = (deliveries db' = deliveries db)"
| "same_table TOutbox db db' = (outbox db' = outbox db)"
| "same_table TSessions db db' = (registrations db' = registrations db)"
| "same_table TAliases db db' =
    (aliases db' = aliases db \<and> alias_history db' = alias_history db \<and> alias_claims db' = alias_claims db)"
| "same_table TAdoptions db db' = (adoptions db' = adoptions db)"
| "same_table TContinuity db db' = (continuity db' = continuity db)"
| "same_table TConditions db db' = (conditions db' = conditions db)"
| "same_table TGrants db db' = (grants db' = grants db)"

definition changes :: "db_table set \<Rightarrow> db \<Rightarrow> db \<Rightarrow> bool" where
  "changes T db db' \<longleftrightarrow> (\<forall>t. t \<notin> T \<longrightarrow> same_table t db db') \<and> prefix (events db) (events db') \<and>
    (events_ok db \<longrightarrow> events_ok db')"

lemma same_table_refl [simp]: "same_table t db db"
  by (cases t) simp_all

lemma same_table_trans: "same_table t a b \<Longrightarrow> same_table t b c \<Longrightarrow> same_table t a c"
  by (cases t) simp_all

lemma changes_refl [simp]: "changes T db db"
  by (simp add: changes_def)

lemma changes_trans: "changes T a b \<Longrightarrow> changes U b c \<Longrightarrow> T \<subseteq> V \<Longrightarrow> U \<subseteq> V \<Longrightarrow> changes V a c"
  unfolding changes_def using same_table_trans prefix_order.trans by blast

lemma changes_mono: "changes T a b \<Longrightarrow> T \<subseteq> V \<Longrightarrow> changes V a b"
  unfolding changes_def by blast

text \<open>Rules for a sequence of steps, the first of which answers a result with the new state or the state.\<close>

lemma changes_bind:
  assumes "bindE m f = Inr (r, db')" and "\<And>x d. m = Inr (x, d) \<Longrightarrow> changes T db d"
    and "\<And>x d. m = Inr (x, d) \<Longrightarrow> f (x, d) = Inr (r, db') \<Longrightarrow> changes T d db'"
  shows "changes T db db'"
proof -
  obtain x d where "m = Inr (x, d)" "f (x, d) = Inr (r, db')" using assms(1) unfolding bindE_Inr_iff by fastforce
  then show ?thesis using assms(2,3) changes_trans [of T db d T db' T] by blast
qed

lemma changes_bind_state:
  assumes "bindE m f = Inr (r, db')" and "\<And>d. m = Inr d \<Longrightarrow> changes T db d"
    and "\<And>d. m = Inr d \<Longrightarrow> f d = Inr (r, db') \<Longrightarrow> changes T d db'"
  shows "changes T db db'"
proof -
  obtain d where "m = Inr d" "f d = Inr (r, db')" using assms(1) unfolding bindE_Inr_iff by blast
  then show ?thesis using assms(2,3) changes_trans [of T db d T db' T] by blast
qed

lemma all_tables: "(\<forall>t. P t) \<longleftrightarrow> P TMessages \<and> P TDeliveries \<and> P TOutbox \<and> P TSessions \<and> P TAliases \<and> P TAdoptions \<and>
    P TContinuity \<and> P TConditions \<and> P TGrants"
  by (metis db_table.exhaust)

lemma changes_iff: "changes T db db' \<longleftrightarrow> prefix (events db) (events db') \<and> (events_ok db \<longrightarrow> events_ok db') \<and>
    (TMessages \<notin> T \<longrightarrow> messages db' = messages db) \<and> (TDeliveries \<notin> T \<longrightarrow> deliveries db' = deliveries db) \<and>
    (TOutbox \<notin> T \<longrightarrow> outbox db' = outbox db) \<and> (TSessions \<notin> T \<longrightarrow> registrations db' = registrations db) \<and>
    (TAliases \<notin> T \<longrightarrow> aliases db' = aliases db \<and> alias_history db' = alias_history db \<and> alias_claims db' = alias_claims db) \<and>
    (TAdoptions \<notin> T \<longrightarrow> adoptions db' = adoptions db) \<and> (TContinuity \<notin> T \<longrightarrow> continuity db' = continuity db) \<and>
    (TConditions \<notin> T \<longrightarrow> conditions db' = conditions db) \<and>
    (TGrants \<notin> T \<longrightarrow> grants db' = grants db)"
  unfolding changes_def all_tables same_table.simps by blast

lemma appendEvent_log: "appendEvent env p s k m a pl db = Inr db' \<Longrightarrow> prefix (events db) (events db')"
  by (drule appendEvent_shape) auto

lemma appendEvent_changes: "appendEvent env p s k m a pl db = Inr db' \<Longrightarrow> changes {} db db'"
  by (simp add: changes_iff appendEvent_frame appendEvent_events_ok appendEvent_log)

lemma same_actors_changes:
  "same_actors db db' \<Longrightarrow> prefix (events db) (events db') \<Longrightarrow> events_ok db \<longrightarrow> events_ok db' \<Longrightarrow> changes {TMessages, TDeliveries, TOutbox} db db'"
  by (simp add: changes_iff same_actors_def)

subsection \<open>Mail\<close>

lemma Send_changes:
  assumes "Send env q db = Inr (r, db')"
  shows "changes {TMessages, TDeliveries, TOutbox} db db'"
proof -
  have new: "changes {TMessages, TDeliveries, TOutbox} db db'" if "send_new env req parent db = Inr (r, db')" for req parent
    by (rule send_newD [OF that]) (auto intro!: same_actors_changes)
  show ?thesis using assms by (rule SendD) (auto intro: new)
qed

lemma Claim_changes: "Claim env a mid lease db = Inr (c, db') \<Longrightarrow> changes {TDeliveries, TOutbox} db db'"
  by (erule ClaimD) (auto simp: changes_iff same_actors_def)

lemma finish_changes: "finish env a mid tok ack final reason db = Inr db' \<Longrightarrow> changes {TDeliveries} db db'"
  by (erule finishD) (auto simp: changes_iff same_actors_def)

lemma Extend_log: "Extend env a mid tok lease db = Inr (x, db') \<Longrightarrow> prefix (events db) (events db')"
  unfolding Extend_def Let_def by (auto simp: bindE_Inr_iff dest!: appendEvent_log split: option.splits)

lemma Extend_changes: "Extend env a mid tok lease db = Inr (x, db') \<Longrightarrow> changes {TDeliveries} db db'"
  using Extend_log [of env a mid tok lease db x db'] by (auto simp: changes_iff same_actors_def elim: ExtendD)

lemma Revoke_changes: "RevokeDeliveryLease env a mid grace db = Inr db' \<Longrightarrow> changes {TDeliveries, TOutbox} db db'"
  by (erule RevokeD) (simp add: changes_iff same_actors_def)

lemma ClaimNotification_changes: "ClaimNotification env db = Inr (j, db') \<Longrightarrow> changes {TOutbox} db db'"
  by (auto simp: ClaimNotification_def Let_def bindE_Inr_iff changes_iff split: list.splits option.splits)

lemma FinishNotification_changes: "FinishNotification env j d detail db = Inr db' \<Longrightarrow> changes {TOutbox} db db'"
  by (erule FinishNotificationD) (auto simp: changes_iff same_actors_def split: if_splits)

lemma Rearm_changes: "RearmAcceptedNotifications env a db = Inr db' \<Longrightarrow> changes {TOutbox} db db'"
  by (auto simp: RearmAcceptedNotifications_def Let_def bindE_Inr_iff changes_iff)

lemma RecordNotification_changes: "RecordNotification env p m a db = Inr db' \<Longrightarrow> changes {} db db'"
  unfolding RecordNotification_def Let_def by (auto simp: bindE_Inr_iff dest: appendEvent_changes split: if_splits)

lemma AdoptActor_changes: "AdoptActor env request db = Inr (r, db') \<Longrightarrow> changes {TOutbox, TAdoptions} db db'"
proof -
  have "changes {TOutbox, TAdoptions} db db'" if "adopt_new env q db = Inr (r, db')" for q
    using that by (auto simp: adopt_new_def Let_def bindE_Inr_iff changes_iff dest!: appendEvent_changes)
  then show "AdoptActor env request db = Inr (r, db') \<Longrightarrow> changes {TOutbox, TAdoptions} db db'"
    by (erule_tac AdoptActor_cases) auto
qed

subsection \<open>Actors\<close>

lemma mutateAlias_changes:
  assumes "mutateAlias env a actor action by_actor by_run project k db = Inr (r, db')"
  shows "changes {TAliases} db db'"
proof (cases "aliasRequestByIdempotency db by_actor k")
  case None
  then obtain m pl as hs where "appendEvent env project ''durable'' m [] by_actor pl (db\<lparr>aliases := as, alias_history := hs\<rparr>) = Inr db'"
    using assms by (auto simp: mutateAlias_def Let_def bindE_Inr_iff)
  from appendEvent_changes [OF this] show ?thesis by (simp add: changes_iff)
next
  case (Some p)
  then show ?thesis using assms by (auto simp: mutateAlias_def split: if_splits)
qed

lemma SetAlias_changes: "SetAlias env q db = Inr (r, db') \<Longrightarrow> changes {TAliases} db db'"
  by (auto simp: SetAlias_def bindE_Inr_iff intro: mutateAlias_changes)

lemma RemoveAlias_changes: "RemoveAlias env q db = Inr (r, db') \<Longrightarrow> changes {TAliases} db db'"
  by (auto simp: RemoveAlias_def bindE_Inr_iff intro: mutateAlias_changes)

lemma claim_outcome_changes: "claim_outcome env q db = Inr (r, db') \<Longrightarrow> changes {TAliases} db db'"
  unfolding claim_outcome_def Let_def
  by (auto simp: bindE_Inr_iff changes_iff dest!: appendEvent_changes split: sum.splits)

lemma ClaimAlias_changes:
  assumes "ClaimAliasIfAbsent env request db = Inr (r, db')"
  shows "changes {TAliases} db db'"
proof -
  obtain q where q: "normalizeAliasClaimRequest request = Inr q"
    using assms by (auto simp: ClaimAliasIfAbsent_def bindE_Inr_iff)
  show ?thesis
  proof (cases "row_by alias_claim_key (acq_by_actor q, acq_idempotency_key q) (alias_claims db)")
    case None
    then obtain x db1 where "claim_outcome env q db = Inr (x, db1)" "db' = db1\<lparr>alias_claims := alias_claims db1 @ [claim_record q x (e_now env)]\<rparr>"
      using assms q by (auto simp: ClaimAliasIfAbsent_def bindE_Inr_iff)
    then show ?thesis by (auto simp: changes_iff dest!: claim_outcome_changes)
  next
    case (Some c)
    then show ?thesis using assms q by (auto simp: ClaimAliasIfAbsent_def bindE_Inr_iff split: if_splits)
  qed
qed

lemma bindHostAttention_changes: "bindHostAttention b now db = Inr db' \<Longrightarrow> changes {TSessions} db db'"
  unfolding bindHostAttention_def Let_def
  by (auto simp: bindE_Inr_iff changes_iff split: option.splits if_splits)

lemma RegisterSession_changes:
  assumes "RegisterSession env q db = Inr (r, db')"
  shows "changes {TSessions} db db'"
proof -
  obtain q' and db2 :: db and p m a pl where
    host: "(case rq_host q' of None \<Rightarrow> Inr (db\<lparr>registrations := upsert_session q' (e_now env) (registrations db)\<rparr>)
      | Some b \<Rightarrow> bindHostAttention b (e_now env) (db\<lparr>registrations := upsert_session q' (e_now env) (registrations db)\<rparr>)) = Inr db2"
    and ev: "appendEvent env p ''operational'' m [] a pl db2 = Inr db'"
    using assms by (auto simp: RegisterSession_def Let_def bindE_Inr_iff)
  have "changes {TSessions} db (db\<lparr>registrations := upsert_session q' (e_now env) (registrations db)\<rparr>)"
    by (simp add: changes_iff)
  then have "changes {TSessions} db db2"
    using host by (auto split: option.splits dest!: bindHostAttention_changes elim: changes_trans)
  then show ?thesis by (rule changes_trans [OF _ appendEvent_changes [OF ev]]) simp_all
qed

lemma Heartbeat_changes: "HeartbeatRegistrations env a run lease db = Inr (n, db') \<Longrightarrow> changes {TSessions} db db'"
  by (auto simp: HeartbeatRegistrations_def Let_def bindE_Inr_iff changes_iff)

lemma registrations_changes: "db' = db\<lparr>registrations := x\<rparr> \<Longrightarrow> changes {TSessions} db db'"
  by (simp add: changes_iff)

lemma AttachMonitor_changes: "AttachMonitor env a run s h md lease db = Inr (res, db') \<Longrightarrow> changes {TSessions} db db'"
  by (erule AttachMonitorD) (erule registrations_changes)+

lemma ExpireRegistration_changes: "ExpireRegistration env a run s reason db = Inr db' \<Longrightarrow> changes {TSessions} db db'"
  unfolding ExpireRegistration_def Let_def
  by (auto simp: bindE_Inr_iff changes_iff dest!: appendEvent_changes split: option.splits if_splits)

lemma RecordHydration_changes: "RecordHydration env p a run h s n db = Inr db' \<Longrightarrow> changes {} db db'"
  by (auto simp: RecordHydration_def bindE_Inr_iff dest: appendEvent_changes)

lemma MarkAdmitted_changes: "MarkHostAttentionAdmitted env b db = Inr db' \<Longrightarrow> changes {} db db'"
  by (auto simp: MarkHostAttentionAdmitted_def Let_def bindE_Inr_iff changes_iff)

lemma HostAttentionBinding_changes: "HostAttentionBinding env pid st db = Inr (b, db') \<Longrightarrow> changes {} db db'"
  by (auto simp: HostAttentionBinding_def Let_def bindE_Inr_iff changes_iff split: option.splits)

lemma ArchiveActor_changes:
  assumes "ArchiveActor env0 db0 env a by_actor allow db = Inr (r, db')"
  shows "changes {TContinuity, TConditions} db db'"
proof -
  obtain w db1 cs where tx: "archive_tx env a by_actor allow db = Inr (w, db1)" and db': "db' = db1\<lparr>conditions := cs\<rparr>"
    using ArchiveActor_tx [OF assms] by blast
  show ?thesis unfolding db' archive_txD(8) [OF tx] by (simp add: changes_iff)
qed

lemma archive_tx_changes: "archive_tx env a by_actor allow db = Inr (w, db') \<Longrightarrow> changes {TContinuity} db db'"
  by (drule archive_txD(8)) (simp add: changes_iff)

lemma RestoreActor_changes: "RestoreActor env a by_actor db = Inr (r, db') \<Longrightarrow> changes {} db db'"
  by (auto simp: RestoreActor_def Let_def bindE_Inr_iff changes_iff)

lemma conditions_changes: "db' = db\<lparr>conditions := x\<rparr> \<Longrightarrow> changes {TConditions} db db'"
  by (simp add: changes_iff)

lemmas condition_ops = ObserveCondition_def ResolveCondition_def ResolveConditionIfReason_def ListConditions_def
  AcknowledgeCondition_def SnoozeCondition_def changeConditionPresentation_def ClaimConditionPresentation_def

subsection \<open>Binding\<close>

lemma take_over_changes: "take_over env q a reason ps db = Inr db' \<Longrightarrow> changes {TSessions} db db'"
  by (auto simp: take_over_def supersedePresences_def changes_iff dest!: appendEvent_changes split: if_splits)

lemma reserve_name_changes: "changes {} db (reserve_name a now db)"
  by (simp add: reserve_name_def changes_iff)

lemma allocateActor_changes: "allocateActor env digest b pr db = Inr (a, db') \<Longrightarrow> changes {} db db'"
  by (auto simp: changes_iff dest!: allocateActor_shape)

lemma resolveBoundActor_changes: "resolveBoundActor db hs = Inr (b, db') \<Longrightarrow> changes {TContinuity} db db'"
  by (auto simp: changes_iff dest!: resolveBoundActor_shape)

lemma continuity_changes: "changes {TContinuity} db (db\<lparr>continuity := x\<rparr>)"
  by (simp add: changes_iff)

lemma finalize_changes: "finalizeActorAllocation env a run p ks db = Inr (m, db') \<Longrightarrow> changes {} db db'"
proof -
  have id: "changes {} (db\<lparr>allocations := x\<rparr>) d \<Longrightarrow> changes {} db d" for x d by (simp add: changes_iff)
  show "finalizeActorAllocation env a run p ks db = Inr (m, db') \<Longrightarrow> changes {} db db'"
    by (auto simp: finalizeActorAllocation_def bindE_Inr_iff split: option.splits if_splits
        dest!: appendEvent_changes intro!: id elim!: changes_trans [OF reserve_name_changes])
qed

lemma settle_changes: "settle_allocation env q r db = Inr (r1, db') \<Longrightarrow> changes {} db db'"
  by (auto simp: settle_allocation_def bindE_Inr_iff dest!: finalize_changes split: if_splits)

lemma choose_actor_changes:
  assumes "choose_actor env digest q db = Inr (r, base, db')"
  shows "changes {TContinuity} db db'"
  using assms
  by (cases rule: choose_actorD)
    (auto dest!: resolveBoundActor_changes allocateActor_changes elim: changes_trans)

lemma bind_exact_changes: "bind_exact env q db = Inr (r, db') \<Longrightarrow> changes {TSessions, TContinuity} db db'"
  by (auto simp: bind_exact_def Let_def bindE_Inr_iff dest!: take_over_changes intro: changes_trans [OF _ continuity_changes])

lemma changes_continuityI: "changes {TContinuity} (db\<lparr>continuity := x\<rparr>) db' \<Longrightarrow> changes {TContinuity} db db'"
  by (rule changes_trans [OF continuity_changes, where U = "{TContinuity}"]) simp_all

lemma bind_pending_changes:
  assumes "bind_pending env digest q (c, p, hs) db = Inr (r, db')"
  shows "changes {TContinuity} db db'"
  using assms unfolding bind_pending_def prod.case
proof (rule changes_bind, goal_cases)
  case (1 a d)
  then show ?case by (auto split: option.splits dest!: allocateActor_changes intro: changes_mono)
next
  case (2 a d)
  show ?case
  proof (rule changes_bind [OF 2(2) [unfolded prod.case Let_def]], goal_cases)
    case (1 x d2)
    then show ?case
      by (auto simp: bindE_Inr_iff split: if_splits dest!: finalize_changes
          intro: continuity_changes changes_continuityI [OF changes_mono])
  next
    case (2 x d2)
    then show ?case by (auto simp: bindE_Inr_iff dest!: appendEvent_changes intro: changes_mono)
  qed
qed

lemma bind_allocate_cases [consumes 1]:
  assumes "bind_allocate env digest q db = Inr (r, db')"
  obtains (pending) c p hs where "pendingLivePredecessor db (bq_handles q) (bq_run q) (e_now env) = Inr (Some (c, p, hs))"
      "bind_pending env digest q (c, p, hs) db = Inr (r, db')"
  | (chosen) r0 base d1 d2 r1 d3 where "choose_actor env digest q db = Inr (r0, base, d1)"
      "d2 = d1\<lparr>continuity := fold ((if br_adopted_predecessor r0 \<noteq> [] then repoint_handle else bind_handle) (br_actor r0) base (e_now env))
         (bq_handles q) (continuity d1)\<rparr>"
      "settle_allocation env q r0 d2 = Inr (r1, d3)"
      "if br_reclaimed r1 then \<exists>ps. take_over env q (br_actor r0) ''continuity_reclaim'' ps d3 = Inr db' else db' = d3"
proof -
  obtain pending where pl: "pendingLivePredecessor db (bq_handles q) (bq_run q) (e_now env) = Inr pending"
    and go: "(if pending \<noteq> None \<and> \<not> bq_takeover q then bind_pending env digest q (the pending) db
    else bindE (choose_actor env digest q db) (\<lambda>(r, base, db1).
      let actor = br_actor r; now = e_now env;
          bind = (if br_adopted_predecessor r \<noteq> [] then repoint_handle else bind_handle);
          db2 = db1\<lparr>continuity := fold (bind actor base now) (bq_handles q) (continuity db1)\<rparr> in
      bindE (settle_allocation env q r db2) (\<lambda>(r1, db3).
      if br_reclaimed r1
      then let presences = liveOtherPresences db3 actor (bq_run q) now in
        bindE (take_over env q actor ''continuity_reclaim'' presences db3) (\<lambda>db4.
        Inr (r1\<lparr>br_superseded := presences\<rparr>, db4))
      else Inr (r1, db3)))) = Inr (r, db')"
    using assms unfolding bind_allocate_def by (auto simp: bindE_Inr_iff [of "pendingLivePredecessor _ _ _ _"])
  show thesis
  proof (cases "pending \<noteq> None \<and> \<not> bq_takeover q")
    case True
    then show thesis using pending pl go by (cases "the pending") auto
  next
    case False
    note go = go [unfolded if_not_P [OF False]]
    then obtain r0 base d1 where ch: "choose_actor env digest q db = Inr (r0, base, d1)"
      unfolding bindE_Inr_iff by fastforce
    let ?d2 = "d1\<lparr>continuity := fold ((if br_adopted_predecessor r0 \<noteq> [] then repoint_handle else bind_handle) (br_actor r0) base (e_now env))
         (bq_handles q) (continuity d1)\<rparr>"
    note go = go [unfolded ch bindE_Inr prod.case Let_def]
    then obtain r1 d3 where st: "settle_allocation env q r0 ?d2 = Inr (r1, d3)"
      unfolding bindE_Inr_iff by fastforce
    show thesis
      using chosen [OF ch refl st] go [unfolded st bindE_Inr prod.case]
      by (cases "br_reclaimed r1") (auto simp: bindE_Inr_iff)
  qed
qed

lemma bind_allocate_changes:
  assumes "bind_allocate env digest q db = Inr (r, db')"
  shows "changes {TSessions, TContinuity} db db'"
  using assms
proof (cases rule: bind_allocate_cases)
  case (pending c p hs)
  then show ?thesis using changes_mono [OF bind_pending_changes] by simp
next
  case (chosen r0 base d1 d2 r1 d3)
  have "changes {TContinuity} db d2"
    unfolding chosen(2) by (rule changes_trans [OF choose_actor_changes [OF chosen(1)] continuity_changes]) simp_all
  then have "changes {TContinuity} db d3" by (rule changes_trans [OF _ settle_changes [OF chosen(3)]]) simp_all
  moreover have "d3 = db' \<or> changes {TSessions} d3 db'" using chosen(4) take_over_changes by (auto split: if_splits)
  ultimately show ?thesis using changes_mono [of "{TContinuity}" db] changes_trans [of "{TContinuity}" db d3 "{TSessions}" db'] by auto
qed

lemma BindActor_changes:
  assumes "BindActor env digest request db = Inr (r, db')"
  shows "changes {TSessions, TContinuity} db db'"
proof -
  obtain q run handle ns hs and db1 :: db where
    step: "if bq_mode q = NameExact then \<not> actorArchived db (bq_actor q) \<and> bind_exact env (q\<lparr>bq_run := run\<rparr>) db = Inr (r, db1)
      else bind_allocate env digest (q\<lparr>bq_run := run\<rparr>) db = Inr (r, db1)"
    and db': "db' = db1\<lparr>actor_names := ns, harness_bindings := hs\<rparr>"
    by (rule BindActorD [OF assms])
  have "changes {TSessions, TContinuity} db db1"
    using step by (auto split: if_splits intro: bind_exact_changes bind_allocate_changes)
  then show ?thesis by (simp add: db' changes_iff)
qed

lemma ReserveActorName_changes: "ReserveActorName env a db = Inr db' \<Longrightarrow> changes {} db db'"
  by (auto simp: ReserveActorName_def Let_def bindE_Inr_iff reserve_name_changes)

lemma FinalizeActor_changes: "FinalizeActorAllocation env a run p hs db = Inr db' \<Longrightarrow> changes {} db db'"
  by (auto simp: FinalizeActorAllocation_def bindE_Inr_iff dest: finalize_changes)

lemma ReleaseProvisional_changes: "changes {TContinuity} db (ReleaseProvisionalActor a db)"
  by (simp add: ReleaseProvisionalActor_def release_provisional_def changes_iff)

end
