(* ===== verification/StoreRuns.thy ===== *)
theory StoreRuns
  imports StoreFrames
begin

text \<open>
  The store as one state machine. Every operation is one SQLite transaction and the daemon
  opens the database with a single connection, so a run of the daemon is a sequence of
  operations in some order, each at its own clock reading; one that fails changes nothing.
  The invariants the properties of the components assume hold in every store so reached.
\<close>

section \<open>Steps\<close>

inductive store_step :: "env \<Rightarrow> db \<Rightarrow> db \<Rightarrow> bool" for env where
  send: "Send env q db = Inr (sent, db') \<Longrightarrow> store_step env db db'"
| claim: "Claim env a mid lease db = Inr (c, db') \<Longrightarrow> store_step env db db'"
| ack: "Ack env a mid tok db = Inr db' \<Longrightarrow> store_step env db db'"
| nack: "Nack env a mid tok reason final db = Inr db' \<Longrightarrow> store_step env db db'"
| extend: "Extend env a mid tok lease db = Inr (x, db') \<Longrightarrow> store_step env db db'"
| revoke: "RevokeDeliveryLease env a mid grace db = Inr db' \<Longrightarrow> store_step env db db'"
| set_alias: "SetAlias env sq db = Inr (am, db') \<Longrightarrow> store_step env db db'"
| remove_alias: "RemoveAlias env rq db = Inr (am, db') \<Longrightarrow> store_step env db db'"
| claim_alias: "ClaimAliasIfAbsent env cq db = Inr (ac, db') \<Longrightarrow> store_step env db db'"
| adopt: "AdoptActor env aq db = Inr (ad, db') \<Longrightarrow> store_step env db db'"
| observe: "ObserveCondition env oq db = Inr (cr, db') \<Longrightarrow> store_step env db db'"
| resolve: "ResolveCondition env kind subject db = Inr db' \<Longrightarrow> store_step env db db'"
| resolve_if: "ResolveConditionIfReason env kind subject reason db = Inr db' \<Longrightarrow> store_step env db db'"
| list_conditions: "ListConditions env include_resolved limit db = (crs, db') \<Longrightarrow> store_step env db db'"
| acknowledge: "AcknowledgeCondition env kind subject gen db = Inr (cr, db') \<Longrightarrow> store_step env db db'"
| snooze: "SnoozeCondition env kind subject gen until db = Inr (cr, db') \<Longrightarrow> store_step env db db'"
| present: "ClaimConditionPresentation env kind subject gen presenter lease db = Inr (won, db') \<Longrightarrow> store_step env db db'"
| register: "RegisterSession env reg db = Inr (rn, db') \<Longrightarrow> store_step env db db'"
| heartbeat: "HeartbeatRegistrations env a run lease db = Inr (n, db') \<Longrightarrow> store_step env db db'"
| attach: "AttachMonitor env a run session harness mode lease db = Inr (res, db') \<Longrightarrow> store_step env db db'"
| expire: "ExpireRegistration env a run session reason db = Inr db' \<Longrightarrow> store_step env db db'"
| hydrate: "RecordHydration env project a run harness session unread db = Inr db' \<Longrightarrow> store_step env db db'"
| host_binding: "HostAttentionBinding env pid start db = Inr (hb, db') \<Longrightarrow> store_step env db db'"
| admit: "MarkHostAttentionAdmitted env hb db = Inr db' \<Longrightarrow> store_step env db db'"
| claim_wake: "ClaimNotification env db = Inr (job, db') \<Longrightarrow> store_step env db db'"
| finish_wake: "FinishNotification env job disp detail db = Inr db' \<Longrightarrow> store_step env db db'"
| rearm: "RearmAcceptedNotifications env a db = Inr db' \<Longrightarrow> store_step env db db'"
| record_wake: "RecordNotification env project mid attempt db = Inr db' \<Longrightarrow> store_step env db db'"
| archive: "archive_tx env a by_actor allow db = Inr (unread, db') \<Longrightarrow> store_step env db db'"
| restore: "RestoreActor env a by_actor db = Inr (ar, db') \<Longrightarrow> store_step env db db'"
| bind: "BindActor env digest bq db = Inr (br, db') \<Longrightarrow> store_step env db db'"
| reserve: "ReserveActorName env a db = Inr db' \<Longrightarrow> store_step env db db'"
| finalize: "FinalizeActorAllocation env a run project handles db = Inr db' \<Longrightarrow> store_step env db db'"
| release: "db' = ReleaseProvisionalActor a db \<Longrightarrow> store_step env db db'"

inductive_cases store_stepE [consumes 1]: "store_step env db db'"

inductive store_run :: "db \<Rightarrow> bool" where
  fresh: "store_run empty_db"
| later: "store_run db \<Longrightarrow> store_step env db db' \<Longrightarrow> store_run db'"

section \<open>The invariant\<close>

definition store_ok :: "db \<Rightarrow> bool" where
  "store_ok db \<longleftrightarrow> messages_ok db \<and> deliveries_ok db \<and> outbox_ok db \<and> counts_ok db \<and> sessions_ok db \<and> aliases_ok db \<and>
    adoptions_ok db \<and> continuity_ok db \<and> conditions_ok db \<and> events_ok db"

lemma messages_ok_keep: "changes T db db' \<Longrightarrow> TMessages \<notin> T \<Longrightarrow> messages_ok db \<Longrightarrow> messages_ok db'"
  by (simp add: changes_iff messages_ok_def)

lemma deliveries_ok_keep:
  "changes T db db' \<Longrightarrow> TMessages \<notin> T \<Longrightarrow> TDeliveries \<notin> T \<Longrightarrow> deliveries_ok db \<Longrightarrow> deliveries_ok db'"
  by (simp add: changes_iff deliveries_ok_def legacy_messages_def)

lemma outbox_ok_keep:
  "changes T db db' \<Longrightarrow> TOutbox \<notin> T \<Longrightarrow> outbox_ok db \<Longrightarrow> outbox_ok db'"
  "changes T db db' \<Longrightarrow> TOutbox \<notin> T \<Longrightarrow> counts_ok db \<Longrightarrow> counts_ok db'"
  by (simp_all add: changes_iff outbox_ok_def counts_ok_def)

lemma sessions_ok_keep: "changes T db db' \<Longrightarrow> TSessions \<notin> T \<Longrightarrow> sessions_ok db \<Longrightarrow> sessions_ok db'"
  by (simp add: changes_iff sessions_ok_def)

lemma aliases_ok_keep: "changes T db db' \<Longrightarrow> TAliases \<notin> T \<Longrightarrow> aliases_ok db \<Longrightarrow> aliases_ok db'"
  by (simp add: changes_iff aliases_ok_def)

lemma adoptions_ok_keep: "changes T db db' \<Longrightarrow> TAdoptions \<notin> T \<Longrightarrow> adoptions_ok db \<Longrightarrow> adoptions_ok db'"
  by (simp add: changes_iff adoptions_ok_def)

lemma continuity_ok_keep: "changes T db db' \<Longrightarrow> TContinuity \<notin> T \<Longrightarrow> continuity_ok db \<Longrightarrow> continuity_ok db'"
  by (simp add: changes_iff continuity_ok_def)

lemma conditions_ok_keep: "changes T db db' \<Longrightarrow> TConditions \<notin> T \<Longrightarrow> conditions_ok db \<Longrightarrow> conditions_ok db'"
  by (simp add: changes_iff conditions_ok_def)

lemma events_ok_keep: "changes T db db' \<Longrightarrow> events_ok db \<Longrightarrow> events_ok db'"
  by (simp add: changes_iff)

lemma store_ok_keep:
  assumes "changes T db db'" and "store_ok db"
    and "TMessages \<in> T \<Longrightarrow> messages_ok db'"
    and "TMessages \<in> T \<or> TDeliveries \<in> T \<Longrightarrow> deliveries_ok db'"
    and "TOutbox \<in> T \<Longrightarrow> outbox_ok db' \<and> counts_ok db'"
    and "TSessions \<in> T \<Longrightarrow> sessions_ok db'" and "TAliases \<in> T \<Longrightarrow> aliases_ok db'"
    and "TAdoptions \<in> T \<Longrightarrow> adoptions_ok db'" and "TContinuity \<in> T \<Longrightarrow> continuity_ok db'"
    and "TConditions \<in> T \<Longrightarrow> conditions_ok db'"
  shows "store_ok db'"
proof -
  note ok = assms(2) [unfolded store_ok_def]
  have "messages_ok db'" using ok assms(3) messages_ok_keep [OF assms(1)] by blast
  moreover have "deliveries_ok db'" using ok assms(4) deliveries_ok_keep [OF assms(1)] by blast
  moreover have "outbox_ok db' \<and> counts_ok db'" using ok assms(5) outbox_ok_keep [OF assms(1)] by blast
  moreover have "sessions_ok db'" using ok assms(6) sessions_ok_keep [OF assms(1)] by blast
  moreover have "aliases_ok db'" using ok assms(7) aliases_ok_keep [OF assms(1)] by blast
  moreover have "adoptions_ok db'" using ok assms(8) adoptions_ok_keep [OF assms(1)] by blast
  moreover have "continuity_ok db'" using ok assms(9) continuity_ok_keep [OF assms(1)] by blast
  moreover have "conditions_ok db'" using ok assms(10) conditions_ok_keep [OF assms(1)] by blast
  moreover have "events_ok db'" using ok events_ok_keep [OF assms(1)] by blast
  ultimately show ?thesis unfolding store_ok_def by blast
qed

section \<open>Each table keeps its invariant\<close>

definition wakes_ok :: "outbox_row list \<Rightarrow> bool" where
  "wakes_ok rows \<longleftrightarrow> distinct (map outbox_key rows) \<and> (\<forall>n\<in>set rows. 0 \<le> ob_attempt n)"

lemma outbox_wakes: "outbox_ok db \<and> counts_ok db \<longleftrightarrow> wakes_ok (outbox db)"
  by (simp add: outbox_ok_def counts_ok_def wakes_ok_def)

lemma wakes_ok_update:
  assumes "\<And>n. outbox_key (f n) = outbox_key n" and "\<And>n. 0 \<le> ob_attempt n \<Longrightarrow> 0 \<le> ob_attempt (f n)" and "wakes_ok rows"
  shows "wakes_ok (update_where p f rows)"
proof -
  have "map outbox_key (update_where p f rows) = map outbox_key rows"
    using assms(1) by (induction rows) auto
  then show ?thesis using assms(2,3) by (auto simp: wakes_ok_def set_update_where)
qed

lemma wakes_ok_append:
  "wakes_ok rows \<Longrightarrow> row_by outbox_key (outbox_key n) rows = None \<Longrightarrow> 0 \<le> ob_attempt n \<Longrightarrow> wakes_ok (rows @ [n])"
  by (auto simp: wakes_ok_def row_by_None_key)

lemma wakes_ok_enqueue: "wakes_ok rows \<Longrightarrow> wakes_ok (enqueue_notification mid now a rows)"
  by (auto simp: enqueue_notification_def pending_row_def intro: wakes_ok_append)

lemma wakes_ok_fold: "(\<And>x rows. wakes_ok rows \<Longrightarrow> wakes_ok (g x rows)) \<Longrightarrow> wakes_ok rows \<Longrightarrow> wakes_ok (fold g xs rows)"
  by (induction xs arbitrary: rows) auto

lemma wakes_ok_upsert: "wakes_ok rows \<Longrightarrow> wakes_ok (upsert_pending mid a now rows)"
  by (auto simp: upsert_pending_def intro: wakes_ok_append wakes_ok_update)

lemma wakes_ok_close: "wakes_ok rows \<Longrightarrow> wakes_ok (close_notification mid a now rows)"
  unfolding close_notification_def by (rule wakes_ok_update) simp_all

lemma attempts_update:
  "(\<And>n. ob_attempt (f n) = ob_attempt n) \<Longrightarrow> \<forall>n\<in>set rows. 0 \<le> ob_attempt n \<Longrightarrow> \<forall>n\<in>set (update_where p f rows). 0 \<le> ob_attempt n"
  by (induction rows) simp_all

lemma attempts_enqueue:
  "\<forall>n\<in>set rows. 0 \<le> ob_attempt n \<Longrightarrow>
    \<forall>n\<in>set (fold (\<lambda>(m, d). enqueue_notification (dl_message_id d) now a) xs rows). 0 \<le> ob_attempt n"
proof (induction xs arbitrary: rows)
  case (Cons x xs)
  have "\<forall>n\<in>set (enqueue_notification (dl_message_id (snd x)) now a rows). 0 \<le> ob_attempt n"
    using Cons(2) by (simp add: enqueue_notification_def pending_row_def)
  then show ?case using Cons(1) by (simp add: case_prod_beta)
qed simp

lemma wakes_ok_adopt:
  assumes "wakes_ok rows"
  shows "wakes_ok (adopt_notifications s a now mail rows)"
proof -
  have "\<forall>n\<in>set (adopt_notifications s a now mail rows). 0 \<le> ob_attempt n"
    unfolding adopt_notifications_def retarget_def retire_duplicates_def
    by (intro attempts_enqueue attempts_update) (use assms in \<open>simp_all add: wakes_ok_def\<close>)
  then show ?thesis using assms distinct_adopt_notifications by (simp add: wakes_ok_def)
qed

lemma wakes_ok_expire: "wakes_ok (outbox db) \<Longrightarrow> wakes_ok (expire_jobs db now)"
  unfolding expire_jobs_def by (rule wakes_ok_update) (simp_all add: retire_row_def)

lemma wakes_ok_claim:
  assumes "ClaimNotification env db = Inr (j, db')" and "wakes_ok (outbox db)"
  shows "wakes_ok (outbox db')"
proof -
  obtain p where "outbox db' = update_where p (process_row (e_now env + 30 * second)) (expire_jobs db (e_now env))"
    using assms(1) by (auto simp: ClaimNotification_def Let_def bindE_Inr_iff split: list.splits option.splits)
  then show ?thesis
    using wakes_ok_update [OF _ _ wakes_ok_expire [OF assms(2)], of "process_row (e_now env + 30 * second)" p]
    by (simp add: process_row_def)
qed

lemma wakes_ok_finish: "FinishNotification env j d detail db = Inr db' \<Longrightarrow> wakes_ok (outbox db) \<Longrightarrow> wakes_ok (outbox db')"
  by (erule FinishNotificationD) (simp_all add: wakes_ok_update finish_job_row_def)

lemma wakes_ok_rearm: "RearmAcceptedNotifications env a db = Inr db' \<Longrightarrow> wakes_ok (outbox db) \<Longrightarrow> wakes_ok (outbox db')"
  by (auto simp: RearmAcceptedNotifications_def Let_def bindE_Inr_iff retire_row_def rearm_row_def intro!: wakes_ok_update)

lemma sessions_ok_update:
  assumes "\<And>r. session_key (f r) = session_key r" and "registrations db' = update_where p f (registrations db)" and "sessions_ok db"
  shows "sessions_ok db'"
proof -
  have "map session_key (update_where p f rows) = map session_key rows" for rows
    using assms(1) by (induction rows) auto
  then show ?thesis using assms(2,3) by (simp add: sessions_ok_def)
qed

lemma bindHostAttention_sessions_ok:
  assumes "bindHostAttention b now db = Inr db'" and "sessions_ok db"
  shows "sessions_ok db'"
proof -
  have "registrations db' = registrations db \<or> (\<exists>p. registrations db' = update_where p (supersede_row now) (registrations db))"
    using assms(1) unfolding bindHostAttention_def Let_def
    by (auto simp: bindE_Inr_iff split: option.splits if_splits)
  then show ?thesis using assms(2) sessions_ok_update [of "supersede_row now" db'] by (auto simp: sessions_ok_def supersede_row_def)
qed

lemma RegisterSession_sessions_ok:
  assumes "RegisterSession env q db = Inr (r, db')" and "sessions_ok db"
  shows "sessions_ok db'"
proof -
  obtain q' and db2 :: db and p m a pl where
    host: "(case rq_host q' of None \<Rightarrow> Inr (db\<lparr>registrations := upsert_session q' (e_now env) (registrations db)\<rparr>)
      | Some b \<Rightarrow> bindHostAttention b (e_now env) (db\<lparr>registrations := upsert_session q' (e_now env) (registrations db)\<rparr>)) = Inr db2"
    and ev: "appendEvent env p ''operational'' m [] a pl db2 = Inr db'"
    using assms(1) by (auto simp: RegisterSession_def Let_def bindE_Inr_iff)
  have "sessions_ok (db\<lparr>registrations := upsert_session q' (e_now env) (registrations db)\<rparr>)"
    using assms(2)
    by (auto simp: sessions_ok_def upsert_session_def again_upd.map_key_update row_by_None_key new_session_def request_key_def)
  then have "sessions_ok db2" using host bindHostAttention_sessions_ok by (auto split: option.splits)
  then show ?thesis using appendEvent_frame(4) [OF ev] by (simp add: sessions_ok_def)
qed

lemma supersedePresences_sessions_ok: "sessions_ok db \<Longrightarrow> sessions_ok (supersedePresences ps now db)"
proof -
  have "map session_key (update_where p (supersede_presence_row now) rows) = map session_key rows" for p rows
    by (induction rows) (simp_all add: supersede_presence_row_def)
  then have "map session_key (fold (\<lambda>x. update_where (p x) (supersede_presence_row now)) xs rows) = map session_key rows"
    for p and xs :: "registration list" and rows
    by (induction xs arbitrary: rows) simp_all
  then show "sessions_ok db \<Longrightarrow> sessions_ok (supersedePresences ps now db)"
    by (simp add: sessions_ok_def supersedePresences_def del: prod.inject)
qed

lemma take_over_sessions_ok: "take_over env q a reason ps db = Inr db' \<Longrightarrow> sessions_ok db \<Longrightarrow> sessions_ok db'"
  by (auto simp: take_over_def dest!: appendEvent_changes split: if_splits
      intro: sessions_ok_keep supersedePresences_sessions_ok)

lemma bind_exact_sessions_ok: "bind_exact env q db = Inr (r, db') \<Longrightarrow> sessions_ok db \<Longrightarrow> sessions_ok db'"
  by (auto simp: bind_exact_def Let_def bindE_Inr_iff sessions_ok_def dest!: take_over_sessions_ok)

lemma bind_allocate_sessions_ok:
  assumes "bind_allocate env digest q db = Inr (r, db')" and "sessions_ok db"
  shows "sessions_ok db'"
  using assms(1)
proof (cases rule: bind_allocate_cases)
  case (pending c p hs)
  then show ?thesis using sessions_ok_keep [OF bind_pending_changes] assms(2) by blast
next
  case (chosen r0 base d1 d2 r1 d3)
  have "sessions_ok d1" by (rule sessions_ok_keep [OF choose_actor_changes [OF chosen(1)] _ assms(2)]) simp
  then have "sessions_ok d2" by (simp add: chosen(2) sessions_ok_def)
  then have "sessions_ok d3" by (rule sessions_ok_keep [OF settle_changes [OF chosen(3)], rotated]) simp
  then show ?thesis using chosen(4) take_over_sessions_ok by (auto split: if_splits)
qed

lemma BindActor_sessions_ok:
  assumes "BindActor env digest request db = Inr (r, db')" and "sessions_ok db"
  shows "sessions_ok db'"
proof -
  obtain q run handle ns hs and db1 :: db where
    step: "if bq_mode q = NameExact then \<not> actorArchived db (bq_actor q) \<and> bind_exact env (q\<lparr>bq_run := run\<rparr>) db = Inr (r, db1)
      else bind_allocate env digest (q\<lparr>bq_run := run\<rparr>) db = Inr (r, db1)"
    and db': "db' = db1\<lparr>actor_names := ns, harness_bindings := hs\<rparr>"
    by (rule BindActorD [OF assms(1)])
  have "sessions_ok db1"
    using step assms(2) by (auto split: if_splits intro: bind_exact_sessions_ok bind_allocate_sessions_ok)
  then show ?thesis by (simp add: db' sessions_ok_def)
qed

subsection \<open>Continuity handles\<close>

lemma continuity_ok_bind:
  assumes "continuity_ok (db\<lparr>continuity := rows\<rparr>)" and "a \<noteq> []"
  shows "continuity_ok (db\<lparr>continuity := bind_handle a base now h rows\<rparr>)"
proof -
  have "map cb_handle (update_where p (\<lambda>c. c\<lparr>cb_updated_at := now\<rparr>) rows) = map cb_handle rows" for p
    by (induction rows) simp_all
  then show ?thesis
    using assms by (auto simp: continuity_ok_def bind_handle_def row_by_None_key split: if_splits dest!: in_update_whereD)
qed

lemma continuity_ok_repoint:
  assumes "continuity_ok (db\<lparr>continuity := rows\<rparr>)" and "a \<noteq> []"
  shows "continuity_ok (db\<lparr>continuity := repoint_handle a base now h rows\<rparr>)"
proof -
  have "map cb_handle (update_where p (\<lambda>c. c\<lparr>cb_actor := a, cb_base := base, cb_updated_at := now\<rparr>) rows) = map cb_handle rows" for p
    by (induction rows) simp_all
  then show ?thesis
    using assms by (auto simp: continuity_ok_def repoint_handle_def row_by_None_key split: if_splits dest!: in_update_whereD)
qed

lemma continuity_ok_fold:
  assumes "\<And>h rows. continuity_ok (db\<lparr>continuity := rows\<rparr>) \<Longrightarrow> continuity_ok (db\<lparr>continuity := g h rows\<rparr>)" and "continuity_ok db"
  shows "continuity_ok (db\<lparr>continuity := fold g hs (continuity db)\<rparr>)"
proof -
  have "continuity_ok (db\<lparr>continuity := rows\<rparr>) \<Longrightarrow> continuity_ok (db\<lparr>continuity := fold g hs rows\<rparr>)" for rows
    using assms(1) by (induction hs arbitrary: rows) auto
  then show ?thesis using assms(2) by simp
qed

lemma allocateActor_nonempty: "allocateActor env digest b pr db = Inr (a, db') \<Longrightarrow> a \<noteq> []"
  by (auto dest!: allocateActor_shape)

lemma choose_actor_continuity:
  assumes "choose_actor env digest q db = Inr (r, base, d)" and "continuity_ok db"
  shows "continuity_ok d" "br_actor r \<noteq> []"
proof -
  have keep: "continuity_ok e \<Longrightarrow> allocateActor env digest b True e = Inr (a, d) \<Longrightarrow> continuity_ok d" for b e a
    by (rule continuity_ok_keep [OF allocateActor_changes]) simp_all
  have "continuity_ok d \<and> br_actor r \<noteq> []"
    using assms(1)
  proof (cases rule: choose_actorD)
    case (reclaimed b)
    note res = resolve_some [OF reclaimed(1) assms(2)]
    have "b \<noteq> []" using res(1) handle_actor_nonempty [OF assms(2)] by blast
    then show ?thesis using res(3) reclaimed(2) by (simp add: initial_result_def)
  next
    case (fresh e a)
    have "e = db" by (rule resolve_none(1) [OF fresh(1)])
    then show ?thesis using keep [OF _ fresh(3)] assms(2) allocateActor_nonempty [OF fresh(3)] fresh(4) by (simp add: initial_result_def)
  next
    case (adopted b e a)
    show ?thesis
      using keep [OF resolve_some(3) [OF adopted(1) assms(2)] adopted(4)] allocateActor_nonempty [OF adopted(4)] adopted(5)
      by (simp add: initial_result_def)
  qed
  then show "continuity_ok d" "br_actor r \<noteq> []" by simp_all
qed

lemma continuity_ok_cong: "continuity db' = continuity db \<Longrightarrow> continuity_ok db' = continuity_ok db"
  by (simp add: continuity_ok_def)

lemma bind_exact_continuity_ok:
  assumes "bind_exact env q db = Inr (r, db')" and "continuity_ok db" and "bq_actor q \<noteq> []"
  shows "continuity_ok db'"
proof -
  obtain ps db1 where tk: "take_over env q (bq_actor q) ''explicit_takeover'' ps db = Inr db1"
    and db': "db' = db1\<lparr>continuity := fold (bind_handle (bq_actor q) (bq_actor q) (e_now env)) (bq_handles q) (continuity db1)\<rparr>"
    using assms(1) by (auto simp: bind_exact_def Let_def bindE_Inr_iff)
  have "continuity_ok db1" by (rule continuity_ok_keep [OF take_over_changes [OF tk] _ assms(2)]) simp
  then show ?thesis unfolding db' by (intro continuity_ok_fold continuity_ok_bind assms(3))
qed

lemma bind_pending_continuity_ok:
  assumes "bind_pending env digest q (c, p, hs) db = Inr (r, db')" and "continuity_ok db" and "c \<noteq> Some []"
  shows "continuity_ok db'"
proof -
  obtain a and db1 :: db where al: "(case c of Some a \<Rightarrow> Inr (a, db) | None \<Rightarrow> allocateActor env digest (bq_actor q) True db) = Inr (a, db1)"
    using assms(1) unfolding bind_pending_def prod.case bindE_Inr_iff by fastforce
  have a: "a \<noteq> []" "continuity_ok db1"
    using al assms(2,3) continuity_ok_keep [OF allocateActor_changes, of env digest "bq_actor q" True db a db1]
      allocateActor_nonempty by (auto split: option.splits)
  let ?d = "db1\<lparr>continuity := fold (bind_handle a (bq_actor q) (e_now env)) hs (continuity db1)\<rparr>"
  have d: "continuity_ok ?d" using a by (intro continuity_ok_fold continuity_ok_bind)
  have "continuity db' = continuity ?d"
    using assms(1) unfolding bind_pending_def prod.case al bindE_Inr Let_def
    by (auto simp: bindE_Inr_iff changes_iff split: if_splits dest!: finalize_changes appendEvent_changes)
  then show ?thesis using d continuity_ok_cong by blast
qed

lemma pending_candidate_nonempty:
  assumes "pendingLivePredecessor db handles run now = Inr (Some (c, p, hs))" and "continuity_ok db"
  shows "c \<noteq> Some []"
proof -
  let ?is = "nub (List.map_filter (handle_actor db) (filter (\<lambda>h. continuityHandleKind h = ''instance'') handles))"
  have "c = None \<or> (\<exists>a. c = Some a \<and> a \<in> set ?is)"
    using assms(1) unfolding pendingLivePredecessor_def Let_def
    by (auto simp: bindE_Inr_iff simp del: set_nub split: list.splits if_splits)
  moreover have "a \<noteq> []" if "a \<in> set ?is" for a
    using that handle_actor_nonempty [OF assms(2)] by (auto simp: in_map_filter)
  ultimately show ?thesis by blast
qed

lemma bind_allocate_continuity_ok:
  assumes "bind_allocate env digest q db = Inr (r, db')" and "continuity_ok db"
  shows "continuity_ok db'"
  using assms(1)
proof (cases rule: bind_allocate_cases)
  case (pending c p hs)
  then show ?thesis using bind_pending_continuity_ok [OF _ assms(2)] pending_candidate_nonempty [OF _ assms(2)] by blast
next
  case (chosen r0 base d1 d2 r1 d3)
  note ch = choose_actor_continuity [OF chosen(1) assms(2)]
  have "continuity_ok d2"
    unfolding chosen(2) using ch by (auto intro!: continuity_ok_fold continuity_ok_bind continuity_ok_repoint)
  then have "continuity_ok d3" by (rule continuity_ok_keep [OF settle_changes [OF chosen(3)], rotated]) simp
  then show ?thesis
    using chosen(4) continuity_ok_keep [OF take_over_changes] by (auto split: if_splits)
qed

lemma normalized_actor_nonempty: "normalizeActorBindRequest request = Inr q \<Longrightarrow> bq_actor q \<noteq> []"
  by (auto simp: normalizeActorBindRequest_def Let_def bindE_Inr_iff require_text_Inr)

lemma BindActor_continuity_ok:
  assumes "BindActor env digest request db = Inr (r, db')" and "continuity_ok db"
  shows "continuity_ok db'"
proof -
  obtain q run handle ns hs and db1 :: db where q: "normalizeActorBindRequest request = Inr q"
    and step: "if bq_mode q = NameExact then \<not> actorArchived db (bq_actor q) \<and> bind_exact env (q\<lparr>bq_run := run\<rparr>) db = Inr (r, db1)
      else bind_allocate env digest (q\<lparr>bq_run := run\<rparr>) db = Inr (r, db1)"
    and db': "db' = db1\<lparr>actor_names := ns, harness_bindings := hs\<rparr>"
    by (rule BindActorD [OF assms(1)])
  have "continuity_ok db1"
    using step assms(2) normalized_actor_nonempty [OF q]
    by (auto split: if_splits intro: bind_exact_continuity_ok bind_allocate_continuity_ok)
  then show ?thesis by (simp add: db' continuity_ok_def)
qed

lemma continuity_ok_filter: "continuity_ok db \<Longrightarrow> continuity db' = filter p (continuity db) \<Longrightarrow> continuity_ok db'"
  by (auto simp: continuity_ok_def distinct_map_filter)

section \<open>Every step keeps the invariant\<close>

lemma store_ok_conditions:
  assumes "conditions_step now (conditions db) (conditions db')" and "changes {TConditions} db db'" and "store_ok db"
  shows "store_ok db'"
  by (rule store_ok_keep [OF assms(2,3)]) (use assms(1,3) conditions_step_ok in \<open>auto simp: store_ok_def\<close>)

lemma store_ok_aliases: "changes {TAliases} db db' \<Longrightarrow> aliases_ok db' \<Longrightarrow> store_ok db \<Longrightarrow> store_ok db'"
  by (rule store_ok_keep) auto

lemma store_ok_sessions: "changes {TSessions} db db' \<Longrightarrow> sessions_ok db' \<Longrightarrow> store_ok db \<Longrightarrow> store_ok db'"
  by (rule store_ok_keep) auto

lemma store_ok_continuity: "changes {TContinuity} db db' \<Longrightarrow> continuity_ok db' \<Longrightarrow> store_ok db \<Longrightarrow> store_ok db'"
  by (rule store_ok_keep) auto

lemma store_ok_wakes: "changes {TOutbox} db db' \<Longrightarrow> wakes_ok (outbox db') \<Longrightarrow> store_ok db \<Longrightarrow> store_ok db'"
  by (rule store_ok_keep) (auto simp: outbox_wakes)

lemma store_ok_log: "changes {} db db' \<Longrightarrow> store_ok db \<Longrightarrow> store_ok db'"
  by (rule store_ok_keep) auto

lemma store_ok_deliveries:
  assumes "changes {TDeliveries, TOutbox} db db'" and "table_step now (deliveries db) (deliveries db')"
    and "wakes_ok (outbox db')" and "store_ok db"
  shows "store_ok db'"
proof (rule store_ok_keep [OF assms(1,4)])
  have "messages db' = messages db" using assms(1) by (simp add: changes_iff)
  then show "deliveries_ok db'" using deliveries_ok_table_step [OF _ assms(2)] assms(4) by (simp add: store_ok_def)
qed (use assms(3) outbox_wakes in auto)

lemma store_ok_wakesD: "store_ok db \<Longrightarrow> wakes_ok (outbox db)"
  by (simp add: store_ok_def outbox_wakes [symmetric])

lemma same_outbox_wakes: "changes {TDeliveries} db db' \<Longrightarrow> store_ok db \<Longrightarrow> changes {TDeliveries, TOutbox} db db' \<and> wakes_ok (outbox db')"
  using store_ok_wakesD by (simp add: changes_iff)

lemma Send_store_ok:
  assumes "Send env q db = Inr (r, db')" and "store_ok db"
  shows "store_ok db'"
proof (rule store_ok_keep [OF Send_changes [OF assms(1)] assms(2)])
  show "messages_ok db'" "deliveries_ok db'"
    using Send_invariants(3,4) [OF assms(1)] assms(2) by (simp_all add: store_ok_def)
  have new: "wakes_ok (outbox db')" if "send_new env req parent db = Inr (r, db')" for req parent
    by (rule send_newD [OF that]) (use store_ok_wakesD [OF assms(2)] in \<open>auto intro: wakes_ok_fold wakes_ok_enqueue\<close>)
  have "wakes_ok (outbox db')" by (rule SendD [OF assms(1)]) (use new store_ok_wakesD [OF assms(2)] in auto)
  then show "outbox_ok db' \<and> counts_ok db'" by (simp only: outbox_wakes)
qed auto

lemma Claim_store_ok:
  assumes "Claim env a mid lease db = Inr (c, db')" and "store_ok db"
  shows "store_ok db'"
  by (rule store_ok_deliveries [OF Claim_changes [OF assms(1)] Claim_step [OF assms(1)] _ assms(2)])
    (rule ClaimD [OF assms(1)], use store_ok_wakesD [OF assms(2)] wakes_ok_close in simp)

lemma finish_store_ok:
  assumes "finish env a mid tok ack final reason db = Inr db'" and "store_ok db"
  shows "store_ok db'"
  using same_outbox_wakes [OF finish_changes [OF assms(1)] assms(2)] finish_step [OF assms(1)] assms(2) store_ok_deliveries
  by (auto simp: store_ok_def)

lemma Extend_store_ok:
  assumes "Extend env a mid tok lease db = Inr (x, db')" and "store_ok db"
  shows "store_ok db'"
  using same_outbox_wakes [OF Extend_changes [OF assms(1)] assms(2)] Extend_step [OF assms(1)] assms(2) store_ok_deliveries
  by (auto simp: store_ok_def)

lemma Revoke_store_ok:
  assumes "RevokeDeliveryLease env a mid grace db = Inr db'" and "store_ok db"
  shows "store_ok db'"
proof (rule store_ok_deliveries [OF Revoke_changes [OF assms(1)] Revoke_step [OF assms(1)] _ assms(2)])
  show "deliveries_ok db" using assms(2) by (simp add: store_ok_def)
  show "wakes_ok (outbox db')"
    by (rule RevokeD [OF assms(1)]) (use store_ok_wakesD [OF assms(2)] wakes_ok_upsert in auto)
qed

lemma AdoptActor_store_ok:
  assumes "AdoptActor env q db = Inr (r, db')" and "store_ok db"
  shows "store_ok db'"
proof (rule store_ok_keep [OF AdoptActor_changes [OF assms(1)] assms(2)])
  have w: "wakes_ok (outbox db)" by (rule store_ok_wakesD [OF assms(2)])
  have "wakes_ok (outbox db')" if "adopt_new env q' db = Inr (r, db')" for q'
    using that by (rule adopt_newD) (simp add: w wakes_ok_adopt)
  then have "wakes_ok (outbox db')" using assms(1) w by (auto elim: AdoptActor_cases)
  then show "outbox_ok db' \<and> counts_ok db'" by (simp only: outbox_wakes)
  show "adoptions_ok db'" using AdoptActor_adoptions_ok [OF assms(1)] assms(2) by (simp add: store_ok_def)
qed auto

lemma BindActor_store_ok:
  assumes "BindActor env digest q db = Inr (r, db')" and "store_ok db"
  shows "store_ok db'"
  by (rule store_ok_keep [OF BindActor_changes [OF assms(1)] assms(2)])
    (use assms(2) BindActor_sessions_ok [OF assms(1)] BindActor_continuity_ok [OF assms(1)] in \<open>auto simp: store_ok_def\<close>)

lemma condition_ops_changes:
  "ObserveCondition env q db = Inr (c, db') \<Longrightarrow> changes {TConditions} db db'"
  "ResolveCondition env k s db = Inr db' \<Longrightarrow> changes {TConditions} db db'"
  "ResolveConditionIfReason env k s reason db = Inr db' \<Longrightarrow> changes {TConditions} db db'"
  "ListConditions env b n db = (cs, db') \<Longrightarrow> changes {TConditions} db db'"
  "AcknowledgeCondition env k s g db = Inr (c, db') \<Longrightarrow> changes {TConditions} db db'"
  "SnoozeCondition env k s g u db = Inr (c, db') \<Longrightarrow> changes {TConditions} db db'"
  "ClaimConditionPresentation env k s g p l db = Inr (won, db') \<Longrightarrow> changes {TConditions} db db'"
  by (auto simp: condition_ops Let_def bindE_Inr_iff changes_iff)

lemmas condition_store_ok =
  store_ok_conditions [OF ObserveCondition_step condition_ops_changes(1)]
  store_ok_conditions [OF ResolveCondition_step condition_ops_changes(2)]
  store_ok_conditions [OF ResolveConditionIfReason_step condition_ops_changes(3)]
  store_ok_conditions [OF ListConditions_step condition_ops_changes(4)]
  store_ok_conditions [OF AcknowledgeCondition_step condition_ops_changes(5)]
  store_ok_conditions [OF SnoozeCondition_step condition_ops_changes(6)]
  store_ok_conditions [OF ClaimConditionPresentation_step condition_ops_changes(7)]

lemma store_step_ok:
  assumes "store_step env db db'" and "store_ok db"
  shows "store_ok db'"
  using assms(1)
proof cases
  case (set_alias sq am)
  then have "aliases_ok db'"
    using assms(2) mutateAlias_aliases_ok by (auto simp: SetAlias_def bindE_Inr_iff store_ok_def)
  then show ?thesis by (rule store_ok_aliases [OF SetAlias_changes [OF set_alias] _ assms(2)])
next
  case (remove_alias rq am)
  then have "aliases_ok db'"
    using assms(2) mutateAlias_aliases_ok by (auto simp: RemoveAlias_def bindE_Inr_iff store_ok_def)
  then show ?thesis by (rule store_ok_aliases [OF RemoveAlias_changes [OF remove_alias] _ assms(2)])
next
  case (claim_alias cq ac)
  show ?thesis
    by (rule store_ok_aliases [OF ClaimAlias_changes [OF claim_alias] ClaimAliasIfAbsent_aliases_ok [OF claim_alias] assms(2)])
      (use assms(2) in \<open>simp add: store_ok_def\<close>)
next
  case (register reg rn)
  show ?thesis
    by (rule store_ok_sessions [OF RegisterSession_changes [OF register] RegisterSession_sessions_ok [OF register] assms(2)])
      (use assms(2) in \<open>simp add: store_ok_def\<close>)
next
  case (heartbeat a run lease n)
  show ?thesis
    by (rule store_ok_sessions [OF Heartbeat_changes [OF heartbeat] sessions_step_ok [OF HeartbeatRegistrations_step [OF heartbeat]] assms(2)])
      (use assms(2) in \<open>simp add: store_ok_def\<close>)
next
  case (attach a run session harness mode lease res)
  have "sessions_ok db" using assms(2) by (simp add: store_ok_def)
  then show ?thesis
    using store_ok_sessions [OF AttachMonitor_changes [OF attach] sessions_step_ok [OF AttachMonitor_step [OF attach]] assms(2)] by blast
next
  case (expire a run session reason)
  have "sessions_ok db" using assms(2) by (simp add: store_ok_def)
  then show ?thesis
    using store_ok_sessions [OF ExpireRegistration_changes [OF expire] sessions_step_ok [OF ExpireRegistration_step [OF expire]] assms(2)] by blast
next
  case (archive a by_actor allow unread)
  have "continuity_ok db'"
    by (rule continuity_ok_filter [of db]) (use assms(2) archive_txD(8) [OF archive] in \<open>auto simp: store_ok_def\<close>)
  then show ?thesis by (rule store_ok_continuity [OF archive_tx_changes [OF archive] _ assms(2)])
next
  case (release a)
  have "continuity_ok (ReleaseProvisionalActor a db)"
    using assms(2) continuity_ok_filter [of db]
    by (auto simp: ReleaseProvisionalActor_def release_provisional_def store_ok_def)
  then show ?thesis unfolding release by (rule store_ok_continuity [OF ReleaseProvisional_changes _ assms(2)])
next
  case (send q sent)
  show ?thesis by (rule Send_store_ok [OF send assms(2)])
next
  case (claim a mid lease c)
  show ?thesis by (rule Claim_store_ok [OF claim assms(2)])
next
  case (ack a mid tok)
  show ?thesis by (rule finish_store_ok [OF ack [unfolded Ack_def] assms(2)])
next
  case (nack a mid tok reason final)
  show ?thesis by (rule finish_store_ok [OF nack [unfolded Nack_def] assms(2)])
next
  case (extend a mid tok lease x)
  show ?thesis by (rule Extend_store_ok [OF extend assms(2)])
next
  case (revoke a mid grace)
  show ?thesis by (rule Revoke_store_ok [OF revoke assms(2)])
next
  case (adopt aq ad)
  show ?thesis by (rule AdoptActor_store_ok [OF adopt assms(2)])
next
  case (observe oq cr)
  show ?thesis by (rule condition_store_ok(1) [OF observe observe assms(2)])
next
  case (resolve kind subject)
  show ?thesis by (rule condition_store_ok(2) [OF resolve resolve assms(2)])
next
  case (resolve_if kind subject reason)
  show ?thesis by (rule condition_store_ok(3) [OF resolve_if resolve_if assms(2)])
next
  case (list_conditions include_resolved limit crs)
  show ?thesis by (rule condition_store_ok(4) [OF list_conditions list_conditions assms(2)])
next
  case (acknowledge kind subject gen cr)
  show ?thesis by (rule condition_store_ok(5) [OF acknowledge acknowledge assms(2)])
next
  case (snooze kind subject gen until cr)
  show ?thesis by (rule condition_store_ok(6) [OF snooze snooze assms(2)])
next
  case (present kind subject gen presenter lease won)
  show ?thesis by (rule condition_store_ok(7) [OF present present assms(2)])
next
  case (hydrate project a run harness session unread)
  show ?thesis by (rule store_ok_log [OF RecordHydration_changes [OF hydrate] assms(2)])
next
  case (host_binding pid start hb)
  show ?thesis by (rule store_ok_log [OF HostAttentionBinding_changes [OF host_binding] assms(2)])
next
  case (admit hb)
  show ?thesis by (rule store_ok_log [OF MarkAdmitted_changes [OF admit] assms(2)])
next
  case (record_wake project mid attempt)
  show ?thesis by (rule store_ok_log [OF RecordNotification_changes [OF record_wake] assms(2)])
next
  case (restore a by_actor ar)
  show ?thesis by (rule store_ok_log [OF RestoreActor_changes [OF restore] assms(2)])
next
  case (reserve a)
  show ?thesis by (rule store_ok_log [OF ReserveActorName_changes [OF reserve] assms(2)])
next
  case (finalize a run project handles)
  show ?thesis by (rule store_ok_log [OF FinalizeActor_changes [OF finalize] assms(2)])
next
  case (claim_wake job)
  show ?thesis by (rule store_ok_wakes [OF ClaimNotification_changes [OF claim_wake] wakes_ok_claim [OF claim_wake store_ok_wakesD [OF assms(2)]] assms(2)])
next
  case (finish_wake job disp detail)
  show ?thesis by (rule store_ok_wakes [OF FinishNotification_changes [OF finish_wake] wakes_ok_finish [OF finish_wake store_ok_wakesD [OF assms(2)]] assms(2)])
next
  case (rearm a)
  show ?thesis by (rule store_ok_wakes [OF Rearm_changes [OF rearm] wakes_ok_rearm [OF rearm store_ok_wakesD [OF assms(2)]] assms(2)])
next
  case (bind digest bq br)
  show ?thesis by (rule BindActor_store_ok [OF bind assms(2)])
qed

lemma empty_store_ok: "store_ok empty_db"
  by (auto simp: store_ok_def empty_db_def messages_ok_def deliveries_ok_def outbox_ok_def counts_ok_def sessions_ok_def
      aliases_ok_def alias_view_def revisions_def adoptions_ok_def continuity_ok_def conditions_ok_def events_ok_def counter_def positions_def)

section \<open>What a step does to messages and deliveries\<close>

text \<open>Every step but a send keeps the messages and moves the rows of the delivery table along their machine.\<close>

definition moves_mail :: "int \<Rightarrow> db \<Rightarrow> db \<Rightarrow> bool" where
  "moves_mail now db db' \<longleftrightarrow> messages db' = messages db \<and> grants db' = grants db \<and> table_step now (deliveries db) (deliveries db')"

lemma still_mail:
  "changes {} db db' \<Longrightarrow> moves_mail now db db'" "changes {TOutbox} db db' \<Longrightarrow> moves_mail now db db'"
  "changes {TSessions} db db' \<Longrightarrow> moves_mail now db db'" "changes {TAliases} db db' \<Longrightarrow> moves_mail now db db'"
  "changes {TConditions} db db' \<Longrightarrow> moves_mail now db db'" "changes {TContinuity} db db' \<Longrightarrow> moves_mail now db db'"
  "changes {TOutbox, TAdoptions} db db' \<Longrightarrow> moves_mail now db db'" "changes {TSessions, TContinuity} db db' \<Longrightarrow> moves_mail now db db'"
  by (simp_all add: changes_iff moves_mail_def table_step_refl)

lemma lease_ops_move:
  assumes "deliveries_ok db"
  shows "Claim env a mid lease db = Inr (c, db') \<Longrightarrow> moves_mail (e_now env) db db'"
    "finish env a mid tok acked final reason db = Inr db' \<Longrightarrow> moves_mail (e_now env) db db'"
    "Extend env a mid tok lease db = Inr (x, db') \<Longrightarrow> moves_mail (e_now env) db db'"
    "RevokeDeliveryLease env a mid grace db = Inr db' \<Longrightarrow> moves_mail (e_now env) db db'"
  using Claim_step Claim_changes finish_step [OF _ assms] finish_changes Extend_step [OF _ assms] Extend_changes
    Revoke_step [OF _ assms] Revoke_changes
  by (auto simp: moves_mail_def changes_iff)

lemmas quiet_ops =
  SetAlias_changes [THEN still_mail(4)] RemoveAlias_changes [THEN still_mail(4)] ClaimAlias_changes [THEN still_mail(4)]
  AdoptActor_changes [THEN still_mail(7)] condition_ops_changes [THEN still_mail(5)]
  RegisterSession_changes [THEN still_mail(3)] Heartbeat_changes [THEN still_mail(3)] AttachMonitor_changes [THEN still_mail(3)]
  ExpireRegistration_changes [THEN still_mail(3)] RecordHydration_changes [THEN still_mail(1)]
  HostAttentionBinding_changes [THEN still_mail(1)] MarkAdmitted_changes [THEN still_mail(1)]
  ClaimNotification_changes [THEN still_mail(2)] FinishNotification_changes [THEN still_mail(2)] Rearm_changes [THEN still_mail(2)]
  RecordNotification_changes [THEN still_mail(1)] archive_tx_changes [THEN still_mail(6)] RestoreActor_changes [THEN still_mail(1)]
  BindActor_changes [THEN still_mail(8)] ReserveActorName_changes [THEN still_mail(1)] FinalizeActor_changes [THEN still_mail(1)]

lemma store_step_mail:
  assumes "store_step env db db'" and "deliveries_ok db"
  shows "(\<exists>q r. Send env q db = Inr (r, db')) \<or> moves_mail (e_now env) db db'"
  using assms(1)
proof cases
  case (release a)
  then show ?thesis using still_mail(6) [OF ReleaseProvisional_changes] by blast
qed (use lease_ops_move [OF assms(2)] in \<open>(simp only: Ack_def Nack_def)?; blast dest: quiet_ops\<close>)+

lemma store_step_events:
  assumes "store_step env db db'"
  shows "prefix (events db) (events db')"
proof -
  have "\<exists>T. changes T db db'"
    using assms
  proof cases
    case (release a)
    then show ?thesis using ReleaseProvisional_changes by blast
  next
    case (archive a by_actor allow unread)
    then show ?thesis using archive_tx_changes by blast
  next
    case (claim_alias cq ac)
    then show ?thesis using ClaimAlias_changes by blast
  qed ((simp only: Ack_def Nack_def)?; blast dest: Send_changes Claim_changes finish_changes Extend_changes Revoke_changes SetAlias_changes
    RemoveAlias_changes AdoptActor_changes condition_ops_changes RegisterSession_changes Heartbeat_changes AttachMonitor_changes
    ExpireRegistration_changes RecordHydration_changes HostAttentionBinding_changes MarkAdmitted_changes ClaimNotification_changes
    FinishNotification_changes Rearm_changes RecordNotification_changes RestoreActor_changes BindActor_changes
    ReserveActorName_changes FinalizeActor_changes)+
  then show ?thesis by (auto simp: changes_def)
qed

text \<open>An operation that answered is equal to its answer.\<close>

end
