(* ===== verification/StoreProps.thy ===== *)
theory StoreProps
  imports StoreRuns
begin

text \<open>
  What holds across all operations: the invariants in every reachable store, the mail as a
  refinement of an abstract post office, and what no later operation can undo.
\<close>

section \<open>An abstract post office\<close>

text \<open>
  The contract of the delivery table without rows, tokens of the past, attempts or errors: each
  addressed copy of a message is open, leased to the holder of a token until a time, done or
  given up. A copy appears open and never disappears.
\<close>

datatype mail_status = Open | Leased string int | Acknowledged | GivenUp

inductive mail_step :: "int \<Rightarrow> mail_status \<Rightarrow> mail_status \<Rightarrow> bool" for now where
  idle: "mail_step now s s"
| lease: "now < u \<Longrightarrow> mail_step now Open (Leased t u)"
| expired: "u \<le> now \<Longrightarrow> now < u' \<Longrightarrow> mail_step now (Leased t u) (Leased t' u')"
| prolong: "now < u \<Longrightarrow> now < u' \<Longrightarrow> mail_step now (Leased t u) (Leased t u')"
| reopened: "mail_step now (Leased t u) Open"
| acked: "mail_step now (Leased t u) Acknowledged"
| give_up: "mail_step now (Leased t u) GivenUp"

inductive_cases mail_stepE: "mail_step now s s'"

definition office_step :: "int \<Rightarrow> ('k \<Rightarrow> mail_status option) \<Rightarrow> ('k \<Rightarrow> mail_status option) \<Rightarrow> bool" where
  "office_step now M M' \<longleftrightarrow> (\<forall>k. case M k of
     None \<Rightarrow> M' k = None \<or> M' k = Some Open
   | Some s \<Rightarrow> (\<exists>s'. M' k = Some s' \<and> mail_step now s s'))"

definition status_of :: "delivery_row \<Rightarrow> mail_status" where
  "status_of d = (case dl_state d of
     Queued \<Rightarrow> Open | Claimed \<Rightarrow> Leased (coalesce (dl_lease_token d)) (the (dl_lease_expires d))
   | Acked \<Rightarrow> Acknowledged | _ \<Rightarrow> GivenUp)"

definition mail :: "db \<Rightarrow> string \<times> string \<Rightarrow> mail_status option" where
  "mail db k = map_option status_of (row_by delivery_key k (deliveries db))"

text \<open>A step of the row machine is a step of the post office.\<close>

lemma row_step_mail:
  assumes "row_step now d d'" and "delivery_shape d"
  shows "mail_step now (status_of d) (status_of d')"
  using assms(1)
proof cases
  case stay
  then show ?thesis by (simp add: idle)
next
  case (claim e token)
  then show ?thesis using assms(2)
    by (cases "dl_state d")
      (auto simp: claimable_def status_of_def claim_row_def delivery_shape_def sql_le_def intro: lease expired split: option.splits)
next
  case (finish token ack final reason)
  then show ?thesis by (auto simp: status_of_def finish_row_def finish_next_def intro: reopened acked give_up)
next
  case (extend e)
  then show ?thesis by (auto simp: status_of_def sql_gt_def intro: prolong split: option.splits)
next
  case (revoke token)
  then show ?thesis by (auto simp: status_of_def revoke_row_def intro: reopened)
qed

section \<open>Properties of every run\<close>

lemma store_run_invariant: "store_run db \<Longrightarrow> store_ok db"
  by (induction rule: store_run.induct) (rule empty_store_ok, rule store_step_ok)

lemma mail_moves:
  assumes "moves_mail now db db'" and "deliveries_ok db"
  shows "office_step now (mail db) (mail db')"
  unfolding office_step_def
proof
  fix k
  have tb: "table_step now (deliveries db) (deliveries db')" using assms(1) by (simp add: moves_mail_def)
  show "case mail db k of None \<Rightarrow> mail db' k = None \<or> mail db' k = Some Open
    | Some s \<Rightarrow> \<exists>s'. mail db' k = Some s' \<and> mail_step now s s'"
  proof (cases "row_by delivery_key k (deliveries db)")
    case None
    then have "row_by delivery_key k (deliveries db') = None"
      using row_by_None_key [of delivery_key k] table_step_keys [OF tb, THEN arg_cong [where f = set]] by simp
    then show ?thesis using None by (simp add: mail_def)
  next
    case (Some d)
    obtain d' where d': "row_by delivery_key k (deliveries db') = Some d'" "row_step now d d'"
      using table_step_rowD [OF tb Some] by blast
    have "delivery_shape d" using assms(2) row_by_SomeD [OF Some] by (auto simp: deliveries_ok_def)
    then show ?thesis using row_step_mail [OF d'(2)] Some d'(1) by (simp add: mail_def)
  qed
qed

lemma Send_rows:
  assumes "Send env q db = Inr (r, db')"
  obtains ms to mid where "messages db' = messages db @ ms" "deliveries db' = deliveries db @ map (queued_row mid) to"
proof -
  have new: "\<exists>ms to mid. messages db' = messages db @ ms \<and> deliveries db' = deliveries db @ map (queued_row mid) to"
    if "send_new env req parent db = Inr (r, db')" for req parent
    using that by (rule send_newD) blast
  have "\<exists>ms to mid. messages db' = messages db @ ms \<and> deliveries db' = deliveries db @ map (queued_row mid) to" if "db' = db"
    by (rule exI [of _ "[]"], rule exI [of _ "[]"]) (simp add: that)
  with new have "\<exists>ms to mid. messages db' = messages db @ ms \<and> deliveries db' = deliveries db @ map (queued_row mid) to"
    by (rule_tac SendD [OF assms]) blast
  then show thesis using that by blast
qed

lemma mail_sent:
  assumes "Send env q db = Inr (r, db')"
  shows "office_step now (mail db) (mail db')"
proof -
  obtain ms to mid where ds: "deliveries db' = deliveries db @ map (queued_row mid) to" by (rule Send_rows [OF assms])
  have "status_of d = Open" if "row_by delivery_key k (map (queued_row mid) to) = Some d" for k d
    using row_by_SomeD [OF that] by (auto simp: queued_row_def status_of_def)
  then show ?thesis
    by (auto simp: office_step_def mail_def ds row_by_append idle split: option.splits)
qed

lemma store_step_office: "store_step env db db' \<Longrightarrow> store_ok db \<Longrightarrow> office_step (e_now env) (mail db) (mail db')"
  using store_step_mail mail_sent mail_moves unfolding store_ok_def by blast

abbreviation store_steps :: "db \<Rightarrow> db \<Rightarrow> bool" where
  "store_steps \<equiv> (\<lambda>a b. \<exists>env. store_step env a b)\<^sup>*\<^sup>*"

lemma store_run_steps: "store_steps db db' \<Longrightarrow> store_run db \<Longrightarrow> store_run db'"
  by (induction rule: rtranclp_induct) (auto intro: later)

text \<open>A row once finished keeps its value; the keys of the rows only grow.\<close>

definition keeps_mail :: "db \<Rightarrow> db \<Rightarrow> bool" where
  "keeps_mail db db' \<longleftrightarrow> prefix (messages db) (messages db') \<and> prefix (events db) (events db') \<and>
    prefix (map delivery_key (deliveries db)) (map delivery_key (deliveries db')) \<and>
    (\<forall>k d. row_by delivery_key k (deliveries db) = Some d \<and> dl_state d \<in> {Acked, DeadLettered, Revoked} \<longrightarrow>
      row_by delivery_key k (deliveries db') = Some d)"

lemma keeps_mail_refl: "keeps_mail db db"
  by (simp add: keeps_mail_def)

lemma keeps_mail_trans: "keeps_mail a b \<Longrightarrow> keeps_mail b c \<Longrightarrow> keeps_mail a c"
  unfolding keeps_mail_def by (elim conjE, intro conjI) (erule (1) prefix_order.trans, erule (1) prefix_order.trans, erule (1) prefix_order.trans, blast)

lemma store_step_keeps:
  assumes "store_step env db db'" and "store_ok db"
  shows "keeps_mail db db'"
proof -
  have ok: "deliveries_ok db" using assms(2) by (simp add: store_ok_def)
  from store_step_mail [OF assms(1) ok] show ?thesis
  proof
    assume "\<exists>q r. Send env q db = Inr (r, db')"
    then obtain ms to mid where "messages db' = messages db @ ms" "deliveries db' = deliveries db @ map (queued_row mid) to"
      by (elim exE) (erule Send_rows)
    then show ?thesis using store_step_events [OF assms(1)] by (simp add: keeps_mail_def row_by_append)
  next
    assume m: "moves_mail (e_now env) db db'"
    then have "row_by delivery_key k (deliveries db') = Some d"
      if "row_by delivery_key k (deliveries db) = Some d" "dl_state d \<in> {Acked, DeadLettered, Revoked}" for k d
      using table_step_rowD [OF _ that(1)] row_step_terminal that(2) unfolding moves_mail_def by blast
    then show ?thesis
      using m store_step_events [OF assms(1)] table_step_keys unfolding keeps_mail_def moves_mail_def by auto
  qed
qed

lemma store_steps_keep: "store_steps db db' \<Longrightarrow> store_run db \<Longrightarrow> keeps_mail db db'"
proof (induction rule: rtranclp_induct)
  case (step b c)
  have "store_ok b" using store_run_invariant store_run_steps [OF step(1,4)] by blast
  then show ?case using step store_step_keeps keeps_mail_trans by blast
qed (simp add: keeps_mail_refl)

lemma Ack_row:
  assumes "Ack env a mid tok db = Inr db'" and "deliveries_ok db"
  obtains r d where "effectiveDeliveryRecipient db (trim a) (trim mid) = Inr r"
    "row_by delivery_key (trim mid, r) (deliveries db') = Some d" "dl_state d = Acked"
  using assms(1) unfolding Ack_def
proof (rule finishD)
  fix r d
  assume eff: "effectiveDeliveryRecipient db (trim a) (trim mid) = Inr r"
    and row: "row_by delivery_key (trim mid, r) (deliveries db) = Some d"
    and out: "db' = db \<and> finishDeliveryState (dl_state d) (dl_lease_token d) (dl_terminal_token d) (trim tok) True False = Inr True
     \<or> finishDeliveryState (dl_state d) (dl_lease_token d) (dl_terminal_token d) (trim tok) True False = Inr False \<and>
       deliveries db' = update_where (\<lambda>r'. delivery_key r' = (trim mid, r)) (finish_row (trim tok) True False [] (e_now env)) (deliveries db) \<and>
       messages db' = messages db \<and> outbox db' = outbox db \<and> same_actors db db' \<and>
       actor_names db' = actor_names db \<and> (events_ok db \<longrightarrow> events_ok db') \<and>
       (\<exists>ev. events db' = events db @ [ev] \<and> ev_kind ev = finish_kind True False \<and> ev_message_id ev = nullif (trim mid))"
  have "\<exists>d'. row_by delivery_key (trim mid, r) (deliveries db') = Some d' \<and> dl_state d' = Acked"
    using out
  proof
    assume "db' = db \<and> finishDeliveryState (dl_state d) (dl_lease_token d) (dl_terminal_token d) (trim tok) True False = Inr True"
    then show ?thesis using row by (auto simp: finishDeliveryState_def split: if_splits)
  next
    assume "finishDeliveryState (dl_state d) (dl_lease_token d) (dl_terminal_token d) (trim tok) True False = Inr False \<and>
       deliveries db' = update_where (\<lambda>r'. delivery_key r' = (trim mid, r)) (finish_row (trim tok) True False [] (e_now env)) (deliveries db) \<and>
       messages db' = messages db \<and> outbox db' = outbox db \<and> same_actors db db' \<and>
       actor_names db' = actor_names db \<and> (events_ok db \<longrightarrow> events_ok db') \<and>
       (\<exists>ev. events db' = events db @ [ev] \<and> ev_kind ev = finish_kind True False \<and> ev_message_id ev = nullif (trim mid))"
    then show ?thesis using row finish_upd.row_by_update row_by_SomeD [OF row]
      by (simp add: finish_row_def finish_next_def)
  qed
  then show thesis using that eff by blast
qed

section \<open>The daemon's own loops are runs\<close>

lemma store_steps_step: "store_step env db db' \<Longrightarrow> store_steps db db'"
  by blast

lemma record_each_steps: "store_steps db (snd (record_each env m as db))"
proof (induction as arbitrary: db)
  case (Cons a as)
  show ?case
  proof (cases "RecordNotification env (msg_project_id m) (msg_id m) a db")
    case (Inr db1)
    then have "store_steps db db1" by (intro store_steps_step record_wake)
    then show ?thesis using Inr Cons [of db1] by (simp add: rtranclp_trans)
  qed simp
qed simp

lemma runtime_notify_steps: "store_steps db (snd (runtime_notify env nf recipient m db))"
proof (cases "LiveRegistrations env recipient db")
  case (Inr rs)
  have "snd (case x of (Some e, d) \<Rightarrow> (Inl e, d) | (None, d) \<Rightarrow> (Inr as, d)) = snd x"
    for x :: "error option \<times> db" and as :: "notification_attempt list"
    by (auto split: prod.splits option.splits)
  then show ?thesis using record_each_steps by (simp only: runtime_notify_def Inr Let_def sum.case)
qed (simp add: runtime_notify_def)

lemma observe_outcome_steps: "store_steps db (observeNotificationCondition env actor attempts db)"
  by (auto simp: observeNotificationCondition_def split: sum.splits prod.splits list.splits
      intro: store_steps_step [OF observe] store_steps_step [OF resolve])

lemma worker_turn_steps:
  assumes "worker_turn env nf db = Some db'"
  shows "store_steps db db'"
proof -
  obtain job db1 where cl: "ClaimNotification env db = Inr (job, db1)"
    using assms by (auto simp: worker_turn_def split: sum.splits)
  obtain out db2 where n: "runtime_notify (daemon_env env nf) nf (nj_recipient job) (nj_message job) db1 = (out, db2)" by fastforce
  obtain disp detail where o: "notificationOutcome nf out = (disp, detail)" by fastforce
  define db3 where "db3 = (case FinishNotification env job disp detail db2 of Inl _ \<Rightarrow> db2 | Inr d \<Rightarrow> d)"
  have "store_steps db db1" by (rule store_steps_step [OF claim_wake [OF cl]])
  moreover have "store_steps db1 db2" using runtime_notify_steps n by (metis snd_conv)
  moreover have "store_steps db2 db3" unfolding db3_def by (auto split: sum.splits intro: store_steps_step [OF finish_wake])
  moreover have "store_steps db3 db'"
    using assms observe_outcome_steps by (auto simp: worker_turn_def cl n o db3_def [symmetric])
  ultimately show ?thesis by (meson rtranclp_trans)
qed

lemma note_unread_steps: "store_steps db (note_unread env actor db)"
proof (cases "ObserveCondition env (unread_observation actor) db")
  case (Inr x)
  then obtain c db1 where x: "ObserveCondition env (unread_observation actor) db = Inr (c, db1)" by (cases x) simp
  then have "store_steps db1 (note_unread env actor db)"
    by (auto simp: note_unread_def split: sum.splits intro: store_steps_step [OF acknowledge])
  then show ?thesis using store_steps_step [OF observe [OF x]] by (rule rtranclp_trans [rotated])
qed (simp add: note_unread_def)

lemma ArchiveActor_steps:
  assumes "ArchiveActor env0 db0 env actor by_actor allow db = Inr (r, db')"
  shows "store_steps db db'"
proof -
  obtain w db1 where a: "archive_tx env actor by_actor allow db = Inr (w, db1)"
    and db': "db' = (if w then note_unread env actor db1 else db1)"
    using assms by (auto simp: ArchiveActor_def bindE_Inr_iff)
  have "store_steps db db1" by (rule store_steps_step [OF archive [OF a]])
  moreover have "store_steps db1 db'" using note_unread_steps by (simp add: db')
  ultimately show ?thesis by (rule rtranclp_trans)
qed

lemma archive_each_steps: "store_steps db (snd (archive_each env as db))"
proof (induction as arbitrary: db)
  case (Cons a as)
  show ?case
  proof (cases "ArchiveActor env db env a ''operator:auto-archive'' False db")
    case (Inr x)
    then obtain r db1 where "ArchiveActor env db env a ''operator:auto-archive'' False db = Inr (r, db1)" by (cases x) simp
    then show ?thesis using rtranclp_trans [OF ArchiveActor_steps Cons] by simp
  qed simp
qed simp

lemma sweep_steps: "store_steps db (snd (ArchiveEligibleActors env inactive db))"
proof -
  have "(case x of (Inl e, d) \<Rightarrow> (Inl e, d) | (Inr u, d) \<Rightarrow> (Inr actors, d)) = (case fst x of Inl e \<Rightarrow> Inl e | Inr _ \<Rightarrow> Inr actors, snd x)"
    for x :: "(error + unit) \<times> db" and actors :: "string list"
    by (auto split: prod.splits sum.splits)
  then show ?thesis using archive_each_steps by (auto simp: ArchiveEligibleActors_def Let_def)
qed

lemma worker_drain_steps:
  assumes "store_run db"
  shows "\<exists>db'. worker_drain env nf db = Some db' \<and> store_steps db db'"
  using assms
proof (induction "due_jobs (e_now env) db" arbitrary: db rule: less_induct)
  case less
  show ?case
  proof (cases "worker_turn env nf db")
    case None
    then show ?thesis by (subst worker_drain.simps) simp
  next
    case (Some db1)
    note st = worker_turn_steps [OF Some]
    have ok: "outbox_ok db" "counts_ok db" using store_run_invariant [OF less(2)] by (simp_all add: store_ok_def)
    obtain db' where "worker_drain env nf db1 = Some db'" "store_steps db1 db'"
      using less(1) [OF worker_turn_less(1) [OF Some ok] store_run_steps [OF st less(2)]] by blast
    then show ?thesis using Some st by (subst worker_drain.simps) (auto intro: rtranclp_trans)
  qed
qed

section \<open>Mail that is owed can be claimed\<close>

lemma Claim_succeeds:
  assumes "deliveries_ok db" and "messages_ok db" and "events_ok db"
    and "m \<in> set (legacy_messages db)" and "d \<in> set (deliveries db)" and "mr_id m = dl_message_id d"
    and "preferred db (trim a) d" and "claimable (e_now env) d" and "unexpired (e_now env) m"
    and "trim mid = mr_id m" and "mr_id m \<noteq> []" and "trim a \<noteq> []" and "valid_lease lease"
    and "e_gen env ''lease'' (db_ids db) = Some token" and "e_gen env ''evt'' (Suc (db_ids db)) = Some i"
    and "i \<notin> ev_id ` set (events db)"
  shows "\<exists>c db'. Claim env a mid lease db = Inr (c, db') \<and> msg_id (cl_message c) = mr_id m"
proof -
  have "(m, d) \<in> set (claim_rows db (trim a) (trim mid) (e_now env))"
    using assms(4-10) by (simp add: in_claim_rows)
  then obtain m' and d' :: delivery_row and rest where
    rows: "claim_rows db (trim a) (trim mid) (e_now env) = (m', d') # rest"
    by (metis empty_iff list.set(1) neq_Nil_conv surj_pair)
  then have in': "(m', d') \<in> set (claim_rows db (trim a) (trim mid) (e_now env))" by simp
  have m': "m' \<in> set (legacy_messages db)" "mr_id m' = mr_id m" "d' \<in> set (deliveries db)" "dl_message_id d' = mr_id m"
    using in' assms(10,11) by (auto simp: in_claim_rows)
  let ?p = "\<lambda>r. delivery_key r = (mr_id m, dl_recipient d') \<and> claimable (e_now env) r"
  let ?db2 = "db\<lparr>db_ids := Suc (db_ids db), deliveries := update_where ?p (claim_row token (e_now env + lease) (e_now env)) (deliveries db)\<rparr>"
  have aff: "affected ?p (deliveries db) = 1" using claim_rows_affected [OF assms(1) rows] m'(2) by simp
  have get: "getMessageByID ?db2 (mr_id m) = Inr (message_of_row ?db2 m')"
    using legacy_row_by_unique [OF assms(2) m'(1)] m'(2) by (simp add: getMessageByID_def legacy_messages_def)
  have nm: "\<not> managed_message ?db2 (nullif (mr_id m))"
    using legacy_not_managed [OF assms(2) m'(1)] m'(2) by (simp add: managed_message_def)
  have app: "\<exists>db'. appendEvent env p s k (mr_id m) a' pl ?db2 = Inr db'" for p s k a' pl
  proof (rule appendEvent_succeeds [OF _ _ _ nm])
    show "events_ok ?db2" using assms(3) by (simp add: events_ok_def counter_def positions_def)
    show "e_gen env ''evt'' (db_ids ?db2) = Some i" using assms(15) by simp
    show "i \<notin> ev_id ` set (events ?db2)" using assms(16) by simp
  qed
  have row: "row_by delivery_key (mr_id m, dl_recipient d') (deliveries db) = Some d'"
    using row_by_unique [of delivery_key "deliveries db" d'] assms(1) m'(3,4) by (simp add: deliveries_ok_def)
  have id: "msg_id (message_of_row ?db2 m') = mr_id m" using m'(2) by (simp add: message_of_row_def)
  obtain x where x: "row_by delivery_key (mr_id m, dl_recipient d') (deliveries ?db2) = Some x"
    using row by (simp add: claim_upd.row_by_update)
  obtain db3 where ev: "appendEvent env (msg_project_id (message_of_row ?db2 m')) ''operational'' ''delivery.claimed'' (mr_id m) (trim a)
      (Some (provenance_of (trim a) (dl_recipient d') (pput ''attempt'' (PInt (dl_attempt x)) (EventProvenance (e_caller env) [])))) ?db2 = Inr db3"
    using app by blast
  show ?thesis
    unfolding Claim_def Let_def newID_def assms(14) rows
    using assms(12,13) aff get x ev id m'(2) by simp
qed

lemma own_mail_preferred: "dl_recipient d = actor \<Longrightarrow> adopter db actor = None \<Longrightarrow> preferred db actor d"
  by (auto simp: preferred_def candidate_def pref_key_def list_all_iff less_eq_prod_def)

section \<open>The properties\<close>

text \<open>
  \<^bold>\<open>C1\<close> Every store the daemon can reach is well-formed: whatever operations ran, in whatever
  order and at whatever clock readings, keys are unique, every delivery belongs to a message and
  has the lease columns its state calls for, no inbox is adopted twice, the alias table agrees
  with its history, and the event log is numbered without gaps.
\<close>
theorem store_run_ok:
  assumes "store_run db"
  shows "store_ok db"
  using assms by (rule store_run_invariant)

text \<open>
  \<^bold>\<open>C3\<close> The delivery table implements the post office: seen through \<open>mail\<close>, every operation of
  the store at every reachable state leaves each copy as it is or moves it by one step of the
  abstract machine, new copies are open, and none disappears.
\<close>
theorem store_refines_office:
  assumes "store_run db" and "store_step env db db'"
  shows "office_step (e_now env) (mail db) (mail db')"
  using store_step_office [OF assms(2) store_run_invariant [OF assms(1)]] .

text \<open>
  \<^bold>\<open>C7\<close> Acknowledged mail never comes back. After a recipient acknowledged a message, however
  many operations of whatever kind follow (adoptions of the inbox and restores included), no
  claim by any actor hands out that recipient's copy of the message again.
\<close>
theorem acknowledged_never_again:
  assumes "store_run db" and "Ack env a mid tok db = Inr db1" and "store_steps db1 db2"
    and "Claim env2 a2 mid2 lease db2 = Inr (c, db3)"
  shows "\<exists>r r2. effectiveDeliveryRecipient db (trim a) (trim mid) = Inr r \<and>
    effectiveDeliveryRecipient db3 (trim a2) (msg_id (cl_message c)) = Inr r2 \<and>
    (msg_id (cl_message c), r2) \<noteq> (trim mid, r)"
proof -
  have ok: "deliveries_ok db" using store_run_invariant [OF assms(1)] by (simp add: store_ok_def)
  obtain r d where r: "effectiveDeliveryRecipient db (trim a) (trim mid) = Inr r"
    and d: "row_by delivery_key (trim mid, r) (deliveries db1) = Some d" "dl_state d = Acked"
    by (rule Ack_row [OF assms(2) ok])
  have run1: "store_run db1" by (rule later [OF assms(1) ack [OF assms(2)]])
  have d2: "row_by delivery_key (trim mid, r) (deliveries db2) = Some d"
    using store_steps_keep [OF assms(3) run1] d unfolding keeps_mail_def by blast
  have ok2: "deliveries_ok db2"
    using store_run_invariant [OF store_run_steps [OF assms(3) run1]] by (simp add: store_ok_def)
  obtain d' :: delivery_row where d': "d' \<in> set (deliveries db2)" "claimable (e_now env2) d'"
    "dl_message_id d' = msg_id (cl_message c)"
    "effectiveDeliveryRecipient db3 (trim a2) (msg_id (cl_message c)) = Inr (dl_recipient d')"
    by (rule Claim_row [OF ok2 assms(4)])
  have "(msg_id (cl_message c), dl_recipient d') \<noteq> (trim mid, r)"
  proof
    assume k: "(msg_id (cl_message c), dl_recipient d') = (trim mid, r)"
    then have "d' = d" using deliveries_ok_unique [OF ok2 d2 d'(1)] d'(3) by simp
    then show False using d'(2) d(2) by (simp add: claimable_def)
  qed
  then show ?thesis using r d'(4) by blast
qed

text \<open>
  \<^bold>\<open>C9\<close> Nothing sent is lost or edited: along every run messages and events are only appended,
  and every recipient's copy of every message stays in the delivery table, in its place.
\<close>
theorem mail_append_only:
  assumes "store_run db" and "store_steps db db'"
  shows "prefix (messages db) (messages db') \<and> prefix (events db) (events db') \<and>
    prefix (map delivery_key (deliveries db)) (map delivery_key (deliveries db'))"
  using store_steps_keep [OF assms(2,1)] unfolding keeps_mail_def by blast



section \<open>The properties on a run of five operations\<close>

definition posted :: "send_result \<times> db" where
  "posted = projr (Send (sample_env 100) sample_request empty_db)"

definition fetched :: "claim \<times> db" where
  "fetched = projr (Claim (sample_env 110) ''bob'' [] 60 (snd posted))"

definition settled :: db where
  "settled = projr (Ack (sample_env 120) ''bob'' ''msg_0'' ''lease_4'' (snd fetched))"

definition tidied :: db where
  "tidied = ReleaseProvisionalActor ''dave'' settled"

definition fetched_carol :: "claim \<times> db" where
  "fetched_carol = projr (Claim (sample_env 140) ''carol'' [] 60 tidied)"

lemma four_operations:
  "Send (sample_env 100) sample_request empty_db = Inr (fst posted, snd posted)"
  "Claim (sample_env 110) ''bob'' [] 60 (snd posted) = Inr (fst fetched, snd fetched)"
  "Ack (sample_env 120) ''bob'' ''msg_0'' ''lease_4'' (snd fetched) = Inr settled"
  "Claim (sample_env 140) ''carol'' [] 60 tidied = Inr (fst fetched_carol, snd fetched_carol)"
proof -
  have "\<not> isl (Send (sample_env 100) sample_request empty_db)" by code_simp
  then show "Send (sample_env 100) sample_request empty_db = Inr (fst posted, snd posted)"
    unfolding posted_def by (rule answered)
  have "\<not> isl (Claim (sample_env 110) ''bob'' [] 60 (snd posted))" by code_simp
  then show "Claim (sample_env 110) ''bob'' [] 60 (snd posted) = Inr (fst fetched, snd fetched)"
    unfolding fetched_def by (rule answered)
  have "\<not> isl (Ack (sample_env 120) ''bob'' ''msg_0'' ''lease_4'' (snd fetched))" by code_simp
  then show "Ack (sample_env 120) ''bob'' ''msg_0'' ''lease_4'' (snd fetched) = Inr settled"
    unfolding settled_def by (rule answered)
  have "\<not> isl (Claim (sample_env 140) ''carol'' [] 60 tidied)" by code_simp
  then show "Claim (sample_env 140) ''carol'' [] 60 tidied = Inr (fst fetched_carol, snd fetched_carol)"
    unfolding fetched_carol_def by (rule answered)
qed

lemma sample_runs: "store_run (snd posted)" "store_run (snd fetched)" "store_run settled" "store_run tidied"
proof -
  show 1: "store_run (snd posted)" by (rule later [OF fresh send [OF four_operations(1)]])
  show 2: "store_run (snd fetched)" by (rule later [OF 1 claim [OF four_operations(2)]])
  show 3: "store_run settled" by (rule later [OF 2 ack [OF four_operations(3)]])
  show "store_run tidied" by (rule later [OF 3 release [OF tidied_def]])
qed

lemma sample_steps: "store_steps settled tidied"
  by (rule store_steps_step [OF release [OF tidied_def]])

lemma store_run_ok_witness: "store_ok tidied"
  by (rule store_run_ok) (rule sample_runs)

lemma store_refines_office_witness:
  "office_step 110 (mail (snd posted)) (mail (snd fetched)) \<and> mail (snd posted) (''msg_0'', ''bob'') = Some Open \<and>
    mail (snd fetched) (''msg_0'', ''bob'') = Some (Leased ''lease_4'' 170)"
proof -
  have "mail (snd posted) (''msg_0'', ''bob'') = Some Open" by code_simp
  moreover have "mail (snd fetched) (''msg_0'', ''bob'') = Some (Leased ''lease_4'' 170)" by code_simp
  ultimately show ?thesis
    using store_refines_office [OF sample_runs(1) claim [OF four_operations(2)]] by (simp add: sample_env_def)
qed

lemma acknowledged_never_again_witness:
  "\<exists>r r2. effectiveDeliveryRecipient (snd fetched) (trim ''bob'') (trim ''msg_0'') = Inr r \<and>
    effectiveDeliveryRecipient (snd fetched_carol) (trim ''carol'') (msg_id (cl_message (fst fetched_carol))) = Inr r2 \<and>
    (msg_id (cl_message (fst fetched_carol)), r2) \<noteq> (trim ''msg_0'', r)"
  by (rule acknowledged_never_again [OF sample_runs(2) four_operations(3) sample_steps four_operations(4)])

lemma mail_append_only_witness: "prefix (messages settled) (messages tidied)"
  using mail_append_only [OF sample_runs(3) sample_steps] by blast



end
