(* ===== verification/JsonValue.thy ===== *)
theory JsonValue
  imports JsonText
begin

text \<open>
  \<open>json.Marshal\<close> of the values the conversations store and digest: structs and sorted maps as
  objects, in member order, slices, strings, integers and booleans, and raw JSON
  (\<open>json.RawMessage\<close>), which the encoder compacts: white space outside strings is dropped, and
  the characters HTML cares about and the two line separators are escaped.
\<close>

section \<open>Compacting raw JSON\<close>

text \<open>Of text that passes \<open>json.Valid\<close>; the flag says whether the position is inside a string.\<close>

fun html_escape :: "char \<Rightarrow> string" where
  "html_escape c = (if c = CHR 0x3C \<or> c = CHR 0x3E \<or> c = CHR 0x26
     then CHR 0x5C # ''u00'' @ [hex_digit (of_char c div 16), hex_digit (of_char c)] else [c])"

fun json_compact :: "bool \<Rightarrow> string \<Rightarrow> string" where
  "json_compact quoted [] = []"
| "json_compact False (c # s) =
    (if c = CHR 0x22 then c # json_compact True s
     else if json_space c then json_compact False s
     else c # json_compact False s)"
| "json_compact True (c # s) =
    (if c = CHR 0x22 then c # json_compact False s
     else if c = CHR 0x5C then c # take 1 s @ json_compact True (drop 1 s)
     else if c = CHR 0xE2 \<and> take 2 s = [CHR 0x80, CHR 0xA8] then CHR 0x5C # ''u2028'' @ json_compact True (drop 2 s)
     else if c = CHR 0xE2 \<and> take 2 s = [CHR 0x80, CHR 0xA9] then CHR 0x5C # ''u2029'' @ json_compact True (drop 2 s)
     else html_escape c @ json_compact True s)"

section \<open>Values\<close>

datatype json_value = JNull | JBool bool | JInt int | JText string | JRaw string
  | JArray "json_value list" | JObject "(string \<times> json_value) list"

definition json_int :: "int \<Rightarrow> string" where
  "json_int n = (if n < 0 then ''-'' @ dec (nat (- n)) else dec (nat n))"

fun marshal :: "json_value \<Rightarrow> string"
  and marshal_all :: "json_value list \<Rightarrow> string list"
  and marshal_members :: "(string \<times> json_value) list \<Rightarrow> string list" where
  "marshal JNull = ''null''"
| "marshal (JBool b) = (if b then ''true'' else ''false'')"
| "marshal (JInt n) = json_int n"
| "marshal (JText s) = json_quote s"
| "marshal (JRaw s) = json_compact False s"
| "marshal (JArray vs) = ''['' @ join '','' (marshal_all vs) @ '']''"
| "marshal (JObject ms) = ''{'' @ join '','' (marshal_members ms) @ ''}''"
| "marshal_all [] = []"
| "marshal_all (v # vs) = marshal v # marshal_all vs"
| "marshal_members [] = []"
| "marshal_members ((k, v) # ms) = (json_quote k @ '':'' @ marshal v) # marshal_members ms"

lemma marshal_all_map: "marshal_all vs = map marshal vs"
  by (induction vs) simp_all

text \<open>A member with \<open>omitempty\<close>.\<close>

definition omitempty :: "bool \<Rightarrow> string \<Rightarrow> json_value \<Rightarrow> (string \<times> json_value) list" where
  "omitempty present key v = (if present then [(key, v)] else [])"

end
