(* ===== verification/ChannelState.thy ===== *)
theory ChannelState
  imports Aliases Delivery JsonValue
begin

text \<open>
  Managed conversations: the tables of \<open>channel_table.sql\<close> and \<open>conversation_schema.sql\<close> around the
  database of the bus, and the parts of \<open>conversation.go\<close> every operation uses: the principal,
  digests and recorded operations, the view of a channel through the grants of an actor
  (\<open>channelTx\<close>), grants, and the channel's own event log.

  SHA-256 is the parameter \<open>digest\<close>, from the bytes hashed to the hexadecimal text; what is hashed
  is written out. The column \<open>managed_deliveries\<close> has the columns of \<open>deliveries\<close> and its rows the
  same type. Payloads are kept as the text they are stored as; the results recorded for an
  operation, which are read back into the type they came from, as values.
\<close>

section \<open>Rows\<close>

record principal =
  pr_actor :: string
  pr_run :: string
  pr_gateway :: bool
  pr_admin :: bool

record channel_row =
  ch_id :: string
  ch_project :: string
  ch_kind :: string
  ch_title :: string
  ch_creator :: string
  ch_dm_key :: "string option"
  ch_revision :: int
  ch_next_seq :: int
  ch_created_at :: int

record channel_event_row =
  ce_channel :: string
  ce_seq :: int
  ce_kind :: string
  ce_actor :: string
  ce_message :: string
  ce_payload :: string
  ce_created_at :: int

record thread_row =
  th_channel :: string
  th_thread :: string
  th_root :: string

record reference_row =
  rf_message :: string
  rf_source :: string
  rf_relation :: string

datatype response_state = ResponseOpen | ResponseAnswered | ResponseDeclined | ResponseWithdrawn | ResponseRevoked

record response_row =
  rs_id :: string
  rs_channel :: string
  rs_message :: string
  rs_requester :: string
  rs_respondent :: string
  rs_state :: response_state
  rs_revision :: int
  rs_answer :: "string option"

record view_state =
  vw_channel :: string
  vw_thread :: string
  vw_revision :: int
  vw_read_through :: int
  vw_unread_from :: "int option"
  vw_snoozed_until :: "int option"
  vw_muted :: bool
  vw_archived :: bool

record view_row =
  vr_channel :: string
  vr_actor :: string
  vr_thread :: string
  vr_state :: view_state

record human_row =
  hu_actor :: string
  hu_created_at :: int

record supervision_row =
  sv_agent :: string
  sv_human :: string
  sv_revision :: int
  sv_active :: bool
  sv_by :: string
  sv_scope :: string
  sv_updated_at :: int

record supervision_preview =
  sp_agent :: string
  sp_human :: string
  sp_revision :: int
  sp_channels :: "(string \<times> int) list"

record channel_response =
  rp_id :: string
  rp_channel :: string
  rp_message :: string
  rp_requester :: string
  rp_respondent :: string
  rp_state :: response_state
  rp_revision :: int
  rp_answer :: string

datatype operation_result = ResultId string | ResultSupervision supervision_preview | ResultResponse channel_response

record operation_row =
  op_actor :: string
  op_operation :: string
  op_key :: string
  op_digest :: string
  op_result :: operation_result

record request_row =
  rq_message :: string
  rq_digest :: string

section \<open>The state\<close>

record cdb =
  base :: db
  channels :: "channel_row list"
  channel_events :: "channel_event_row list"
  threads :: "thread_row list"
  managed :: "delivery_row list"
  references :: "reference_row list"
  operations :: "operation_row list"
  requests :: "request_row list"
  views :: "view_row list"
  responses :: "response_row list"
  humans :: "human_row list"
  supervisions :: "supervision_row list"

definition empty_cdb :: cdb where
  "empty_cdb = \<lparr>base = empty_db, channels = [], channel_events = [], threads = [], managed = [], references = [],
     operations = [], requests = [], views = [], responses = [], humans = [], supervisions = []\<rparr>"

text \<open>The messages that belong to a conversation.\<close>

definition channel_messages :: "cdb \<Rightarrow> string \<Rightarrow> message_row list" where
  "channel_messages s cid = filter (\<lambda>m. mr_conversation m = Some cid) (messages (base s))"

definition with_base :: "(db \<Rightarrow> error + ('a \<times> db)) \<Rightarrow> cdb \<Rightarrow> error + ('a \<times> cdb)" where
  "with_base f s = bindE (f (base s)) (\<lambda>(x, b). Inr (x, s\<lparr>base := b\<rparr>))"

lemma with_base_Inr_iff [ok_iff]: "with_base f s = Inr (x, s') \<longleftrightarrow> (\<exists>b. f (base s) = Inr (x, b) \<and> s' = s\<lparr>base := b\<rparr>)"
  by (auto simp: with_base_def bindE_Inr_iff)

section \<open>Principals and fields\<close>

definition conversationPrincipal :: "principal \<Rightarrow> error + unit" where
  "conversationPrincipal p = requireE (\<not> (pr_actor p = [] \<or> pr_run p = [] \<or> is_human_actor (pr_actor p) \<noteq> pr_gateway p)) ErrChannelDenied"

definition channelText :: "string \<Rightarrow> string \<Rightarrow> int \<Rightarrow> error + unit" where
  "channelText field value mx =
    bindE (requireE (trim value \<noteq> []) (ValidationError field ''is required'')) (\<lambda>_. ValidateTextIdentifier field value mx)"

lemma conversationPrincipal_Inr [ok_iff]:
  "conversationPrincipal p = Inr u \<longleftrightarrow> pr_actor p \<noteq> [] \<and> pr_run p \<noteq> [] \<and> is_human_actor (pr_actor p) = pr_gateway p"
  by (auto simp: conversationPrincipal_def requireE_Inr_iff)

lemma channelText_Inr [ok_iff]:
  "channelText field value mx = Inr u \<longleftrightarrow> trim value \<noteq> [] \<and> int (length value) \<le> mx \<and> \<not> has_control value"
  by (auto simp: channelText_def ok_iff)

section \<open>The view of a channel\<close>

record channel =
  c_id :: string
  c_project :: string
  c_kind :: string
  c_title :: string
  c_creator :: string
  c_revision :: int
  c_last_seq :: int
  c_last_message_seq :: int
  c_needs_response :: bool
  c_view :: "view_state option"
  c_participants :: "string list"
  c_observers :: "string list"
  c_can_post :: bool
  c_can_manage :: bool
  c_history_from :: int

definition live_grants :: "cdb \<Rightarrow> string \<Rightarrow> grant_row list" where
  "live_grants s cid = filter (\<lambda>g. cg_channel_id g = cid \<and> cg_revoked_seq g = None) (grants (base s))"

definition grants_of :: "cdb \<Rightarrow> string \<Rightarrow> string \<Rightarrow> grant_row list" where
  "grants_of s cid a = filter (\<lambda>g. cg_actor g = a) (live_grants s cid)"

definition seq_from :: "int \<Rightarrow> message_row \<Rightarrow> bool" where
  "seq_from from m = (case mr_channel_seq m of None \<Rightarrow> False | Some n \<Rightarrow> from \<le> n)"

definition grouped_actors :: "grant_row list \<Rightarrow> string list" where
  "grouped_actors gs = sort (remdups (map cg_actor gs))"

definition may_post :: "cdb \<Rightarrow> string \<Rightarrow> string \<Rightarrow> bool" where
  "may_post s cid a = list_ex cg_can_post (grants_of s cid a)"

definition history_floor :: "grant_row list \<Rightarrow> int" where
  "history_floor gs = Min (set (map cg_history_from gs))"

definition open_questions :: "cdb \<Rightarrow> string \<Rightarrow> string \<Rightarrow> int \<Rightarrow> bool" where
  "open_questions s cid a from = list_ex (\<lambda>q. rs_channel q = cid \<and> rs_respondent q = a \<and> rs_state q = ResponseOpen \<and>
     list_ex (\<lambda>m. mr_id m = rs_message q \<and> seq_from from m) (messages (base s))) (responses s)"

definition last_message_seq :: "cdb \<Rightarrow> string \<Rightarrow> int \<Rightarrow> int" where
  "last_message_seq s cid from =
    (let ns = List.map_filter mr_channel_seq (filter (seq_from from) (channel_messages s cid)) in
     if ns = [] then 0 else Max (set ns))"

definition channelTx :: "principal \<Rightarrow> string \<Rightarrow> cdb \<Rightarrow> error + channel" where
  "channelTx p cid s =
    bindE (conversationPrincipal p) (\<lambda>_.
    case row_by ch_id cid (channels s) of
      None \<Rightarrow> Inl ErrChannelDenied
    | Some ch \<Rightarrow>
      let own = grants_of s cid (pr_actor p); from = history_floor own; post = list_ex cg_can_post own;
          actors = grouped_actors (live_grants s cid) in
      bindE (requireE (own \<noteq> []) ErrChannelDenied) (\<lambda>_.
      Inr \<lparr>c_id = ch_id ch, c_project = ch_project ch, c_kind = ch_kind ch, c_title = ch_title ch,
        c_creator = ch_creator ch, c_revision = ch_revision ch, c_last_seq = ch_next_seq ch - 1,
        c_last_message_seq = last_message_seq s cid from, c_needs_response = open_questions s cid (pr_actor p) from,
        c_view = None, c_participants = filter (may_post s cid) actors,
        c_observers = filter (\<lambda>a. \<not> may_post s cid a) actors, c_can_post = post,
        c_can_manage = (post \<and> ch_creator ch = pr_actor p \<and> ch_kind ch = ''named''), c_history_from = from\<rparr>))"

section \<open>Digests and recorded operations\<close>

definition digestRequest :: "(string \<Rightarrow> string) \<Rightarrow> json_value \<Rightarrow> string" where
  "digestRequest digest v = digest (marshal v)"

definition operation_key :: "operation_row \<Rightarrow> string \<times> string \<times> string" where
  "operation_key r = (op_actor r, op_operation r, op_key r)"

definition channelOperation ::
  "principal \<Rightarrow> string \<Rightarrow> string \<Rightarrow> string \<Rightarrow> cdb \<Rightarrow> error + operation_result option" where
  "channelOperation p op key dig s = (case row_by operation_key (pr_actor p, op, key) (operations s) of
     None \<Rightarrow> Inr None
   | Some r \<Rightarrow> if op_digest r \<noteq> dig then Inl ErrIdempotencyConflict else Inr (Some (op_result r)))"

definition saveChannelOperation ::
  "principal \<Rightarrow> string \<Rightarrow> string \<Rightarrow> string \<Rightarrow> operation_result \<Rightarrow> cdb \<Rightarrow> error + cdb" where
  "saveChannelOperation p op key dig result s =
    bindE (requireE (row_by operation_key (pr_actor p, op, key) (operations s) = None) (SqlConstraint ''channel_operations'')) (\<lambda>_.
    Inr (s\<lparr>operations := operations s @ [\<lparr>op_actor = pr_actor p, op_operation = op, op_key = key,
      op_digest = dig, op_result = result\<rparr>]\<rparr>))"

section \<open>The channel's log\<close>

definition event_key :: "channel_event_row \<Rightarrow> string \<times> int" where
  "event_key e = (ce_channel e, ce_seq e)"

definition bump_seq :: "channel_row \<Rightarrow> channel_row" where
  "bump_seq c = c\<lparr>ch_next_seq := ch_next_seq c + 1\<rparr>"

definition channelEventTx ::
  "env \<Rightarrow> string \<Rightarrow> string \<Rightarrow> string \<Rightarrow> string \<Rightarrow> json_value \<Rightarrow> cdb \<Rightarrow> error + (int \<times> cdb)" where
  "channelEventTx env cid kind actor message payload s = (case row_by ch_id cid (channels s) of
     None \<Rightarrow> Inl (InternalError ''sql: no rows in result set'')
   | Some ch \<Rightarrow>
     let seq = ch_next_seq ch in
     bindE (requireE ((cid, seq) \<notin> event_key ` set (channel_events s)) (SqlConstraint ''channel_events'')) (\<lambda>_.
     Inr (seq, s\<lparr>channels := update_where (\<lambda>c. ch_id c = cid) bump_seq (channels s),
       channel_events := channel_events s @ [\<lparr>ce_channel = cid, ce_seq = seq, ce_kind = kind, ce_actor = actor,
         ce_message = message, ce_payload = marshal payload, ce_created_at = e_now env\<rparr>]\<rparr>)))"

section \<open>Grants\<close>

definition new_grant :: "string \<Rightarrow> string \<Rightarrow> string \<Rightarrow> bool \<Rightarrow> int \<Rightarrow> grant_row" where
  "new_grant cid actor source post floor = \<lparr>cg_channel_id = cid, cg_actor = actor, cg_source = source,
     cg_can_post = post, cg_history_from = floor, cg_granted_seq = floor, cg_revoked_seq = None\<rparr>"

text \<open>The unique index over the grants that are not revoked.\<close>

definition insert_grant :: "grant_row \<Rightarrow> cdb \<Rightarrow> error + cdb" where
  "insert_grant g s =
    bindE (requireE (\<not> list_ex (\<lambda>h. cg_channel_id h = cg_channel_id g \<and> cg_actor h = cg_actor g \<and> cg_source h = cg_source g \<and>
       cg_revoked_seq h = None) (grants (base s))) (SqlConstraint ''channel_grants_active'')) (\<lambda>_.
    Inr (s\<lparr>base := (base s)\<lparr>grants := grants (base s) @ [g]\<rparr>\<rparr>))"

definition supervisor_source :: "string \<Rightarrow> string" where
  "supervisor_source agent = ''supervisor:'' @ agent"

definition active_supervisor :: "cdb \<Rightarrow> string \<Rightarrow> string option" where
  "active_supervisor s agent = (case row_by sv_agent agent (supervisions s) of
     Some v \<Rightarrow> if sv_active v then Some (sv_human v) else None | None \<Rightarrow> None)"

definition channelGrantTx :: "string \<Rightarrow> string \<Rightarrow> int \<Rightarrow> cdb \<Rightarrow> error + cdb" where
  "channelGrantTx cid actor floor s =
    bindE (insert_grant (new_grant cid actor ''participant'' True floor) s) (\<lambda>s1.
    case active_supervisor s1 actor of
      None \<Rightarrow> Inr s1
    | Some human \<Rightarrow> insert_grant (new_grant cid human (supervisor_source actor) False floor) s1)"

end
