(* ===== verification/Channels.thy ===== *)
theory Channels
  imports ChannelState
begin

text \<open>
  \<open>conversation.go\<close>: creating a channel (\<open>ChannelCreate\<close>) and reading it (\<open>ChannelGet\<close>,
  \<open>ChannelList\<close>) and its messages (\<open>ChannelMessageGet\<close>).
\<close>

section \<open>Creating a channel\<close>

record channel_create =
  cr_project :: string
  cr_kind :: string
  cr_title :: string
  cr_participants :: "string list"
  cr_key :: string

definition create_json :: "channel_create \<Rightarrow> json_value" where
  "create_json r = JObject [(''project_id'', JText (cr_project r)), (''kind'', JText (cr_kind r)), (''title'', JText (cr_title r)),
     (''participants'', JArray (map JText (cr_participants r))), (''idempotency_key'', JText (cr_key r))]"

text \<open>The loop over the sorted participants; \<open>prior\<close> is the element before the position.\<close>

fun check_participants :: "string option \<Rightarrow> string list \<Rightarrow> error + unit" where
  "check_participants prior [] = Inr ()"
| "check_participants prior (a # as) =
    bindE (channelText ''participant'' a 128) (\<lambda>_.
    bindE (requireE (\<not> (trim a \<noteq> a \<or> prior = Some a)) (ValidationError ''participants'' ''must use distinct canonical actor IDs'')) (\<lambda>_.
    check_participants (Some a) as))"

definition normalizeChannelCreate :: "principal \<Rightarrow> channel_create \<Rightarrow> error + channel_create" where
  "normalizeChannelCreate p r =
    bindE (conversationPrincipal p) (\<lambda>_.
    bindE (channelText ''project_id'' (cr_project r) 128) (\<lambda>_.
    bindE (channelText ''idempotency_key'' (cr_key r) 256) (\<lambda>_.
    bindE (requireE (\<not> (cr_kind r \<noteq> ''dm'' \<and> cr_kind r \<noteq> ''named''))
      (ValidationError ''kind'' ''only dm and named private channels are supported'')) (\<lambda>_.
    bindE (requireE (\<not> (length (cr_participants r) < 2 \<or> 32 < length (cr_participants r)))
      (ValidationError ''participants'' ''must contain 2 to 32 distinct actors'')) (\<lambda>_.
    let r1 = r\<lparr>cr_participants := sort (cr_participants r)\<rparr> in
    bindE (check_participants None (cr_participants r1)) (\<lambda>_.
    bindE (requireE (pr_actor p \<in> set (cr_participants r1)) ErrChannelDenied) (\<lambda>_.
    if cr_kind r = ''dm'' then
      bindE (requireE (length (cr_participants r1) = 2) ErrImmutableAudience) (\<lambda>_. Inr (r1\<lparr>cr_title := []\<rparr>))
    else bindE (channelText ''title'' (cr_title r) 256) (\<lambda>_. Inr r1))))))))"

text \<open>Whether an actor may be a participant of a new channel.\<close>

definition admissible :: "cdb \<Rightarrow> string \<Rightarrow> error + unit" where
  "admissible s a =
    bindE (requireE (a \<in> an_actor ` set (actor_names (base s))) ErrChannelDenied) (\<lambda>_.
    bindE (assertActorNotAdopted (base s) a) (\<lambda>_.
    bindE (requireE (\<not> actorArchived (base s) a) ErrChannelDenied) (\<lambda>_.
    requireE (is_human_actor a \<longrightarrow> a \<in> hu_actor ` set (humans s)) ErrChannelDenied)))"

definition dm_key :: "(string \<Rightarrow> string) \<Rightarrow> channel_create \<Rightarrow> string" where
  "dm_key digest r = digestRequest digest (JArray [JText (cr_project r), JArray (map JText (cr_participants r))])"

definition new_channel :: "env \<Rightarrow> principal \<Rightarrow> channel_create \<Rightarrow> string option \<Rightarrow> string \<Rightarrow> channel_row" where
  "new_channel env p r key cid = \<lparr>ch_id = cid, ch_project = cr_project r, ch_kind = cr_kind r, ch_title = cr_title r,
     ch_creator = pr_actor p, ch_dm_key = key, ch_revision = 1, ch_next_seq = 1, ch_created_at = e_now env\<rparr>"

definition insert_channel :: "channel_row \<Rightarrow> cdb \<Rightarrow> error + cdb" where
  "insert_channel c s =
    bindE (requireE (ch_id c \<notin> ch_id ` set (channels s)) (SqlConstraint ''channels.channel_id'')) (\<lambda>_.
    bindE (requireE (\<not> (ch_dm_key c \<noteq> None \<and> ch_dm_key c \<in> ch_dm_key ` set (channels s))) (SqlConstraint ''channels.dm_key'')) (\<lambda>_.
    Inr (s\<lparr>channels := channels s @ [c]\<rparr>)))"

definition found_id :: "operation_result \<Rightarrow> error + string" where
  "found_id x = (case x of ResultId i \<Rightarrow> Inr i | _ \<Rightarrow> Inl (InternalError ''json: cannot unmarshal object into Go value of type string''))"

definition create_new :: "env \<Rightarrow> principal \<Rightarrow> channel_create \<Rightarrow> string option \<Rightarrow> string \<Rightarrow> cdb \<Rightarrow> error + (channel \<times> cdb)" where
  "create_new env p r key dig s =
    bindE (forE (cr_participants r) (admissible s)) (\<lambda>_.
    bindE (with_base (newID env ''chn'') s) (\<lambda>(cid, s1).
    bindE (insert_channel (new_channel env p r key cid) s1) (\<lambda>s2.
    bindE (foldE (\<lambda>a. channelGrantTx cid a 0) (cr_participants r) s2) (\<lambda>s3.
    bindE (channelEventTx env cid ''channel.created'' (pr_actor p) []
      (JObject [(''participants'', JArray (map JText (cr_participants r)))]) s3) (\<lambda>(_, s4).
    bindE (saveChannelOperation p ''create'' (cr_key r) dig (ResultId cid) s4) (\<lambda>s5.
    bindE (channelTx p cid s5) (\<lambda>c. Inr (c, s5))))))))"

definition createChannelTx :: "env \<Rightarrow> (string \<Rightarrow> string) \<Rightarrow> principal \<Rightarrow> channel_create \<Rightarrow> cdb \<Rightarrow> error + (channel \<times> cdb)" where
  "createChannelTx env digest p r s =
    (let dig = digestRequest digest (create_json r) in
     bindE (channelOperation p ''create'' (cr_key r) dig s) (\<lambda>found.
     case found of
       Some x \<Rightarrow> bindE (found_id x) (\<lambda>cid. bindE (channelTx p cid s) (\<lambda>c. Inr (c, s)))
     | None \<Rightarrow>
       if cr_kind r = ''dm'' then
         (case row_by ch_dm_key (Some (dm_key digest r)) (channels s) of
            Some ch \<Rightarrow> bindE (channelTx p (ch_id ch) s) (\<lambda>c.
              bindE (saveChannelOperation p ''create'' (cr_key r) dig (ResultId (ch_id ch)) s) (\<lambda>s1. Inr (c, s1)))
          | None \<Rightarrow> create_new env p r (Some (dm_key digest r)) dig s)
       else create_new env p r None dig s))"

definition ChannelCreate :: "env \<Rightarrow> (string \<Rightarrow> string) \<Rightarrow> principal \<Rightarrow> channel_create \<Rightarrow> cdb \<Rightarrow> error + (channel \<times> cdb)" where
  "ChannelCreate env digest p r0 s = bindE (normalizeChannelCreate p r0) (\<lambda>r. createChannelTx env digest p r s)"

section \<open>Reading channels\<close>

definition ChannelGet :: "principal \<Rightarrow> string \<Rightarrow> cdb \<Rightarrow> error + channel" where
  "ChannelGet p cid s = channelTx p cid s"

definition channelViewTx :: "principal \<Rightarrow> string \<Rightarrow> string \<Rightarrow> cdb \<Rightarrow> view_state" where
  "channelViewTx p cid thread s =
    (case row_by (\<lambda>v. (vr_channel v, vr_actor v, vr_thread v)) (cid, pr_actor p, thread) (views s) of
       None \<Rightarrow> \<lparr>vw_channel = cid, vw_thread = thread, vw_revision = 0, vw_read_through = 0, vw_unread_from = None,
         vw_snoozed_until = None, vw_muted = False, vw_archived = False\<rparr>
     | Some v \<Rightarrow> vr_state v)"

definition channel_ids_of :: "cdb \<Rightarrow> string \<Rightarrow> string list" where
  "channel_ids_of s a = sort (remdups (map cg_channel_id (filter (\<lambda>g. cg_actor g = a \<and> cg_revoked_seq g = None) (grants (base s)))))"

definition ChannelList :: "principal \<Rightarrow> cdb \<Rightarrow> error + channel list" where
  "ChannelList p s =
    bindE (conversationPrincipal p) (\<lambda>_.
    let ids = take 201 (channel_ids_of s (pr_actor p)) in
    bindE (requireE (length ids \<le> 200) (ValidationError ''channels''
      ''list exceeds the 200-channel local view limit; use channel.get for a known channel'')) (\<lambda>_.
    mapE (\<lambda>cid. bindE (channelTx p cid s) (\<lambda>c. Inr (c\<lparr>c_view := Some (channelViewTx p cid [] s)\<rparr>))) ids))"

section \<open>Reading messages\<close>

record channel_reference =
  cf_source :: string
  cf_relation :: string
  cf_available :: bool

record channel_message =
  cm_id :: string
  cm_channel :: string
  cm_thread :: string
  cm_seq :: int
  cm_from_actor :: string
  cm_from_run :: string
  cm_in_reply_to :: string
  cm_body :: string
  cm_created_at :: int
  cm_references :: "channel_reference list"
  cm_response :: string

text \<open>A NULL scanned into a Go value that has none.\<close>

definition scanned :: "'a option \<Rightarrow> error + 'a" where
  "scanned v = (case v of None \<Rightarrow> Inl (InternalError ''sql: converting NULL is unsupported'') | Some x \<Rightarrow> Inr x)"

lemma scanned_Inr [ok_iff]: "scanned v = Inr x \<longleftrightarrow> v = Some x"
  by (auto simp: scanned_def split: option.splits)

definition visible_parent :: "cdb \<Rightarrow> int \<Rightarrow> string \<Rightarrow> error + string" where
  "visible_parent s from parent =
    (if parent = [] then Inr []
     else case row_by mr_id parent (messages (base s)) of
       None \<Rightarrow> Inl (InternalError ''sql: no rows in result set'')
     | Some m \<Rightarrow> bindE (scanned (mr_channel_seq m)) (\<lambda>n. Inr (if n < from then [] else parent)))"

text \<open>The sources a message refers to, shown only where the reader may see them.\<close>

definition reference_sources :: "cdb \<Rightarrow> string \<Rightarrow> (reference_row \<times> message_row) list" where
  "reference_sources s mid = sort_key (\<lambda>(r, m). rf_source r)
     (filter (\<lambda>(r, m). rf_message r = mid \<and> mr_id m = rf_source r) (List.product (references s) (messages (base s))))"

definition shown_reference :: "env \<Rightarrow> principal \<Rightarrow> cdb \<Rightarrow> reference_row \<times> message_row \<Rightarrow> error + channel_reference" where
  "shown_reference env p s rm = (case rm of (r, m) \<Rightarrow>
     bindE (scanned (mr_conversation m)) (\<lambda>cid.
     bindE (scanned (mr_channel_seq m)) (\<lambda>n.
     case channelTx p cid s of
       Inr c \<Rightarrow> Inr (if c_history_from c \<le> n \<and> unexpired (e_now env) m
         then \<lparr>cf_source = rf_source r, cf_relation = rf_relation r, cf_available = True\<rparr>
         else \<lparr>cf_source = [], cf_relation = rf_relation r, cf_available = False\<rparr>)
     | Inl e \<Rightarrow> if e = ErrChannelDenied then Inr \<lparr>cf_source = [], cf_relation = rf_relation r, cf_available = False\<rparr>
         else Inl e)))"

definition channelMessageTx :: "env \<Rightarrow> principal \<Rightarrow> string \<Rightarrow> cdb \<Rightarrow> error + channel_message" where
  "channelMessageTx env p mid s =
    bindE (conversationPrincipal p) (\<lambda>_.
    case find (\<lambda>m. mr_id m = mid \<and> mr_conversation m \<noteq> None \<and> unexpired (e_now env) m) (messages (base s)) of
      None \<Rightarrow> Inl ErrChannelDenied
    | Some m \<Rightarrow>
      bindE (scanned (mr_conversation m)) (\<lambda>cid.
      bindE (scanned (mr_thread_id m)) (\<lambda>thread.
      bindE (scanned (mr_channel_seq m)) (\<lambda>n.
      bindE (channelTx p cid s) (\<lambda>c.
      bindE (requireE (c_history_from c \<le> n) ErrChannelDenied) (\<lambda>_.
      bindE (visible_parent s (c_history_from c) (coalesce (mr_in_reply_to m))) (\<lambda>parent.
      bindE (mapE (shown_reference env p s) (reference_sources s mid)) (\<lambda>refs.
      Inr \<lparr>cm_id = mr_id m, cm_channel = cid, cm_thread = thread, cm_seq = n, cm_from_actor = mr_from_actor m,
        cm_from_run = mr_from_run m, cm_in_reply_to = parent, cm_body = mr_body m, cm_created_at = mr_created_at m,
        cm_references = refs,
        cm_response = (case row_by rs_message mid (responses s) of None \<Rightarrow> [] | Some q \<Rightarrow> rs_id q)\<rparr>))))))))"

definition ChannelMessageGet :: "env \<Rightarrow> principal \<Rightarrow> string \<Rightarrow> cdb \<Rightarrow> error + channel_message" where
  "ChannelMessageGet env p mid s = channelMessageTx env p mid s"

end
