(* ===== verification/ChannelPosts.thy ===== *)
theory ChannelPosts
  imports Channels
begin

text \<open>
  \<open>conversation.go\<close>: posting to a channel (\<open>channelPostTx\<close>, \<open>ChannelPost\<close>).
\<close>

section \<open>Requests\<close>

record channel_post =
  cp_channel :: string
  cp_thread :: string
  cp_in_reply_to :: string
  cp_expected_revision :: int
  cp_key :: string
  cp_body :: string
  cp_attention :: "string list"
  cp_respondent :: string
  cp_response_to :: string
  cp_response_revision :: int
  cp_references :: "channel_reference list"

record channel_post_result =
  pt_message :: channel_message
  pt_duplicate :: bool
  pt_recipients :: "string list"

definition reference_json :: "channel_reference \<Rightarrow> json_value" where
  "reference_json r = JObject (omitempty (cf_source r \<noteq> []) ''source_message_id'' (JText (cf_source r)) @
     [(''relation'', JText (cf_relation r)), (''available'', JBool (cf_available r))])"

definition post_json :: "channel_post \<Rightarrow> json_value" where
  "post_json r = JObject ([(''channel_id'', JText (cp_channel r))] @
     omitempty (cp_thread r \<noteq> []) ''thread_id'' (JText (cp_thread r)) @
     omitempty (cp_in_reply_to r \<noteq> []) ''in_reply_to'' (JText (cp_in_reply_to r)) @
     [(''expected_policy_revision'', JInt (cp_expected_revision r)), (''idempotency_key'', JText (cp_key r)),
      (''body'', JRaw (cp_body r))] @
     omitempty (cp_attention r \<noteq> []) ''attention_targets'' (JArray (map JText (cp_attention r))) @
     omitempty (cp_respondent r \<noteq> []) ''respondent'' (JText (cp_respondent r)) @
     omitempty (cp_response_to r \<noteq> []) ''response_to'' (JText (cp_response_to r)) @
     omitempty (cp_response_revision r \<noteq> 0) ''expected_response_revision'' (JInt (cp_response_revision r)) @
     omitempty (cp_references r \<noteq> []) ''references'' (JArray (map reference_json (cp_references r))))"

section \<open>Checks\<close>

definition post_shape :: "channel_post \<Rightarrow> error + unit" where
  "post_shape r =
    bindE (channelText ''idempotency_key'' (cp_key r) 256) (\<lambda>_.
    bindE (requireE (cp_body r \<noteq> [] \<and> int (length (cp_body r)) \<le> MaxBodyBytes \<and> valid_json (cp_body r))
      (ValidationError ''body'' ''must be valid JSON within the message limit'')) (\<lambda>_.
    requireE (length (cp_references r) \<le> 16) (ValidationError ''references'' ''maximum 16'')))"

definition managedRecipients :: "cdb \<Rightarrow> string \<Rightarrow> string list" where
  "managedRecipients s mid = sort (map dl_recipient (filter (\<lambda>d. dl_message_id d = mid) (managed s)))"

text \<open>The message a sender's key already stands for, with the digest of its request.\<close>

definition prior_post :: "cdb \<Rightarrow> string \<Rightarrow> string \<Rightarrow> (string \<times> string) option" where
  "prior_post s a key = (case row_by (\<lambda>m. (mr_from_actor m, mr_idempotency_key m)) (a, key) (messages (base s)) of
     None \<Rightarrow> None
   | Some m \<Rightarrow> Some (mr_id m, case row_by rq_message (mr_id m) (requests s) of None \<Rightarrow> [] | Some r \<Rightarrow> rq_digest r))"

text \<open>An answer takes the thread and by default the message of the open question it answers.\<close>

definition open_question :: "cdb \<Rightarrow> string \<Rightarrow> string \<Rightarrow> channel_post \<Rightarrow> (response_row \<times> message_row) option" where
  "open_question s cid a r =
    find (\<lambda>(q, m). rs_id q = cp_response_to r \<and> rs_channel q = cid \<and> rs_respondent q = a \<and> rs_state q = ResponseOpen \<and>
       rs_revision q = cp_response_revision r \<and> mr_id m = rs_message q)
      (List.product (responses s) (messages (base s)))"

definition take_question :: "cdb \<Rightarrow> string \<Rightarrow> string \<Rightarrow> channel_post \<Rightarrow> error + channel_post" where
  "take_question s cid a r =
    (if cp_response_to r = [] then Inr r
     else case open_question s cid a r of
       None \<Rightarrow> Inl ErrResponseConflict
     | Some (q, m) \<Rightarrow>
       bindE (scanned (mr_thread_id m)) (\<lambda>thread.
       bindE (requireE (\<not> (cp_thread r \<noteq> [] \<and> cp_thread r \<noteq> thread)) ErrResponseConflict) (\<lambda>_.
       Inr (r\<lparr>cp_thread := thread, cp_in_reply_to := (if cp_in_reply_to r = [] then rs_message q else cp_in_reply_to r)\<rparr>))))"

definition take_parent :: "env \<Rightarrow> principal \<Rightarrow> cdb \<Rightarrow> string \<Rightarrow> channel_post \<Rightarrow> error + channel_post" where
  "take_parent env p s cid r =
    (if cp_in_reply_to r = [] then Inr r
     else bindE (channelMessageTx env p (cp_in_reply_to r) s) (\<lambda>parent.
       bindE (requireE (\<not> (cm_channel parent \<noteq> cid \<or> cp_thread r \<noteq> [] \<and> cp_thread r \<noteq> cm_thread parent))
         (ValidationError ''in_reply_to'' ''parent must belong to the same channel and thread'')) (\<lambda>_.
       Inr (r\<lparr>cp_thread := cm_thread parent\<rparr>))))"

definition known_thread :: "cdb \<Rightarrow> string \<Rightarrow> string \<Rightarrow> error + unit" where
  "known_thread s cid thread =
    requireE (thread \<noteq> [] \<longrightarrow> list_ex (\<lambda>t. th_channel t = cid \<and> th_thread t = thread) (threads s)) ErrChannelDenied"

fun check_attention :: "string list \<Rightarrow> string \<Rightarrow> string list \<Rightarrow> string list \<Rightarrow> error + unit" where
  "check_attention member sender seen [] = Inr ()"
| "check_attention member sender seen (a # as) =
    (if a \<in> set seen then Inl (ValidationError ''attention_targets'' ''duplicate participant'')
     else if a \<notin> set member \<or> a = sender then Inl ErrChannelDenied
     else check_attention member sender (a # seen) as)"

fun check_references :: "env \<Rightarrow> principal \<Rightarrow> cdb \<Rightarrow> string list \<Rightarrow> channel_reference list \<Rightarrow> error + unit" where
  "check_references env p s seen [] = Inr ()"
| "check_references env p s seen (r # rs) =
    bindE (requireE (\<not> (cf_relation r \<noteq> ''discusses'' \<and> cf_relation r \<noteq> ''continued_from'')) ErrShareAuthority) (\<lambda>_.
    bindE (requireE (cf_source r \<notin> set seen) (ValidationError ''references'' ''duplicate source'')) (\<lambda>_.
    bindE (channelMessageTx env p (cf_source r) s) (\<lambda>_.
    check_references env p s (cf_source r # seen) rs)))"

definition check_audience :: "env \<Rightarrow> principal \<Rightarrow> channel \<Rightarrow> channel_post \<Rightarrow> cdb \<Rightarrow> error + unit" where
  "check_audience env p c r s =
    bindE (requireE (length (cp_attention r) \<le> 32) (ValidationError ''attention_targets'' ''maximum 32 distinct participants'')) (\<lambda>_.
    bindE (requireE (int (length (marshal (JRaw (cp_body r)))) \<le> MaxBodyBytes)
      (ValidationError ''body'' ''encoded body exceeds transport limit'')) (\<lambda>_.
    bindE (check_attention (c_participants c) (pr_actor p) [] (cp_attention r)) (\<lambda>_.
    bindE (requireE (\<not> (cp_respondent r \<noteq> [] \<and> (cp_respondent r \<notin> set (c_participants c) \<or> cp_respondent r = pr_actor p)))
      ErrChannelDenied) (\<lambda>_.
    check_references env p s [] (cp_references r)))))"

section \<open>Storing a post\<close>

definition posted_row :: "env \<Rightarrow> principal \<Rightarrow> channel \<Rightarrow> channel_post \<Rightarrow> string \<Rightarrow> int \<Rightarrow> message_row" where
  "posted_row env p c r mid seq = \<lparr>mr_id = mid, mr_schema_version = 2, mr_idempotency_key = cp_key r,
     mr_project_id = c_project c, mr_channel_id = ''managed'', mr_thread_id = Some (cp_thread r),
     mr_from_actor = pr_actor p, mr_from_run = pr_run p, mr_from_role = None, mr_type = ''MESSAGE'',
     mr_delivery_request = NonBlocking, mr_in_reply_to = nullif (cp_in_reply_to r), mr_body = cp_body r,
     mr_created_at = e_now env, mr_expires_at = None, mr_requested = RequestedNull,
     mr_conversation = Some (c_id c), mr_channel_seq = Some seq\<rparr>"

definition managed_row :: "string \<Rightarrow> string \<Rightarrow> delivery_row" where
  "managed_row mid a = \<lparr>dl_message_id = mid, dl_recipient = a, dl_state = Queued, dl_attempt = 0, dl_lease_token = None,
     dl_terminal_token = None, dl_lease_expires = None, dl_claimed_at = None, dl_acked_at = None, dl_last_error = None\<rparr>"

text \<open>\<open>INSERT OR IGNORE\<close> of a wake-up of the managed queue.\<close>

definition request_attention :: "env \<Rightarrow> string \<Rightarrow> string \<Rightarrow> outbox_row list \<Rightarrow> outbox_row list" where
  "request_attention env mid a rows = (if row_by outbox_key (mid, a) rows \<noteq> None then rows
     else rows @ [\<lparr>ob_message_id = mid, ob_recipient = a, ob_state = ManagedPending, ob_attempt = 0,
       ob_available_at = e_now env, ob_last_error = None, ob_created_at = e_now env, ob_source = ManagedSource\<rparr>])"

definition insert_message :: "message_row \<Rightarrow> cdb \<Rightarrow> error + cdb" where
  "insert_message m s =
    bindE (requireE (mr_id m \<notin> mr_id ` set (messages (base s))) (SqlConstraint ''messages.message_id'')) (\<lambda>_.
    Inr (s\<lparr>base := (base s)\<lparr>messages := messages (base s) @ [m]\<rparr>\<rparr>))"

definition open_thread :: "bool \<Rightarrow> string \<Rightarrow> string \<Rightarrow> string \<Rightarrow> cdb \<Rightarrow> error + cdb" where
  "open_thread fresh cid thread mid s =
    (if \<not> fresh then Inr s
     else bindE (requireE ((cid, thread) \<notin> (\<lambda>t. (th_channel t, th_thread t)) ` set (threads s)) (SqlConstraint ''channel_threads'')) (\<lambda>_.
       Inr (s\<lparr>threads := threads s @ [\<lparr>th_channel = cid, th_thread = thread, th_root = mid\<rparr>]\<rparr>)))"

definition ask_response :: "env \<Rightarrow> principal \<Rightarrow> string \<Rightarrow> string \<Rightarrow> string \<Rightarrow> cdb \<Rightarrow> error + cdb" where
  "ask_response env p cid mid respondent s =
    (if respondent = [] then Inr s
     else bindE (with_base (newID env ''req'') s) (\<lambda>(rid, s1).
       bindE (requireE (rid \<notin> rs_id ` set (responses s1) \<and> mid \<notin> rs_message ` set (responses s1)) (SqlConstraint ''channel_responses'')) (\<lambda>_.
       Inr (s1\<lparr>responses := responses s1 @ [\<lparr>rs_id = rid, rs_channel = cid, rs_message = mid, rs_requester = pr_actor p,
         rs_respondent = respondent, rs_state = ResponseOpen, rs_revision = 1, rs_answer = None\<rparr>]\<rparr>))))"

definition answer_row :: "string \<Rightarrow> response_row \<Rightarrow> response_row" where
  "answer_row mid q = q\<lparr>rs_state := ResponseAnswered, rs_answer := Some mid, rs_revision := rs_revision q + 1\<rparr>"

definition answer_question :: "principal \<Rightarrow> string \<Rightarrow> channel_post \<Rightarrow> string \<Rightarrow> cdb \<Rightarrow> error + cdb" where
  "answer_question p cid r mid s =
    (let q = (\<lambda>x. rs_id x = cp_response_to r \<and> rs_channel x = cid \<and> rs_respondent x = pr_actor p \<and>
         rs_revision x = cp_response_revision r \<and> rs_state x = ResponseOpen) in
     if cp_response_to r = [] then Inr s
     else bindE (requireE (affected q (responses s) = 1) ErrResponseConflict) (\<lambda>_.
       Inr (s\<lparr>responses := update_where q (answer_row mid) (responses s)\<rparr>)))"

definition record_request :: "string \<Rightarrow> string \<Rightarrow> cdb \<Rightarrow> error + cdb" where
  "record_request mid dig s =
    bindE (requireE (mid \<notin> rq_message ` set (requests s)) (SqlConstraint ''channel_message_requests'')) (\<lambda>_.
    Inr (s\<lparr>requests := requests s @ [\<lparr>rq_message = mid, rq_digest = dig\<rparr>]\<rparr>))"

text \<open>The writes after all checks, for a request whose thread is settled.\<close>

definition store_post :: "env \<Rightarrow> principal \<Rightarrow> channel \<Rightarrow> channel_post \<Rightarrow> bool \<Rightarrow> string \<Rightarrow> cdb \<Rightarrow> error + (channel_post_result \<times> cdb)" where
  "store_post env p c r fresh dig s =
    bindE (with_base (newID env ''msg'') s) (\<lambda>(mid, s1).
    bindE (channelEventTx env (c_id c) ''message.posted'' (pr_actor p) mid JNull s1) (\<lambda>(seq, s2).
    bindE (insert_message (posted_row env p c r mid seq) s2) (\<lambda>s3.
    bindE (open_thread fresh (c_id c) (cp_thread r) mid s3) (\<lambda>s4.
    let to = filter (\<lambda>a. a \<noteq> pr_actor p) (c_participants c);
        s5 = s4\<lparr>managed := managed s4 @ map (managed_row mid) to,
           references := references s4 @ map (\<lambda>f. \<lparr>rf_message = mid, rf_source = cf_source f, rf_relation = cf_relation f\<rparr>) (cp_references r)\<rparr>;
        s6 = s5\<lparr>base := (base s5)\<lparr>outbox := fold (request_attention env mid) (cp_attention r) (outbox (base s5))\<rparr>\<rparr> in
    bindE (ask_response env p (c_id c) mid (cp_respondent r) s6) (\<lambda>s7.
    bindE (answer_question p (c_id c) r mid s7) (\<lambda>s8.
    bindE (record_request mid dig s8) (\<lambda>s9.
    bindE (channelMessageTx env p mid s9) (\<lambda>m.
    Inr (\<lparr>pt_message = m, pt_duplicate = False, pt_recipients = to\<rparr>, s9)))))))))"

section \<open>Posting\<close>

definition post_new :: "env \<Rightarrow> principal \<Rightarrow> channel \<Rightarrow> channel_post \<Rightarrow> string \<Rightarrow> cdb \<Rightarrow> error + (channel_post_result \<times> cdb)" where
  "post_new env p c r dig s =
    bindE (requireE (cp_expected_revision r = c_revision c) ErrAudienceChanged) (\<lambda>_.
    bindE (take_question s (c_id c) (pr_actor p) r) (\<lambda>r1.
    bindE (take_parent env p s (c_id c) r1) (\<lambda>r2.
    bindE (known_thread s (c_id c) (cp_thread r2)) (\<lambda>_.
    bindE (if cp_thread r2 = [] then bindE (with_base (newID env ''thr'') s) (\<lambda>(t, s1). Inr (r2\<lparr>cp_thread := t\<rparr>, s1)) else Inr (r2, s))
      (\<lambda>(r3, s1).
    bindE (check_audience env p c r3 s1) (\<lambda>_.
    store_post env p c r3 (cp_thread r2 = []) dig s1))))))"

definition channelPostTx ::
  "env \<Rightarrow> (string \<Rightarrow> string) \<Rightarrow> principal \<Rightarrow> channel_post \<Rightarrow> cdb \<Rightarrow> error + (channel_post_result \<times> cdb)" where
  "channelPostTx env digest p r s =
    bindE (channelTx p (cp_channel r) s) (\<lambda>c.
    bindE (requireE (c_can_post c) ErrChannelDenied) (\<lambda>_.
    bindE (post_shape r) (\<lambda>_.
    bindE (assertActorNotAdopted (base s) (pr_actor p)) (\<lambda>_.
    let dig = digestRequest digest (post_json r) in
    case prior_post s (pr_actor p) (cp_key r) of
      Some (mid, prior) \<Rightarrow>
        bindE (requireE (dig = prior) ErrIdempotencyConflict) (\<lambda>_.
        bindE (channelMessageTx env p mid s) (\<lambda>m.
        Inr (\<lparr>pt_message = m, pt_duplicate = True, pt_recipients = managedRecipients s mid\<rparr>, s)))
    | None \<Rightarrow> post_new env p c r dig s))))"

definition ChannelPost ::
  "env \<Rightarrow> (string \<Rightarrow> string) \<Rightarrow> principal \<Rightarrow> channel_post \<Rightarrow> cdb \<Rightarrow> error + (channel_post_result \<times> cdb)" where
  "ChannelPost env digest p r s = channelPostTx env digest p r s"

end
