(* ===== verification/ChannelHistory.thy ===== *)
theory ChannelHistory
  imports ChannelPosts
begin

text \<open>
  \<open>ChannelHistory\<close> of \<open>conversation.go\<close>: a page of a channel's messages in sequence order, bounded in
  number and in the size of its JSON.
\<close>

section \<open>Times in JSON\<close>

text \<open>
  \<open>time.Time.MarshalJSON\<close> of a UTC time given in nanoseconds since 1970: RFC 3339 with the fraction
  of a second written without trailing zeros. The date is computed from the day number in the
  Gregorian calendar, with years that begin in March.
\<close>

definition civil_date :: "int \<Rightarrow> int \<times> int \<times> int" where
  "civil_date days =
    (let z = days + 719468; era = z div 146097; doe = z mod 146097;
         yoe = (doe - doe div 1460 + doe div 36524 - doe div 146096) div 365;
         doy = doe - (365 * yoe + yoe div 4 - yoe div 100);
         mp = (5 * doy + 2) div 153;
         d = doy - (153 * mp + 2) div 5 + 1;
         m = (if mp < 10 then mp + 3 else mp - 9);
         y = yoe + era * 400 + (if m \<le> 2 then 1 else 0)
     in (y, m, d))"

text \<open>The last decimal digits of a number, as many as the width says.\<close>

fun padded :: "nat \<Rightarrow> int \<Rightarrow> string" where
  "padded 0 n = []"
| "padded (Suc w) n = padded w (n div 10) @ [char_of (48 + nat (n mod 10))]"

definition fraction :: "int \<Rightarrow> string" where
  "fraction ns = (if ns = 0 then [] else CHR ''.'' # rev (dropWhile (\<lambda>c. c = CHR ''0'') (rev (padded 9 ns))))"

definition rfc3339 :: "int \<Rightarrow> string" where
  "rfc3339 t =
    (let (y, m, d) = civil_date (t div (86400 * second)); s = t mod (86400 * second) div second in
     padded 4 y @ ''-'' @ padded 2 m @ ''-'' @ padded 2 d @ ''T'' @ padded 2 (s div 3600) @ '':'' @ padded 2 (s mod 3600 div 60) @
     '':'' @ padded 2 (s mod 60) @ fraction (t mod second) @ ''Z'')"

definition message_json :: "channel_message \<Rightarrow> json_value" where
  "message_json m = JObject ([(''message_id'', JText (cm_id m)), (''channel_id'', JText (cm_channel m)),
      (''thread_id'', JText (cm_thread m)), (''channel_seq'', JInt (cm_seq m)), (''from_actor'', JText (cm_from_actor m)),
      (''from_run'', JText (cm_from_run m))] @
     omitempty (cm_in_reply_to m \<noteq> []) ''in_reply_to'' (JText (cm_in_reply_to m)) @
     [(''body'', JRaw (cm_body m)), (''created_at'', JText (rfc3339 (cm_created_at m))),
      (''references'', JArray (map reference_json (cm_references m)))] @
     omitempty (cm_response m \<noteq> []) ''response_request_id'' (JText (cm_response m)))"

section \<open>A page\<close>

record channel_page =
  pg_messages :: "channel_message list"
  pg_next :: string
  pg_revision :: int

definition page_limit :: "int \<Rightarrow> nat" where
  "page_limit limit = (if limit \<le> 0 then 50 else if 200 < limit then 200 else nat limit)"

definition history_rows :: "env \<Rightarrow> cdb \<Rightarrow> string \<Rightarrow> string \<Rightarrow> int \<Rightarrow> int \<Rightarrow> message_row list" where
  "history_rows env s cid thread after from = sort_key (\<lambda>m. the (mr_channel_seq m))
     (filter (\<lambda>m. (case mr_channel_seq m of None \<Rightarrow> False | Some n \<Rightarrow> after < n \<and> from \<le> n) \<and>
        (thread = [] \<or> mr_thread_id m = Some thread) \<and> unexpired (e_now env) m) (channel_messages s cid))"

text \<open>The loop reads one message at a time; the first is always on the page.\<close>

fun read_page :: "env \<Rightarrow> principal \<Rightarrow> cdb \<Rightarrow> int \<Rightarrow> channel_message list \<Rightarrow> message_row list \<Rightarrow> error + channel_message list" where
  "read_page env p s used out [] = Inr out"
| "read_page env p s used out (r # rs) = bindE (channelMessageTx env p (mr_id r) s) (\<lambda>m.
     let raw = int (length (marshal (message_json m))) in
     if 1500000 < used + raw \<and> out \<noteq> [] then Inr out else read_page env p s (used + raw) (out @ [m]) rs)"

definition ChannelHistory ::
  "env \<Rightarrow> principal \<Rightarrow> string \<Rightarrow> string \<Rightarrow> int \<Rightarrow> int \<Rightarrow> int \<Rightarrow> cdb \<Rightarrow> error + channel_page" where
  "ChannelHistory env p cid thread after revision limit s =
    bindE (channelTx p cid s) (\<lambda>c.
    bindE (requireE (\<not> (revision \<noteq> 0 \<and> revision \<noteq> c_revision c)) ErrAudienceChanged) (\<lambda>_.
    bindE (requireE (0 \<le> after) (ValidationError ''after'' ''must be nonnegative'')) (\<lambda>_.
    bindE (read_page env p s 0 [] (take (page_limit limit) (history_rows env s cid thread after (c_history_from c)))) (\<lambda>ms.
    Inr \<lparr>pg_messages = ms, pg_next = [], pg_revision = c_revision c\<rparr>))))"

end
