(* ===== verification/ChannelAccess.thy ===== *)
theory ChannelAccess
  imports ChannelPosts
begin

text \<open>
  \<open>conversation_access.go\<close>: enrolling humans, supervision of agents by humans, the membership of
  named channels, and what an actor records of its own view of a channel.
\<close>

section \<open>Administration\<close>

definition channelAdmin :: "principal \<Rightarrow> error + unit" where
  "channelAdmin p =
    bindE (conversationPrincipal p) (\<lambda>_.
    requireE (\<not> (\<not> pr_admin p \<or> \<not> pr_gateway p \<and> pr_actor p \<noteq> ''operator'')) ErrChannelDenied)"

definition RegisterHuman :: "env \<Rightarrow> principal \<Rightarrow> string \<Rightarrow> cdb \<Rightarrow> error + cdb" where
  "RegisterHuman env p actor s =
    bindE (channelAdmin p) (\<lambda>_.
    bindE (requireE (prefix ''human:'' actor \<and> trim actor = actor) ErrChannelDenied) (\<lambda>_.
    bindE (channelText ''human'' actor 128) (\<lambda>_.
    if actor \<in> hu_actor ` set (humans s) then Inr s
    else bindE (requireE (actor \<notin> an_actor ` set (actor_names (base s))) ErrChannelDenied) (\<lambda>_.
      Inr (s\<lparr>base := (base s)\<lparr>actor_names := actor_names (base s) @ [\<lparr>an_actor = actor, an_first_seen = e_now env\<rparr>]\<rparr>,
        humans := humans s @ [\<lparr>hu_actor = actor, hu_created_at = e_now env\<rparr>]\<rparr>)))))"

section \<open>Supervision\<close>

text \<open>
  The Go map from channels to revisions is a list sorted by channel, as \<open>json.Marshal\<close> writes a
  map. The range over it in \<open>SupervisionChange\<close> has no order of its own; each turn writes to its
  own channel only.
\<close>

definition supervisionPreviewTx :: "cdb \<Rightarrow> string \<Rightarrow> supervision_preview" where
  "supervisionPreviewTx s agent =
    (let v = row_by sv_agent agent (supervisions s);
         ids = sort (remdups (map cg_channel_id (filter (\<lambda>g. cg_actor g = agent \<and> cg_source g = ''participant'' \<and>
           cg_revoked_seq g = None) (grants (base s))))) in
     \<lparr>sp_agent = agent,
       sp_human = (case v of None \<Rightarrow> [] | Some r \<Rightarrow> if sv_active r then sv_human r else []),
       sp_revision = (case v of None \<Rightarrow> 0 | Some r \<Rightarrow> sv_revision r),
       sp_channels = List.map_filter (\<lambda>cid. map_option (\<lambda>c. (cid, ch_revision c)) (row_by ch_id cid (channels s))) ids\<rparr>)"

definition SupervisionPreflight :: "principal \<Rightarrow> string \<Rightarrow> cdb \<Rightarrow> error + supervision_preview" where
  "SupervisionPreflight p agent s = bindE (channelAdmin p) (\<lambda>_. Inr (supervisionPreviewTx s agent))"

definition preview_json :: "supervision_preview \<Rightarrow> json_value" where
  "preview_json v = JObject [(''agent'', JText (sp_agent v)), (''human'', JText (sp_human v)),
     (''revision'', JInt (sp_revision v)), (''channel_revisions'', JObject (map (\<lambda>(c, n). (c, JInt n)) (sp_channels v)))]"

definition upsert_supervision :: "supervision_row \<Rightarrow> supervision_row list \<Rightarrow> supervision_row list" where
  "upsert_supervision v rows = (if row_by sv_agent (sv_agent v) rows = None then rows @ [v]
     else update_where (\<lambda>r. sv_agent r = sv_agent v) (\<lambda>_. v) rows)"

definition revoke_grants :: "(grant_row \<Rightarrow> bool) \<Rightarrow> int \<Rightarrow> cdb \<Rightarrow> cdb" where
  "revoke_grants p seq s = s\<lparr>base := (base s)\<lparr>grants :=
     update_where (\<lambda>g. p g \<and> cg_revoked_seq g = None) (\<lambda>g. g\<lparr>cg_revoked_seq := Some seq\<rparr>) (grants (base s))\<rparr>\<rparr>"

definition bump_revision :: "string \<Rightarrow> cdb \<Rightarrow> cdb" where
  "bump_revision cid s = s\<lparr>channels := update_where (\<lambda>c. ch_id c = cid) (\<lambda>c. c\<lparr>ch_revision := ch_revision c + 1\<rparr>) (channels s)\<rparr>"

definition change_supervisor ::
  "env \<Rightarrow> principal \<Rightarrow> string \<Rightarrow> string \<Rightarrow> string \<Rightarrow> string \<Rightarrow> cdb \<Rightarrow> error + cdb" where
  "change_supervisor env p agent human scope cid s =
    bindE (channelEventTx env cid ''supervision.changed'' (pr_actor p) []
      (JObject [(''agent'', JText agent), (''human'', JText human), (''scope'', JText scope)]) s) (\<lambda>(seq, s1).
    let s2 = revoke_grants (\<lambda>g. cg_channel_id g = cid \<and> cg_source g = supervisor_source agent) seq s1 in
    bindE (if human \<noteq> [] then insert_grant (new_grant cid human (supervisor_source agent) False seq) s2 else Inr s2) (\<lambda>s3.
    Inr (bump_revision cid s3)))"

definition supervision_link ::
  "env \<Rightarrow> principal \<Rightarrow> supervision_preview \<Rightarrow> string \<Rightarrow> string \<Rightarrow> supervision_row" where
  "supervision_link env p v human stored = \<lparr>sv_agent = sp_agent v, sv_human = stored, sv_revision = sp_revision v + 1,
     sv_active = (human \<noteq> []), sv_by = pr_actor p,
     sv_scope = (if pr_gateway p then ''observe+admin'' else ''admin''), sv_updated_at = e_now env\<rparr>"

definition saved_supervision :: "operation_result \<Rightarrow> error + supervision_preview" where
  "saved_supervision x = (case x of ResultSupervision v \<Rightarrow> Inr v
     | _ \<Rightarrow> Inl (InternalError ''json: cannot unmarshal into SupervisionPreview''))"

definition SupervisionChange ::
  "env \<Rightarrow> (string \<Rightarrow> string) \<Rightarrow> principal \<Rightarrow> supervision_preview \<Rightarrow> string \<Rightarrow> string \<Rightarrow> cdb \<Rightarrow> error + (supervision_preview \<times> cdb)" where
  "SupervisionChange env digest p v human key s =
    bindE (channelAdmin p) (\<lambda>_.
    bindE (channelText ''idempotency_key'' key 256) (\<lambda>_.
    bindE (requireE (\<not> is_human_actor (sp_agent v)) ErrChannelDenied) (\<lambda>_.
    let dig = digestRequest digest (JArray [preview_json v, JText human]); agent = sp_agent v in
    bindE (channelOperation p ''supervise'' key dig s) (\<lambda>found.
    case found of
      Some x \<Rightarrow> bindE (saved_supervision x) (\<lambda>saved. Inr (saved, s))
    | None \<Rightarrow>
      let current = supervisionPreviewTx s agent;
          stored = (if human = [] then sp_human current else human) in
      bindE (requireE (digestRequest digest (preview_json current) = digestRequest digest (preview_json v)) ErrAudienceChanged) (\<lambda>_.
      bindE (requireE (agent \<in> an_actor ` set (actor_names (base s))) ErrChannelDenied) (\<lambda>_.
      bindE (requireE (human \<noteq> [] \<longrightarrow> human \<in> hu_actor ` set (humans s)) ErrChannelDenied) (\<lambda>_.
      bindE (requireE (stored \<noteq> []) ErrChannelDenied) (\<lambda>_.
      let link = supervision_link env p v human stored;
          s1 = s\<lparr>supervisions := upsert_supervision link (supervisions s)\<rparr> in
      bindE (foldE (change_supervisor env p agent human (sv_scope link)) (map fst (sp_channels current)) s1) (\<lambda>s2.
      let saved = supervisionPreviewTx s2 agent in
      bindE (saveChannelOperation p ''supervise'' key dig (ResultSupervision saved) s2) (\<lambda>s3.
      Inr (saved, s3)))))))))))"

section \<open>Membership\<close>

text \<open>Removing a participant ends its grants, its deliveries, its wake-ups and its open questions.\<close>

definition revoke_delivery :: "delivery_row \<Rightarrow> delivery_row" where
  "revoke_delivery d = d\<lparr>dl_state := Revoked, dl_terminal_token := dl_lease_token d, dl_lease_token := None,
     dl_lease_expires := None, dl_last_error := Some ''membership revoked''\<rparr>"

definition in_channel :: "cdb \<Rightarrow> string \<Rightarrow> string \<Rightarrow> bool" where
  "in_channel s cid mid = list_ex (\<lambda>m. mr_id m = mid) (channel_messages s cid)"

definition end_membership :: "string \<Rightarrow> string \<Rightarrow> int \<Rightarrow> cdb \<Rightarrow> cdb" where
  "end_membership cid actor seq s =
    (let s1 = revoke_grants (\<lambda>g. cg_channel_id g = cid \<and>
           (cg_actor g = actor \<and> cg_source g = ''participant'' \<or> cg_source g = supervisor_source actor)) seq s in
     s1\<lparr>managed := update_where (\<lambda>d. dl_recipient d = actor \<and> in_channel s1 cid (dl_message_id d) \<and> dl_state d \<in> {Queued, Claimed})
          revoke_delivery (managed s1),
        base := (base s1)\<lparr>outbox := update_where (\<lambda>n. ob_source n = ManagedSource \<and> ob_recipient n = actor \<and>
            in_channel s1 cid (ob_message_id n))
          (\<lambda>n. n\<lparr>ob_state := Done, ob_last_error := Some ''membership revoked''\<rparr>) (outbox (base s1))\<rparr>,
        responses := update_where (\<lambda>q. rs_channel q = cid \<and> rs_respondent q = actor \<and> rs_state q = ResponseOpen)
          (\<lambda>q. q\<lparr>rs_state := ResponseRevoked, rs_revision := rs_revision q + 1\<rparr>) (responses s1)\<rparr>)"

definition known_member :: "cdb \<Rightarrow> string \<Rightarrow> error + unit" where
  "known_member s actor =
    bindE (requireE (actor \<in> an_actor ` set (actor_names (base s))) ErrChannelDenied) (\<lambda>_.
    bindE (assertActorNotAdopted (base s) actor) (\<lambda>_.
    requireE (is_human_actor actor \<longrightarrow> actor \<in> hu_actor ` set (humans s)) ErrChannelDenied))"

definition apply_membership :: "string \<Rightarrow> string \<Rightarrow> string \<Rightarrow> int \<Rightarrow> cdb \<Rightarrow> error + cdb" where
  "apply_membership action cid actor seq s =
    (if action = ''add'' then channelGrantTx cid actor seq s else Inr (end_membership cid actor seq s))"

definition ChannelMembershipChange ::
  "env \<Rightarrow> (string \<Rightarrow> string) \<Rightarrow> principal \<Rightarrow> string \<Rightarrow> string \<Rightarrow> string \<Rightarrow> string \<Rightarrow> int \<Rightarrow> cdb \<Rightarrow> error + (channel \<times> cdb)" where
  "ChannelMembershipChange env digest p cid actor action key revision s =
    bindE (channelTx p cid s) (\<lambda>c.
    bindE (requireE (c_kind c \<noteq> ''dm'') ErrImmutableAudience) (\<lambda>_.
    bindE (requireE (c_can_manage c) ErrChannelDenied) (\<lambda>_.
    bindE (channelText ''idempotency_key'' key 256) (\<lambda>_.
    let dig = digestRequest digest (JArray [JText cid, JText actor, JText action, JInt revision]) in
    bindE (channelOperation p ''membership'' key dig s) (\<lambda>found.
    if found \<noteq> None then bindE (found_id (the found)) (\<lambda>_. Inr (c, s))
    else
      bindE (requireE (c_revision c = revision) ErrAudienceChanged) (\<lambda>_.
      bindE (requireE (\<not> (action \<noteq> ''add'' \<and> action \<noteq> ''remove'')) (ValidationError ''action'' ''must be add or remove'')) (\<lambda>_.
      bindE (requireE (\<not> (actor = c_creator c \<and> action = ''remove'')) (ValidationError ''actor''
        ''creator removal requires management transfer, which is not supported yet'')) (\<lambda>_.
      bindE (known_member s actor) (\<lambda>_.
      let present = (actor \<in> set (c_participants c)) in
      bindE (requireE (\<not> (action = ''add'' \<and> present \<or> action = ''remove'' \<and> \<not> present)) ErrAudienceChanged) (\<lambda>_.
      bindE (requireE (\<not> (action = ''add'' \<and> 32 \<le> length (c_participants c))) (ValidationError ''participants'' ''maximum 32'')) (\<lambda>_.
      bindE (requireE (\<not> (action = ''add'' \<and> actorArchived (base s) actor)) ErrActorArchived) (\<lambda>_.
      bindE (channelEventTx env cid (''membership.'' @ action) (pr_actor p) [] (JObject [(''actor'', JText actor)]) s) (\<lambda>(seq, s1).
      bindE (apply_membership action cid actor seq s1) (\<lambda>s2.
      bindE (saveChannelOperation p ''membership'' key dig (ResultId cid) (bump_revision cid s2)) (\<lambda>s3.
      bindE (channelTx p cid s3) (\<lambda>c'. Inr (c', s3)))))))))))))))))"

section \<open>Views\<close>

definition ChannelViewGet :: "principal \<Rightarrow> string \<Rightarrow> string \<Rightarrow> cdb \<Rightarrow> error + view_state" where
  "ChannelViewGet p cid thread s = bindE (channelTx p cid s) (\<lambda>_. Inr (channelViewTx p cid thread s))"

definition view_key :: "view_row \<Rightarrow> string \<times> string \<times> string" where
  "view_key v = (vr_channel v, vr_actor v, vr_thread v)"

definition upsert_view :: "view_row \<Rightarrow> view_row list \<Rightarrow> view_row list" where
  "upsert_view v rows = (if row_by view_key (view_key v) rows = None then rows @ [v]
     else update_where (\<lambda>r. view_key r = view_key v) (\<lambda>r. r\<lparr>vr_state := vr_state v\<rparr>) rows)"

text \<open>A position names a message the actor can see, in the thread the view is about.\<close>

definition visible_position :: "cdb \<Rightarrow> channel \<Rightarrow> string \<Rightarrow> int \<Rightarrow> bool" where
  "visible_position s c thread n \<longleftrightarrow>
    length (filter (\<lambda>m. mr_channel_seq m = Some n \<and> c_history_from c \<le> n \<and> (thread = [] \<or> mr_thread_id m = Some thread))
      (channel_messages s (c_id c))) = 1"

definition ChannelViewUpdate :: "env \<Rightarrow> principal \<Rightarrow> view_state \<Rightarrow> cdb \<Rightarrow> error + (view_state \<times> cdb)" where
  "ChannelViewUpdate env p v s =
    bindE (channelTx p (vw_channel v) s) (\<lambda>c.
    let old = channelViewTx p (vw_channel v) (vw_thread v) s in
    bindE (requireE (vw_revision v = vw_revision old) ErrAudienceChanged) (\<lambda>_.
    bindE (requireE (\<not> (vw_read_through v < vw_read_through old \<or> c_last_seq c < vw_read_through v \<or> vw_read_through v < 0))
      (ValidationError ''read_through_seq'' ''must be monotonic and within history'')) (\<lambda>_.
    bindE (forE (filter (\<lambda>n. n \<noteq> 0) (vw_read_through v # (case vw_unread_from v of None \<Rightarrow> [] | Some n \<Rightarrow> [n])))
      (\<lambda>n. requireE (visible_position s c (vw_thread v) n) ErrChannelDenied)) (\<lambda>_.
    bindE (requireE (case vw_snoozed_until v of None \<Rightarrow> True | Some t \<Rightarrow> e_now env < t)
      (ValidationError ''snoozed_until'' ''must be in the future or omitted'')) (\<lambda>_.
    let v1 = v\<lparr>vw_revision := vw_revision v + 1\<rparr> in
    Inr (v1, s\<lparr>views := upsert_view \<lparr>vr_channel = vw_channel v1, vr_actor = pr_actor p, vr_thread = vw_thread v1, vr_state = v1\<rparr>
      (views s)\<rparr>))))))"

section \<open>Questions\<close>

definition response_of :: "response_row \<Rightarrow> channel_response" where
  "response_of q = \<lparr>rp_id = rs_id q, rp_channel = rs_channel q, rp_message = rs_message q, rp_requester = rs_requester q,
     rp_respondent = rs_respondent q, rp_state = rs_state q, rp_revision = rs_revision q, rp_answer = coalesce (rs_answer q)\<rparr>"

definition ChannelResponses :: "env \<Rightarrow> principal \<Rightarrow> string \<Rightarrow> cdb \<Rightarrow> error + channel_response list" where
  "ChannelResponses env p cid s =
    bindE (channelTx p cid s) (\<lambda>c.
    let rows = take 201 (sort_key (\<lambda>(q, m). - the (mr_channel_seq m))
         (filter (\<lambda>(q, m). rs_channel q = cid \<and> mr_id m = rs_message q \<and> seq_from (c_history_from c) m \<and> unexpired (e_now env) m)
           (List.product (responses s) (messages (base s))))) in
    bindE (requireE (length rows \<le> 200) (ValidationError ''responses'' ''response list exceeds 200 requests'')) (\<lambda>_.
    Inr (map (\<lambda>(q, m). response_of q) rows)))"

end
