(* ===== verification/ChannelDelivery.thy ===== *)
theory ChannelDelivery
  imports ChannelAccess
begin

text \<open>
  \<open>conversation_delivery.go\<close>: the deliveries of managed messages. A participant reads its inbox,
  claims a message by its id under a lease and finishes it; a question is declined by its
  respondent or withdrawn by its requester.
\<close>

section \<open>The inbox\<close>

record channel_delivery =
  cd_policy_revision :: int
  cd_message :: channel_message
  cd_state :: delivery_state
  cd_attempt :: int
  cd_lease_token :: string
  cd_lease_expires_at :: "int option"

text \<open>A grant to post that is not revoked and reaches back to the message.\<close>

definition may_receive :: "cdb \<Rightarrow> string \<Rightarrow> string \<Rightarrow> int \<Rightarrow> bool" where
  "may_receive s cid a n \<longleftrightarrow> list_ex (\<lambda>g. cg_can_post g \<and> cg_history_from g \<le> n) (grants_of s cid a)"

definition receives :: "cdb \<Rightarrow> string \<Rightarrow> message_row \<Rightarrow> bool" where
  "receives s a m = (case (mr_conversation m, mr_channel_seq m) of
     (Some cid, Some n) \<Rightarrow> may_receive s cid a n | _ \<Rightarrow> False)"

definition managed_mail :: "cdb \<Rightarrow> int \<Rightarrow> string \<Rightarrow> (message_row \<times> delivery_row) list" where
  "managed_mail s now a = sort_key age_key
     (filter (\<lambda>(m, d). mr_id m = dl_message_id d \<and> dl_recipient d = a \<and> dl_state d \<in> {Queued, Claimed} \<and>
        unexpired now m \<and> receives s a m) (List.product (messages (base s)) (managed s)))"

definition inbox_limit_of :: "int \<Rightarrow> nat" where
  "inbox_limit_of limit = (if limit \<le> 0 \<or> 100 < limit then 100 else nat limit)"

definition inbox_delivery :: "env \<Rightarrow> principal \<Rightarrow> cdb \<Rightarrow> message_row \<times> delivery_row \<Rightarrow> error + channel_delivery" where
  "inbox_delivery env p s md = bindE (channelMessageTx env p (mr_id (fst md)) s) (\<lambda>m.
     Inr \<lparr>cd_policy_revision = 0, cd_message = m, cd_state = dl_state (snd md), cd_attempt = dl_attempt (snd md),
       cd_lease_token = [], cd_lease_expires_at = dl_lease_expires (snd md)\<rparr>)"

text \<open>
  The loop reads one message at a time; the page ends before the one that would carry the
  bodies past one and a half times the body limit.
\<close>

fun read_inbox :: "env \<Rightarrow> principal \<Rightarrow> cdb \<Rightarrow> int \<Rightarrow> channel_delivery list \<Rightarrow> (message_row \<times> delivery_row) list \<Rightarrow>
    error + channel_delivery list" where
  "read_inbox env p s used out [] = Inr out"
| "read_inbox env p s used out (md # mds) = bindE (inbox_delivery env p s md) (\<lambda>d.
     let used' = used + int (length (cm_body (cd_message d))) in
     if MaxBodyBytes * 3 div 2 < used' \<and> out \<noteq> [] then Inr out else read_inbox env p s used' (out @ [d]) mds)"

definition ChannelInbox :: "env \<Rightarrow> principal \<Rightarrow> int \<Rightarrow> cdb \<Rightarrow> error + channel_delivery list" where
  "ChannelInbox env p limit s =
    bindE (conversationPrincipal p) (\<lambda>_.
    bindE (assertActorNotAdopted (base s) (pr_actor p)) (\<lambda>_.
    read_inbox env p s 0 [] (take (inbox_limit_of limit) (managed_mail s (e_now env) (pr_actor p)))))"

section \<open>Claiming and finishing\<close>

definition channelDeliveryTx :: "env \<Rightarrow> principal \<Rightarrow> string \<Rightarrow> cdb \<Rightarrow> error + channel_message" where
  "channelDeliveryTx env p mid s =
    bindE (conversationPrincipal p) (\<lambda>_.
    bindE (assertActorNotAdopted (base s) (pr_actor p)) (\<lambda>_.
    bindE (channelMessageTx env p mid s) (\<lambda>m.
    bindE (requireE (affected (\<lambda>d. delivery_key d = (mid, pr_actor p)) (managed s) = 1 \<and>
       may_receive s (cm_channel m) (pr_actor p) (cm_seq m)) ErrChannelDenied) (\<lambda>_. Inr m))))"

definition close_managed :: "string \<Rightarrow> string \<Rightarrow> int \<Rightarrow> outbox_row list \<Rightarrow> outbox_row list" where
  "close_managed mid a now = update_where (\<lambda>n. ob_message_id n = mid \<and> ob_recipient n = a \<and> ob_source n = ManagedSource)
     (\<lambda>n. n\<lparr>ob_state := Done, ob_available_at := now\<rparr>)"

definition ChannelClaim :: "env \<Rightarrow> principal \<Rightarrow> string \<Rightarrow> int \<Rightarrow> cdb \<Rightarrow> error + (channel_delivery \<times> cdb)" where
  "ChannelClaim env p mid lease s =
    (let now = e_now env; expires = now + lease; q = (\<lambda>d. delivery_key d = (mid, pr_actor p) \<and> claimable now d) in
     bindE (requireE (valid_lease lease) (ValidationError ''lease'' ''must be between 0 and 24h'')) (\<lambda>_.
     bindE (channelDeliveryTx env p mid s) (\<lambda>m.
     bindE (channelTx p (cm_channel m) s) (\<lambda>c.
     bindE (with_base (newID env ''lease'') s) (\<lambda>(token, s1).
     bindE (requireE (affected q (managed s1) = 1) ErrNoMessage) (\<lambda>_.
     let s2 = s1\<lparr>managed := update_where q (claim_row token expires now) (managed s1)\<rparr> in
     case row_by delivery_key (mid, pr_actor p) (managed s2) of
       None \<Rightarrow> Inl (InternalError ''sql: no rows in result set'')
     | Some d \<Rightarrow>
       bindE (channelEventTx env (cm_channel m) ''delivery.claimed'' (pr_actor p) mid JNull s2) (\<lambda>(_, s3).
       let s4 = s3\<lparr>base := (base s3)\<lparr>outbox := close_managed mid (pr_actor p) now (outbox (base s3))\<rparr>\<rparr> in
       Inr (\<lparr>cd_policy_revision = c_revision c, cd_message = m, cd_state = Claimed, cd_attempt = dl_attempt d,
         cd_lease_token = token, cd_lease_expires_at = Some expires\<rparr>, s4)))))))) "

text \<open>\<open>ChannelDeliveryUpdate\<close>: the four actions of the holder of a lease.\<close>

datatype delivery_action = ActAck | ActNack | ActDeadLetter | ActExtend | OtherAction string

definition action_kind :: "delivery_action \<Rightarrow> string" where
  "action_kind a = ''delivery.'' @ (case a of ActAck \<Rightarrow> ''ack'' | ActNack \<Rightarrow> ''nack'' | ActDeadLetter \<Rightarrow> ''dead_letter''
     | ActExtend \<Rightarrow> ''extend'' | OtherAction s \<Rightarrow> s)"

definition managed_extend ::
  "env \<Rightarrow> principal \<Rightarrow> channel_message \<Rightarrow> string \<Rightarrow> int \<Rightarrow> delivery_row \<Rightarrow> cdb \<Rightarrow> error + (channel_delivery \<times> cdb)" where
  "managed_extend env p m token lease d s =
    (let until = e_now env + lease in
     bindE (requireE (dl_state d = Claimed \<and> dl_lease_token d = Some token) ErrLeaseTokenMismatch) (\<lambda>_.
     bindE (requireE (sql_gt (dl_lease_expires d) (e_now env)) ErrLeaseExpired) (\<lambda>_.
     let s1 = s\<lparr>managed := update_where (\<lambda>r. delivery_key r = (cm_id m, pr_actor p)) (\<lambda>r. r\<lparr>dl_lease_expires := Some until\<rparr>) (managed s)\<rparr> in
     bindE (channelEventTx env (cm_channel m) (action_kind ActExtend) (pr_actor p) (cm_id m) JNull s1) (\<lambda>(_, s2).
     Inr (\<lparr>cd_policy_revision = 0, cd_message = m, cd_state = Claimed, cd_attempt = dl_attempt d, cd_lease_token = token,
       cd_lease_expires_at = Some until\<rparr>, s2)))))"

definition managed_finish ::
  "env \<Rightarrow> principal \<Rightarrow> channel_message \<Rightarrow> string \<Rightarrow> delivery_action \<Rightarrow> string \<Rightarrow> delivery_row \<Rightarrow> cdb \<Rightarrow>
    error + (channel_delivery \<times> cdb)" where
  "managed_finish env p m token action reason d s =
    (let acked = (action = ActAck); final = (action = ActDeadLetter);
         out = (\<lambda>st. \<lparr>cd_policy_revision = 0, cd_message = m, cd_state = st, cd_attempt = dl_attempt d, cd_lease_token = [],
           cd_lease_expires_at = None\<rparr>) in
     bindE (finishDeliveryState (dl_state d) (dl_lease_token d) (dl_terminal_token d) token acked final) (\<lambda>finished.
     if finished then Inr (out (dl_state d), s)
     else
       let s1 = s\<lparr>managed := update_where (\<lambda>r. delivery_key r = (cm_id m, pr_actor p))
             (finish_row token acked final reason (e_now env)) (managed s)\<rparr> in
       bindE (channelEventTx env (cm_channel m) (action_kind action) (pr_actor p) (cm_id m) JNull s1) (\<lambda>(_, s2).
       Inr (out (finish_next acked final), s2))))"

definition ChannelDeliveryUpdate ::
  "env \<Rightarrow> principal \<Rightarrow> string \<Rightarrow> string \<Rightarrow> delivery_action \<Rightarrow> string \<Rightarrow> int \<Rightarrow> cdb \<Rightarrow> error + (channel_delivery \<times> cdb)" where
  "ChannelDeliveryUpdate env p mid token action reason lease s =
    bindE (requireE (\<not> (token = [] \<or> 4096 < length reason)) (ValidationError ''delivery''
      ''lease token required; reason limited to 4096 bytes'')) (\<lambda>_.
    bindE (requireE (action \<in> {ActAck, ActNack, ActDeadLetter, ActExtend}) (ValidationError ''action''
      ''expected ack, nack, dead_letter, or extend'')) (\<lambda>_.
    bindE (requireE (\<not> (action = ActExtend \<and> \<not> valid_lease lease)) (ValidationError ''lease'' ''must be between 0 and 24h'')) (\<lambda>_.
    bindE (channelDeliveryTx env p mid s) (\<lambda>m.
    case row_by delivery_key (mid, pr_actor p) (managed s) of
      None \<Rightarrow> Inl ErrChannelDenied
    | Some d \<Rightarrow>
      if action = ActExtend then managed_extend env p m token lease d s
      else managed_finish env p m token action reason d s))))"

section \<open>Questions\<close>

datatype response_action = Decline | Withdraw | OtherResponse string

definition response_action_text :: "response_action \<Rightarrow> string" where
  "response_action_text a = (case a of Decline \<Rightarrow> ''decline'' | Withdraw \<Rightarrow> ''withdraw'' | OtherResponse s \<Rightarrow> s)"

definition closed_state :: "response_action \<Rightarrow> response_state" where
  "closed_state a = (if a = Withdraw then ResponseWithdrawn else ResponseDeclined)"

definition response_kind :: "response_action \<Rightarrow> string" where
  "response_kind a = (if a = Withdraw then ''response.withdrawn'' else ''response.declined'')"

definition saved_response :: "operation_result \<Rightarrow> error + channel_response" where
  "saved_response x = (case x of ResultResponse r \<Rightarrow> Inr r
     | _ \<Rightarrow> Inl (InternalError ''json: cannot unmarshal into ChannelResponse''))"

definition ChannelResponseResolve ::
  "env \<Rightarrow> (string \<Rightarrow> string) \<Rightarrow> principal \<Rightarrow> string \<Rightarrow> response_action \<Rightarrow> string \<Rightarrow> int \<Rightarrow> cdb \<Rightarrow> error + (channel_response \<times> cdb)" where
  "ChannelResponseResolve env digest p rid action key revision s =
    bindE (conversationPrincipal p) (\<lambda>_.
    bindE (channelText ''idempotency_key'' key 256) (\<lambda>_.
    bindE (requireE (action \<in> {Decline, Withdraw}) (ValidationError ''action''
      ''expected decline or withdraw; answer using channel.post'')) (\<lambda>_.
    case row_by rs_id rid (responses s) of
      None \<Rightarrow> Inl ErrChannelDenied
    | Some q \<Rightarrow>
      bindE (channelMessageTx env p (rs_message q) s) (\<lambda>_.
      bindE (requireE (\<not> (action = Decline \<and> rs_respondent q \<noteq> pr_actor p \<or> action = Withdraw \<and> rs_requester q \<noteq> pr_actor p))
        ErrResponseConflict) (\<lambda>_.
      let dig = digestRequest digest (JArray [JText rid, JText (response_action_text action), JInt revision]) in
      bindE (channelOperation p ''response'' key dig s) (\<lambda>found.
      case found of
        Some x \<Rightarrow> bindE (saved_response x) (\<lambda>r. Inr (r, s))
      | None \<Rightarrow>
        bindE (requireE (rs_state q = ResponseOpen \<and> rs_revision q = revision) ErrResponseConflict) (\<lambda>_.
        let close = (\<lambda>r. r\<lparr>rs_state := closed_state action, rs_revision := rs_revision q + 1\<rparr>);
            out = response_of (close q);
            s1 = s\<lparr>responses := update_where (\<lambda>r. rs_id r = rid) close (responses s)\<rparr> in
        bindE (channelEventTx env (rs_channel q) (response_kind action) (pr_actor p) (rs_message q)
          (JObject [(''request_id'', JText rid)]) s1) (\<lambda>(_, s2).
        bindE (saveChannelOperation p ''response'' key dig (ResultResponse out) s2) (\<lambda>s3.
        Inr (out, s3)))))))))) "

end
