(* ===== verification/ChannelNotify.thy ===== *)
theory ChannelNotify
  imports ChannelDelivery Notifications Sessions
begin

text \<open>
  \<open>conversation_notification.go\<close>: which runs may be woken for managed messages, and the queue of
  managed wake-ups beside the legacy one in \<open>notification_outbox\<close>.
\<close>

section \<open>Attention clients\<close>

abbreviation client_key :: "attention_client_row \<Rightarrow> string \<times> string" where
  "client_key c \<equiv> (ck_actor c, ck_run_id c)"

definition enable_client :: "string \<Rightarrow> string \<Rightarrow> bool \<Rightarrow> attention_client_row list \<Rightarrow> attention_client_row list" where
  "enable_client a run monitor rows =
    (if row_by client_key (a, run) rows = None
     then rows @ [\<lparr>ck_actor = a, ck_run_id = run, ck_native_ready = (\<not> monitor), ck_monitor_ready = monitor\<rparr>]
     else update_where (\<lambda>c. client_key c = (a, run))
       (\<lambda>c. c\<lparr>ck_native_ready := (ck_native_ready c \<or> \<not> monitor), ck_monitor_ready := (ck_monitor_ready c \<or> monitor)\<rparr>) rows)"

definition EnableChannelAttention :: "principal \<Rightarrow> bool \<Rightarrow> cdb \<Rightarrow> error + cdb" where
  "EnableChannelAttention p monitor s =
    bindE (conversationPrincipal p) (\<lambda>_.
    bindE (requireE (\<not> pr_gateway p) ErrChannelDenied) (\<lambda>_.
    Inr (s\<lparr>base := (base s)\<lparr>attention_clients := enable_client (pr_actor p) (pr_run p) monitor (attention_clients (base s))\<rparr>\<rparr>)))"

definition ResetChannelAttention :: "principal \<Rightarrow> bool \<Rightarrow> cdb \<Rightarrow> error + cdb" where
  "ResetChannelAttention p monitor s =
    bindE (conversationPrincipal p) (\<lambda>_.
    Inr (s\<lparr>base := (base s)\<lparr>attention_clients := update_where (\<lambda>c. client_key c = (pr_actor p, pr_run p))
      (\<lambda>c. if monitor then c\<lparr>ck_monitor_ready := False\<rparr> else c\<lparr>ck_native_ready := False\<rparr>)
      (attention_clients (base s))\<rparr>\<rparr>))"

definition ManagedNotificationAllowed :: "registration \<Rightarrow> string \<Rightarrow> cdb \<Rightarrow> bool" where
  "ManagedNotificationAllowed r mid s \<longleftrightarrow>
    \<not> (rn_harness r = ''claude'' \<and> rn_attention_mode r \<noteq> ''hook-long-poll'') \<and>
    length (filter (\<lambda>(c, d, m). client_key c = (rn_actor r, rn_run_id r) \<and> dl_recipient d = ck_actor c \<and>
        mr_id m = dl_message_id d \<and> dl_message_id d = mid \<and> dl_state d = Queued \<and>
        (if rn_harness r = ''claude'' then ck_monitor_ready c else ck_native_ready c) \<and> receives s (ck_actor c) m)
      (List.product (attention_clients (base s)) (List.product (managed s) (messages (base s))))) = 1"

section \<open>The queue\<close>

definition managed_open :: "int \<Rightarrow> outbox_row \<Rightarrow> bool" where
  "managed_open now n \<longleftrightarrow> ob_source n = ManagedSource \<and> ob_state n \<in> {ManagedPending, ManagedProcessing} \<and> ob_available_at n \<le> now"

text \<open>A wake-up with its message, when its delivery is still queued and its recipient may receive it.\<close>

definition wakeable :: "cdb \<Rightarrow> int \<Rightarrow> outbox_row \<Rightarrow> message_row \<Rightarrow> bool" where
  "wakeable s now n m \<longleftrightarrow> mr_id m = ob_message_id n \<and> unexpired now m \<and> receives s (ob_recipient n) m \<and>
    list_ex (\<lambda>d. delivery_key d = outbox_key n \<and> dl_state d = Queued) (managed s)"

definition managed_jobs :: "cdb \<Rightarrow> int \<Rightarrow> (outbox_row \<times> message_row) list" where
  "managed_jobs s now = sort_key (\<lambda>(n, m). (ob_created_at n, ob_message_id n, ob_recipient n))
     (filter (\<lambda>(n, m). managed_open now n \<and> wakeable s now n m) (List.product (outbox (base s)) (messages (base s))))"

definition managed_process_row :: "int \<Rightarrow> int \<Rightarrow> outbox_row \<Rightarrow> outbox_row" where
  "managed_process_row attempt until n = n\<lparr>ob_state := ManagedProcessing, ob_attempt := attempt, ob_available_at := until\<rparr>"

text \<open>A job of this queue names its message and project and nothing else of it.\<close>

definition managed_job_message :: "message_row \<Rightarrow> message" where
  "managed_job_message m = \<lparr>msg_id = mr_id m, msg_schema_version = 2, msg_idempotency_key = [], msg_project_id = mr_project_id m,
     msg_channel_id = [], msg_thread_id = [], msg_from_actor = [], msg_from_run = [], msg_from_role = [], msg_to_actors = [],
     msg_requested_routes = [], msg_type = ''CHANNEL_MESSAGE'', msg_delivery_request = Wake, msg_in_reply_to = [],
     msg_body = [], msg_created_at = 0, msg_expires_at = None, msg_requested_to_actors = []\<rparr>"

definition managed_outbox :: "(outbox_row list \<Rightarrow> outbox_row list) \<Rightarrow> cdb \<Rightarrow> cdb" where
  "managed_outbox f s = s\<lparr>base := (base s)\<lparr>outbox := f (outbox (base s))\<rparr>\<rparr>"

definition ClaimManagedNotification :: "env \<Rightarrow> cdb \<Rightarrow> error + (notification_job \<times> cdb)" where
  "ClaimManagedNotification env s =
    (let now = e_now env in
     case managed_jobs s now of
       [] \<Rightarrow> Inl ErrNoMessage
     | (n, m) # _ \<Rightarrow>
       let attempt = ob_attempt n + 1;
           p = (\<lambda>r. outbox_key r = outbox_key n \<and> ob_source r = ManagedSource) in
       Inr (\<lparr>nj_message = managed_job_message m, nj_recipient = ob_recipient n, nj_attempt = attempt\<rparr>,
         managed_outbox (update_where p (managed_process_row attempt (now + 30 * second))) s))"

definition managed_disposition :: "int \<Rightarrow> disposition \<Rightarrow> int \<Rightarrow> error + (outbox_state \<times> int)" where
  "managed_disposition now d attempt = (case d of
     NotificationAccepted \<Rightarrow> Inr (ManagedAccepted, now)
   | NotificationRetry \<Rightarrow> Inr (if attempt < 5 then (ManagedPending, now + attempt * attempt * second) else (Done, now))
   | NotificationComplete \<Rightarrow> Inr (Done, now)
   | OtherDisposition s \<Rightarrow> Inl ErrInvalid)"

definition outbox_state_text :: "outbox_state \<Rightarrow> string" where
  "outbox_state_text st = (case st of Pending \<Rightarrow> ''pending'' | Processing \<Rightarrow> ''processing'' | Accepted \<Rightarrow> ''accepted'' | Done \<Rightarrow> ''done''
     | ManagedPending \<Rightarrow> ''managed-pending'' | ManagedProcessing \<Rightarrow> ''managed-processing'' | ManagedAccepted \<Rightarrow> ''managed-accepted'')"

definition conversation_of :: "cdb \<Rightarrow> string \<Rightarrow> string option" where
  "conversation_of s mid = (case find (\<lambda>m. mr_id m = mid \<and> mr_conversation m \<noteq> None) (messages (base s)) of
     None \<Rightarrow> None | Some m \<Rightarrow> mr_conversation m)"

definition managed_finish_row :: "outbox_state \<Rightarrow> int \<Rightarrow> string \<Rightarrow> outbox_row \<Rightarrow> outbox_row" where
  "managed_finish_row st available detail n = n\<lparr>ob_state := st, ob_available_at := available, ob_last_error := Some detail\<rparr>"

definition FinishManagedNotification :: "env \<Rightarrow> notification_job \<Rightarrow> disposition \<Rightarrow> string \<Rightarrow> cdb \<Rightarrow> error + cdb" where
  "FinishManagedNotification env job d detail s =
    bindE (managed_disposition (e_now env) d (nj_attempt job)) (\<lambda>(st, available).
    case conversation_of s (msg_id (nj_message job)) of
      None \<Rightarrow> Inl ErrChannelDenied
    | Some cid \<Rightarrow>
      let p = (\<lambda>n. outbox_key n = job_key job \<and> ob_source n = ManagedSource \<and> ob_state n = ManagedProcessing \<and>
             ob_attempt n = nj_attempt job);
          s1 = managed_outbox (update_where p (managed_finish_row st available (take 4096 detail))) s in
      bindE (channelEventTx env cid ''attention.attempted'' (nj_recipient job) (msg_id (nj_message job))
        (JObject [(''attempt'', JInt (nj_attempt job)), (''state'', JText (outbox_state_text st))]) s1) (\<lambda>(_, s2). Inr s2))"

definition RecordManagedNotification :: "env \<Rightarrow> string \<Rightarrow> notification_attempt \<Rightarrow> cdb \<Rightarrow> error + cdb" where
  "RecordManagedNotification env mid a s = (case conversation_of s mid of
     None \<Rightarrow> Inl ErrChannelDenied
   | Some cid \<Rightarrow> bindE (channelEventTx env cid ''attention.adapter'' (na_actor a) mid
       (JObject [(''result'', JText (na_result a))]) s) (\<lambda>(_, s1). Inr s1))"

text \<open>
  Accepted wake-ups that were not followed by a claim for a while are pending again, at most five
  times in all, while a live run of the recipient can be woken.
\<close>

definition ready_session :: "cdb \<Rightarrow> int \<Rightarrow> string \<Rightarrow> registration_row \<Rightarrow> bool" where
  "ready_session s now a r \<longleftrightarrow> rg_actor r = a \<and> now < rg_lease_expires r \<and> rg_ended_at r = None \<and> rg_superseded_at r = None \<and>
    list_ex (\<lambda>c. client_key c = (rg_actor r, rg_run_id r) \<and>
      (rg_harness r \<in> {''codex'', ''opencode''} \<and> ck_native_ready c \<and> rg_attention_mode r \<noteq> ''startup-only'' \<or>
       rg_harness r = ''claude'' \<and> rg_attention_mode r = ''hook-long-poll'' \<and> ck_monitor_ready c)) (attention_clients (base s))"

definition RearmStaleManagedNotifications :: "env \<Rightarrow> int \<Rightarrow> cdb \<Rightarrow> cdb" where
  "RearmStaleManagedNotifications env stale0 s =
    (let stale = (if stale0 \<le> 0 then 15 * 60 * second else stale0); now = e_now env;
         p = (\<lambda>n. ob_source n = ManagedSource \<and> ob_state n = ManagedAccepted \<and> ob_attempt n < 5 \<and> ob_available_at n \<le> now - stale \<and>
           list_ex (\<lambda>m. wakeable s now n m) (messages (base s)) \<and>
           list_ex (ready_session s now (ob_recipient n)) (registrations (base s))) in
     managed_outbox (update_where p (\<lambda>n. n\<lparr>ob_state := ManagedPending, ob_available_at := now\<rparr>)) s)"

end
