(* ===== verification/ChannelFacts.thy ===== *)
theory ChannelFacts
  imports ChannelHistory ChannelNotify
begin

text \<open>
  Facts on managed conversations the properties share: what a successful read found, the
  invariant of channels, messages and deliveries, and when a message can be read.
\<close>

section \<open>What a successful read found\<close>

lemma channelTxD:
  assumes "channelTx p cid s = Inr c"
  obtains ch where "row_by ch_id cid (channels s) = Some ch" "grants_of s cid (pr_actor p) \<noteq> []"
    "pr_actor p \<noteq> []" "pr_run p \<noteq> []" "is_human_actor (pr_actor p) = pr_gateway p"
    "c_id c = cid" "c_project c = ch_project ch" "c_kind c = ch_kind ch" "c_creator c = ch_creator ch"
    "c_revision c = ch_revision ch" "c_last_seq c = ch_next_seq ch - 1"
    "c_history_from c = history_floor (grants_of s cid (pr_actor p))" "c_can_post c = may_post s cid (pr_actor p)"
    "c_participants c = filter (may_post s cid) (grouped_actors (live_grants s cid))"
    "c_observers c = filter (\<lambda>a. \<not> may_post s cid a) (grouped_actors (live_grants s cid))"
    "c_can_manage c = (may_post s cid (pr_actor p) \<and> ch_creator ch = pr_actor p \<and> ch_kind ch = ''named'')"
proof -
  obtain ch where ch: "row_by ch_id cid (channels s) = Some ch"
    using assms by (auto simp: channelTx_def bindE_Inr_iff split: option.splits)
  have "ch_id ch = cid" using row_by_SomeD [OF ch] by simp
  then show thesis using assms that [OF ch]
    by (auto simp: channelTx_def ch Let_def ok_iff may_post_def)
qed

lemma channelTx_cong:
  assumes "row_by ch_id cid (channels s') = row_by ch_id cid (channels s)" and "grants (base s') = grants (base s)"
    and "channelTx p cid s = Inr c"
  shows "\<exists>c'. channelTx p cid s' = Inr c'"
proof -
  have g: "grants_of s' cid a = grants_of s cid a" for a using assms(2) by (simp add: grants_of_def live_grants_def)
  obtain ch where "row_by ch_id cid (channels s) = Some ch" "grants_of s cid (pr_actor p) \<noteq> []"
    "pr_actor p \<noteq> []" "pr_run p \<noteq> []" "is_human_actor (pr_actor p) = pr_gateway p"
    by (rule channelTxD [OF assms(3)])
  then show ?thesis using assms(1) by (simp add: channelTx_def Let_def g conversationPrincipal_def)
qed

lemma channelTx_denied:
  assumes "grants_of s cid (pr_actor p) = []"
  shows "channelTx p cid s = Inl ErrChannelDenied"
  using assms by (auto simp: channelTx_def conversationPrincipal_def requireE_def Let_def split: option.splits)

lemma channelTx_error: "channelTx p cid s = Inl e \<Longrightarrow> e = ErrChannelDenied"
  by (auto simp: channelTx_def conversationPrincipal_def requireE_def Let_def split: option.splits if_splits)

lemma history_floor_le: "g \<in> set gs \<Longrightarrow> history_floor gs \<le> cg_history_from g"
  by (simp add: history_floor_def)

lemma history_floor_in:
  assumes "gs \<noteq> []"
  obtains g where "g \<in> set gs" "cg_history_from g = history_floor gs"
proof -
  have "Min (set (map cg_history_from gs)) \<in> set (map cg_history_from gs)" by (rule Min_in) (use assms in auto)
  then show thesis using that by (auto simp: history_floor_def)
qed

text \<open>
  An actor is authorized for a managed message when it holds a grant of the message's channel that
  is not revoked and reaches back to the message.
\<close>

definition authorized :: "cdb \<Rightarrow> string \<Rightarrow> string \<Rightarrow> bool" where
  "authorized s a mid \<longleftrightarrow> (\<exists>m\<in>set (messages (base s)). \<exists>cid n. mr_id m = mid \<and> mr_conversation m = Some cid \<and>
     mr_channel_seq m = Some n \<and> (\<exists>g\<in>set (grants_of s cid a). cg_history_from g \<le> n))"

lemma grants_of_iff: "g \<in> set (grants_of s cid a) \<longleftrightarrow>
    g \<in> set (grants (base s)) \<and> cg_channel_id g = cid \<and> cg_actor g = a \<and> cg_revoked_seq g = None"
  by (auto simp: grants_of_def live_grants_def)

lemma authorizedI:
  assumes "channelTx p cid s = Inr c" and "m \<in> set (messages (base s))" and "mr_conversation m = Some cid"
    and "mr_channel_seq m = Some n" and "c_history_from c \<le> n"
  shows "authorized s (pr_actor p) (mr_id m)"
proof -
  have "grants_of s cid (pr_actor p) \<noteq> []" "c_history_from c = history_floor (grants_of s cid (pr_actor p))"
    using assms(1) by (auto elim: channelTxD)
  moreover obtain g where "g \<in> set (grants_of s cid (pr_actor p))" "cg_history_from g = history_floor (grants_of s cid (pr_actor p))"
    by (rule history_floor_in [OF calculation(1)])
  ultimately show ?thesis using assms(2-5) unfolding authorized_def by metis
qed

lemma channelMessageD:
  assumes "channelMessageTx env p mid s = Inr m"
  obtains r c parent where "r \<in> set (messages (base s))" "mr_id r = mid" "mr_conversation r = Some (cm_channel m)"
    "mr_channel_seq r = Some (cm_seq m)" "mr_thread_id r = Some (cm_thread m)" "unexpired (e_now env) r"
    "channelTx p (cm_channel m) s = Inr c" "c_history_from c \<le> cm_seq m"
    "visible_parent s (c_history_from c) (coalesce (mr_in_reply_to r)) = Inr (cm_in_reply_to m)"
    "mapE (shown_reference env p s) (reference_sources s mid) = Inr (cm_references m)"
    "cm_id m = mid" "cm_from_actor m = mr_from_actor r" "cm_from_run m = mr_from_run r" "cm_body m = mr_body r"
    "cm_created_at m = mr_created_at r"
proof -
  obtain r where r: "find (\<lambda>m. mr_id m = mid \<and> mr_conversation m \<noteq> None \<and> unexpired (e_now env) m) (messages (base s)) = Some r"
    using assms by (auto simp: channelMessageTx_def bindE_Inr_iff split: option.splits)
  have found: "r \<in> set (messages (base s))" "mr_id r = mid" "unexpired (e_now env) r"
    using r by (auto simp: find_Some_iff)
  note ok = assms [unfolded channelMessageTx_def r option.case bindE_Inr_iff scanned_Inr requireE_Inr_iff]
  obtain cid thread n c parent refs where row: "mr_conversation r = Some cid" "mr_thread_id r = Some thread" "mr_channel_seq r = Some n"
    and c: "channelTx p cid s = Inr c" "c_history_from c \<le> n"
    and par: "visible_parent s (c_history_from c) (coalesce (mr_in_reply_to r)) = Inr parent"
    and refs: "mapE (shown_reference env p s) (reference_sources s mid) = Inr refs"
    and m: "m = \<lparr>cm_id = mr_id r, cm_channel = cid, cm_thread = thread, cm_seq = n, cm_from_actor = mr_from_actor r,
        cm_from_run = mr_from_run r, cm_in_reply_to = parent, cm_body = mr_body r, cm_created_at = mr_created_at r,
        cm_references = refs, cm_response = (case row_by rs_message mid (responses s) of None \<Rightarrow> [] | Some q \<Rightarrow> rs_id q)\<rparr>"
    using ok by blast
  show thesis
    by (rule that [of r c]) (use found row c par refs in \<open>simp_all add: m\<close>)
qed

section \<open>The invariant of messages and channels\<close>

text \<open>Two people share at most one direct conversation in a project.\<close>

definition dm_unique :: "channel_row list \<Rightarrow> bool" where
  "dm_unique cs \<longleftrightarrow> (\<forall>c\<in>set cs. \<forall>c'\<in>set cs. ch_dm_key c \<noteq> None \<and> ch_dm_key c' = ch_dm_key c \<longrightarrow> ch_id c' = ch_id c)"

lemma dm_unique_update:
  assumes "dm_unique cs" and "\<And>c. ch_dm_key (f c) = ch_dm_key c" and "\<And>c. ch_id (f c) = ch_id c"
  shows "dm_unique (update_where p f cs)"
proof -
  have "\<exists>c\<in>set cs. ch_dm_key c' = ch_dm_key c \<and> ch_id c' = ch_id c" if "c' \<in> set (update_where p f cs)" for c'
    using in_update_whereD [OF that] assms(2,3) by auto
  then show ?thesis using assms(1) unfolding dm_unique_def by metis
qed

text \<open>
  Channels have their own identifiers, and the log of each is numbered from one to its last event.
\<close>

definition log_ok :: "cdb \<Rightarrow> bool" where
  "log_ok s \<longleftrightarrow> distinct (map ch_id (channels s)) \<and>
    (\<forall>c\<in>set (channels s). 1 \<le> ch_next_seq c \<and>
      map ce_seq (filter (\<lambda>e. ce_channel e = ch_id c) (channel_events s)) = map int [1 ..< nat (ch_next_seq c)]) \<and>
    ce_channel ` set (channel_events s) \<subseteq> ch_id ` set (channels s) \<and> dm_unique (channels s)"

definition post_ok :: "cdb \<Rightarrow> message_row \<Rightarrow> string \<Rightarrow> bool" where
  "post_ok s m cid \<longleftrightarrow> (\<exists>c n t. row_by ch_id cid (channels s) = Some c \<and> mr_channel_seq m = Some n \<and> 1 \<le> n \<and> n < ch_next_seq c \<and>
     mr_thread_id m = Some t \<and> (cid, t) \<in> (\<lambda>h. (th_channel h, th_thread h)) ` set (threads s)) \<and>
   (\<forall>q. mr_in_reply_to m = Some q \<longrightarrow> (\<exists>m'\<in>set (channel_messages s cid). mr_id m' = q))"

definition posts_ok :: "cdb \<Rightarrow> bool" where
  "posts_ok s \<longleftrightarrow> messages_ok (base s) \<and>
    (\<forall>m\<in>set (messages (base s)). \<forall>cid. mr_conversation m = Some cid \<longrightarrow> post_ok s m cid) \<and>
    (\<forall>m\<in>set (messages (base s)). \<forall>m'\<in>set (messages (base s)). mr_conversation m \<noteq> None \<and> mr_conversation m = mr_conversation m' \<and>
      mr_channel_seq m = mr_channel_seq m' \<longrightarrow> m = m') \<and>
    (\<forall>r\<in>set (references s). \<exists>cid. \<exists>m\<in>set (channel_messages s cid). mr_id m = rf_source r)"

text \<open>The columns of a managed delivery: a token and a lease exactly while it is claimed.\<close>

definition managed_shape :: "delivery_row \<Rightarrow> bool" where
  "managed_shape d \<longleftrightarrow>
    (dl_state d = Claimed \<longleftrightarrow> dl_lease_token d \<noteq> None) \<and> (dl_state d = Claimed \<longleftrightarrow> dl_lease_expires d \<noteq> None) \<and>
    (dl_state d = Claimed \<longrightarrow> dl_claimed_at d \<noteq> None) \<and> (dl_state d \<in> {Acked, DeadLettered} \<longrightarrow> dl_terminal_token d \<noteq> None) \<and>
    0 \<le> dl_attempt d"

definition managed_ok :: "cdb \<Rightarrow> bool" where
  "managed_ok s \<longleftrightarrow> distinct (map delivery_key (managed s)) \<and> list_all managed_shape (managed s) \<and>
    (\<forall>d\<in>set (managed s). \<exists>cid. \<exists>m\<in>set (channel_messages s cid). mr_id m = dl_message_id d)"

lemma in_channel_messages: "m \<in> set (channel_messages s cid) \<longleftrightarrow> m \<in> set (messages (base s)) \<and> mr_conversation m = Some cid"
  by (auto simp: channel_messages_def)

lemma message_unique:
  assumes "posts_ok s" and "m \<in> set (messages (base s))" and "m' \<in> set (messages (base s))" and "mr_id m = mr_id m'"
  shows "m = m'"
  using assms by (auto simp: posts_ok_def messages_ok_def distinct_map inj_on_def)

lemma find_message:
  assumes "posts_ok s" and "m \<in> set (messages (base s))" and "P m"
  shows "find (\<lambda>x. mr_id x = mr_id m \<and> P x) (messages (base s)) = Some m"
proof -
  obtain x where x: "find (\<lambda>x. mr_id x = mr_id m \<and> P x) (messages (base s)) = Some x"
    using assms(2,3) by (cases "find (\<lambda>x. mr_id x = mr_id m \<and> P x) (messages (base s))") (auto simp: find_None_iff)
  then have "x \<in> set (messages (base s))" "mr_id x = mr_id m" by (auto simp: find_Some_iff)
  then show ?thesis using x message_unique [OF assms(1) _ assms(2)] by blast
qed

lemma mapE_ex: "(\<forall>x\<in>set xs. \<exists>y. f x = Inr y) \<Longrightarrow> \<exists>ys. mapE f xs = Inr ys"
  by (induction xs) (auto simp: bindE_def)

lemma posts_okD: "posts_ok s \<Longrightarrow> m \<in> set (messages (base s)) \<Longrightarrow> mr_conversation m = Some cid \<Longrightarrow> post_ok s m cid"
  by (simp add: posts_ok_def)

lemma posts_ok_source:
  assumes "posts_ok s" and "r \<in> set (references s)"
  obtains cid m where "m \<in> set (messages (base s))" "mr_conversation m = Some cid" "mr_id m = rf_source r"
proof -
  have "\<exists>cid. \<exists>m\<in>set (channel_messages s cid). mr_id m = rf_source r" using assms by (simp add: posts_ok_def)
  then show thesis using that by (auto simp: in_channel_messages)
qed

lemma post_channel:
  assumes "posts_ok s" and "m \<in> set (messages (base s))" and "mr_conversation m = Some cid"
  obtains c n t where "row_by ch_id cid (channels s) = Some c" "mr_channel_seq m = Some n" "1 \<le> n" "n < ch_next_seq c"
    "mr_thread_id m = Some t"
  using posts_okD [OF assms] that by (auto simp: post_ok_def)

lemma post_parent:
  assumes "posts_ok s" and "m \<in> set (messages (base s))" and "mr_conversation m = Some cid" and "mr_in_reply_to m = Some q"
  obtains m' where "m' \<in> set (messages (base s))" "mr_conversation m' = Some cid" "mr_id m' = q"
  using posts_okD [OF assms(1-3)] assms(4) that by (auto simp: post_ok_def in_channel_messages)

lemma visible_parent_total:
  assumes "posts_ok s" and "m \<in> set (messages (base s))" and "mr_conversation m = Some cid"
  shows "\<exists>q. visible_parent s from (coalesce (mr_in_reply_to m)) = Inr q"
proof (cases "mr_in_reply_to m")
  case (Some q)
  obtain m' where m': "m' \<in> set (messages (base s))" "mr_conversation m' = Some cid" "mr_id m' = q"
    by (rule post_parent [OF assms Some])
  obtain n where "mr_channel_seq m' = Some n" by (rule post_channel [OF assms(1) m'(1,2)])
  moreover have "row_by mr_id q (messages (base s)) = Some m'"
    using find_message [OF assms(1) m'(1), of "\<lambda>_. True"] m'(3) by (simp add: row_by_def)
  ultimately show ?thesis by (simp add: Some visible_parent_def coalesce_def scanned_def)
qed (simp add: visible_parent_def coalesce_def)

lemma shown_reference_total:
  assumes "posts_ok s" and "rm \<in> set (reference_sources s mid)"
  shows "\<exists>f. shown_reference env p s rm = Inr f"
proof -
  obtain r m where rm: "rm = (r, m)" by fastforce
  have r: "r \<in> set (references s)" "m \<in> set (messages (base s))" "mr_id m = rf_source r"
    using assms(2) by (auto simp: rm reference_sources_def)
  obtain cid m' where m': "m' \<in> set (messages (base s))" "mr_conversation m' = Some cid" "mr_id m' = rf_source r"
    by (rule posts_ok_source [OF assms(1) r(1)])
  have "m' = m" by (rule message_unique [OF assms(1) m'(1) r(2)]) (simp add: m' r)
  then have cid: "mr_conversation m = Some cid" using m'(2) by simp
  obtain n where "mr_channel_seq m = Some n" by (rule post_channel [OF assms(1) r(2) cid])
  then show ?thesis
    by (cases "channelTx p cid s") (auto simp: shown_reference_def rm cid scanned_def dest: channelTx_error)
qed

lemma authorized_iff:
  assumes "posts_ok s" and "r \<in> set (messages (base s))" and "mr_conversation r = Some cid" and "mr_channel_seq r = Some n"
  shows "authorized s a (mr_id r) \<longleftrightarrow> grants_of s cid a \<noteq> [] \<and> history_floor (grants_of s cid a) \<le> n"
proof
  assume "authorized s a (mr_id r)"
  then obtain m cid' n' g where m: "m \<in> set (messages (base s))" "mr_id m = mr_id r" "mr_conversation m = Some cid'"
    "mr_channel_seq m = Some n'" and g: "g \<in> set (grants_of s cid' a)" "cg_history_from g \<le> n'"
    by (auto simp: authorized_def)
  have "m = r" by (rule message_unique [OF assms(1) m(1) assms(2) m(2)])
  then show "grants_of s cid a \<noteq> [] \<and> history_floor (grants_of s cid a) \<le> n"
    using m(3,4) g assms(3,4) history_floor_le [OF g(1)] by auto
next
  assume g: "grants_of s cid a \<noteq> [] \<and> history_floor (grants_of s cid a) \<le> n"
  obtain h where "h \<in> set (grants_of s cid a)" "cg_history_from h = history_floor (grants_of s cid a)"
    using g by (blast intro: history_floor_in)
  then show "authorized s a (mr_id r)" using g assms(2-4) unfolding authorized_def by metis
qed

lemma message_lookup:
  assumes "posts_ok s" and "r \<in> set (messages (base s))" and "mr_conversation r = Some cid" and "unexpired (e_now env) r"
    and "conversationPrincipal p = Inr ()"
  shows "authorized s (pr_actor p) (mr_id r) \<Longrightarrow> \<exists>m. channelMessageTx env p (mr_id r) s = Inr m"
    "\<not> authorized s (pr_actor p) (mr_id r) \<Longrightarrow> channelMessageTx env p (mr_id r) s = Inl ErrChannelDenied"
proof -
  have f: "find (\<lambda>m. mr_id m = mr_id r \<and> mr_conversation m \<noteq> None \<and> unexpired (e_now env) m) (messages (base s)) = Some r"
    using find_message [OF assms(1,2), of "\<lambda>m. mr_conversation m \<noteq> None \<and> unexpired (e_now env) m"] assms(3,4) by simp
  obtain ch n t where row: "row_by ch_id cid (channels s) = Some ch" "mr_channel_seq r = Some n" "mr_thread_id r = Some t"
    by (rule post_channel [OF assms(1-3)])
  note auth = authorized_iff [OF assms(1-3) row(2)]
  note start = channelMessageTx_def assms(5) f assms(3) row scanned_def bindE_Inr option.case
  show "\<exists>m. channelMessageTx env p (mr_id r) s = Inr m" if a: "authorized s (pr_actor p) (mr_id r)"
  proof -
    have g: "grants_of s cid (pr_actor p) \<noteq> []" "history_floor (grants_of s cid (pr_actor p)) \<le> n" using auth a by simp_all
    obtain c where c: "channelTx p cid s = Inr c" using g(1) by (simp add: channelTx_def assms(5) row(1) Let_def)
    then have "c_history_from c = history_floor (grants_of s cid (pr_actor p))" by (rule channelTxD)
    then have floor: "c_history_from c \<le> n" using g(2) by simp
    obtain q where q: "visible_parent s (c_history_from c) (coalesce (mr_in_reply_to r)) = Inr q"
      using visible_parent_total [OF assms(1-3)] by blast
    obtain refs where "mapE (shown_reference env p s) (reference_sources s (mr_id r)) = Inr refs"
      using mapE_ex [of "reference_sources s (mr_id r)" "shown_reference env p s"] shown_reference_total [OF assms(1)] by blast
    then show ?thesis unfolding start c using floor q by simp
  qed
  show "channelMessageTx env p (mr_id r) s = Inl ErrChannelDenied" if a: "\<not> authorized s (pr_actor p) (mr_id r)"
  proof (cases "channelTx p cid s")
    case (Inl e)
    then show ?thesis unfolding start using channelTx_error [OF Inl] by simp
  next
    case (Inr c)
    have "c_history_from c = history_floor (grants_of s cid (pr_actor p))" "grants_of s cid (pr_actor p) \<noteq> []"
      using Inr by (auto elim: channelTxD)
    then have "\<not> c_history_from c \<le> n" using auth a by simp
    then show ?thesis unfolding start Inr by simp
  qed
qed

end
