(* ===== verification/ChannelFrames.thy ===== *)
theory ChannelFrames
  imports ChannelFacts StoreRuns
begin

text \<open>
  What each operation on conversations changes, and what it keeps: messages, threads and the
  channel's rows are only extended, and an audience changes only together with the channel's
  policy revision.
\<close>

section \<open>Extensions\<close>

text \<open>The parts of a channel's row that no operation changes.\<close>

definition same_channel :: "channel_row \<Rightarrow> channel_row \<Rightarrow> bool" where
  "same_channel c c' \<longleftrightarrow> ch_id c' = ch_id c \<and> ch_project c' = ch_project c \<and> ch_kind c' = ch_kind c \<and> ch_title c' = ch_title c \<and>
     ch_creator c' = ch_creator c \<and> ch_dm_key c' = ch_dm_key c \<and> ch_created_at c' = ch_created_at c"

text \<open>A later row: its numbers have not gone back, and with the same revision comes the same audience.\<close>

definition later_channel :: "cdb \<Rightarrow> cdb \<Rightarrow> channel_row \<Rightarrow> channel_row \<Rightarrow> bool" where
  "later_channel s s' c c' \<longleftrightarrow> same_channel c c' \<and> ch_next_seq c \<le> ch_next_seq c' \<and>
     (ch_revision c < ch_revision c' \<or> ch_revision c' = ch_revision c \<and> live_grants s' (ch_id c) = live_grants s (ch_id c))"

definition channels_extend :: "cdb \<Rightarrow> cdb \<Rightarrow> bool" where
  "channels_extend s s' \<longleftrightarrow> (\<forall>cid c. row_by ch_id cid (channels s) = Some c \<longrightarrow>
     (\<exists>c'. row_by ch_id cid (channels s') = Some c' \<and> later_channel s s' c c'))"

definition extends :: "cdb \<Rightarrow> cdb \<Rightarrow> bool" where
  "extends s s' \<longleftrightarrow> prefix (messages (base s)) (messages (base s')) \<and> set (threads s) \<subseteq> set (threads s') \<and>
     prefix (channel_events s) (channel_events s') \<and> prefix (references s) (references s') \<and> channels_extend s s'"

lemma same_channel_refl [simp]: "same_channel c c"
  by (simp add: same_channel_def)

lemma later_channel_trans: "later_channel a b c c' \<Longrightarrow> later_channel b d c' c'' \<Longrightarrow> later_channel a d c c''"
  by (auto simp: later_channel_def same_channel_def)

lemma channels_extend_refl: "channels_extend s s"
  by (simp add: channels_extend_def later_channel_def)

lemma channels_extend_trans: "channels_extend a b \<Longrightarrow> channels_extend b c \<Longrightarrow> channels_extend a c"
  unfolding channels_extend_def using later_channel_trans by metis

lemma extends_refl [simp]: "extends s s"
  by (simp add: extends_def channels_extend_refl)

lemma extends_trans: "extends a b \<Longrightarrow> extends b c \<Longrightarrow> extends a c"
  unfolding extends_def
  by (elim conjE, intro conjI)
    (erule (1) prefix_order.trans subset_trans channels_extend_trans)+

lemma live_grants_cong: "grants (base s') = grants (base s) \<Longrightarrow> live_grants s' cid = live_grants s cid"
  by (simp add: live_grants_def)

text \<open>Steps that leave channels and grants alone.\<close>

lemma extends_same:
  assumes "channels s' = channels s" and "grants (base s') = grants (base s)"
    and "prefix (messages (base s)) (messages (base s'))" and "set (threads s) \<subseteq> set (threads s')"
    and "prefix (channel_events s) (channel_events s')" and "prefix (references s) (references s')"
  shows "extends s s'"
  using assms(3-) live_grants_cong [OF assms(2)]
  by (simp add: extends_def channels_extend_def later_channel_def assms(1))

section \<open>Events\<close>

interpretation bump_seq_upd: keyed_update ch_id bump_seq
  by unfold_locales (simp add: bump_seq_def)

interpretation bump_revision_upd: keyed_update ch_id "\<lambda>c. c\<lparr>ch_revision := ch_revision c + 1\<rparr>"
  by unfold_locales simp

lemma channelEventD:
  assumes "channelEventTx env cid kind actor mid payload s = Inr (n, s')"
  obtains ch e where "row_by ch_id cid (channels s) = Some ch" "n = ch_next_seq ch"
    "s' = s\<lparr>channels := update_where (\<lambda>c. ch_id c = cid) bump_seq (channels s), channel_events := channel_events s @ [e]\<rparr>"
    "ce_channel e = cid" "ce_seq e = n" "ce_kind e = kind" "ce_actor e = actor" "ce_message e = mid"
    "ce_payload e = marshal payload" "ce_created_at e = e_now env"
proof -
  obtain ch where ch: "row_by ch_id cid (channels s) = Some ch"
    using assms by (auto simp: channelEventTx_def split: option.splits)
  show thesis
    by (rule that [OF ch]) (use assms in \<open>auto simp: channelEventTx_def ch Let_def bindE_Inr_iff requireE_Inr_iff\<close>)
qed

lemma channelEvent_extends:
  assumes "channelEventTx env cid kind actor mid payload s = Inr (n, s')"
  shows "extends s s'"
proof -
  obtain ch e where s': "s' = s\<lparr>channels := update_where (\<lambda>c. ch_id c = cid) bump_seq (channels s), channel_events := channel_events s @ [e]\<rparr>"
    using assms by (rule channelEventD)
  have "channels_extend s s'"
    by (auto simp: channels_extend_def s' bump_seq_upd.row_by_update later_channel_def same_channel_def bump_seq_def live_grants_def)
  then show ?thesis by (simp add: extends_def s')
qed

lemma channelEvent_log_ok:
  assumes "channelEventTx env cid kind actor mid payload s = Inr (n, s')" and "log_ok s"
  shows "log_ok s'"
proof -
  obtain ch e where ch: "row_by ch_id cid (channels s) = Some ch" "n = ch_next_seq ch"
    and s': "s' = s\<lparr>channels := update_where (\<lambda>c. ch_id c = cid) bump_seq (channels s), channel_events := channel_events s @ [e]\<rparr>"
    and e: "ce_channel e = cid" "ce_seq e = n"
    using assms(1) by (rule channelEventD)
  have ok: "distinct (map ch_id (channels s))"
    "\<And>c. c \<in> set (channels s) \<Longrightarrow> 1 \<le> ch_next_seq c \<and>
      map ce_seq (filter (\<lambda>e. ce_channel e = ch_id c) (channel_events s)) = map int [1 ..< nat (ch_next_seq c)]"
    "ce_channel ` set (channel_events s) \<subseteq> ch_id ` set (channels s)"
    using assms(2) by (auto simp: log_ok_def)
  have dm: "dm_unique (update_where (\<lambda>c. ch_id c = cid) bump_seq (channels s))"
    by (rule dm_unique_update) (use assms(2) in \<open>simp_all add: log_ok_def bump_seq_def\<close>)
  have row: "1 \<le> ch_next_seq c' \<and>
      map ce_seq (filter (\<lambda>e. ce_channel e = ch_id c') (channel_events s @ [e])) = map int [1 ..< nat (ch_next_seq c')]"
    if c': "c' \<in> set (update_where (\<lambda>c. ch_id c = cid) bump_seq (channels s))" for c'
  proof -
    obtain c where c: "c \<in> set (channels s)" "c' = (if ch_id c = cid then bump_seq c else c)"
      using in_update_whereD [OF c'] by auto
    show ?thesis
    proof (cases "ch_id c = cid")
      case True
      have "row_by ch_id (ch_id c) (channels s) = Some c" by (rule row_by_unique [OF ok(1) c(1)])
      then have "c = ch" using ch(1) True by simp
      moreover have "1 \<le> nat (ch_next_seq c)" "nat (ch_next_seq c + 1) = Suc (nat (ch_next_seq c))"
        using ok(2) [OF c(1)] by auto
      then have "[1 ..< nat (ch_next_seq c + 1)] = [1 ..< nat (ch_next_seq c)] @ [nat (ch_next_seq c)]" by simp
      ultimately show ?thesis using ok(2) [OF c(1)] c(2) True e ch(2) by (simp add: bump_seq_def)
    next
      case False
      then show ?thesis using ok(2) [OF c(1)] c(2) e by simp
    qed
  qed
  have "ch_id ` set (update_where (\<lambda>c. ch_id c = cid) bump_seq (channels s)) = ch_id ` set (channels s)"
    by (rule bump_seq_upd.key_set_update)
  moreover have "cid \<in> ch_id ` set (channels s)" using row_by_SomeD [OF ch(1)] by auto
  ultimately show ?thesis
    using row ok(3) e bump_seq_upd.distinct_key_update [OF ok(1)] dm unfolding log_ok_def s' by auto
qed

section \<open>The invariant along extensions\<close>

definition rows_grow :: "cdb \<Rightarrow> cdb \<Rightarrow> bool" where
  "rows_grow s s' \<longleftrightarrow> (\<forall>cid c. row_by ch_id cid (channels s) = Some c \<longrightarrow>
     (\<exists>c'. row_by ch_id cid (channels s') = Some c' \<and> ch_next_seq c \<le> ch_next_seq c')) \<and> set (threads s) \<subseteq> set (threads s')"

lemma rows_grow_same: "channels s' = channels s \<Longrightarrow> threads s' = threads s \<Longrightarrow> rows_grow s s'"
  by (simp add: rows_grow_def)

lemma extends_rows_grow: "extends s s' \<Longrightarrow> rows_grow s s'"
  unfolding rows_grow_def extends_def channels_extend_def later_channel_def by blast

lemma post_ok_grow:
  assumes "post_ok s m cid" and "rows_grow s s'" and "set (channel_messages s cid) \<subseteq> set (channel_messages s' cid)"
  shows "post_ok s' m cid"
proof -
  obtain c n t where c: "row_by ch_id cid (channels s) = Some c" "mr_channel_seq m = Some n" "1 \<le> n" "n < ch_next_seq c"
    "mr_thread_id m = Some t" "(cid, t) \<in> (\<lambda>h. (th_channel h, th_thread h)) ` set (threads s)"
    using assms(1) by (auto simp: post_ok_def)
  obtain c' where c': "row_by ch_id cid (channels s') = Some c'" "ch_next_seq c \<le> ch_next_seq c'"
    using assms(2) c(1) unfolding rows_grow_def by blast
  have "(cid, t) \<in> (\<lambda>h. (th_channel h, th_thread h)) ` set (threads s')" using c(6) assms(2) unfolding rows_grow_def by blast
  moreover have "n < ch_next_seq c'" using c(4) c'(2) by simp
  moreover have "\<exists>m'\<in>set (channel_messages s' cid). mr_id m' = q" if "mr_in_reply_to m = Some q" for q
    using assms(1,3) that unfolding post_ok_def by blast
  ultimately show ?thesis using c(2,3,5) c'(1) by (simp add: post_ok_def)
qed

lemma posts_ok_grow:
  assumes "posts_ok s" and "rows_grow s s'" and "messages (base s') = messages (base s)" and "references s' = references s"
  shows "posts_ok s'"
proof -
  have cm: "channel_messages s' = channel_messages s" using assms(3) by (simp add: channel_messages_def fun_eq_iff)
  have "messages_ok (base s') = messages_ok (base s)" by (simp add: messages_ok_def assms(3))
  moreover have "post_ok s' m cid" if "m \<in> set (messages (base s))" "mr_conversation m = Some cid" for m cid
    by (rule post_ok_grow [OF posts_okD [OF assms(1) that] assms(2)]) (simp add: cm)
  ultimately show ?thesis using assms(1) unfolding posts_ok_def assms(3,4) cm by blast
qed

lemma log_ok_same: "channels s' = channels s \<Longrightarrow> channel_events s' = channel_events s \<Longrightarrow> log_ok s \<Longrightarrow> log_ok s'"
  by (simp add: log_ok_def)

lemma managed_ok_same: "managed s' = managed s \<Longrightarrow> messages (base s') = messages (base s) \<Longrightarrow> managed_ok s \<Longrightarrow> managed_ok s'"
  by (simp add: managed_ok_def channel_messages_def)

section \<open>Small steps\<close>

lemma with_base_newID: "with_base (newID env pfx) s = Inr (x, s') \<Longrightarrow>
    e_gen env pfx (db_ids (base s)) = Some x \<and> s' = s\<lparr>base := (base s)\<lparr>db_ids := Suc (db_ids (base s))\<rparr>\<rparr>"
  by (auto simp: with_base_Inr_iff newID_Inr_iff)

lemma insert_grantD:
  assumes "insert_grant g s = Inr s'"
  shows "s' = s\<lparr>base := (base s)\<lparr>grants := grants (base s) @ [g]\<rparr>\<rparr>"
  using assms by (auto simp: insert_grant_def bindE_Inr_iff)

lemma channelGrantD:
  assumes "channelGrantTx cid a floor s = Inr s'"
  obtains gs where "s' = s\<lparr>base := (base s)\<lparr>grants := grants (base s) @ gs\<rparr>\<rparr>" "\<forall>g\<in>set gs. cg_channel_id g = cid \<and> cg_revoked_seq g = None \<and>
      cg_history_from g = floor"
    "gs = new_grant cid a ''participant'' True floor # (case active_supervisor s a of None \<Rightarrow> []
      | Some h \<Rightarrow> [new_grant cid h (supervisor_source a) False floor])"
proof -
  obtain s1 where s1: "insert_grant (new_grant cid a ''participant'' True floor) s = Inr s1"
    and rest: "(case active_supervisor s1 a of None \<Rightarrow> Inr s1
      | Some human \<Rightarrow> insert_grant (new_grant cid human (supervisor_source a) False floor) s1) = Inr s'"
    using assms by (auto simp: channelGrantTx_def bindE_Inr_iff)
  note e1 = insert_grantD [OF s1]
  have sup: "active_supervisor s1 a = active_supervisor s a" by (simp add: e1 active_supervisor_def)
  let ?gs = "new_grant cid a ''participant'' True floor # (case active_supervisor s a of None \<Rightarrow> []
      | Some h \<Rightarrow> [new_grant cid h (supervisor_source a) False floor])"
  have "s' = s\<lparr>base := (base s)\<lparr>grants := grants (base s) @ ?gs\<rparr>\<rparr>"
    using rest [unfolded sup] by (cases "active_supervisor s a") (auto simp: e1 dest!: insert_grantD)
  then show thesis by (rule that) (auto simp: new_grant_def split: option.splits)
qed

lemma grant_all:
  assumes "foldE (\<lambda>a. channelGrantTx cid a floor) as s = Inr s'"
  obtains gs where "s' = s\<lparr>base := (base s)\<lparr>grants := grants (base s) @ gs\<rparr>\<rparr>" "\<forall>g\<in>set gs. cg_channel_id g = cid \<and> cg_revoked_seq g = None \<and>
      cg_history_from g = floor"
proof -
  have "\<exists>gs. s' = s\<lparr>base := (base s)\<lparr>grants := grants (base s) @ gs\<rparr>\<rparr> \<and> (\<forall>g\<in>set gs. cg_channel_id g = cid \<and> cg_revoked_seq g = None \<and>
      cg_history_from g = floor)"
    using assms
  proof (induction as arbitrary: s)
    case Nil
    then show ?case by (intro exI [of _ "[]"]) simp
  next
    case (Cons a as)
    obtain s1 where s1: "channelGrantTx cid a floor s = Inr s1" "foldE (\<lambda>a. channelGrantTx cid a floor) as s1 = Inr s'"
      using Cons(2) by (auto simp: bindE_Inr_iff)
    obtain gs where gs: "s1 = s\<lparr>base := (base s)\<lparr>grants := grants (base s) @ gs\<rparr>\<rparr>" "\<forall>g\<in>set gs. cg_channel_id g = cid \<and>
        cg_revoked_seq g = None \<and> cg_history_from g = floor"
      by (rule channelGrantD [OF s1(1)])
    obtain hs where "s' = s1\<lparr>base := (base s1)\<lparr>grants := grants (base s1) @ hs\<rparr>\<rparr>" "\<forall>g\<in>set hs. cg_channel_id g = cid \<and>
        cg_revoked_seq g = None \<and> cg_history_from g = floor"
      using Cons(1) [OF s1(2)] by blast
    then show ?case using gs by (intro exI [of _ "gs @ hs"]) auto
  qed
  then show thesis using that by blast
qed

lemma saveOperationD:
  assumes "saveChannelOperation p op key dig r s = Inr s'"
  obtains o' where "s' = s\<lparr>operations := operations s @ [o']\<rparr>" "operation_key o' = (pr_actor p, op, key)" "op_digest o' = dig" "op_result o' = r"
  by (rule that [of "\<lparr>op_actor = pr_actor p, op_operation = op, op_key = key, op_digest = dig, op_result = r\<rparr>"])
    (use assms in \<open>auto simp: saveChannelOperation_def bindE_Inr_iff operation_key_def\<close>)

text \<open>Grants of one channel do not concern another.\<close>

lemma live_grants_append: "\<forall>g\<in>set gs. cg_channel_id g \<noteq> cid \<Longrightarrow> grants (base s') = grants (base s) @ gs \<Longrightarrow>
    live_grants s' cid = live_grants s cid"
  by (simp add: live_grants_def)

lemma live_grants_revoke:
  assumes "\<And>g. cg_channel_id g = cid \<Longrightarrow> \<not> q g"
  shows "live_grants (revoke_grants q n s) cid = live_grants s cid"
proof -
  have "filter (\<lambda>g. cg_channel_id g = cid \<and> cg_revoked_seq g = None)
      (update_where (\<lambda>g. q g \<and> cg_revoked_seq g = None) (\<lambda>g. g\<lparr>cg_revoked_seq := Some n\<rparr>) gs) =
    filter (\<lambda>g. cg_channel_id g = cid \<and> cg_revoked_seq g = None) gs" for gs
    using assms by (induction gs) auto
  then show ?thesis by (simp add: live_grants_def revoke_grants_def)
qed

section \<open>The invariant of the whole store\<close>

definition chat_ok :: "cdb \<Rightarrow> bool" where
  "chat_ok s \<longleftrightarrow> store_ok (base s) \<and> log_ok s \<and> posts_ok s \<and> managed_ok s"

lemma chat_ok_step:
  assumes "chat_ok s" and "messages (base s') = messages (base s)" and "references s' = references s" and "rows_grow s s'"
    and "log_ok s'" and "managed_ok s'" and "store_ok (base s')"
  shows "chat_ok s'"
  using assms posts_ok_grow [OF _ assms(4,2,3)] by (simp add: chat_ok_def)

text \<open>Steps that only change tables none of this speaks about, or the base outside its mail.\<close>

lemma chat_ok_base:
  assumes "chat_ok s" and "channels s' = channels s" and "channel_events s' = channel_events s" and "threads s' = threads s"
    and "references s' = references s" and "managed s' = managed s" and "changes {TGrants} (base s) (base s')"
  shows "chat_ok s'"
proof (rule chat_ok_step [OF assms(1)])
  have m: "messages (base s') = messages (base s)" using assms(7) by (simp add: changes_iff)
  show "messages (base s') = messages (base s)" by (rule m)
  show "store_ok (base s')" by (rule store_ok_keep [OF assms(7)]) (use assms(1) in \<open>auto simp: chat_ok_def\<close>)
  show "log_ok s'" using log_ok_same [OF assms(2,3)] assms(1) by (simp add: chat_ok_def)
  show "managed_ok s'" using managed_ok_same [OF assms(6) m] assms(1) by (simp add: chat_ok_def)
qed (use assms rows_grow_same in simp_all)

lemma same_base_changes: "events b' = events b \<Longrightarrow> counters b' = counters b \<Longrightarrow> messages b' = messages b \<Longrightarrow> deliveries b' = deliveries b \<Longrightarrow>
    outbox b' = outbox b \<Longrightarrow> registrations b' = registrations b \<Longrightarrow> aliases b' = aliases b \<Longrightarrow> alias_history b' = alias_history b \<Longrightarrow>
    alias_claims b' = alias_claims b \<Longrightarrow> adoptions b' = adoptions b \<Longrightarrow> continuity b' = continuity b \<Longrightarrow>
    conditions b' = conditions b \<Longrightarrow> changes {TGrants} b b'"
  using events_ok_cong [of b' b] by (simp add: changes_iff)

lemma newID_keeps:
  assumes "with_base (newID env pfx) s = Inr (x, s')"
  shows "extends s s'" "chat_ok s \<Longrightarrow> chat_ok s'"
proof -
  have s': "s' = s\<lparr>base := (base s)\<lparr>db_ids := Suc (db_ids (base s))\<rparr>\<rparr>" using with_base_newID [OF assms] by simp
  show "extends s s'" by (rule extends_same) (simp_all add: s')
  show "chat_ok s'" if "chat_ok s" by (rule chat_ok_base [OF that]) (simp_all add: s' same_base_changes)
qed

lemma event_keeps:
  assumes "channelEventTx env cid kind actor mid payload s = Inr (n, s')"
  shows "extends s s'" "chat_ok s \<Longrightarrow> chat_ok s'"
proof -
  show ext: "extends s s'" by (rule channelEvent_extends [OF assms])
  obtain ch e where s': "s' = s\<lparr>channels := update_where (\<lambda>c. ch_id c = cid) bump_seq (channels s), channel_events := channel_events s @ [e]\<rparr>"
    by (rule channelEventD [OF assms])
  show "chat_ok s'" if "chat_ok s"
    by (rule chat_ok_step [OF that _ _ extends_rows_grow [OF ext] channelEvent_log_ok [OF assms]])
      (use that in \<open>simp_all add: s' chat_ok_def managed_ok_def channel_messages_def\<close>)
qed

lemma grants_chat_ok: "chat_ok s \<Longrightarrow> chat_ok (s\<lparr>base := (base s)\<lparr>grants := gs\<rparr>\<rparr>)"
  by (rule chat_ok_base) (simp_all, rule same_base_changes, simp_all)

lemma save_keeps:
  assumes "saveChannelOperation p op key dig r s = Inr s'"
  shows "extends s s'" "chat_ok s \<Longrightarrow> chat_ok s'"
proof -
  obtain o' where s': "s' = s\<lparr>operations := operations s @ [o']\<rparr>" by (rule saveOperationD [OF assms])
  show "extends s s'" by (rule extends_same) (simp_all add: s')
  show "chat_ok s'" if "chat_ok s" by (rule chat_ok_base [OF that]) (simp_all add: s')
qed

lemma bump_revision_log_ok:
  assumes "log_ok s"
  shows "log_ok (bump_revision cid s)"
proof -
  have d: "distinct (map ch_id (channels s))" using assms by (simp add: log_ok_def)
  have ids: "ch_id ` set (channels (bump_revision cid s)) = ch_id ` set (channels s)"
    unfolding bump_revision_def by (simp add: bump_revision_upd.key_set_update)
  have "\<exists>c\<in>set (channels s). ch_id c' = ch_id c \<and> ch_next_seq c' = ch_next_seq c" if "c' \<in> set (channels (bump_revision cid s))" for c'
    using that unfolding bump_revision_def by (auto dest!: in_update_whereD)
  moreover have "channel_events (bump_revision cid s) = channel_events s" by (simp add: bump_revision_def)
  moreover have "distinct (map ch_id (channels (bump_revision cid s)))"
    using bump_revision_upd.distinct_key_update [OF d] by (simp add: bump_revision_def)
  moreover have "dm_unique (channels (bump_revision cid s))"
    unfolding bump_revision_def by (simp, rule dm_unique_update) (use assms in \<open>simp_all add: log_ok_def\<close>)
  ultimately show ?thesis using assms unfolding log_ok_def ids by metis
qed

lemma bump_revision_chat_ok:
  assumes "chat_ok s"
  shows "chat_ok (bump_revision cid s)"
proof (rule chat_ok_step [OF assms])
  show "rows_grow s (bump_revision cid s)" by (auto simp: rows_grow_def bump_revision_def bump_revision_upd.row_by_update)
  show "log_ok (bump_revision cid s)" using assms bump_revision_log_ok by (simp add: chat_ok_def)
qed (use assms in \<open>simp_all add: bump_revision_def chat_ok_def managed_ok_def channel_messages_def\<close>)

end
