(* ===== verification/ChannelSteps.thy ===== *)
theory ChannelSteps
  imports ChannelFrames
begin

text \<open>
  Every operation on conversations extends the store and keeps its invariant, one lemma each.
\<close>

section \<open>Creating a channel\<close>

lemma insert_channelD:
  assumes "insert_channel c s = Inr s'"
  shows "s' = s\<lparr>channels := channels s @ [c]\<rparr>" "ch_id c \<notin> ch_id ` set (channels s)"
    "ch_dm_key c \<noteq> None \<Longrightarrow> ch_dm_key c \<notin> ch_dm_key ` set (channels s)"
  using assms by (auto simp: insert_channel_def bindE_Inr_iff requireE_Inr_iff)

lemma insert_channel_log_ok:
  assumes "log_ok s" and "ch_id c \<notin> ch_id ` set (channels s)" and "ch_next_seq c = 1"
    and "ch_dm_key c \<noteq> None \<Longrightarrow> ch_dm_key c \<notin> ch_dm_key ` set (channels s)"
  shows "log_ok (s\<lparr>channels := channels s @ [c]\<rparr>)"
proof -
  have "filter (\<lambda>e. ce_channel e = ch_id c) (channel_events s) = []"
    using assms(1,2) unfolding log_ok_def filter_empty_conv by (metis image_eqI subsetD)
  moreover have "dm_unique (channels s @ [c])"
  proof -
    have "dm_unique (channels s)" using assms(1) by (simp add: log_ok_def)
    moreover have "ch_dm_key c' \<noteq> ch_dm_key c" if "c' \<in> set (channels s)" "ch_dm_key c \<noteq> None" for c'
      using assms(4) [OF that(2)] that(1) by (metis image_eqI)
    ultimately show ?thesis unfolding dm_unique_def set_append list.set ball_Un ball_simps by metis
  qed
  ultimately show ?thesis using assms(1-3) by (auto simp: log_ok_def)
qed

lemma insert_channel_chat_ok:
  assumes "chat_ok s" and "ch_id c \<notin> ch_id ` set (channels s)" and "ch_next_seq c = 1"
    and "ch_dm_key c \<noteq> None \<Longrightarrow> ch_dm_key c \<notin> ch_dm_key ` set (channels s)"
  shows "chat_ok (s\<lparr>channels := channels s @ [c]\<rparr>)"
proof (rule chat_ok_step [OF assms(1)])
  show "rows_grow s (s\<lparr>channels := channels s @ [c]\<rparr>)" by (simp add: rows_grow_def row_by_append)
  show "log_ok (s\<lparr>channels := channels s @ [c]\<rparr>)" using assms insert_channel_log_ok by (simp add: chat_ok_def)
qed (use assms(1) in \<open>simp_all add: chat_ok_def managed_ok_def channel_messages_def\<close>)

lemma create_new_keeps:
  assumes "create_new env p r key dig s = Inr (c, s')"
  shows "extends s s'" "chat_ok s \<Longrightarrow> chat_ok s'"
proof -
  obtain cid s1 s2 s3 n s4 where id: "with_base (newID env ''chn'') s = Inr (cid, s1)"
    and ins: "insert_channel (new_channel env p r key cid) s1 = Inr s2"
    and gr: "foldE (\<lambda>a. channelGrantTx cid a 0) (cr_participants r) s2 = Inr s3"
    and ev: "channelEventTx env cid ''channel.created'' (pr_actor p) []
      (JObject [(''participants'', JArray (map JText (cr_participants r)))]) s3 = Inr (n, s4)"
    and sv: "saveChannelOperation p ''create'' (cr_key r) dig (ResultId cid) s4 = Inr s'"
    using assms by (auto simp: create_new_def bindE_Inr_iff)
  note s2 = insert_channelD [OF ins]
  have new: "ch_id (new_channel env p r key cid) = cid" "ch_next_seq (new_channel env p r key cid) = 1" by (simp_all add: new_channel_def)
  obtain gs where s3: "s3 = s2\<lparr>base := (base s2)\<lparr>grants := grants (base s2) @ gs\<rparr>\<rparr>" and gs: "\<forall>g\<in>set gs. cg_channel_id g = cid \<and>
      cg_revoked_seq g = None \<and> cg_history_from g = 0"
    by (rule grant_all [OF gr])
  obtain ch e where s4: "s4 = s3\<lparr>channels := update_where (\<lambda>c. ch_id c = cid) bump_seq (channels s3), channel_events := channel_events s3 @ [e]\<rparr>"
    by (rule channelEventD [OF ev])
  have "channels_extend s1 s4"
    unfolding channels_extend_def
  proof (intro allI impI)
    fix cid' c' assume c': "row_by ch_id cid' (channels s1) = Some c'"
    have ne: "cid' \<noteq> cid" "ch_id c' = cid'" using row_by_SomeD [OF c'] s2(2) new(1) by auto
    have "row_by ch_id cid' (channels s4) = Some c'"
      using c' ne by (simp add: s4 s3 s2(1) bump_seq_upd.row_by_update row_by_append)
    moreover have "live_grants s4 cid' = live_grants s1 cid'"
      by (rule live_grants_append [where gs = gs]) (use gs ne in \<open>auto simp: s4 s3 s2(1)\<close>)
    ultimately show "\<exists>c''. row_by ch_id cid' (channels s4) = Some c'' \<and> later_channel s1 s4 c' c''"
      using ne by (auto simp: later_channel_def)
  qed
  then have "extends s1 s4" by (simp add: extends_def s4 s3 s2(1))
  then show "extends s s'" using newID_keeps(1) [OF id] save_keeps(1) [OF sv] extends_trans by blast
  assume "chat_ok s"
  then have "chat_ok s2"
    unfolding s2(1) by (intro insert_channel_chat_ok newID_keeps(2) [OF id] s2(2,3) new(2))
  then have "chat_ok s3" unfolding s3 by (rule grants_chat_ok)
  then show "chat_ok s'" by (intro save_keeps(2) [OF sv] event_keeps(2) [OF ev])
qed

lemma createChannel_keeps:
  assumes "createChannelTx env digest p r s = Inr (c, s')"
  shows "extends s s'" "chat_ok s \<Longrightarrow> chat_ok s'"
proof -
  have "extends s s' \<and> (chat_ok s \<longrightarrow> chat_ok s')"
    using assms create_new_keeps save_keeps
    unfolding createChannelTx_def Let_def
    by (auto simp: bindE_Inr_iff split: option.splits if_splits)
  then show "extends s s'" "chat_ok s \<Longrightarrow> chat_ok s'" by blast+
qed

lemma ChannelCreate_keeps:
  assumes "ChannelCreate env digest p r s = Inr (c, s')"
  shows "extends s s'" "chat_ok s \<Longrightarrow> chat_ok s'"
  using assms createChannel_keeps by (auto simp: ChannelCreate_def bindE_Inr_iff)

section \<open>Posting\<close>

lemma posted_row_simps [simp]:
  "mr_id (posted_row env p c r mid n) = mid" "mr_conversation (posted_row env p c r mid n) = Some (c_id c)"
  "mr_channel_seq (posted_row env p c r mid n) = Some n" "mr_thread_id (posted_row env p c r mid n) = Some (cp_thread r)"
  "mr_in_reply_to (posted_row env p c r mid n) = nullif (cp_in_reply_to r)" "mr_from_actor (posted_row env p c r mid n) = pr_actor p"
  "mr_idempotency_key (posted_row env p c r mid n) = cp_key r" "mr_body (posted_row env p c r mid n) = cp_body r"
  "mr_expires_at (posted_row env p c r mid n) = None" "mr_from_run (posted_row env p c r mid n) = pr_run p"
  by (simp_all add: posted_row_def)

text \<open>What the writes of a post did, one by one.\<close>

lemma insert_messageD:
  assumes "insert_message m s = Inr s'"
  shows "s' = s\<lparr>base := (base s)\<lparr>messages := messages (base s) @ [m]\<rparr>\<rparr>" "mr_id m \<notin> mr_id ` set (messages (base s))"
  using assms by (auto simp: insert_message_def bindE_Inr_iff requireE_Inr_iff)

lemma open_threadD:
  assumes "open_thread fresh cid thread mid s = Inr s'"
  obtains hs where "s' = s\<lparr>threads := threads s @ hs\<rparr>"
    "hs = (if fresh then [\<lparr>th_channel = cid, th_thread = thread, th_root = mid\<rparr>] else [])"
  using assms by (cases fresh) (auto simp: open_thread_def bindE_Inr_iff)

lemma ask_responseD:
  assumes "ask_response env p cid mid respondent s = Inr s'"
  obtains qs k where "s' = s\<lparr>responses := responses s @ qs, base := (base s)\<lparr>db_ids := k\<rparr>\<rparr>"
    "map rs_respondent qs = (if respondent = [] then [] else [respondent])"
    "\<forall>q\<in>set qs. rs_channel q = cid \<and> rs_message q = mid \<and> rs_requester q = pr_actor p \<and> rs_state q = ResponseOpen \<and> rs_revision q = 1"
proof (cases "respondent = []")
  case True
  then have "s' = s\<lparr>responses := responses s @ [], base := (base s)\<lparr>db_ids := db_ids (base s)\<rparr>\<rparr>"
    using assms by (simp add: ask_response_def)
  then show thesis by (rule that) (simp_all add: True)
next
  case False
  obtain rid s1 where id: "with_base (newID env ''req'') s = Inr (rid, s1)"
    and s': "s' = s1\<lparr>responses := responses s1 @ [\<lparr>rs_id = rid, rs_channel = cid, rs_message = mid, rs_requester = pr_actor p,
         rs_respondent = respondent, rs_state = ResponseOpen, rs_revision = 1, rs_answer = None\<rparr>]\<rparr>"
    using assms False by (auto simp: ask_response_def bindE_Inr_iff)
  note s1 = with_base_newID [OF id]
  show thesis
    by (rule that [where qs = "[\<lparr>rs_id = rid, rs_channel = cid, rs_message = mid, rs_requester = pr_actor p,
         rs_respondent = respondent, rs_state = ResponseOpen, rs_revision = 1, rs_answer = None\<rparr>]" and k = "Suc (db_ids (base s))"])
      (simp_all add: s' s1 False)
qed

lemma answer_questionD:
  assumes "answer_question p cid r mid s = Inr s'"
  obtains qs where "s' = s\<lparr>responses := qs\<rparr>"
proof (cases "cp_response_to r = []")
  case True
  then have "s' = s\<lparr>responses := responses s\<rparr>" using assms by (simp add: answer_question_def)
  then show thesis by (rule that)
next
  case False
  then show thesis using assms that by (auto simp: answer_question_def Let_def bindE_Inr_iff)
qed

text \<open>The whole of it: the tables after a post, with the message it stored.\<close>

lemma store_postD:
  assumes "store_post env p c r fresh dig s = Inr (res, s')"
  obtains mid ch e k qs hs m where "row_by ch_id (c_id c) (channels s) = Some ch"
    "mid \<notin> mr_id ` set (messages (base s))"
    "messages (base s') = messages (base s) @ [posted_row env p c r mid (ch_next_seq ch)]"
    "managed s' = managed s @ map (managed_row mid) (filter (\<lambda>a. a \<noteq> pr_actor p) (c_participants c))"
    "references s' = references s @ map (\<lambda>f. \<lparr>rf_message = mid, rf_source = cf_source f, rf_relation = cf_relation f\<rparr>) (cp_references r)"
    "base s' = (base s)\<lparr>db_ids := k, messages := messages (base s'), outbox := fold (request_attention env mid) (cp_attention r) (outbox (base s))\<rparr>"
    "channels s' = update_where (\<lambda>x. ch_id x = c_id c) bump_seq (channels s)"
    "channel_events s' = channel_events s @ [e]" "ce_channel e = c_id c" "ce_seq e = ch_next_seq ch" "ce_kind e = ''message.posted''"
    "ce_message e = mid" "threads s' = threads s @ hs" "hs = (if fresh then [\<lparr>th_channel = c_id c, th_thread = cp_thread r, th_root = mid\<rparr>] else [])"
    "requests s' = requests s @ [\<lparr>rq_message = mid, rq_digest = dig\<rparr>]" "responses s' = qs"
    "channelMessageTx env p mid s' = Inr m"
    "res = \<lparr>pt_message = m, pt_duplicate = False, pt_recipients = filter (\<lambda>a. a \<noteq> pr_actor p) (c_participants c)\<rparr>"
    "log_ok s \<Longrightarrow> log_ok s'"
proof -
  let ?to = "filter (\<lambda>a. a \<noteq> pr_actor p) (c_participants c)"
  let ?refs = "\<lambda>mid. map (\<lambda>f. \<lparr>rf_message = mid, rf_source = cf_source f, rf_relation = cf_relation f\<rparr>) (cp_references r)"
  obtain mid s1 seq s2 s3 s4 where id: "with_base (newID env ''msg'') s = Inr (mid, s1)"
    and ev: "channelEventTx env (c_id c) ''message.posted'' (pr_actor p) mid JNull s1 = Inr (seq, s2)"
    and ins: "insert_message (posted_row env p c r mid seq) s2 = Inr s3"
    and th: "open_thread fresh (c_id c) (cp_thread r) mid s3 = Inr s4"
    and rest: "(let s5 = s4\<lparr>managed := managed s4 @ map (managed_row mid) ?to, references := references s4 @ ?refs mid\<rparr>;
        s6 = s5\<lparr>base := (base s5)\<lparr>outbox := fold (request_attention env mid) (cp_attention r) (outbox (base s5))\<rparr>\<rparr> in
      bindE (ask_response env p (c_id c) mid (cp_respondent r) s6) (\<lambda>s7.
      bindE (answer_question p (c_id c) r mid s7) (\<lambda>s8.
      bindE (record_request mid dig s8) (\<lambda>s9.
      bindE (channelMessageTx env p mid s9) (\<lambda>m.
      Inr (\<lparr>pt_message = m, pt_duplicate = False, pt_recipients = ?to\<rparr>, s9)))))) = Inr (res, s')"
    using assms unfolding store_post_def Let_def bindE_Inr_iff by (auto simp: bindE_Inr_iff)
  define s5 where "s5 = s4\<lparr>managed := managed s4 @ map (managed_row mid) ?to, references := references s4 @ ?refs mid\<rparr>"
  define s6 where "s6 = s5\<lparr>base := (base s5)\<lparr>outbox := fold (request_attention env mid) (cp_attention r) (outbox (base s5))\<rparr>\<rparr>"
  obtain s7 s8 m where as: "ask_response env p (c_id c) mid (cp_respondent r) s6 = Inr s7"
    and an: "answer_question p (c_id c) r mid s7 = Inr s8" and rec: "record_request mid dig s8 = Inr s'"
    and m: "channelMessageTx env p mid s' = Inr m" and res: "res = \<lparr>pt_message = m, pt_duplicate = False, pt_recipients = ?to\<rparr>"
    using rest unfolding s5_def [symmetric] s6_def [symmetric] Let_def by (auto simp: bindE_Inr_iff)
  note s1 = with_base_newID [OF id] and s3 = insert_messageD [OF ins]
  obtain ch e where ch: "row_by ch_id (c_id c) (channels s1) = Some ch" "seq = ch_next_seq ch"
    and s2: "s2 = s1\<lparr>channels := update_where (\<lambda>x. ch_id x = c_id c) bump_seq (channels s1), channel_events := channel_events s1 @ [e]\<rparr>"
    and e: "ce_channel e = c_id c" "ce_seq e = seq" "ce_kind e = ''message.posted''" "ce_message e = mid"
    by (rule channelEventD [OF ev])
  obtain hs where s4: "s4 = s3\<lparr>threads := threads s3 @ hs\<rparr>"
    and hs: "hs = (if fresh then [\<lparr>th_channel = c_id c, th_thread = cp_thread r, th_root = mid\<rparr>] else [])"
    by (rule open_threadD [OF th])
  obtain qs k where s7: "s7 = s6\<lparr>responses := responses s6 @ qs, base := (base s6)\<lparr>db_ids := k\<rparr>\<rparr>" by (rule ask_responseD [OF as])
  obtain qs' where s8: "s8 = s7\<lparr>responses := qs'\<rparr>" by (rule answer_questionD [OF an])
  have s': "s' = s8\<lparr>requests := requests s8 @ [\<lparr>rq_message = mid, rq_digest = dig\<rparr>]\<rparr>"
    using rec by (auto simp: record_request_def bindE_Inr_iff)
  note all = s' s8 s7 s6_def s5_def s4 s3(1) s2 s1
  have "log_ok s2" if "log_ok s" using channelEvent_log_ok [OF ev log_ok_same [OF _ _ that]] s1 by simp
  then have log: "log_ok s'" if "log_ok s" by (rule log_ok_same [rotated 2]) (simp_all add: that all)
  have chs: "channels s1 = channels s" "messages (base s2) = messages (base s)" by (simp_all add: s1 s2)
  have ms: "messages (base s') = messages (base s) @ [posted_row env p c r mid (ch_next_seq ch)]" by (simp add: all ch(2))
  have man: "managed s' = managed s @ map (managed_row mid) ?to" by (simp add: all)
  have refs: "references s' = references s @ ?refs mid" by (simp add: all)
  have b: "base s' = (base s)\<lparr>db_ids := k, messages := messages (base s'), outbox := fold (request_attention env mid) (cp_attention r) (outbox (base s))\<rparr>"
    by (simp add: all)
  have cs: "channels s' = update_where (\<lambda>x. ch_id x = c_id c) bump_seq (channels s)" by (simp add: all)
  have evs: "channel_events s' = channel_events s @ [e]" and ths: "threads s' = threads s @ hs"
    and rqs: "requests s' = requests s @ [\<lparr>rq_message = mid, rq_digest = dig\<rparr>]" and rss: "responses s' = qs'" by (simp_all add: all)
  show thesis
    by (rule that [OF ch(1) [unfolded chs] s3(2) [unfolded chs posted_row_simps] ms man refs b cs evs e(1) e(2) [unfolded ch(2)] e(3,4) ths hs rqs rss m res log])
qed

subsection \<open>The checks before the writes\<close>

text \<open>Fields of the request the checks leave alone.\<close>

definition same_post :: "channel_post \<Rightarrow> channel_post \<Rightarrow> bool" where
  "same_post r r' \<longleftrightarrow> cp_channel r' = cp_channel r \<and> cp_key r' = cp_key r \<and> cp_body r' = cp_body r \<and> cp_attention r' = cp_attention r \<and>
     cp_respondent r' = cp_respondent r \<and> cp_response_to r' = cp_response_to r \<and>
     cp_response_revision r' = cp_response_revision r \<and> cp_references r' = cp_references r"

lemma take_question_same: "take_question s cid a r = Inr r' \<Longrightarrow> same_post r r'"
  by (auto simp: take_question_def same_post_def bindE_Inr_iff split: if_splits option.splits)

lemma take_parentD:
  assumes "take_parent env p s cid r = Inr r'"
  shows "same_post r r'" "cp_in_reply_to r' = cp_in_reply_to r"
    "cp_in_reply_to r' \<noteq> [] \<Longrightarrow> \<exists>m. channelMessageTx env p (cp_in_reply_to r') s = Inr m \<and> cm_channel m = cid"
  using assms by (auto simp: take_parent_def same_post_def bindE_Inr_iff requireE_Inr_iff split: if_splits)

lemma check_references_read:
  "check_references env p s seen rs = Inr u \<Longrightarrow> f \<in> set rs \<Longrightarrow> \<exists>m. channelMessageTx env p (cf_source f) s = Inr m"
  by (induction rs arbitrary: seen u) (auto simp: bindE_Inr_iff)

lemma check_references_distinct:
  "check_references env p s seen rs = Inr u \<Longrightarrow> distinct (map cf_source rs) \<and> set (map cf_source rs) \<inter> set seen = {}"
proof (induction rs arbitrary: seen u)
  case (Cons r rs)
  have "check_references env p s (cf_source r # seen) rs = Inr u" "cf_source r \<notin> set seen"
    using Cons(2) by (auto simp: bindE_Inr_iff requireE_Inr_iff)
  then show ?case using Cons(1) by fastforce
qed simp

lemma check_attentionD:
  "check_attention member sender seen as = Inr u \<Longrightarrow>
    distinct as \<and> set as \<inter> set seen = {} \<and> set as \<subseteq> set member \<and> sender \<notin> set as"
proof (induction as arbitrary: seen)
  case (Cons a as)
  have "check_attention member sender (a # seen) as = Inr u" "a \<notin> set seen" "a \<in> set member" "a \<noteq> sender"
    using Cons(2) by (auto split: if_splits)
  then show ?case using Cons(1) by fastforce
qed simp

lemma check_audienceD:
  assumes "check_audience env p c r s = Inr u"
  shows "distinct (cp_attention r)" "set (cp_attention r) \<subseteq> set (c_participants c) - {pr_actor p}"
    "cp_respondent r \<noteq> [] \<Longrightarrow> cp_respondent r \<in> set (c_participants c) - {pr_actor p}"
    "f \<in> set (cp_references r) \<Longrightarrow> \<exists>m. channelMessageTx env p (cf_source f) s = Inr m"
proof -
  obtain u' where a: "check_attention (c_participants c) (pr_actor p) [] (cp_attention r) = Inr u'"
    and f: "check_references env p s [] (cp_references r) = Inr u"
    and w: "\<not> (cp_respondent r \<noteq> [] \<and> (cp_respondent r \<notin> set (c_participants c) \<or> cp_respondent r = pr_actor p))"
    using assms unfolding check_audience_def bindE_Inr_iff requireE_Inr_iff by blast
  show "distinct (cp_attention r)" "set (cp_attention r) \<subseteq> set (c_participants c) - {pr_actor p}"
    using check_attentionD [OF a] by auto
  show "cp_respondent r \<noteq> [] \<Longrightarrow> cp_respondent r \<in> set (c_participants c) - {pr_actor p}" using w by blast
  show "f \<in> set (cp_references r) \<Longrightarrow> \<exists>m. channelMessageTx env p (cf_source f) s = Inr m"
    by (rule check_references_read [OF f])
qed

lemma post_newD:
  assumes "post_new env p c r dig s = Inr (res, s')"
  obtains r2 :: channel_post and r3 s1 where "cp_expected_revision r = c_revision c" "same_post r r3" "cp_thread r3 = cp_thread r2 \<or> cp_thread r2 = []"
    "cp_in_reply_to r3 \<noteq> [] \<longrightarrow> (\<exists>m. channelMessageTx env p (cp_in_reply_to r3) s = Inr m \<and> cm_channel m = c_id c)"
    "cp_thread r2 \<noteq> [] \<longrightarrow> (c_id c, cp_thread r3) \<in> (\<lambda>h. (th_channel h, th_thread h)) ` set (threads s)"
    "\<exists>k. s1 = s\<lparr>base := (base s)\<lparr>db_ids := k\<rparr>\<rparr>"
    "check_audience env p c r3 s1 = Inr ()" "store_post env p c r3 (cp_thread r2 = []) dig s1 = Inr (res, s')"
proof -
  obtain r1 r2 r3 s1 where rev: "cp_expected_revision r = c_revision c" and q: "take_question s (c_id c) (pr_actor p) r = Inr r1"
    and par: "take_parent env p s (c_id c) r1 = Inr r2" and kn: "known_thread s (c_id c) (cp_thread r2) = Inr ()"
    and th: "(if cp_thread r2 = [] then bindE (with_base (newID env ''thr'') s) (\<lambda>(t, s1). Inr (r2\<lparr>cp_thread := t\<rparr>, s1)) else Inr (r2, s)) = Inr (r3, s1)"
    and au: "check_audience env p c r3 s1 = Inr ()" and st: "store_post env p c r3 (cp_thread r2 = []) dig s1 = Inr (res, s')"
    using assms unfolding post_new_def bindE_Inr_iff requireE_Inr_iff split_paired_Ex prod.case
    by (elim exE conjE) (rule that, assumption+, simp_all)
  have s1: "\<exists>k. s1 = s\<lparr>base := (base s)\<lparr>db_ids := k\<rparr>\<rparr>"
    using th by (auto simp: bindE_Inr_iff split: if_splits dest!: with_base_newID intro: exI [of _ "db_ids (base s)"])
  have r3: "\<exists>t. r3 = r2\<lparr>cp_thread := t\<rparr> \<and> (cp_thread r2 \<noteq> [] \<longrightarrow> r3 = r2)"
    using th by (auto simp: bindE_Inr_iff split: if_splits intro: exI [of _ "cp_thread r2"])
  have thr: "(c_id c, cp_thread r3) \<in> (\<lambda>h. (th_channel h, th_thread h)) ` set (threads s)" if "cp_thread r2 \<noteq> []"
    using kn that r3 by (auto simp: known_thread_def requireE_Inr_iff list_ex_iff intro: rev_image_eqI)
  have re: "\<exists>m. channelMessageTx env p (cp_in_reply_to r3) s = Inr m \<and> cm_channel m = c_id c" if "cp_in_reply_to r3 \<noteq> []"
    using take_parentD(3) [OF par] r3 that by auto
  have same: "same_post r r3" using take_question_same [OF q] take_parentD(1) [OF par] r3 by (auto simp: same_post_def)
  have t3: "cp_thread r3 = cp_thread r2 \<or> cp_thread r2 = []" using r3 by auto
  show thesis by (rule that [OF rev same t3 _ _ s1 au st]) (use re thr in blast)+
qed

subsection \<open>A post keeps the invariant\<close>

lemma request_attention_wakes: "wakes_ok rows \<Longrightarrow> wakes_ok (request_attention env mid a rows)"
  by (auto simp: request_attention_def intro: wakes_ok_append)

lemma participants_distinct: "channelTx p cid s = Inr c \<Longrightarrow> distinct (c_participants c)"
  by (erule channelTxD) (simp add: grouped_actors_def)

lemma managed_rows_shape: "list_all managed_shape (map (managed_row mid) as)"
  by (simp add: list_all_iff managed_row_def managed_shape_def)

lemma store_post_extends:
  assumes "store_post env p c r fresh dig s = Inr (res, s')"
  shows "extends s s'"
  using assms
proof (rule store_postD)
  fix ch mid e k hs qs m
  assume *: "messages (base s') = messages (base s) @ [posted_row env p c r mid (ch_next_seq ch)]"
    "references s' = references s @ map (\<lambda>f. \<lparr>rf_message = mid, rf_source = cf_source f, rf_relation = cf_relation f\<rparr>) (cp_references r)"
    "base s' = (base s)\<lparr>db_ids := k, messages := messages (base s'), outbox := fold (request_attention env mid) (cp_attention r) (outbox (base s))\<rparr>"
    "channels s' = update_where (\<lambda>x. ch_id x = c_id c) bump_seq (channels s)"
    "channel_events s' = channel_events s @ [e]" "threads s' = threads s @ hs"
  have "grants (base s') = grants (base s)" by (subst *(3)) simp
  then have "channels_extend s s'"
    unfolding channels_extend_def *(4)
    by (auto simp: bump_seq_upd.row_by_update later_channel_def same_channel_def bump_seq_def live_grants_def)
  then show ?thesis by (simp add: extends_def *(1,2,5,6))
qed

lemma store_post_managed_ok:
  assumes "managed_ok s" and "messages (base s') = messages (base s) @ [x]" and "mr_id x \<notin> mr_id ` set (messages (base s))"
    and "mr_conversation x = Some cid" and "managed s' = managed s @ map (managed_row (mr_id x)) as" and "distinct as"
  shows "managed_ok s'"
proof -
  have old: "\<exists>cid. \<exists>m\<in>set (channel_messages s cid). mr_id m = dl_message_id d" if "d \<in> set (managed s)" for d
    using assms(1) that by (simp add: managed_ok_def)
  have sub: "set (channel_messages s cid') \<subseteq> set (channel_messages s' cid')" for cid' by (auto simp: channel_messages_def assms(2))
  have "dl_message_id d \<noteq> mr_id x" if d: "d \<in> set (managed s)" for d
  proof -
    obtain m where "m \<in> set (messages (base s))" "mr_id m = dl_message_id d"
      using old [OF d] by (auto simp: in_channel_messages)
    then show ?thesis using assms(3) by (metis image_eqI)
  qed
  then have "distinct (map delivery_key (managed s'))"
    using assms(1,6) by (auto simp: managed_ok_def assms(5) managed_row_def distinct_map inj_on_def)
  moreover have "\<exists>cid. \<exists>m\<in>set (channel_messages s' cid). mr_id m = dl_message_id d" if "d \<in> set (managed s')" for d
  proof (cases "d \<in> set (managed s)")
    case True
    then show ?thesis using old sub by blast
  next
    case False
    then have "dl_message_id d = mr_id x" using that by (auto simp: assms(5) managed_row_def)
    moreover have "x \<in> set (channel_messages s' cid)" by (simp add: in_channel_messages assms(2,4))
    ultimately show ?thesis by metis
  qed
  moreover have "list_all managed_shape (managed s')"
    using assms(1) managed_rows_shape by (simp add: managed_ok_def assms(5))
  ultimately show ?thesis unfolding managed_ok_def by blast
qed

lemma store_post_posts_ok:
  assumes "posts_ok s" and "messages (base s') = messages (base s) @ [x]" and "mr_id x \<notin> mr_id ` set (messages (base s))"
    and "(mr_from_actor x, mr_idempotency_key x) \<notin> (\<lambda>m. (mr_from_actor m, mr_idempotency_key m)) ` set (messages (base s))"
    and "mr_conversation x = Some cid" and "row_by ch_id cid (channels s) = Some ch" and "mr_channel_seq x = Some (ch_next_seq ch)"
    and "post_ok s' x cid" and "rows_grow s s'"
    and "\<And>r. r \<in> set (references s') \<Longrightarrow> r \<in> set (references s) \<or> (\<exists>cid. \<exists>m\<in>set (channel_messages s cid). mr_id m = rf_source r)"
  shows "posts_ok s'"
proof -
  have sub: "set (channel_messages s cid') \<subseteq> set (channel_messages s' cid')" for cid' by (auto simp: channel_messages_def assms(2))
  have ok: "messages_ok (base s')"
    using assms(1,3,4) by (auto simp: posts_ok_def messages_ok_def assms(2))
  have posts: "post_ok s' m cid'" if "m \<in> set (messages (base s'))" "mr_conversation m = Some cid'" for m cid'
    using that post_ok_grow [OF posts_okD [OF assms(1)] assms(9) sub] assms(5,8) by (auto simp: assms(2))
  have fresh: "mr_channel_seq m \<noteq> mr_channel_seq x" if m: "m \<in> set (messages (base s))" "mr_conversation m = Some cid" for m
  proof -
    obtain c n where "row_by ch_id cid (channels s) = Some c" "mr_channel_seq m = Some n" "n < ch_next_seq c"
      by (rule post_channel [OF assms(1) m])
    then show ?thesis using assms(6,7) by simp
  qed
  have seqs: "m = m'" if "m \<in> set (messages (base s'))" "m' \<in> set (messages (base s'))" "mr_conversation m \<noteq> None"
    "mr_conversation m = mr_conversation m'" "mr_channel_seq m = mr_channel_seq m'" for m m'
  proof -
    have "m = m'" if "m \<in> set (messages (base s))" "m' \<in> set (messages (base s))"
      using that assms(1) \<open>mr_conversation m \<noteq> None\<close> \<open>mr_conversation m = mr_conversation m'\<close> \<open>mr_channel_seq m = mr_channel_seq m'\<close>
      unfolding posts_ok_def by blast
    moreover have "m \<noteq> x" if "m \<in> set (messages (base s))" for m using that assms(3) by blast
    moreover have "mr_conversation x = Some cid" by (rule assms(5))
    ultimately show ?thesis using that fresh [of m] fresh [of m'] unfolding assms(2) set_append list.set by (metis Un_iff insertE empty_iff)
  qed
  have refs: "\<exists>cid. \<exists>m\<in>set (channel_messages s' cid). mr_id m = rf_source r" if "r \<in> set (references s')" for r
    using assms(10) [OF that] sub assms(1) unfolding posts_ok_def by blast
  show ?thesis unfolding posts_ok_def using ok posts seqs refs by blast
qed

end
