(* ===== verification/ChannelMoves.thy ===== *)
theory ChannelMoves
  imports ChannelSteps
begin

text \<open>
  The remaining operations on conversations, one lemma each: a post, supervision, membership,
  views, deliveries, questions, attention and the managed wake-ups extend the store and keep its
  invariant, and so does every operation of the bus beside them.
\<close>

section \<open>Posting\<close>

lemma newID_state: "s1 = s\<lparr>base := (base s)\<lparr>db_ids := k\<rparr>\<rparr> \<Longrightarrow> extends s s1 \<and> (chat_ok s \<longrightarrow> chat_ok s1)"
  using chat_ok_base [of s s1] extends_same [of s1 s] by (simp add: same_base_changes)

lemma channelTx_ids:
  assumes "s1 = s\<lparr>base := (base s)\<lparr>db_ids := k\<rparr>\<rparr>"
  shows "channelTx p cid s1 = channelTx p cid s"
proof -
  have g: "live_grants s1 = live_grants s" "channel_messages s1 = channel_messages s"
    by (simp_all add: fun_eq_iff assms live_grants_def channel_messages_def)
  have a: "grants_of s1 = grants_of s" "channels s1 = channels s" by (simp add: fun_eq_iff grants_of_def g, simp add: assms)
  have b: "may_post s1 = may_post s" by (simp add: fun_eq_iff may_post_def a)
  have c: "last_message_seq s1 = last_message_seq s" "open_questions s1 = open_questions s"
    by (simp_all add: fun_eq_iff last_message_seq_def open_questions_def g) (simp_all add: assms)
  show ?thesis unfolding channelTx_def a b c g ..
qed

lemma read_ids:
  assumes "s1 = s\<lparr>base := (base s)\<lparr>db_ids := k\<rparr>\<rparr>"
  shows "channelMessageTx env p mid s1 = channelMessageTx env p mid s"
proof -
  note tx = channelTx_ids [OF assms]
  have a: "visible_parent s1 = visible_parent s" "messages (base s1) = messages (base s)" "responses s1 = responses s" "reference_sources s1 = reference_sources s"
    by (simp_all add: fun_eq_iff assms visible_parent_def reference_sources_def)
  have b: "shown_reference env p s1 = shown_reference env p s" by (simp add: fun_eq_iff shown_reference_def tx)
  show ?thesis unfolding channelMessageTx_def a b tx ..
qed

lemma prior_post_None:
  assumes "prior_post s a key = None"
  shows "(a, key) \<notin> (\<lambda>m. (mr_from_actor m, mr_idempotency_key m)) ` set (messages (base s))"
  using assms by (auto simp: prior_post_def row_by_None_key split: option.splits)

lemma message_in_channel:
  assumes "channelMessageTx env p mid s = Inr m"
  shows "\<exists>m'\<in>set (channel_messages s (cm_channel m)). mr_id m' = mid"
  using assms by (rule channelMessageD) (auto simp: in_channel_messages)

lemma store_post_chat_ok:
  assumes ok: "chat_ok s" and st: "store_post env p c r fresh dig s = Inr (res, s')" and to: "distinct (c_participants c)"
    and new: "(pr_actor p, cp_key r) \<notin> (\<lambda>m. (mr_from_actor m, mr_idempotency_key m)) ` set (messages (base s))"
    and parent: "cp_in_reply_to r \<noteq> [] \<longrightarrow> (\<exists>m. channelMessageTx env p (cp_in_reply_to r) s = Inr m \<and> cm_channel m = c_id c)"
    and thread: "\<not> fresh \<longrightarrow> (c_id c, cp_thread r) \<in> (\<lambda>h. (th_channel h, th_thread h)) ` set (threads s)"
    and refs: "\<And>f. f \<in> set (cp_references r) \<Longrightarrow> \<exists>m. channelMessageTx env p (cf_source f) s = Inr m"
  shows "chat_ok s'"
  using st
proof (rule store_postD)
  fix mid k hs and ch :: channel_row
  let ?x = "posted_row env p c r mid (ch_next_seq ch)"
  assume ch: "row_by ch_id (c_id c) (channels s) = Some ch" and mid: "mid \<notin> mr_id ` set (messages (base s))"
    and ms: "messages (base s') = messages (base s) @ [?x]"
    and man: "managed s' = managed s @ map (managed_row mid) (filter (\<lambda>a. a \<noteq> pr_actor p) (c_participants c))"
    and rf: "references s' = references s @ map (\<lambda>f. \<lparr>rf_message = mid, rf_source = cf_source f, rf_relation = cf_relation f\<rparr>) (cp_references r)"
    and b: "base s' = (base s)\<lparr>db_ids := k, messages := messages (base s'), outbox := fold (request_attention env mid) (cp_attention r) (outbox (base s))\<rparr>"
    and cs: "channels s' = update_where (\<lambda>x. ch_id x = c_id c) bump_seq (channels s)"
    and ths: "threads s' = threads s @ hs" and hs: "hs = (if fresh then [\<lparr>th_channel = c_id c, th_thread = cp_thread r, th_root = mid\<rparr>] else [])"
    and log: "log_ok s \<Longrightarrow> log_ok s'"
  have grow: "rows_grow s s'" by (rule extends_rows_grow [OF store_post_extends [OF st]])
  have ok': "store_ok (base s)" "log_ok s" "posts_ok s" "managed_ok s" using ok by (simp_all add: chat_ok_def)
  have ch1: "1 \<le> ch_next_seq ch" using ok'(2) row_by_SomeD [OF ch] by (auto simp: log_ok_def)
  have "post_ok s' ?x (c_id c)"
  proof -
    have "row_by ch_id (c_id c) (channels s') = Some (bump_seq ch)" using ch row_by_SomeD [OF ch] by (simp add: cs bump_seq_upd.row_by_update)
    moreover have "(c_id c, cp_thread r) \<in> (\<lambda>h. (th_channel h, th_thread h)) ` set (threads s')"
      using thread by (cases fresh) (auto simp: ths hs)
    moreover have "\<exists>m'\<in>set (channel_messages s' (c_id c)). mr_id m' = q" if "mr_in_reply_to ?x = Some q" for q
    proof -
      have "cp_in_reply_to r = q" "q \<noteq> []" using that by (auto simp: nullif_def split: if_splits)
      then obtain m where m: "channelMessageTx env p q s = Inr m" "cm_channel m = c_id c" using parent by blast
      have "set (channel_messages s (c_id c)) \<subseteq> set (channel_messages s' (c_id c))" by (auto simp: channel_messages_def ms)
      then show ?thesis using message_in_channel [OF m(1)] unfolding m(2) by blast
    qed
    ultimately show ?thesis using ch1 by (simp add: post_ok_def bump_seq_def)
  qed
  moreover have "f \<in> set (references s) \<or> (\<exists>cid. \<exists>m\<in>set (channel_messages s cid). mr_id m = rf_source f)" if f: "f \<in> set (references s')" for f
  proof (cases "f \<in> set (references s)")
    case False
    then obtain g where g: "g \<in> set (cp_references r)" "rf_source f = cf_source g" using f by (auto simp: rf)
    obtain m where "channelMessageTx env p (cf_source g) s = Inr m" using refs [OF g(1)] by blast
    then show ?thesis using message_in_channel g(2) by metis
  qed simp
  ultimately have posts: "posts_ok s'"
    by (intro store_post_posts_ok [OF ok'(3) ms _ _ _ ch _ _ grow]) (use mid new in simp_all)
  have managed: "managed_ok s'"
    by (rule store_post_managed_ok [OF ok'(4) ms, where as = "filter (\<lambda>a. a \<noteq> pr_actor p) (c_participants c)"])
      (use mid man to in simp_all)
  have leg: "legacy_messages (base s') = legacy_messages (base s)" by (simp add: legacy_messages_def ms)
  have frame: "events (base s') = events (base s)" "counters (base s') = counters (base s)" "deliveries (base s') = deliveries (base s)"
    "registrations (base s') = registrations (base s)" "aliases (base s') = aliases (base s)" "alias_history (base s') = alias_history (base s)"
    "alias_claims (base s') = alias_claims (base s)" "adoptions (base s') = adoptions (base s)" "continuity (base s') = continuity (base s)"
    "conditions (base s') = conditions (base s)" "grants (base s') = grants (base s)"
    "outbox (base s') = fold (request_attention env mid) (cp_attention r) (outbox (base s))"
    by (subst b, simp)+
  have changes: "changes {TMessages, TOutbox} (base s) (base s')"
    using events_ok_cong [of "base s'" "base s"] by (simp add: changes_iff frame)
  have wakes: "outbox_ok (base s') \<and> counts_ok (base s')"
    unfolding outbox_wakes frame by (rule wakes_ok_fold) (use request_attention_wakes store_ok_wakesD [OF ok'(1)] in blast)+
  have "store_ok (base s')"
    by (rule store_ok_keep [OF changes ok'(1)])
      (use posts wakes leg frame(3) ok'(1) in \<open>auto simp: posts_ok_def store_ok_def deliveries_ok_def\<close>)
  then show ?thesis using posts managed log ok'(2) by (simp add: chat_ok_def)
qed

lemma ChannelPost_cases:
  assumes "ChannelPost env digest p r s = Inr (res, s')"
  obtains (again) mid m where "s' = s" "pt_duplicate res" "prior_post s (pr_actor p) (cp_key r) = Some (mid, digestRequest digest (post_json r))"
      "channelMessageTx env p mid s = Inr m" "pt_message res = m"
  | (posted) c where "channelTx p (cp_channel r) s = Inr c" "c_can_post c" "prior_post s (pr_actor p) (cp_key r) = None"
      "assertActorNotAdopted (base s) (pr_actor p) = Inr ()" "post_new env p c r (digestRequest digest (post_json r)) s = Inr (res, s')"
proof -
  let ?dig = "digestRequest digest (post_json r)"
  obtain c where c: "channelTx p (cp_channel r) s = Inr c" "c_can_post c" "assertActorNotAdopted (base s) (pr_actor p) = Inr ()"
    and rest: "(case prior_post s (pr_actor p) (cp_key r) of
      Some (mid, prior) \<Rightarrow>
        bindE (requireE (?dig = prior) ErrIdempotencyConflict) (\<lambda>_.
        bindE (channelMessageTx env p mid s) (\<lambda>m.
        Inr (\<lparr>pt_message = m, pt_duplicate = True, pt_recipients = managedRecipients s mid\<rparr>, s)))
    | None \<Rightarrow> post_new env p c r ?dig s) = Inr (res, s')"
    using assms unfolding ChannelPost_def channelPostTx_def Let_def bindE_Inr_iff requireE_Inr_iff by (elim exE conjE) (rule that, simp_all)
  show thesis
  proof (cases "prior_post s (pr_actor p) (cp_key r)")
    case None
    then show thesis using posted c rest by simp
  next
    case (Some x)
    then show thesis using again rest by (cases x) (auto simp: bindE_Inr_iff requireE_Inr_iff)
  qed
qed

lemma ChannelPost_keeps:
  assumes "ChannelPost env digest p r s = Inr (res, s')"
  shows "extends s s'" "chat_ok s \<Longrightarrow> chat_ok s'"
proof -
  have "extends s s' \<and> (chat_ok s \<longrightarrow> chat_ok s')"
    using assms
  proof (cases rule: ChannelPost_cases)
    case (posted c)
    from posted(5) show ?thesis
    proof (rule post_newD)
      fix r2 :: channel_post and r3 s1
      assume same: "same_post r r3" and par: "cp_in_reply_to r3 \<noteq> [] \<longrightarrow> (\<exists>m. channelMessageTx env p (cp_in_reply_to r3) s = Inr m \<and> cm_channel m = c_id c)"
        and thr: "cp_thread r2 \<noteq> [] \<longrightarrow> (c_id c, cp_thread r3) \<in> (\<lambda>h. (th_channel h, th_thread h)) ` set (threads s)"
        and s1: "\<exists>k. s1 = s\<lparr>base := (base s)\<lparr>db_ids := k\<rparr>\<rparr>" and au: "check_audience env p c r3 s1 = Inr ()"
        and st: "store_post env p c r3 (cp_thread r2 = []) (digestRequest digest (post_json r)) s1 = Inr (res, s')"
      obtain k where k: "s1 = s\<lparr>base := (base s)\<lparr>db_ids := k\<rparr>\<rparr>" using s1 by blast
      note n = newID_state [OF k]
      have "chat_ok s'" if "chat_ok s"
      proof (rule store_post_chat_ok [OF _ st participants_distinct [OF posted(1)]])
        show "chat_ok s1" using n that by blast
        have key: "cp_key r3 = cp_key r" using same by (simp add: same_post_def)
        show "(pr_actor p, cp_key r3) \<notin> (\<lambda>m. (mr_from_actor m, mr_idempotency_key m)) ` set (messages (base s1))"
          using prior_post_None [OF posted(3)] unfolding key by (simp add: k)
        show "\<not> cp_thread r2 = [] \<longrightarrow> (c_id c, cp_thread r3) \<in> (\<lambda>h. (th_channel h, th_thread h)) ` set (threads s1)"
          using thr by (simp add: k)
        show "cp_in_reply_to r3 \<noteq> [] \<longrightarrow> (\<exists>m. channelMessageTx env p (cp_in_reply_to r3) s1 = Inr m \<and> cm_channel m = c_id c)"
          using par read_ids [OF k] by simp
        show "\<exists>m. channelMessageTx env p (cf_source f) s1 = Inr m" if "f \<in> set (cp_references r3)" for f
          by (rule check_audienceD(4) [OF au that])
      qed
      then show ?thesis using n extends_trans store_post_extends [OF st] by blast
    qed
  qed simp
  then show "extends s s'" "chat_ok s \<Longrightarrow> chat_ok s'" by blast+
qed

section \<open>Supervision and membership\<close>

text \<open>Whoever changes the audience of one channel also raises that channel's policy revision.\<close>

lemma bump_revision_simps [simp]:
  "base (bump_revision cid s) = base s" "channel_events (bump_revision cid s) = channel_events s" "threads (bump_revision cid s) = threads s"
  "references (bump_revision cid s) = references s" "managed (bump_revision cid s) = managed s" "operations (bump_revision cid s) = operations s"
  "live_grants (bump_revision cid s) = live_grants s"
  by (simp_all add: bump_revision_def live_grants_def fun_eq_iff)

lemma audience_step:
  assumes ev: "channelEventTx env cid kind a mid pl s = Inr (n, s1)"
    and same: "channels s2 = channels s1" "channel_events s2 = channel_events s1" "threads s2 = threads s1"
      "messages (base s2) = messages (base s1)" "references s2 = references s1"
    and others: "\<And>cid'. cid' \<noteq> cid \<Longrightarrow> live_grants s2 cid' = live_grants s1 cid'"
  shows "extends s (bump_revision cid s2)"
proof (rule extends_trans [OF channelEvent_extends [OF ev]])
  have "channels_extend s1 (bump_revision cid s2)"
    unfolding channels_extend_def
  proof (intro allI impI)
    fix cid' c assume c: "row_by ch_id cid' (channels s1) = Some c"
    then have id: "ch_id c = cid'" using row_by_SomeD by fastforce
    let ?c = "if cid' = cid then c\<lparr>ch_revision := ch_revision c + 1\<rparr> else c"
    have "row_by ch_id cid' (channels (bump_revision cid s2)) = Some ?c"
      unfolding bump_revision_def using c id by (simp add: same(1) bump_revision_upd.row_by_update)
    moreover have "later_channel s1 (bump_revision cid s2) c ?c"
      using others id by (auto simp: later_channel_def same_channel_def)
    ultimately show "\<exists>c'. row_by ch_id cid' (channels (bump_revision cid s2)) = Some c' \<and> later_channel s1 (bump_revision cid s2) c c'" by blast
  qed
  then show "extends s1 (bump_revision cid s2)" by (simp add: extends_def same)
qed

lemma revoke_grants_simps [simp]:
  "channels (revoke_grants q n s) = channels s" "channel_events (revoke_grants q n s) = channel_events s"
  "threads (revoke_grants q n s) = threads s" "references (revoke_grants q n s) = references s"
  "managed (revoke_grants q n s) = managed s" "messages (base (revoke_grants q n s)) = messages (base s)"
  "outbox (base (revoke_grants q n s)) = outbox (base s)"
  by (simp_all add: revoke_grants_def)

lemma revoke_grants_chat_ok: "chat_ok s \<Longrightarrow> chat_ok (revoke_grants q n s)"
  unfolding revoke_grants_def by (rule grants_chat_ok)

lemma change_supervisor_keeps:
  assumes "change_supervisor env p agent human scope cid s = Inr s'"
  shows "extends s s'" "chat_ok s \<Longrightarrow> chat_ok s'"
proof -
  let ?q = "\<lambda>g. cg_channel_id g = cid \<and> cg_source g = supervisor_source agent"
  obtain n s1 s3 where ev: "channelEventTx env cid ''supervision.changed'' (pr_actor p) []
      (JObject [(''agent'', JText agent), (''human'', JText human), (''scope'', JText scope)]) s = Inr (n, s1)"
    and s3: "(if human \<noteq> [] then insert_grant (new_grant cid human (supervisor_source agent) False n) (revoke_grants ?q n s1)
      else Inr (revoke_grants ?q n s1)) = Inr s3"
    and s': "s' = bump_revision cid s3"
    using assms by (auto simp: change_supervisor_def Let_def bindE_Inr_iff)
  obtain gs where gs: "s3 = (revoke_grants ?q n s1)\<lparr>base := (base (revoke_grants ?q n s1))\<lparr>grants := grants (base (revoke_grants ?q n s1)) @ gs\<rparr>\<rparr>"
    "\<forall>g\<in>set gs. cg_channel_id g = cid"
  proof (cases "human = []")
    case True
    show thesis by (rule that [of "[]"]) (use s3 True in simp_all)
  next
    case False
    show thesis by (rule that [of "[new_grant cid human (supervisor_source agent) False n]"])
        (use s3 False insert_grantD in \<open>auto simp: new_grant_def\<close>)
  qed
  have others: "live_grants s3 cid' = live_grants s1 cid'" if "cid' \<noteq> cid" for cid'
  proof -
    have "live_grants s3 cid' = live_grants (revoke_grants ?q n s1) cid'"
      by (rule live_grants_append [where gs = gs]) (use gs that in auto)
    also have "\<dots> = live_grants s1 cid'" by (rule live_grants_revoke) (use that in auto)
    finally show ?thesis .
  qed
  have "channels s3 = channels s1" "channel_events s3 = channel_events s1" "threads s3 = threads s1"
    "messages (base s3) = messages (base s1)" "references s3 = references s1" by (simp_all add: gs(1))
  from audience_step [OF ev this] show "extends s s'" unfolding s' using others by blast
  show "chat_ok s'" if "chat_ok s"
    unfolding s' gs(1) by (intro bump_revision_chat_ok grants_chat_ok revoke_grants_chat_ok event_keeps(2) [OF ev] that)
qed

lemma foldE_keeps:
  assumes "foldE f xs s = Inr s'" and "\<And>x s s'. f x s = Inr s' \<Longrightarrow> extends s s' \<and> (chat_ok s \<longrightarrow> chat_ok s')"
  shows "extends s s' \<and> (chat_ok s \<longrightarrow> chat_ok s')"
  using assms(1)
proof (induction xs arbitrary: s)
  case (Cons x xs)
  obtain s1 where s1: "f x s = Inr s1" "foldE f xs s1 = Inr s'" using Cons(2) by (auto simp: bindE_Inr_iff)
  show ?case using assms(2) [OF s1(1)] Cons(1) [OF s1(2)] extends_trans by blast
qed simp

lemma other_tables_keep:
  assumes "base s' = base s" and "channels s' = channels s" and "channel_events s' = channel_events s" and "threads s' = threads s"
    and "references s' = references s" and "managed s' = managed s"
  shows "extends s s' \<and> (chat_ok s \<longrightarrow> chat_ok s')"
  using assms chat_ok_base [OF _ assms(2-6)] extends_same [OF assms(2)] by simp

lemma SupervisionChange_keeps:
  assumes "SupervisionChange env digest p v human key s = Inr (r, s')"
  shows "extends s s'" "chat_ok s \<Longrightarrow> chat_ok s'"
proof -
  obtain found where found: "channelOperation p ''supervise'' key (digestRequest digest (JArray [preview_json v, JText human])) s = Inr found"
    using assms by (auto simp: SupervisionChange_def Let_def bindE_Inr_iff)
  have "extends s s' \<and> (chat_ok s \<longrightarrow> chat_ok s')"
  proof (cases found)
    case (Some x)
    then show ?thesis using assms found by (auto simp: SupervisionChange_def Let_def bindE_Inr_iff)
  next
    case None
    obtain link s2 cs dig saved where fold: "foldE (change_supervisor env p (sp_agent v) human (sv_scope link)) cs
        (s\<lparr>supervisions := upsert_supervision link (supervisions s)\<rparr>) = Inr s2"
      and sv: "saveChannelOperation p ''supervise'' key dig (ResultSupervision saved) s2 = Inr s'"
      using assms found None unfolding SupervisionChange_def Let_def by (auto simp: bindE_Inr_iff simp del: foldE.simps)
    have "extends (s\<lparr>supervisions := upsert_supervision link (supervisions s)\<rparr>) s2 \<and>
        (chat_ok (s\<lparr>supervisions := upsert_supervision link (supervisions s)\<rparr>) \<longrightarrow> chat_ok s2)"
      by (rule foldE_keeps [OF fold]) (use change_supervisor_keeps in blast)
    moreover have "extends s (s\<lparr>supervisions := upsert_supervision link (supervisions s)\<rparr>) \<and>
        (chat_ok s \<longrightarrow> chat_ok (s\<lparr>supervisions := upsert_supervision link (supervisions s)\<rparr>))"
      by (rule other_tables_keep) simp_all
    ultimately show ?thesis using save_keeps [OF sv] extends_trans by blast
  qed
  then show "extends s s'" "chat_ok s \<Longrightarrow> chat_ok s'" by blast+
qed

text \<open>Updates of the managed deliveries that keep the keys and the shape of the rows.\<close>

lemma managed_update_ok:
  assumes "managed_ok s" and "managed s' = update_where p f (managed s)" and "messages (base s') = messages (base s)"
    and key: "\<And>d. delivery_key (f d) = delivery_key d" and shape: "\<And>d. p d \<Longrightarrow> managed_shape d \<Longrightarrow> managed_shape (f d)"
  shows "managed_ok s'"
proof -
  have ids: "dl_message_id (f d) = dl_message_id d" for d using key [of d] by simp
  have "map delivery_key (update_where p f rows) = map delivery_key rows" for rows using key by (induction rows) auto
  then have keys: "map delivery_key (managed s') = map delivery_key (managed s)" by (simp add: assms(2))
  have cm: "channel_messages s' = channel_messages s" using assms(3) by (simp add: channel_messages_def fun_eq_iff)
  have rows: "managed_shape d' \<and> (\<exists>cid. \<exists>m\<in>set (channel_messages s cid). mr_id m = dl_message_id d')" if d': "d' \<in> set (managed s')" for d'
  proof -
    obtain d where d: "d \<in> set (managed s)" "d' = (if p d then f d else d)" using d' unfolding assms(2) by (auto dest: in_update_whereD)
    then show ?thesis using assms(1) shape ids by (auto simp: managed_ok_def list_all_iff)
  qed
  then show ?thesis using assms(1) unfolding managed_ok_def keys cm list_all_iff by blast
qed

text \<open>Steps that keep channels and messages and touch the managed deliveries and the wake-ups.\<close>

lemma managed_step:
  assumes "channels s' = channels s" and "channel_events s' = channel_events s" and "threads s' = threads s"
    and "references s' = references s" and "changes {TOutbox, TGrants} (base s) (base s')"
    and "wakes_ok (outbox (base s)) \<Longrightarrow> wakes_ok (outbox (base s'))" and "managed_ok s \<Longrightarrow> managed_ok s'" and "chat_ok s"
  shows "chat_ok s'"
proof -
  have m: "messages (base s') = messages (base s)" using assms(5) by (simp add: changes_iff)
  have "store_ok (base s')"
    by (rule store_ok_keep [OF assms(5)]) (use assms(6,8) store_ok_wakesD outbox_wakes in \<open>auto simp: chat_ok_def\<close>)
  then show ?thesis
    by (intro chat_ok_step [OF assms(8) m assms(4)] rows_grow_same log_ok_same [OF assms(1,2)])
      (use assms in \<open>auto simp: chat_ok_def\<close>)
qed

lemma revoke_delivery_shape: "managed_shape d \<Longrightarrow> dl_state d \<in> {Queued, Claimed} \<Longrightarrow> managed_shape (revoke_delivery d)"
  by (auto simp: managed_shape_def revoke_delivery_def)

lemma outbox_grants_changes: "changes {TOutbox, TGrants} b (b\<lparr>grants := g, outbox := x\<rparr>)"
  using events_ok_cong [of "b\<lparr>grants := g, outbox := x\<rparr>" b] by (simp add: changes_iff)

lemma end_membership_simps:
  "channels (end_membership cid a n s) = channels s" "channel_events (end_membership cid a n s) = channel_events s"
  "threads (end_membership cid a n s) = threads s" "references (end_membership cid a n s) = references s"
  "messages (base (end_membership cid a n s)) = messages (base s)"
  by (simp_all add: end_membership_def Let_def)

lemma end_membership_chat_ok:
  assumes "chat_ok s"
  shows "chat_ok (end_membership cid a n s)"
proof (rule managed_step [OF _ _ _ _ _ _ _ assms])
  let ?s = "end_membership cid a n s"
  obtain g p where b: "base ?s = (base s)\<lparr>grants := g, outbox := update_where p
      (\<lambda>n. n\<lparr>ob_state := Done, ob_last_error := Some ''membership revoked''\<rparr>) (outbox (base s))\<rparr>"
    by (simp add: end_membership_def Let_def revoke_grants_def)
  show "changes {TOutbox, TGrants} (base s) (base ?s)" unfolding b by (rule outbox_grants_changes)
  show "wakes_ok (outbox (base ?s))" if "wakes_ok (outbox (base s))" unfolding b using that by (simp add: wakes_ok_update)
  obtain q where man: "managed ?s = update_where q revoke_delivery (managed s)" and q: "\<And>d. q d \<Longrightarrow> dl_state d \<in> {Queued, Claimed}"
    by (rule that [of "\<lambda>d. dl_recipient d = a \<and> in_channel (revoke_grants (\<lambda>g. cg_channel_id g = cid \<and>
           (cg_actor g = a \<and> cg_source g = ''participant'' \<or> cg_source g = supervisor_source a)) n s) cid (dl_message_id d) \<and> dl_state d \<in> {Queued, Claimed}"])
      (simp_all add: end_membership_def Let_def)
  show "managed_ok ?s" if "managed_ok s"
    by (rule managed_update_ok [OF that man]) (use q revoke_delivery_shape in \<open>auto simp: end_membership_simps revoke_delivery_def\<close>)
qed (simp_all add: end_membership_simps)

lemma end_membership_live:
  assumes "cid' \<noteq> cid"
  shows "live_grants (end_membership cid a n s) cid' = live_grants s cid'"
proof -
  let ?q = "\<lambda>g. cg_channel_id g = cid \<and> (cg_actor g = a \<and> cg_source g = ''participant'' \<or> cg_source g = supervisor_source a)"
  have "live_grants (end_membership cid a n s) cid' = live_grants (revoke_grants ?q n s) cid'"
    by (simp add: end_membership_def Let_def live_grants_def)
  also have "\<dots> = live_grants s cid'" by (rule live_grants_revoke) (use assms in auto)
  finally show ?thesis .
qed

lemma apply_membership_keeps:
  assumes "apply_membership action cid a n s = Inr s'"
  shows "chat_ok s \<Longrightarrow> chat_ok s'" "channels s' = channels s" "channel_events s' = channel_events s" "threads s' = threads s"
    "messages (base s') = messages (base s)" "references s' = references s" "cid' \<noteq> cid \<Longrightarrow> live_grants s' cid' = live_grants s cid'"
proof -
  have "(chat_ok s \<longrightarrow> chat_ok s') \<and> channels s' = channels s \<and> channel_events s' = channel_events s \<and> threads s' = threads s \<and>
    messages (base s') = messages (base s) \<and> references s' = references s \<and> (cid' \<noteq> cid \<longrightarrow> live_grants s' cid' = live_grants s cid')"
  proof (cases "action = ''add''")
    case True
    then have "channelGrantTx cid a n s = Inr s'" using assms by (simp add: apply_membership_def)
    then obtain gs where gs: "s' = s\<lparr>base := (base s)\<lparr>grants := grants (base s) @ gs\<rparr>\<rparr>" "\<forall>g\<in>set gs. cg_channel_id g = cid \<and>
        cg_revoked_seq g = None \<and> cg_history_from g = n" by (rule channelGrantD)
    have "live_grants s' cid' = live_grants s cid'" if "cid' \<noteq> cid"
      by (rule live_grants_append [where gs = gs]) (use gs that in auto)
    then show ?thesis using grants_chat_ok by (simp add: gs(1))
  next
    case False
    then have "s' = end_membership cid a n s" using assms by (simp add: apply_membership_def)
    then show ?thesis using end_membership_chat_ok end_membership_live by (simp add: end_membership_simps)
  qed
  then show "chat_ok s \<Longrightarrow> chat_ok s'" "channels s' = channels s" "channel_events s' = channel_events s" "threads s' = threads s"
    "messages (base s') = messages (base s)" "references s' = references s" "cid' \<noteq> cid \<Longrightarrow> live_grants s' cid' = live_grants s cid'" by blast+
qed

lemma MembershipD:
  assumes "ChannelMembershipChange env digest p cid a action key revision s = Inr (c', s')"
  obtains (again) c x where "s' = s" "channelTx p cid s = Inr c" "c' = c"
      "channelOperation p ''membership'' key (digestRequest digest (JArray [JText cid, JText a, JText action, JInt revision])) s = Inr (Some x)"
  | (changed) c n s1 s2 dig where "channelTx p cid s = Inr c" "c_can_manage c" "c_kind c \<noteq> ''dm''" "c_revision c = revision"
      "action = ''add'' \<and> a \<notin> set (c_participants c) \<or> action = ''remove'' \<and> a \<in> set (c_participants c) \<and> a \<noteq> c_creator c"
      "channelEventTx env cid (''membership.'' @ action) (pr_actor p) [] (JObject [(''actor'', JText a)]) s = Inr (n, s1)"
      "apply_membership action cid a n s1 = Inr s2"
      "saveChannelOperation p ''membership'' key dig (ResultId cid) (bump_revision cid s2) = Inr s'" "channelTx p cid s' = Inr c'"
proof -
  obtain c found where c: "channelTx p cid s = Inr c" "c_kind c \<noteq> ''dm''" "c_can_manage c"
    and found: "channelOperation p ''membership'' key (digestRequest digest (JArray [JText cid, JText a, JText action, JInt revision])) s = Inr found"
    using assms by (auto simp: ChannelMembershipChange_def Let_def bindE_Inr_iff requireE_Inr_iff)
  show thesis
  proof (cases found)
    case (Some x)
    then show thesis using again assms c found by (auto simp: ChannelMembershipChange_def Let_def bindE_Inr_iff)
  next
    case None
    show thesis
      using assms c found None changed [OF c(1,3,2)] unfolding ChannelMembershipChange_def Let_def
      by (simp add: bindE_Inr_iff requireE_Inr_iff) blast
  qed
qed

lemma Membership_keeps:
  assumes "ChannelMembershipChange env digest p cid a action key revision s = Inr (c', s')"
  shows "extends s s'" "chat_ok s \<Longrightarrow> chat_ok s'"
proof -
  have "extends s s' \<and> (chat_ok s \<longrightarrow> chat_ok s')"
    using assms
  proof (cases rule: MembershipD)
    case (changed c n s1 s2 dig)
    note ap = apply_membership_keeps [OF changed(7)]
    have "extends s (bump_revision cid s2)" by (rule audience_step [OF changed(6) ap(2-6)]) (rule ap(7))
    moreover have "chat_ok (bump_revision cid s2)" if "chat_ok s"
      by (intro bump_revision_chat_ok ap(1) event_keeps(2) [OF changed(6)] that)
    ultimately show ?thesis using save_keeps [OF changed(8)] extends_trans by blast
  qed simp
  then show "extends s s'" "chat_ok s \<Longrightarrow> chat_ok s'" by blast+
qed

lemma RegisterHuman_keeps:
  assumes "RegisterHuman env p a s = Inr s'"
  shows "extends s s'" "chat_ok s \<Longrightarrow> chat_ok s'"
proof -
  obtain ns hs where s': "s' = s\<lparr>base := (base s)\<lparr>actor_names := ns\<rparr>, humans := hs\<rparr>"
  proof (cases "a \<in> hu_actor ` set (humans s)")
    case True
    then show thesis using assms that [of "humans s" "actor_names (base s)"] by (auto simp: RegisterHuman_def bindE_Inr_iff)
  next
    case False
    then show thesis using assms that by (auto simp: RegisterHuman_def bindE_Inr_iff)
  qed
  show "extends s s'" by (rule extends_same) (simp_all add: s')
  show "chat_ok s'" if "chat_ok s" by (rule chat_ok_base [OF that]) (simp_all add: s' same_base_changes)
qed

lemma ChannelViewUpdate_keeps:
  assumes "ChannelViewUpdate env p v s = Inr (v', s')"
  shows "extends s s'" "chat_ok s \<Longrightarrow> chat_ok s'"
proof -
  obtain vs where s': "s' = s\<lparr>views := vs\<rparr>"
    using assms by (auto simp: ChannelViewUpdate_def Let_def bindE_Inr_iff)
  have "extends s s' \<and> (chat_ok s \<longrightarrow> chat_ok s')" by (rule other_tables_keep) (simp_all add: s')
  then show "extends s s'" "chat_ok s \<Longrightarrow> chat_ok s'" by blast+
qed

end
