(* ===== verification/ChannelWakes.thy ===== *)
theory ChannelWakes
  imports ChannelMoves
begin

text \<open>
  Deliveries, questions, attention and the managed wake-ups keep the invariant of the store, and
  every operation of the bus keeps it beside them. The managed wake-ups provide the contract of a
  notification queue.
\<close>

section \<open>Deliveries\<close>

lemma update_where_cong: "(\<And>r. r \<in> set rows \<Longrightarrow> p r = q r) \<Longrightarrow> update_where p f rows = update_where q f rows"
  by (induction rows) auto

lemma managed_rows_keep:
  assumes "s' = s\<lparr>managed := update_where p f (managed s)\<rparr>"
    and "\<And>d. delivery_key (f d) = delivery_key d" and "\<And>d. p d \<Longrightarrow> managed_shape d \<Longrightarrow> managed_shape (f d)"
  shows "extends s s'" "chat_ok s \<Longrightarrow> chat_ok s'"
proof -
  show "extends s s'" by (rule extends_same) (simp_all add: assms(1))
  show "chat_ok s'" if "chat_ok s"
    by (rule managed_step [OF _ _ _ _ _ _ _ that]) (use managed_update_ok [of s s' p f] assms(2,3) in \<open>simp_all add: assms(1)\<close>)
qed

lemma outbox_changes: "changes {TOutbox, TGrants} b (b\<lparr>outbox := x\<rparr>)"
  using events_ok_cong [of "b\<lparr>outbox := x\<rparr>" b] by (simp add: changes_iff)

lemma managed_outbox_keep:
  assumes "wakes_ok (outbox (base s)) \<Longrightarrow> wakes_ok (f (outbox (base s)))"
  shows "extends s (managed_outbox f s)" "chat_ok s \<Longrightarrow> chat_ok (managed_outbox f s)"
proof -
  show "extends s (managed_outbox f s)" by (rule extends_same) (simp_all add: managed_outbox_def)
  show "chat_ok (managed_outbox f s)" if "chat_ok s"
    by (rule managed_step [OF _ _ _ _ _ _ _ that])
      (use assms in \<open>simp_all add: managed_outbox_def outbox_changes managed_ok_def channel_messages_def\<close>)
qed

lemma claim_row_shape: "managed_shape d \<Longrightarrow> managed_shape (claim_row token expires now d)"
  by (simp add: managed_shape_def claim_row_def)

lemma finish_row_shape: "managed_shape d \<Longrightarrow> managed_shape (finish_row token acked final reason now d)"
  by (simp add: managed_shape_def finish_row_def finish_next_def)

lemma extend_row_shape: "managed_shape d \<Longrightarrow> dl_state d = Claimed \<Longrightarrow> managed_shape (d\<lparr>dl_lease_expires := Some until\<rparr>)"
  by (simp add: managed_shape_def)

lemma ChannelClaimD:
  assumes "ChannelClaim env p mid lease s = Inr (x, s')"
  obtains m c token s1 d n s3 where "valid_lease lease" "channelDeliveryTx env p mid s = Inr m" "channelTx p (cm_channel m) s = Inr c"
    "with_base (newID env ''lease'') s = Inr (token, s1)"
    "affected (\<lambda>d. delivery_key d = (mid, pr_actor p) \<and> claimable (e_now env) d) (managed s) = 1"
    "row_by delivery_key (mid, pr_actor p) (update_where (\<lambda>d. delivery_key d = (mid, pr_actor p) \<and> claimable (e_now env) d)
       (claim_row token (e_now env + lease) (e_now env)) (managed s)) = Some d"
    "channelEventTx env (cm_channel m) ''delivery.claimed'' (pr_actor p) mid JNull
       (s1\<lparr>managed := update_where (\<lambda>d. delivery_key d = (mid, pr_actor p) \<and> claimable (e_now env) d)
         (claim_row token (e_now env + lease) (e_now env)) (managed s)\<rparr>) = Inr (n, s3)"
    "s' = managed_outbox (close_managed mid (pr_actor p) (e_now env)) s3"
    "x = \<lparr>cd_policy_revision = c_revision c, cd_message = m, cd_state = Claimed, cd_attempt = dl_attempt d,
         cd_lease_token = token, cd_lease_expires_at = Some (e_now env + lease)\<rparr>"
proof -
  let ?q = "\<lambda>d. delivery_key d = (mid, pr_actor p) \<and> claimable (e_now env) d"
  obtain m c token s1 where a: "valid_lease lease" "channelDeliveryTx env p mid s = Inr m" "channelTx p (cm_channel m) s = Inr c"
    and id: "with_base (newID env ''lease'') s = Inr (token, s1)" and n: "affected ?q (managed s1) = 1"
    and rest: "(case row_by delivery_key (mid, pr_actor p) (update_where ?q (claim_row token (e_now env + lease) (e_now env)) (managed s1)) of
       None \<Rightarrow> Inl (InternalError ''sql: no rows in result set'')
     | Some d \<Rightarrow>
       bindE (channelEventTx env (cm_channel m) ''delivery.claimed'' (pr_actor p) mid JNull
         (s1\<lparr>managed := update_where ?q (claim_row token (e_now env + lease) (e_now env)) (managed s1)\<rparr>)) (\<lambda>(_, s3).
       Inr (\<lparr>cd_policy_revision = c_revision c, cd_message = m, cd_state = Claimed, cd_attempt = dl_attempt d,
         cd_lease_token = token, cd_lease_expires_at = Some (e_now env + lease)\<rparr>,
         s3\<lparr>base := (base s3)\<lparr>outbox := close_managed mid (pr_actor p) (e_now env) (outbox (base s3))\<rparr>\<rparr>))) = Inr (x, s')"
    using assms unfolding ChannelClaim_def Let_def bindE_Inr_iff requireE_Inr_iff split_paired_Ex prod.case
    by (elim exE conjE) (rule that, assumption+, simp)
  have s1: "managed s1 = managed s" using with_base_newID [OF id] by simp
  obtain d where d: "row_by delivery_key (mid, pr_actor p) (update_where ?q (claim_row token (e_now env + lease) (e_now env)) (managed s)) = Some d"
    using rest by (cases "row_by delivery_key (mid, pr_actor p) (update_where ?q (claim_row token (e_now env + lease) (e_now env)) (managed s1))")
      (simp_all add: s1)
  obtain n s3 where ev: "channelEventTx env (cm_channel m) ''delivery.claimed'' (pr_actor p) mid JNull
       (s1\<lparr>managed := update_where ?q (claim_row token (e_now env + lease) (e_now env)) (managed s)\<rparr>) = Inr (n, s3)"
    and out: "x = \<lparr>cd_policy_revision = c_revision c, cd_message = m, cd_state = Claimed, cd_attempt = dl_attempt d,
         cd_lease_token = token, cd_lease_expires_at = Some (e_now env + lease)\<rparr>"
      "s' = managed_outbox (close_managed mid (pr_actor p) (e_now env)) s3"
    using rest unfolding s1 d option.case managed_outbox_def by (auto simp: bindE_Inr_iff)
  show thesis by (rule that [OF a id n [unfolded s1] d ev out(2,1)])
qed

lemma ChannelClaim_keeps:
  assumes "ChannelClaim env p mid lease s = Inr (x, s')"
  shows "extends s s'" "chat_ok s \<Longrightarrow> chat_ok s'"
proof -
  have "extends s s' \<and> (chat_ok s \<longrightarrow> chat_ok s')"
    using assms
  proof (rule ChannelClaimD)
    fix m :: channel_message and token n and s1 s3 :: cdb
    let ?s2 = "s1\<lparr>managed := update_where (\<lambda>d. delivery_key d = (mid, pr_actor p) \<and> claimable (e_now env) d)
         (claim_row token (e_now env + lease) (e_now env)) (managed s)\<rparr>"
    assume id: "with_base (newID env ''lease'') s = Inr (token, s1)"
      and ev: "channelEventTx env (cm_channel m) ''delivery.claimed'' (pr_actor p) mid JNull ?s2 = Inr (n, s3)"
      and s': "s' = managed_outbox (close_managed mid (pr_actor p) (e_now env)) s3"
    have s1: "managed s1 = managed s" using with_base_newID [OF id] by simp
    have 2: "extends s1 ?s2" "chat_ok s1 \<Longrightarrow> chat_ok ?s2"
      by (rule managed_rows_keep [where p = "\<lambda>d. delivery_key d = (mid, pr_actor p) \<and> claimable (e_now env) d"
            and f = "claim_row token (e_now env + lease) (e_now env)"], simp_all add: s1 claim_upd.key_upd claim_row_shape)+
    have 4: "wakes_ok rows \<Longrightarrow> wakes_ok (close_managed mid (pr_actor p) (e_now env) rows)" for rows
      unfolding close_managed_def by (rule wakes_ok_update) simp_all
    have "extends s s3" by (rule extends_trans [OF newID_keeps(1) [OF id] extends_trans [OF 2(1) event_keeps(1) [OF ev]]])
    then have "extends s s'" unfolding s' using managed_outbox_keep(1) [of s3, OF 4] by (rule extends_trans)
    moreover have "chat_ok s'" if "chat_ok s"
      unfolding s' by (intro managed_outbox_keep(2) [OF 4] event_keeps(2) [OF ev] 2(2) newID_keeps(2) [OF id] that)
    ultimately show ?thesis by blast
  qed
  then show "extends s s'" "chat_ok s \<Longrightarrow> chat_ok s'" by blast+
qed

lemma DeliveryUpdateD:
  assumes "ChannelDeliveryUpdate env p mid token action reason lease s = Inr (x, s')"
  obtains (extended) m d n s1 where "action = ActExtend" "valid_lease lease" "channelDeliveryTx env p mid s = Inr m"
      "row_by delivery_key (mid, pr_actor p) (managed s) = Some d" "dl_state d = Claimed" "dl_lease_token d = Some token"
      "sql_gt (dl_lease_expires d) (e_now env)"
      "s1 = s\<lparr>managed := update_where (\<lambda>r. delivery_key r = (cm_id m, pr_actor p)) (\<lambda>r. r\<lparr>dl_lease_expires := Some (e_now env + lease)\<rparr>) (managed s)\<rparr>"
      "channelEventTx env (cm_channel m) (action_kind ActExtend) (pr_actor p) (cm_id m) JNull s1 = Inr (n, s')"
  | (settled) m d where "s' = s" "action \<noteq> ActExtend" "channelDeliveryTx env p mid s = Inr m" "row_by delivery_key (mid, pr_actor p) (managed s) = Some d"
      "finishDeliveryState (dl_state d) (dl_lease_token d) (dl_terminal_token d) token (action = ActAck) (action = ActDeadLetter) = Inr True"
  | (finished) m d n s1 where "action \<in> {ActAck, ActNack, ActDeadLetter}" "channelDeliveryTx env p mid s = Inr m"
      "row_by delivery_key (mid, pr_actor p) (managed s) = Some d"
      "finishDeliveryState (dl_state d) (dl_lease_token d) (dl_terminal_token d) token (action = ActAck) (action = ActDeadLetter) = Inr False"
      "s1 = s\<lparr>managed := update_where (\<lambda>r. delivery_key r = (cm_id m, pr_actor p))
         (finish_row token (action = ActAck) (action = ActDeadLetter) reason (e_now env)) (managed s)\<rparr>"
      "channelEventTx env (cm_channel m) (action_kind action) (pr_actor p) (cm_id m) JNull s1 = Inr (n, s')"
proof -
  obtain m where a: "action \<in> {ActAck, ActNack, ActDeadLetter, ActExtend}" "\<not> (action = ActExtend \<and> \<not> valid_lease lease)"
    and m: "channelDeliveryTx env p mid s = Inr m"
    and rest: "(case row_by delivery_key (mid, pr_actor p) (managed s) of
      None \<Rightarrow> Inl ErrChannelDenied
    | Some d \<Rightarrow> if action = ActExtend then managed_extend env p m token lease d s
      else managed_finish env p m token action reason d s) = Inr (x, s')"
    using assms unfolding ChannelDeliveryUpdate_def bindE_Inr_iff requireE_Inr_iff by blast
  obtain d where d: "row_by delivery_key (mid, pr_actor p) (managed s) = Some d" using rest by (auto split: option.splits)
  show thesis
  proof (cases "action = ActExtend")
    case True
    then have "managed_extend env p m token lease d s = Inr (x, s')" using rest d by simp
    then obtain n where ok: "dl_state d = Claimed \<and> dl_lease_token d = Some token" "sql_gt (dl_lease_expires d) (e_now env)"
      and ev: "channelEventTx env (cm_channel m) (action_kind ActExtend) (pr_actor p) (cm_id m) JNull
        (s\<lparr>managed := update_where (\<lambda>r. delivery_key r = (cm_id m, pr_actor p)) (\<lambda>r. r\<lparr>dl_lease_expires := Some (e_now env + lease)\<rparr>) (managed s)\<rparr>) = Inr (n, s')"
      unfolding managed_extend_def Let_def bindE_Inr_iff requireE_Inr_iff by (auto simp: bindE_Inr_iff)
    show thesis by (rule extended [OF True _ m d _ _ ok(2) refl ev]) (use a(2) True ok(1) in simp_all)
  next
    case False
    then have f: "managed_finish env p m token action reason d s = Inr (x, s')" using rest d by simp
    obtain b where b: "finishDeliveryState (dl_state d) (dl_lease_token d) (dl_terminal_token d) token (action = ActAck) (action = ActDeadLetter) = Inr b"
      using f unfolding managed_finish_def Let_def bindE_Inr_iff by blast
    show thesis
    proof (cases b)
      case True
      have "s' = s" using f True unfolding managed_finish_def Let_def b by simp
      then show thesis by (rule settled [OF _ False m d]) (use b True in simp)
    next
      case b': False
      obtain n where ev: "channelEventTx env (cm_channel m) (action_kind action) (pr_actor p) (cm_id m) JNull
          (s\<lparr>managed := update_where (\<lambda>r. delivery_key r = (cm_id m, pr_actor p))
            (finish_row token (action = ActAck) (action = ActDeadLetter) reason (e_now env)) (managed s)\<rparr>) = Inr (n, s')"
        using f b' unfolding managed_finish_def Let_def b by (auto simp: bindE_Inr_iff)
      show thesis by (rule finished [OF _ m d _ refl ev]) (use a(1) False b b' in auto)
    qed
  qed
qed

lemma channelDeliveryD:
  assumes "channelDeliveryTx env p mid s = Inr m"
  shows "channelMessageTx env p mid s = Inr m" "affected (\<lambda>d. delivery_key d = (mid, pr_actor p)) (managed s) = 1" "cm_id m = mid"
    "may_receive s (cm_channel m) (pr_actor p) (cm_seq m)" "assertActorNotAdopted (base s) (pr_actor p) = Inr ()"
proof -
  show m: "channelMessageTx env p mid s = Inr m" and "affected (\<lambda>d. delivery_key d = (mid, pr_actor p)) (managed s) = 1"
    "may_receive s (cm_channel m) (pr_actor p) (cm_seq m)" "assertActorNotAdopted (base s) (pr_actor p) = Inr ()"
    using assms by (auto simp: channelDeliveryTx_def bindE_Inr_iff requireE_Inr_iff)
  show "cm_id m = mid" using m by (rule channelMessageD)
qed

lemma managed_row_unique: "managed_ok s \<Longrightarrow> row_by delivery_key k (managed s) = Some d \<Longrightarrow> r \<in> set (managed s) \<Longrightarrow> delivery_key r = k \<Longrightarrow> r = d"
  using row_by_unique [of delivery_key "managed s" r] by (auto simp: managed_ok_def)

lemma ChannelDeliveryUpdate_keeps:
  assumes "ChannelDeliveryUpdate env p mid token action reason lease s = Inr (x, s')"
  shows "extends s s'" "chat_ok s \<Longrightarrow> chat_ok s'"
proof -
  have "extends s s' \<and> (chat_ok s \<longrightarrow> chat_ok s')"
    using assms
  proof (cases rule: DeliveryUpdateD)
    case (extended m d n s1)
    have id: "cm_id m = mid" by (rule channelDeliveryD(3) [OF extended(3)])
    have "chat_ok s1" if "chat_ok s"
    proof (rule managed_step [OF _ _ _ _ _ _ _ that])
      show "managed_ok s1" if ok: "managed_ok s"
      proof -
        let ?f = "\<lambda>r. r\<lparr>dl_lease_expires := Some (e_now env + lease)\<rparr>" and ?p = "\<lambda>r. delivery_key r = (mid, pr_actor p)"
        have eq: "update_where ?p ?f (managed s) = update_where (\<lambda>r. ?p r \<and> dl_state r = Claimed) ?f (managed s)"
          by (rule update_where_cong) (use managed_row_unique [OF ok extended(4)] extended(5) in auto)
        show ?thesis
          by (rule managed_update_ok [OF ok, where p = "\<lambda>r. ?p r \<and> dl_state r = Claimed" and f = ?f])
            (use eq extend_row_shape in \<open>simp_all add: extended(8) id\<close>)
      qed
    qed (simp_all add: extended(8))
    moreover have "extends s s1" by (rule extends_same) (simp_all add: extended(8))
    ultimately show ?thesis using event_keeps [OF extended(9)] extends_trans by blast
  next
    case (finished m d n s1)
    have "extends s s1" "chat_ok s \<Longrightarrow> chat_ok s1"
      by (rule managed_rows_keep [OF finished(5)], simp add: finish_row_def, erule finish_row_shape)+
    then show ?thesis using event_keeps [OF finished(6)] extends_trans by blast
  qed simp
  then show "extends s s'" "chat_ok s \<Longrightarrow> chat_ok s'" by blast+
qed

lemma ResponseResolve_keeps:
  assumes "ChannelResponseResolve env digest p rid action key revision s = Inr (x, s')"
  shows "extends s s'" "chat_ok s \<Longrightarrow> chat_ok s'"
proof -
  let ?dig = "digestRequest digest (JArray [JText rid, JText (response_action_text action), JInt revision])"
  obtain q where q: "row_by rs_id rid (responses s) = Some q"
    using assms unfolding ChannelResponseResolve_def bindE_Inr_iff by (auto split: option.splits)
  obtain found where found: "channelOperation p ''response'' key ?dig s = Inr found"
    using assms unfolding ChannelResponseResolve_def Let_def q option.case bindE_Inr_iff by blast
  have "extends s s' \<and> (chat_ok s \<longrightarrow> chat_ok s')"
  proof (cases found)
    case (Some y)
    then have "s' = s" using assms unfolding ChannelResponseResolve_def Let_def q found by (auto simp: bindE_Inr_iff)
    then show ?thesis by simp
  next
    case None
    obtain qs n s2 out where ev: "channelEventTx env (rs_channel q) (response_kind action) (pr_actor p) (rs_message q)
          (JObject [(''request_id'', JText rid)]) (s\<lparr>responses := qs\<rparr>) = Inr (n, s2)"
      and sv: "saveChannelOperation p ''response'' key ?dig (ResultResponse out) s2 = Inr s'"
      using assms unfolding ChannelResponseResolve_def Let_def q found None by (auto simp: bindE_Inr_iff)
    have "extends s (s\<lparr>responses := qs\<rparr>) \<and> (chat_ok s \<longrightarrow> chat_ok (s\<lparr>responses := qs\<rparr>))" by (rule other_tables_keep) simp_all
    then show ?thesis using event_keeps [OF ev] save_keeps [OF sv] extends_trans by blast
  qed
  then show "extends s s'" "chat_ok s \<Longrightarrow> chat_ok s'" by blast+
qed

section \<open>Attention\<close>

lemma attention_clients_keep:
  assumes "s' = s\<lparr>base := (base s)\<lparr>attention_clients := cs\<rparr>\<rparr>"
  shows "extends s s' \<and> (chat_ok s \<longrightarrow> chat_ok s')"
  using assms chat_ok_base [of s s'] extends_same [of s' s] by (simp add: same_base_changes)

lemma EnableAttention_keeps: "EnableChannelAttention p monitor s = Inr s' \<Longrightarrow> extends s s' \<and> (chat_ok s \<longrightarrow> chat_ok s')"
  by (rule attention_clients_keep) (auto simp: EnableChannelAttention_def bindE_Inr_iff)

lemma ResetAttention_keeps: "ResetChannelAttention p monitor s = Inr s' \<Longrightarrow> extends s s' \<and> (chat_ok s \<longrightarrow> chat_ok s')"
  by (rule attention_clients_keep) (auto simp: ResetChannelAttention_def bindE_Inr_iff)

lemma managed_jobs_in: "(n, m) \<in> set (managed_jobs s now) \<longleftrightarrow>
    n \<in> set (outbox (base s)) \<and> m \<in> set (messages (base s)) \<and> managed_open now n \<and> wakeable s now n m"
  by (auto simp: managed_jobs_def)

lemma ClaimManagedD:
  assumes "ClaimManagedNotification env s = Inr (j, s')"
  obtains n m where "n \<in> set (outbox (base s))" "m \<in> set (messages (base s))" "managed_open (e_now env) n" "wakeable s (e_now env) n m"
    "j = \<lparr>nj_message = managed_job_message m, nj_recipient = ob_recipient n, nj_attempt = ob_attempt n + 1\<rparr>"
    "s' = managed_outbox (update_where (\<lambda>r. outbox_key r = outbox_key n \<and> ob_source r = ManagedSource)
      (managed_process_row (ob_attempt n + 1) (e_now env + 30 * second))) s"
proof -
  obtain n m rest where jobs: "managed_jobs s (e_now env) = (n, m) # rest"
    using assms by (cases "managed_jobs s (e_now env)") (auto simp: ClaimManagedNotification_def)
  then have "(n, m) \<in> set (managed_jobs s (e_now env))" by simp
  then have *: "n \<in> set (outbox (base s))" "m \<in> set (messages (base s))" "managed_open (e_now env) n" "wakeable s (e_now env) n m"
    by (simp_all only: managed_jobs_in)
  show thesis by (rule that [OF *]) (use assms in \<open>simp_all add: jobs ClaimManagedNotification_def Let_def\<close>)
qed

lemma ClaimManaged_keeps:
  assumes "ClaimManagedNotification env s = Inr (j, s')"
  shows "extends s s'" "chat_ok s \<Longrightarrow> chat_ok s'"
proof -
  have "extends s s' \<and> (chat_ok s \<longrightarrow> chat_ok s')"
    using assms
  proof (rule ClaimManagedD)
    fix n m assume n: "n \<in> set (outbox (base s))" and s': "s' = managed_outbox (update_where (\<lambda>r. outbox_key r = outbox_key n \<and> ob_source r = ManagedSource)
      (managed_process_row (ob_attempt n + 1) (e_now env + 30 * second))) s"
    have "wakes_ok (update_where p (managed_process_row (ob_attempt n + 1) t) (outbox (base s)))" if "wakes_ok (outbox (base s))" for p t
      by (rule wakes_ok_update [OF _ _ that]) (use n that in \<open>simp_all add: managed_process_row_def wakes_ok_def\<close>)
    then show ?thesis unfolding s' using managed_outbox_keep by blast
  qed
  then show "extends s s'" "chat_ok s \<Longrightarrow> chat_ok s'" by blast+
qed

lemma FinishManagedD:
  assumes "FinishManagedNotification env j d detail s = Inr s'"
  obtains st available cid n where "managed_disposition (e_now env) d (nj_attempt j) = Inr (st, available)"
    "conversation_of s (msg_id (nj_message j)) = Some cid"
    "channelEventTx env cid ''attention.attempted'' (nj_recipient j) (msg_id (nj_message j))
        (JObject [(''attempt'', JInt (nj_attempt j)), (''state'', JText (outbox_state_text st))])
        (managed_outbox (update_where (\<lambda>n. outbox_key n = job_key j \<and> ob_source n = ManagedSource \<and> ob_state n = ManagedProcessing \<and>
           ob_attempt n = nj_attempt j) (managed_finish_row st available (take 4096 detail))) s) = Inr (n, s')"
proof -
  obtain st available where d: "managed_disposition (e_now env) d (nj_attempt j) = Inr (st, available)"
    using assms by (auto simp: FinishManagedNotification_def bindE_Inr_iff)
  obtain cid where c: "conversation_of s (msg_id (nj_message j)) = Some cid"
    using assms by (auto simp: FinishManagedNotification_def d split: option.splits)
  show thesis using that [OF d c] assms unfolding FinishManagedNotification_def d bindE_Inr prod.case c option.case Let_def
    by (auto simp: bindE_Inr_iff)
qed

lemma FinishManaged_keeps:
  assumes "FinishManagedNotification env j d detail s = Inr s'"
  shows "extends s s'" "chat_ok s \<Longrightarrow> chat_ok s'"
proof -
  have w: "wakes_ok rows \<Longrightarrow> wakes_ok (update_where p (managed_finish_row st t detail) rows)" for p st t detail rows
    by (rule wakes_ok_update) (simp_all add: managed_finish_row_def)
  have "extends s s' \<and> (chat_ok s \<longrightarrow> chat_ok s')"
    using assms
  proof (rule FinishManagedD)
    fix st available cid n
    let ?s = "managed_outbox (update_where (\<lambda>n. outbox_key n = job_key j \<and> ob_source n = ManagedSource \<and> ob_state n = ManagedProcessing \<and>
           ob_attempt n = nj_attempt j) (managed_finish_row st available (take 4096 detail))) s"
    assume ev: "channelEventTx env cid ''attention.attempted'' (nj_recipient j) (msg_id (nj_message j))
        (JObject [(''attempt'', JInt (nj_attempt j)), (''state'', JText (outbox_state_text st))]) ?s = Inr (n, s')"
    have "extends s ?s" "chat_ok s \<Longrightarrow> chat_ok ?s" by (rule managed_outbox_keep, erule w)+
    then show ?thesis using event_keeps [OF ev] extends_trans by blast
  qed
  then show "extends s s'" "chat_ok s \<Longrightarrow> chat_ok s'" by blast+
qed

lemma RecordManaged_keeps: "RecordManagedNotification env mid a s = Inr s' \<Longrightarrow> extends s s' \<and> (chat_ok s \<longrightarrow> chat_ok s')"
  using event_keeps by (auto simp: RecordManagedNotification_def bindE_Inr_iff split: option.splits)

lemma RearmManaged_keeps:
  shows "extends s (RearmStaleManagedNotifications env stale s)" "chat_ok s \<Longrightarrow> chat_ok (RearmStaleManagedNotifications env stale s)"
proof -
  have w: "wakes_ok rows \<Longrightarrow> wakes_ok (update_where p (\<lambda>n. n\<lparr>ob_state := ManagedPending, ob_available_at := t\<rparr>) rows)" for p t rows
    by (rule wakes_ok_update) simp_all
  show "extends s (RearmStaleManagedNotifications env stale s)"
    unfolding RearmStaleManagedNotifications_def Let_def by (rule managed_outbox_keep(1), erule w)
  show "chat_ok (RearmStaleManagedNotifications env stale s)" if "chat_ok s"
    unfolding RearmStaleManagedNotifications_def Let_def by (rule managed_outbox_keep(2) [OF _ that], erule w)
qed

section \<open>The operations of the bus beside conversations\<close>

lemma store_step_legacy:
  assumes "store_step env b b'" and "deliveries_ok b"
  obtains ms where "grants b' = grants b" "messages b' = messages b @ ms" "\<And>m. m \<in> set ms \<Longrightarrow> mr_conversation m = None"
  using store_step_mail [OF assms]
proof (elim disjE exE)
  fix q r assume snd: "Send env q b = Inr (r, b')"
  have g: "grants b' = grants b" using Send_changes [OF snd] by (simp add: changes_iff)
  from snd show thesis
  proof (rule Send_new_cases)
    fix req parent assume "send_new env req parent b = Inr (r, b')"
    then show thesis
    proof (rule send_newD)
      fix to mid
      assume ms: "messages b' = messages b @ [row_of_message (message_of_request mid (e_now env) to req)]"
      show thesis by (rule that [OF g ms]) (auto simp: row_of_message_def)
    qed
  qed (use that [OF g, of "[]"] in simp)
next
  assume "moves_mail (e_now env) b b'"
  then show thesis using that [of "[]"] by (simp add: moves_mail_def)
qed

lemma legacy_keeps:
  assumes "store_step env (base s) b" and "chat_ok s"
  shows "extends s (s\<lparr>base := b\<rparr>)" "chat_ok (s\<lparr>base := b\<rparr>)"
proof -
  let ?s = "s\<lparr>base := b\<rparr>"
  have ok: "store_ok (base s)" "log_ok s" "posts_ok s" "managed_ok s" using assms(2) by (simp_all add: chat_ok_def)
  obtain ms where g: "grants b = grants (base s)" and ms: "messages b = messages (base s) @ ms" and none: "\<And>m. m \<in> set ms \<Longrightarrow> mr_conversation m = None"
    by (rule store_step_legacy [OF assms(1)]) (use ok(1) in \<open>simp_all add: store_ok_def\<close>)
  show "extends s ?s" by (rule extends_same) (simp_all add: g ms)
  have cm: "channel_messages ?s = channel_messages s" using none by (auto simp: channel_messages_def fun_eq_iff ms filter_empty_conv)
  have b: "store_ok b" by (rule store_step_ok [OF assms(1) ok(1)])
  have post: "post_ok ?s m cid" if "m \<in> set (messages b)" "mr_conversation m = Some cid" for m cid
    using posts_okD [OF ok(3)] none that post_ok_grow [of s m cid ?s] cm by (auto simp: ms rows_grow_def)
  have old: "m \<in> set (messages (base s))" if "m \<in> set (messages b)" "mr_conversation m \<noteq> None" for m
    using that none by (auto simp: ms)
  have "posts_ok ?s"
    unfolding posts_ok_def
  proof (intro conjI)
    show "messages_ok (base ?s)" using b by (simp add: store_ok_def)
    show "\<forall>m\<in>set (messages (base ?s)). \<forall>cid. mr_conversation m = Some cid \<longrightarrow> post_ok ?s m cid" using post by simp
    show "\<forall>m\<in>set (messages (base ?s)). \<forall>m'\<in>set (messages (base ?s)). mr_conversation m \<noteq> None \<and> mr_conversation m = mr_conversation m' \<and>
        mr_channel_seq m = mr_channel_seq m' \<longrightarrow> m = m'"
    proof (intro ballI impI)
      fix m m' assume m: "m \<in> set (messages (base ?s))" "m' \<in> set (messages (base ?s))"
        and eq: "mr_conversation m \<noteq> None \<and> mr_conversation m = mr_conversation m' \<and> mr_channel_seq m = mr_channel_seq m'"
      have "m \<in> set (messages (base s))" "m' \<in> set (messages (base s))" using m eq by (auto intro: old)
      then show "m = m'" using ok(3) eq unfolding posts_ok_def by blast
    qed
    show "\<forall>r\<in>set (references ?s). \<exists>cid. \<exists>m\<in>set (channel_messages ?s cid). mr_id m = rf_source r"
      using ok(3) unfolding cm posts_ok_def by simp
  qed
  moreover have "managed_ok ?s" using ok(4) unfolding managed_ok_def cm by simp
  moreover have "log_ok ?s" using ok(2) by (simp add: log_ok_def)
  ultimately show "chat_ok ?s" using b by (simp add: chat_ok_def)
qed

end
