(* ===== verification/Base64.thy ===== *)
theory Base64
  imports Prelude
begin

text \<open>
  \<open>base64.RawURLEncoding\<close> of Go's \<open>encoding/base64\<close>, which the signed tokens of conversations use.
\<close>

section \<open>Writing and reading\<close>

text \<open>The encoding has no padding; reading skips line ends and ignores the bits left over.\<close>

definition base64_alphabet :: string where
  "base64_alphabet = ''ABCDEFGHIJKLMNOPQRSTUVWXYZabcdefghijklmnopqrstuvwxyz0123456789-_''"

definition sextet :: "nat \<Rightarrow> char" where
  "sextet n = base64_alphabet ! n"

definition sextet_value :: "char \<Rightarrow> nat option" where
  "sextet_value c = (let n = length (takeWhile (\<lambda>d. d \<noteq> c) base64_alphabet) in if n < 64 then Some n else None)"

fun base64_bytes :: "nat list \<Rightarrow> nat list" where
  "base64_bytes [] = []"
| "base64_bytes [a] = [a div 4, a mod 4 * 16]"
| "base64_bytes [a, b] = [a div 4, a mod 4 * 16 + b div 16, b mod 16 * 4]"
| "base64_bytes (a # b # c # r) =
    [a div 4, a mod 4 * 16 + b div 16, b mod 16 * 4 + c div 64, c mod 64] @ base64_bytes r"

fun unbase64_bytes :: "nat list \<Rightarrow> nat list option" where
  "unbase64_bytes [] = Some []"
| "unbase64_bytes [x] = None"
| "unbase64_bytes [x, y] = Some [x * 4 + y div 16]"
| "unbase64_bytes [x, y, z] = Some [x * 4 + y div 16, y mod 16 * 16 + z div 4]"
| "unbase64_bytes (x # y # z # w # r) =
    map_option (\<lambda>bs. [x * 4 + y div 16, y mod 16 * 16 + z div 4, z mod 4 * 64 + w] @ bs) (unbase64_bytes r)"

definition base64url :: "string \<Rightarrow> string" where
  "base64url s = map sextet (base64_bytes (map of_char s))"

definition unbase64url :: "string \<Rightarrow> string option" where
  "unbase64url s = (let vs = map sextet_value (filter (\<lambda>c. c \<noteq> CHR 0x0D \<and> c \<noteq> CHR 0x0A) s) in
     if None \<in> set vs then None else map_option (map char_of) (unbase64_bytes (map the vs)))"

section \<open>Reading back what was written\<close>

lemma glued:
  "y < 16 \<Longrightarrow> (x * 16 + y) div 16 = x" "y < 16 \<Longrightarrow> (x * 16 + y) mod 16 = y"
  "y < 4 \<Longrightarrow> (x * 4 + y) div 4 = x" "y < 4 \<Longrightarrow> (x * 4 + y) mod 4 = y" for x y :: nat
  by (simp_all add: div_mult_self3 mod_mult_self3)

lemma byte_parts: "b < 256 \<Longrightarrow> b div 16 < 16" "b < 256 \<Longrightarrow> b div 64 < 4" "b < 256 \<Longrightarrow> b div 4 < 64" for b :: nat
  by (rule less_mult_imp_div_less, simp)+

lemma unbase64_base64_bytes: "list_all (\<lambda>b. b < 256) bs \<Longrightarrow> unbase64_bytes (base64_bytes bs) = Some bs"
  by (induction bs rule: base64_bytes.induct)
    (simp_all del: One_nat_def add: glued byte_parts div_mult_mod_eq)

lemma small_sums: "x < 4 \<Longrightarrow> y < 16 \<Longrightarrow> x * 16 + y < 64" "x < 16 \<Longrightarrow> y < 4 \<Longrightarrow> x * 4 + y < 64" for x y :: nat
  by linarith+

lemma base64_bytes_small: "list_all (\<lambda>b. b < 256) bs \<Longrightarrow> list_all (\<lambda>v. v < 64) (base64_bytes bs)"
  using small_sums(1) [of _ 0] small_sums(2) [of _ 0]
  by (induction bs rule: base64_bytes.induct) (simp_all add: byte_parts small_sums)

lemma length_takeWhile_nth: "distinct xs \<Longrightarrow> n < length xs \<Longrightarrow> length (takeWhile (\<lambda>d. d \<noteq> xs ! n) xs) = n"
proof (induction xs arbitrary: n)
  case (Cons x xs)
  then show ?case by (cases n) auto
qed simp

lemma alphabet_facts: "distinct base64_alphabet" "length base64_alphabet = 64"
  "list_all (\<lambda>c. c \<notin> {CHR 0x0D, CHR 0x0A, CHR ''.''}) base64_alphabet"
  by code_simp+

lemma sextet_value_sextet: "n < 64 \<Longrightarrow> sextet_value (sextet n) = Some n"
  by (simp add: sextet_value_def sextet_def length_takeWhile_nth alphabet_facts)

lemma sextet_plain: "n < 64 \<Longrightarrow> sextet n \<notin> {CHR 0x0D, CHR 0x0A, CHR ''.''}"
  using alphabet_facts(2,3) unfolding sextet_def list_all_length by metis

lemma base64url_plain: "c \<in> set (base64url s) \<Longrightarrow> c \<notin> {CHR 0x0D, CHR 0x0A, CHR ''.''}"
  using base64_bytes_small [of "map of_char s"] sextet_plain
  by (auto simp: base64url_def list_all_iff)

theorem unbase64url_base64url: "unbase64url (base64url s) = Some s"
proof -
  let ?bs = "map of_char s :: nat list"
  have b: "list_all (\<lambda>b. b < 256) ?bs" by (simp add: list_all_iff)
  have "filter (\<lambda>c. c \<noteq> CHR 0x0D \<and> c \<noteq> CHR 0x0A) (base64url s) = base64url s"
    using base64url_plain by (intro filter_True) fastforce
  moreover have "map sextet_value (base64url s) = map Some (base64_bytes ?bs)"
    using base64_bytes_small [OF b] sextet_value_sextet by (simp add: base64url_def list_all_iff)
  ultimately have "unbase64url (base64url s) = map_option (map char_of) (unbase64_bytes (base64_bytes ?bs))"
    by (simp add: unbase64url_def Let_def comp_def image_iff)
  then show ?thesis by (simp add: unbase64_base64_bytes [OF b] comp_def)
qed

end
