(* ===== verification/ChannelContinuation.thy ===== *)
theory ChannelContinuation
  imports ChannelHistory Base64
begin

text \<open>
  \<open>conversation_continuation.go\<close>: a conversation goes on in another channel in two steps. The
  preflight shows the audience and returns a signed token that holds what was shown; the commit
  reads the token back, refuses when an audience is no longer what the token says, creates the
  channel if one was to be created, and posts. The pages of a history carry a signed cursor.

  HMAC-SHA256 under the daemon's secret is the field \<open>tk_mac\<close> of the parameter \<open>tokens\<close>, and
  \<open>json.Unmarshal\<close> into the two kinds of token its other fields; what is signed is written out.
\<close>

section \<open>Tokens\<close>

record continuation_intent =
  ci_source :: string
  ci_destination :: string
  ci_create :: "channel_create option"
  ci_body :: string
  ci_attention :: "string list"
  ci_respondent :: string

record continuation_preview =
  cv_token :: string
  cv_participants :: "string list"
  cv_observers :: "string list"
  cv_context_mode :: string
  cv_expires_at :: int

record continuation_token =
  ct_actor :: string
  ct_expires :: int
  ct_intent :: continuation_intent
  ct_source_revision :: int
  ct_destination_revision :: int
  ct_supervision :: string

record history_token =
  ht_actor :: string
  ht_channel :: string
  ht_thread :: string
  ht_after :: int
  ht_revision :: int

record token_service =
  tk_mac :: "string \<Rightarrow> string"
  tk_continuation :: "string \<Rightarrow> continuation_token option"
  tk_history :: "history_token \<Rightarrow> string \<Rightarrow> history_token option"

definition intent_json :: "continuation_intent \<Rightarrow> json_value" where
  "intent_json i = JObject ([(''source_message_id'', JText (ci_source i))] @
     omitempty (ci_destination i \<noteq> []) ''destination_channel_id'' (JText (ci_destination i)) @
     (case ci_create i of None \<Rightarrow> [] | Some r \<Rightarrow> [(''create'', create_json r)]) @
     [(''body'', JRaw (ci_body i))] @
     omitempty (ci_attention i \<noteq> []) ''attention_targets'' (JArray (map JText (ci_attention i))) @
     omitempty (ci_respondent i \<noteq> []) ''respondent'' (JText (ci_respondent i)))"

definition continuation_json :: "continuation_token \<Rightarrow> json_value" where
  "continuation_json t = JObject [(''actor'', JText (ct_actor t)), (''expires'', JInt (ct_expires t)),
     (''intent'', intent_json (ct_intent t)), (''source_revision'', JInt (ct_source_revision t)),
     (''destination_revision'', JInt (ct_destination_revision t)), (''supervision_digest'', JText (ct_supervision t))]"

definition history_token_json :: "history_token \<Rightarrow> json_value" where
  "history_token_json t = JObject [(''Actor'', JText (ht_actor t)), (''Channel'', JText (ht_channel t)),
     (''Thread'', JText (ht_thread t)), (''After'', JInt (ht_after t)), (''Revision'', JInt (ht_revision t))]"

definition signConversationToken :: "token_service \<Rightarrow> json_value \<Rightarrow> string" where
  "signConversationToken tk v = base64url (marshal v) @ ''.'' @ base64url (tk_mac tk (marshal v))"

text \<open>The two parts around the only dot of a token.\<close>

definition token_parts :: "string \<Rightarrow> (string \<times> string) option" where
  "token_parts token = (case dropWhile (\<lambda>c. c \<noteq> CHR ''.'') token of
     [] \<Rightarrow> None
   | _ # rest \<Rightarrow> if CHR ''.'' \<in> set rest then None else Some (takeWhile (\<lambda>c. c \<noteq> CHR ''.'') token, rest))"

definition readConversationToken :: "token_service \<Rightarrow> (string \<Rightarrow> 'a option) \<Rightarrow> string \<Rightarrow> error + 'a" where
  "readConversationToken tk unmarshal token =
    bindE (requireE (int (length token) \<le> MaxBodyBytes * 2) ErrChannelDenied) (\<lambda>_.
    case token_parts token of
      None \<Rightarrow> Inl ErrChannelDenied
    | Some (payload_part, signature_part) \<Rightarrow>
      (case (unbase64url payload_part, unbase64url signature_part) of
         (Some raw, Some signature) \<Rightarrow>
           bindE (requireE (signature = tk_mac tk raw) ErrChannelDenied) (\<lambda>_.
           case unmarshal raw of None \<Rightarrow> Inl ErrChannelDenied | Some v \<Rightarrow> Inr v)
       | _ \<Rightarrow> Inl ErrChannelDenied))"

section \<open>Preflight\<close>

text \<open>The supervision of the participants, as it is hashed, and the humans who would observe.\<close>

definition link_json :: "cdb \<Rightarrow> string \<Rightarrow> json_value" where
  "link_json s a = (case row_by sv_agent a (supervisions s) of
     None \<Rightarrow> JObject [(''Agent'', JText a), (''Human'', JText []), (''Revision'', JInt 0), (''Active'', JInt 0)]
   | Some v \<Rightarrow> JObject [(''Agent'', JText a), (''Human'', JText (sv_human v)), (''Revision'', JInt (sv_revision v)),
       (''Active'', JInt (if sv_active v then 1 else 0))])"

definition supervisionDigestTx :: "(string \<Rightarrow> string) \<Rightarrow> cdb \<Rightarrow> string list \<Rightarrow> string \<times> string list" where
  "supervisionDigestTx digest s participants =
    (digestRequest digest (JArray (map (link_json s) participants)),
     nub (List.map_filter (active_supervisor s) participants))"

definition intent_shape :: "continuation_intent \<Rightarrow> error + unit" where
  "intent_shape i =
    bindE (requireE (ci_body i \<noteq> [] \<and> int (length (ci_body i)) \<le> MaxBodyBytes div 2 \<and> valid_json (ci_body i))
      (ValidationError ''body'' ''continuation body must be JSON within 512 KiB'')) (\<lambda>_.
    bindE (requireE (int (length (marshal (intent_json i))) \<le> MaxBodyBytes div 2)
      (ValidationError ''intent'' ''encoded continuation intent must fit within 512 KiB'')) (\<lambda>_.
    requireE ((ci_create i = None) \<noteq> (ci_destination i = []))
      (ValidationError ''destination'' ''select an existing channel or a new conversation, not both'')))"

text \<open>Token and preview for a channel that exists.\<close>

definition preflight_existing ::
  "principal \<Rightarrow> string \<Rightarrow> continuation_token \<Rightarrow> cdb \<Rightarrow> error + (continuation_token \<times> channel)" where
  "preflight_existing p cid t s = bindE (channelTx p cid s) (\<lambda>c.
     Inr (t\<lparr>ct_intent := (ct_intent t)\<lparr>ci_create := None, ci_destination := cid\<rparr>, ct_destination_revision := c_revision c\<rparr>, c))"

definition preflight_target ::
  "(string \<Rightarrow> string) \<Rightarrow> principal \<Rightarrow> continuation_intent \<Rightarrow> continuation_token \<Rightarrow> cdb \<Rightarrow>
    error + (continuation_token \<times> string list \<times> string list)" where
  "preflight_target digest p i t s = (case ci_create i of
     Some r0 \<Rightarrow>
       bindE (normalizeChannelCreate p (r0\<lparr>cr_key := ''preflight''\<rparr>)) (\<lambda>r.
       let seen = supervisionDigestTx digest s (cr_participants r); observers = snd seen;
           t1 = t\<lparr>ct_intent := (ct_intent t)\<lparr>ci_create := Some r\<rparr>, ct_supervision := fst seen\<rparr> in
       if cr_kind r = ''dm'' then
         (case row_by ch_dm_key (Some (dm_key digest r)) (channels s) of
            Some ch \<Rightarrow> bindE (preflight_existing p (ch_id ch) t1 s) (\<lambda>(t2, c). Inr (t2, c_participants c, c_observers c))
          | None \<Rightarrow> Inr (t1, cr_participants r, observers))
       else Inr (t1, cr_participants r, observers))
   | None \<Rightarrow>
       bindE (preflight_existing p (ci_destination i) t s) (\<lambda>(t1, c).
       bindE (requireE (c_can_post c) ErrChannelDenied) (\<lambda>_.
       Inr (t1, c_participants c, c_observers c))))"

definition preflight_token ::
  "env \<Rightarrow> (string \<Rightarrow> string) \<Rightarrow> principal \<Rightarrow> continuation_intent \<Rightarrow> cdb \<Rightarrow>
    error + (continuation_token \<times> string list \<times> string list)" where
  "preflight_token env digest p i s =
    bindE (conversationPrincipal p) (\<lambda>_.
    bindE (intent_shape i) (\<lambda>_.
    bindE (channelMessageTx env p (ci_source i) s) (\<lambda>source.
    bindE (channelTx p (cm_channel source) s) (\<lambda>sc.
    preflight_target digest p i \<lparr>ct_actor = pr_actor p, ct_expires = (e_now env + 600 * second) div second, ct_intent = i,
      ct_source_revision = c_revision sc, ct_destination_revision = 0, ct_supervision = []\<rparr> s))))"

definition ChannelContinuationPreflight ::
  "env \<Rightarrow> (string \<Rightarrow> string) \<Rightarrow> token_service \<Rightarrow> principal \<Rightarrow> continuation_intent \<Rightarrow> cdb \<Rightarrow> error + continuation_preview" where
  "ChannelContinuationPreflight env digest tk p i s =
    bindE (preflight_token env digest p i s) (\<lambda>(t, participants, observers).
    Inr \<lparr>cv_token = signConversationToken tk (continuation_json t), cv_participants = participants, cv_observers = observers,
      cv_context_mode = ''reference_only'', cv_expires_at = ct_expires t * second\<rparr>)"

section \<open>Commit\<close>

definition create_destination ::
  "env \<Rightarrow> (string \<Rightarrow> string) \<Rightarrow> principal \<Rightarrow> string \<Rightarrow> channel_create \<Rightarrow> string \<Rightarrow> cdb \<Rightarrow> error + (channel \<times> cdb)" where
  "create_destination env digest p key r0 supervision s =
    bindE (requireE (fst (supervisionDigestTx digest s (cr_participants r0)) = supervision) ErrAudienceChanged) (\<lambda>_.
    let r = r0\<lparr>cr_key := ''continuation-'' @ digestRequest digest (JArray [JText (pr_actor p), JText key])\<rparr> in
    bindE (requireE (\<not> (cr_kind r = ''dm'' \<and> row_by ch_dm_key (Some (dm_key digest r)) (channels s) \<noteq> None)) ErrAudienceChanged) (\<lambda>_.
    createChannelTx env digest p r s))"

definition commit_destination ::
  "env \<Rightarrow> (string \<Rightarrow> string) \<Rightarrow> principal \<Rightarrow> string \<Rightarrow> continuation_token \<Rightarrow> cdb \<Rightarrow> error + (channel \<times> cdb)" where
  "commit_destination env digest p key t s = (case ci_create (ct_intent t) of
     Some r \<Rightarrow> create_destination env digest p key r (ct_supervision t) s
   | None \<Rightarrow> bindE (channelTx p (ci_destination (ct_intent t)) s) (\<lambda>c.
       bindE (requireE (c_revision c = ct_destination_revision t) ErrAudienceChanged) (\<lambda>_. Inr (c, s))))"

definition continuation_post :: "channel \<Rightarrow> string \<Rightarrow> continuation_intent \<Rightarrow> string \<Rightarrow> channel_post" where
  "continuation_post c key i source = \<lparr>cp_channel = c_id c, cp_thread = [], cp_in_reply_to = [],
     cp_expected_revision = c_revision c, cp_key = key, cp_body = ci_body i, cp_attention = ci_attention i,
     cp_respondent = ci_respondent i, cp_response_to = [], cp_response_revision = 0,
     cp_references = [\<lparr>cf_source = source, cf_relation = ''continued_from'', cf_available = False\<rparr>]\<rparr>"

definition read_continuation :: "env \<Rightarrow> token_service \<Rightarrow> principal \<Rightarrow> string \<Rightarrow> error + continuation_token" where
  "read_continuation env tk p token = (case readConversationToken tk (tk_continuation tk) token of
     Inl _ \<Rightarrow> Inl ErrPreflightExpired
   | Inr t \<Rightarrow>
     bindE (requireE (ct_actor t = pr_actor p) ErrChannelDenied) (\<lambda>_.
     bindE (requireE (e_now env div second < ct_expires t) ErrPreflightExpired) (\<lambda>_. Inr t)))"

definition commit_new ::
  "env \<Rightarrow> (string \<Rightarrow> string) \<Rightarrow> token_service \<Rightarrow> principal \<Rightarrow> string \<Rightarrow> string \<Rightarrow> cdb \<Rightarrow> error + (channel_post_result \<times> cdb)" where
  "commit_new env digest tk p token key s =
    bindE (read_continuation env tk p token) (\<lambda>t.
    bindE (channelMessageTx env p (ci_source (ct_intent t)) s) (\<lambda>source.
    bindE (channelTx p (cm_channel source) s) (\<lambda>sc.
    bindE (requireE (c_revision sc = ct_source_revision t) ErrAudienceChanged) (\<lambda>_.
    bindE (commit_destination env digest p key t s) (\<lambda>(c, s1).
    bindE (channelPostTx env digest p (continuation_post c key (ct_intent t) (cm_id source)) s1) (\<lambda>(res, s2).
    bindE (saveChannelOperation p ''continue'' key (digestRequest digest (JText token)) (ResultId (cm_id (pt_message res))) s2) (\<lambda>s3.
    Inr (res, s3))))))))"

definition ChannelContinuationCommit ::
  "env \<Rightarrow> (string \<Rightarrow> string) \<Rightarrow> token_service \<Rightarrow> principal \<Rightarrow> string \<Rightarrow> string \<Rightarrow> cdb \<Rightarrow> error + (channel_post_result \<times> cdb)" where
  "ChannelContinuationCommit env digest tk p token key s =
    bindE (conversationPrincipal p) (\<lambda>_.
    bindE (channelText ''idempotency_key'' key 256) (\<lambda>_.
    bindE (channelOperation p ''continue'' key (digestRequest digest (JText token)) s) (\<lambda>found.
    case found of
      Some x \<Rightarrow>
        bindE (found_id x) (\<lambda>mid.
        bindE (channelMessageTx env p mid s) (\<lambda>m.
        Inr (\<lparr>pt_message = m, pt_duplicate = True, pt_recipients = managedRecipients s mid\<rparr>, s)))
    | None \<Rightarrow> commit_new env digest tk p token key s)))"

section \<open>Pages with a cursor\<close>

definition read_cursor :: "token_service \<Rightarrow> principal \<Rightarrow> string \<Rightarrow> string \<Rightarrow> string \<Rightarrow> error + history_token" where
  "read_cursor tk p cid thread cursor =
    (let t0 = \<lparr>ht_actor = pr_actor p, ht_channel = cid, ht_thread = thread, ht_after = 0, ht_revision = 0\<rparr> in
     if cursor = [] then Inr t0
     else case readConversationToken tk (tk_history tk t0) cursor of
       Inl _ \<Rightarrow> Inl ErrCursorExpired
     | Inr t \<Rightarrow> bindE (requireE (ht_actor t = pr_actor p \<and> ht_channel t = cid \<and> ht_thread t = thread) ErrChannelDenied) (\<lambda>_. Inr t))"

definition ChannelHistoryPage ::
  "env \<Rightarrow> token_service \<Rightarrow> principal \<Rightarrow> string \<Rightarrow> string \<Rightarrow> string \<Rightarrow> int \<Rightarrow> cdb \<Rightarrow> error + channel_page" where
  "ChannelHistoryPage env tk p cid thread cursor limit s =
    bindE (read_cursor tk p cid thread cursor) (\<lambda>t.
    bindE (ChannelHistory env p cid thread (ht_after t) (ht_revision t) limit s) (\<lambda>page.
    Inr (if pg_messages page = [] then page
      else page\<lparr>pg_next := signConversationToken tk (history_token_json
        (t\<lparr>ht_after := cm_seq (last (pg_messages page)), ht_revision := pg_revision page\<rparr>))\<rparr>)))"

end
