(* ===== verification/ChannelRuns.thy ===== *)
theory ChannelRuns
  imports ChannelWakes ChannelContinuation
begin

text \<open>
  The store with its conversations as a transition system: a step is one operation on
  conversations, or one of the bus on the tables beside them. Every reachable store satisfies
  \<open>chat_ok\<close>, and along every run messages, threads, references and channel logs only grow.
\<close>

section \<open>Continuations\<close>

lemma commit_destination_keeps:
  assumes "commit_destination env digest p key t s = Inr (c, s')"
  shows "extends s s'" "chat_ok s \<Longrightarrow> chat_ok s'"
  using assms createChannel_keeps
  by (auto simp: commit_destination_def create_destination_def Let_def bindE_Inr_iff split: option.splits)

lemma commit_newD:
  assumes "commit_new env digest tk p token key s = Inr (res, s')"
  obtains t source sc c s1 s2 where "read_continuation env tk p token = Inr t"
    "channelMessageTx env p (ci_source (ct_intent t)) s = Inr source"
    "channelTx p (cm_channel source) s = Inr sc" "c_revision sc = ct_source_revision t"
    "commit_destination env digest p key t s = Inr (c, s1)"
    "ChannelPost env digest p (continuation_post c key (ct_intent t) (cm_id source)) s1 = Inr (res, s2)"
    "saveChannelOperation p ''continue'' key (digestRequest digest (JText token)) (ResultId (cm_id (pt_message res))) s2 = Inr s'"
  using assms by (auto simp: commit_new_def ChannelPost_def ok_iff bindE_Inr_iff)

lemma ContinuationCommit_cases:
  assumes "ChannelContinuationCommit env digest tk p token key s = Inr (res, s')"
  obtains (again) "s' = s" "pt_duplicate res" | (committed) "commit_new env digest tk p token key s = Inr (res, s')"
  using assms by (auto simp: ChannelContinuationCommit_def bindE_Inr_iff split: option.splits)

lemma ContinuationCommit_keeps:
  assumes "ChannelContinuationCommit env digest tk p token key s = Inr (res, s')"
  shows "extends s s'" "chat_ok s \<Longrightarrow> chat_ok s'"
proof -
  have "extends s s' \<and> (chat_ok s \<longrightarrow> chat_ok s')"
    using assms
  proof (cases rule: ContinuationCommit_cases)
    case committed
    then show ?thesis
    proof (rule commit_newD)
      fix t source sc c s1 s2
      assume d: "commit_destination env digest p key t s = Inr (c, s1)"
        and post: "ChannelPost env digest p (continuation_post c key (ct_intent t) (cm_id source)) s1 = Inr (res, s2)"
        and save: "saveChannelOperation p ''continue'' key (digestRequest digest (JText token)) (ResultId (cm_id (pt_message res))) s2 = Inr s'"
      from commit_destination_keeps [OF d] ChannelPost_keeps [OF post] save_keeps [OF save]
      show ?thesis by (meson extends_trans)
    qed
  qed simp
  then show "extends s s'" "chat_ok s \<Longrightarrow> chat_ok s'" by blast+
qed

section \<open>Steps\<close>

inductive channel_step :: "env \<Rightarrow> cdb \<Rightarrow> cdb \<Rightarrow> bool" for env where
  legacy: "store_step env (base s) b \<Longrightarrow> channel_step env s (s\<lparr>base := b\<rparr>)"
| create: "ChannelCreate env digest p cr s = Inr (c, s') \<Longrightarrow> channel_step env s s'"
| post: "ChannelPost env digest p cp s = Inr (sent, s') \<Longrightarrow> channel_step env s s'"
| continue_in: "ChannelContinuationCommit env digest tk p token key s = Inr (sent, s') \<Longrightarrow> channel_step env s s'"
| register_human: "RegisterHuman env p a s = Inr s' \<Longrightarrow> channel_step env s s'"
| supervise: "SupervisionChange env digest p v human key s = Inr (sv, s') \<Longrightarrow> channel_step env s s'"
| membership: "ChannelMembershipChange env digest p cid a action key revision s = Inr (c, s') \<Longrightarrow> channel_step env s s'"
| view_update: "ChannelViewUpdate env p vw s = Inr (vw', s') \<Longrightarrow> channel_step env s s'"
| claim_managed: "ChannelClaim env p mid lease s = Inr (d, s') \<Longrightarrow> channel_step env s s'"
| update_managed: "ChannelDeliveryUpdate env p mid token act reason lease s = Inr (d, s') \<Longrightarrow> channel_step env s s'"
| resolve_response: "ChannelResponseResolve env digest p rid ract key revision s = Inr (rp, s') \<Longrightarrow> channel_step env s s'"
| enable_attention: "EnableChannelAttention p monitor s = Inr s' \<Longrightarrow> channel_step env s s'"
| reset_attention: "ResetChannelAttention p monitor s = Inr s' \<Longrightarrow> channel_step env s s'"
| claim_wake: "ClaimManagedNotification env s = Inr (job, s') \<Longrightarrow> channel_step env s s'"
| finish_wake: "FinishManagedNotification env job disp detail s = Inr s' \<Longrightarrow> channel_step env s s'"
| record_wake: "RecordManagedNotification env mid attempt s = Inr s' \<Longrightarrow> channel_step env s s'"
| rearm_wakes: "s' = RearmStaleManagedNotifications env stale s \<Longrightarrow> channel_step env s s'"

inductive_cases channel_stepE [consumes 1]: "channel_step env s s'"

inductive channel_run :: "cdb \<Rightarrow> bool" where
  fresh: "channel_run empty_cdb"
| later: "channel_run s \<Longrightarrow> channel_step env s s' \<Longrightarrow> channel_run s'"

abbreviation channel_steps :: "cdb \<Rightarrow> cdb \<Rightarrow> bool" where
  "channel_steps \<equiv> (\<lambda>s s'. \<exists>env. channel_step env s s')\<^sup>*\<^sup>*"

section \<open>The invariant\<close>

lemma channel_step_keeps:
  assumes "channel_step env s s'" and "chat_ok s"
  shows "extends s s' \<and> chat_ok s'"
  using assms(1)
proof cases
  case (legacy b)
  then show ?thesis using legacy_keeps [OF legacy(2) assms(2)] by simp
next
  case (create digest p cr c)
  then show ?thesis using ChannelCreate_keeps [OF create] assms(2) by simp
next
  case (post digest p cp sent)
  then show ?thesis using ChannelPost_keeps [OF post] assms(2) by simp
next
  case (continue_in digest tk p token key sent)
  then show ?thesis using ContinuationCommit_keeps [OF continue_in] assms(2) by simp
next
  case (register_human p a)
  then show ?thesis using RegisterHuman_keeps [OF register_human] assms(2) by simp
next
  case (supervise digest p v human key sv)
  then show ?thesis using SupervisionChange_keeps [OF supervise] assms(2) by simp
next
  case (membership digest p cid a action key revision c)
  then show ?thesis using Membership_keeps [OF membership] assms(2) by simp
next
  case (view_update p vw vw')
  then show ?thesis using ChannelViewUpdate_keeps [OF view_update] assms(2) by simp
next
  case (claim_managed p mid lease d)
  then show ?thesis using ChannelClaim_keeps [OF claim_managed] assms(2) by simp
next
  case (update_managed p mid token act reason lease d)
  then show ?thesis using ChannelDeliveryUpdate_keeps [OF update_managed] assms(2) by simp
next
  case (resolve_response digest p rid ract key revision rp)
  then show ?thesis using ResponseResolve_keeps [OF resolve_response] assms(2) by simp
next
  case (enable_attention p monitor)
  then show ?thesis using EnableAttention_keeps [OF enable_attention] assms(2) by simp
next
  case (reset_attention p monitor)
  then show ?thesis using ResetAttention_keeps [OF reset_attention] assms(2) by simp
next
  case (claim_wake job)
  then show ?thesis using ClaimManaged_keeps [OF claim_wake] assms(2) by simp
next
  case (finish_wake job disp detail)
  then show ?thesis using FinishManaged_keeps [OF finish_wake] assms(2) by simp
next
  case (record_wake mid attempt)
  then show ?thesis using RecordManaged_keeps [OF record_wake] assms(2) by simp
next
  case (rearm_wakes stale)
  then show ?thesis using RearmManaged_keeps assms(2) by simp
qed

lemma empty_chat_ok: "chat_ok empty_cdb"
  using empty_store_ok
  by (simp add: chat_ok_def empty_cdb_def log_ok_def posts_ok_def managed_ok_def dm_unique_def store_ok_def) (simp add: empty_db_def)

lemma channel_run_invariant: "channel_run s \<Longrightarrow> chat_ok s"
  by (induction rule: channel_run.induct) (use empty_chat_ok channel_step_keeps in blast)+

lemma channel_steps_keep: "channel_steps s s' \<Longrightarrow> chat_ok s \<Longrightarrow> extends s s' \<and> chat_ok s'"
proof (induction rule: rtranclp_induct)
  case (step b c)
  then show ?case using channel_step_keeps extends_trans by blast
qed simp

lemma channel_run_steps: "channel_steps s s' \<Longrightarrow> channel_run s \<Longrightarrow> channel_run s'"
  by (induction rule: rtranclp_induct) (use channel_run.later in blast)+

section \<open>Managed wake-ups are a notification queue\<close>

definition managed_status_of :: "outbox_row \<Rightarrow> job_status option" where
  "managed_status_of n = (if ob_source n \<noteq> ManagedSource then None else case ob_state n of
     ManagedPending \<Rightarrow> Some (Waiting (ob_available_at n)) | ManagedProcessing \<Rightarrow> Some (Running (ob_available_at n))
   | ManagedAccepted \<Rightarrow> Some AwaitingClaim | Done \<Rightarrow> Some Closed | _ \<Rightarrow> None)"

definition managed_status :: "string \<times> string \<Rightarrow> cdb \<Rightarrow> job_status option" where
  "managed_status k s = Option.bind (row_by outbox_key k (outbox (base s))) managed_status_of"

definition managed_attempts :: "string \<times> string \<Rightarrow> cdb \<Rightarrow> int" where
  "managed_attempts k s = (case row_by outbox_key k (outbox (base s)) of None \<Rightarrow> 0 | Some n \<Rightarrow> ob_attempt n)"

definition wakes_fine :: "cdb \<Rightarrow> bool" where
  "wakes_fine s \<longleftrightarrow> wakes_ok (outbox (base s))"

interpretation managed_process_upd: keyed_update outbox_key "managed_process_row attempt until"
  by unfold_locales (simp add: managed_process_row_def)

interpretation managed_finish_upd: keyed_update outbox_key "managed_finish_row st available detail"
  by unfold_locales (simp add: managed_finish_row_def)

lemma managed_open_due: "managed_open now n \<Longrightarrow> due now (managed_status_of n)"
  by (auto simp: managed_open_def due_def managed_status_of_def)

lemma managed_disposition_status:
  assumes "managed_disposition now d a = Inr (s, t)" and "ob_source n = ManagedSource"
  shows "managed_status_of (managed_finish_row s t detail n) = Some (next_status now d a)"
  using assms by (auto simp: managed_disposition_def next_status_def managed_finish_row_def managed_status_of_def max_attempts_def
      backoff_def second_def split: disposition.splits if_splits)

lemma ClaimManaged_row:
  assumes "wakes_fine s" and "ClaimManagedNotification env s = Inr (j, s')"
  obtains n m where "row_by outbox_key (job_key j) (outbox (base s)) = Some n" "managed_open (e_now env) n"
    "m \<in> set (messages (base s))" "wakeable s (e_now env) n m" "nj_attempt j = ob_attempt n + 1"
    "row_by outbox_key (job_key j) (outbox (base s')) = Some (managed_process_row (ob_attempt n + 1) (e_now env + 30 * second) n)"
    "wakes_fine s'" "msg_id (nj_message j) = mr_id m"
  using assms(2)
proof (rule ClaimManagedD)
  fix n m
  assume n: "n \<in> set (outbox (base s))" and m: "m \<in> set (messages (base s))" and op: "managed_open (e_now env) n"
    and w: "wakeable s (e_now env) n m"
    and j: "j = \<lparr>nj_message = managed_job_message m, nj_recipient = ob_recipient n, nj_attempt = ob_attempt n + 1\<rparr>"
    and s': "s' = managed_outbox (update_where (\<lambda>r. outbox_key r = outbox_key n \<and> ob_source r = ManagedSource)
      (managed_process_row (ob_attempt n + 1) (e_now env + 30 * second))) s"
  have id: "mr_id m = ob_message_id n" using w by (simp add: wakeable_def)
  have key: "job_key j = outbox_key n" by (simp add: j managed_job_message_def id)
  have d: "distinct (map outbox_key (outbox (base s)))" using assms(1) by (simp add: wakes_fine_def wakes_ok_def)
  have row: "row_by outbox_key (job_key j) (outbox (base s)) = Some n" unfolding key by (rule row_by_unique [OF d n])
  have src: "ob_source n = ManagedSource" using op by (simp add: managed_open_def)
  have "row_by outbox_key (job_key j) (outbox (base s')) = Some (managed_process_row (ob_attempt n + 1) (e_now env + 30 * second) n)"
    using row by (simp add: s' managed_outbox_def managed_process_upd.row_by_update key src)
  moreover have "wakes_fine s'"
    unfolding wakes_fine_def s' managed_outbox_def using assms(1) n
    by (simp add: wakes_fine_def) (rule wakes_ok_update, auto simp: managed_process_row_def wakes_ok_def)
  ultimately show thesis using that [OF row op m w] by (simp add: j managed_job_message_def)
qed

lemma FinishManaged_row:
  assumes "FinishManagedNotification env j d detail s = Inr s'" and "wakes_fine s"
    and "managed_status (job_key j) s = Some (Running t)" and "managed_attempts (job_key j) s = nj_attempt j"
  shows "managed_status (job_key j) s' = Some (next_status (e_now env) d (nj_attempt j))" "managed_attempts (job_key j) s' = nj_attempt j"
proof -
  obtain n where n: "row_by outbox_key (job_key j) (outbox (base s)) = Some n" "managed_status_of n = Some (Running t)"
    using assms(3) by (auto simp: managed_status_def split: Option.bind_splits)
  have src: "ob_source n = ManagedSource" "ob_state n = ManagedProcessing"
    using n(2) by (auto simp: managed_status_of_def split: outbox_state.splits if_splits)
  have at: "ob_attempt n = nj_attempt j" using assms(4) n(1) by (simp add: managed_attempts_def)
  have "managed_status (job_key j) s' = Some (next_status (e_now env) d (nj_attempt j)) \<and> managed_attempts (job_key j) s' = nj_attempt j"
    using assms(1)
  proof (rule FinishManagedD)
    fix st available cid k
    let ?q = "\<lambda>n. outbox_key n = job_key j \<and> ob_source n = ManagedSource \<and> ob_state n = ManagedProcessing \<and> ob_attempt n = nj_attempt j"
    let ?s = "managed_outbox (update_where ?q (managed_finish_row st available (take 4096 detail))) s"
    assume disp: "managed_disposition (e_now env) d (nj_attempt j) = Inr (st, available)"
      and ev: "channelEventTx env cid ''attention.attempted'' (nj_recipient j) (msg_id (nj_message j))
        (JObject [(''attempt'', JInt (nj_attempt j)), (''state'', JText (outbox_state_text st))]) ?s = Inr (k, s')"
    have "base s' = base ?s" using ev by (rule channelEventD) simp
    moreover have "row_by outbox_key (job_key j) (outbox (base ?s)) = Some (managed_finish_row st available (take 4096 detail) n)"
      using n(1) row_by_SomeD [OF n(1)] src at by (simp add: managed_outbox_def managed_finish_upd.row_by_update)
    ultimately show ?thesis
      using managed_disposition_status [OF disp src(1)] at by (simp add: managed_status_def managed_attempts_def managed_finish_row_def)
  qed
  then show "managed_status (job_key j) s' = Some (next_status (e_now env) d (nj_attempt j))" "managed_attempts (job_key j) s' = nj_attempt j"
    by blast+
qed

lemma FinishManaged_fine: "FinishManagedNotification env j d detail s = Inr s' \<Longrightarrow> wakes_fine s \<Longrightarrow> wakes_fine s'"
proof (erule FinishManagedD)
  fix st available cid k
  let ?s = "managed_outbox (update_where (\<lambda>n. outbox_key n = job_key j \<and> ob_source n = ManagedSource \<and> ob_state n = ManagedProcessing \<and>
     ob_attempt n = nj_attempt j) (managed_finish_row st available (take 4096 detail))) s"
  assume ok: "wakes_fine s" and ev: "channelEventTx env cid ''attention.attempted'' (nj_recipient j) (msg_id (nj_message j))
        (JObject [(''attempt'', JInt (nj_attempt j)), (''state'', JText (outbox_state_text st))]) ?s = Inr (k, s')"
  have "base s' = base ?s" using ev by (rule channelEventD) simp
  then show "wakes_fine s'"
    using ok by (simp add: wakes_fine_def managed_outbox_def wakes_ok_update managed_finish_row_def)
qed

interpretation managed_queue: notification_queue ClaimManagedNotification FinishManagedNotification managed_status managed_attempts wakes_fine
proof unfold_locales
  fix env s j s'
  assume ok: "wakes_fine s" and c: "ClaimManagedNotification env s = Inr (j, s')"
  from ok c show "wakes_fine s'" by (rule ClaimManaged_row)
  from ok c show "due (e_now env) (managed_status (job_key j) s)"
    by (rule ClaimManaged_row) (simp add: managed_status_def managed_open_due)
  from ok c show "managed_status (job_key j) s' = Some (Running (e_now env + processing_lease)) \<and>
      managed_attempts (job_key j) s' = nj_attempt j \<and> nj_attempt j = managed_attempts (job_key j) s + 1"
    by (rule ClaimManaged_row)
      (simp add: managed_status_def managed_attempts_def managed_status_of_def managed_process_row_def managed_open_def processing_lease_def second_def)
next
  fix env j d detail s s'
  assume ok: "wakes_fine s" and f: "FinishManagedNotification env j d detail s = Inr s'"
  show "wakes_fine s'" by (rule FinishManaged_fine [OF f ok])
  fix t
  assume "managed_status (job_key j) s = Some (Running t)" and "managed_attempts (job_key j) s = nj_attempt j"
  from FinishManaged_row [OF f ok this]
  show "managed_status (job_key j) s' = Some (next_status (e_now env) d (nj_attempt j)) \<and> managed_attempts (job_key j) s' = nj_attempt j" by blast
qed

end
