(* ===== verification/ChannelAudience.thy ===== *)
theory ChannelAudience
  imports ChannelRuns
begin

text \<open>
  Facts on the audience of a managed conversation: who reads a message, which audience a policy
  revision stands for, what a post did and what a change of membership left behind.
\<close>

section \<open>Readers\<close>

lemma read_unauthorized:
  assumes "posts_ok s" and "\<not> authorized s (pr_actor p) mid"
  shows "channelMessageTx env p mid s = Inl ErrChannelDenied"
proof (cases "conversationPrincipal p = Inr () \<and>
    (\<exists>r\<in>set (messages (base s)). mr_id r = mid \<and> mr_conversation r \<noteq> None \<and> unexpired (e_now env) r)")
  case True
  then obtain r cid where r: "r \<in> set (messages (base s))" "mr_id r = mid" "mr_conversation r = Some cid" "unexpired (e_now env) r"
    by blast
  show ?thesis using message_lookup(2) [OF assms(1) r(1,3,4), of p] True assms(2) r(2) by simp
next
  case False
  show ?thesis
  proof (cases "conversationPrincipal p")
    case (Inl e)
    then show ?thesis by (auto simp: channelMessageTx_def conversationPrincipal_def requireE_def split: if_splits)
  next
    case (Inr u)
    have "find (\<lambda>m. mr_id m = mid \<and> mr_conversation m \<noteq> None \<and> unexpired (e_now env) m) (messages (base s)) = None"
      unfolding find_None_iff using False Inr by auto
    then show ?thesis by (simp add: channelMessageTx_def Inr)
  qed
qed

lemma read_authorized:
  assumes "channelMessageTx env p mid s = Inr m"
  shows "authorized s (pr_actor p) mid" "conversationPrincipal p = Inr ()"
    "\<exists>r\<in>set (messages (base s)). mr_id r = mid \<and> unexpired (e_now env) r" "cm_id m = mid"
proof -
  obtain r c where r: "r \<in> set (messages (base s))" "mr_id r = mid" "mr_conversation r = Some (cm_channel m)"
    "mr_channel_seq r = Some (cm_seq m)" "unexpired (e_now env) r" "cm_id m = mid"
    and c: "channelTx p (cm_channel m) s = Inr c" "c_history_from c \<le> cm_seq m"
    using assms by (rule channelMessageD)
  show "conversationPrincipal p = Inr ()" using c(1) by (auto simp: channelTx_def bindE_Inr_iff)
  show "authorized s (pr_actor p) mid" using authorizedI [OF c(1) r(1,3,4) c(2)] r(2) by simp
  show "\<exists>r\<in>set (messages (base s)). mr_id r = mid \<and> unexpired (e_now env) r" "cm_id m = mid" using r by blast+
qed

lemma message_read:
  assumes "posts_ok s" and "conversationPrincipal p = Inr ()" and "authorized s (pr_actor p) mid"
    and "r \<in> set (messages (base s))" and "mr_id r = mid" and "unexpired (e_now env) r"
  shows "\<exists>m. channelMessageTx env p mid s = Inr m"
proof -
  obtain r' cid where r': "r' \<in> set (messages (base s))" "mr_id r' = mid" "mr_conversation r' = Some cid"
    using assms(3) unfolding authorized_def by blast
  have "r' = r" by (rule message_unique [OF assms(1) r'(1) assms(4)]) (simp add: r'(2) assms(5))
  then show ?thesis using message_lookup(1) [OF assms(1) r'(1,3) _ assms(2)] assms(3,6) r'(2) by simp
qed

lemma read_error:
  assumes "posts_ok s" and "channelMessageTx env p mid s = Inl e"
  shows "e = ErrChannelDenied"
proof (cases "authorized s (pr_actor p) mid")
  case False
  then show ?thesis using read_unauthorized [OF assms(1), of p mid env] assms(2) by simp
next
  case True
  then obtain r cid where r: "r \<in> set (messages (base s))" "mr_id r = mid" "mr_conversation r = Some cid"
    unfolding authorized_def by blast
  show ?thesis
  proof (cases "conversationPrincipal p = Inr () \<and> unexpired (e_now env) r")
    case True
    then show ?thesis
      using message_read [OF assms(1) _ \<open>authorized s (pr_actor p) mid\<close> r(1,2), of env] assms(2) by auto
  next
    case False
    show ?thesis
    proof (cases "conversationPrincipal p")
      case (Inl x)
      then show ?thesis using assms(2) by (auto simp: channelMessageTx_def conversationPrincipal_def requireE_def split: if_splits)
    next
      case (Inr u)
      have "x = r" if "x \<in> set (messages (base s))" "mr_id x = mid" for x
        by (rule message_unique [OF assms(1) that(1) r(1)]) (simp add: that(2) r(2))
      then have "find (\<lambda>m. mr_id m = mid \<and> mr_conversation m \<noteq> None \<and> unexpired (e_now env) m) (messages (base s)) = None"
        unfolding find_None_iff using False Inr by auto
      then show ?thesis using assms(2) by (simp add: channelMessageTx_def Inr)
    qed
  qed
qed

text \<open>With the policy revision an actor read comes the audience it read.\<close>

lemma same_revision:
  assumes "extends s s'" and "row_by ch_id cid (channels s) = Some ch" and "row_by ch_id cid (channels s') = Some ch'"
    and "ch_revision ch' = ch_revision ch"
  shows "live_grants s' cid = live_grants s cid"
proof -
  obtain c where "row_by ch_id cid (channels s') = Some c" "later_channel s s' ch c"
    using assms(1,2) unfolding extends_def channels_extend_def by blast
  then show ?thesis using assms(3,4) row_by_SomeD [OF assms(2)] by (simp add: later_channel_def)
qed

lemma same_audience:
  assumes "extends s s'" and "channelTx q cid s = Inr c" and "channelTx p cid s' = Inr c'" and "c_revision c' = c_revision c"
  shows "c_participants c' = c_participants c"
proof -
  obtain ch where ch: "row_by ch_id cid (channels s) = Some ch" "c_revision c = ch_revision ch"
    "c_participants c = filter (may_post s cid) (grouped_actors (live_grants s cid))"
    using assms(2) by (rule channelTxD)
  obtain ch' where ch': "row_by ch_id cid (channels s') = Some ch'" "c_revision c' = ch_revision ch'"
    "c_participants c' = filter (may_post s' cid) (grouped_actors (live_grants s' cid))"
    using assms(3) by (rule channelTxD)
  have g: "live_grants s' cid = live_grants s cid"
    by (rule same_revision [OF assms(1) ch(1) ch'(1)]) (use assms(4) ch(2) ch'(2) in simp)
  have "may_post s' cid = may_post s cid" by (simp add: fun_eq_iff may_post_def grants_of_def g)
  then show ?thesis by (simp add: ch(3) ch'(3) g)
qed

lemma same_authorized:
  assumes "live_grants s' cid = live_grants s cid" and "posts_ok s'" and "m \<in> set (messages (base s'))" and "mr_conversation m = Some cid"
  shows "authorized s' a (mr_id m) \<longleftrightarrow> (\<exists>n. mr_channel_seq m = Some n \<and> (\<exists>g\<in>set (grants_of s cid a). cg_history_from g \<le> n))"
proof -
  obtain n where n: "mr_channel_seq m = Some n" by (rule post_channel [OF assms(2-4)])
  have g: "grants_of s' cid a = grants_of s cid a" by (simp add: grants_of_def assms(1))
  show ?thesis
  proof
    assume "authorized s' a (mr_id m)"
    then have a: "grants_of s cid a \<noteq> []" "history_floor (grants_of s cid a) \<le> n"
      unfolding authorized_iff [OF assms(2-4) n] g by blast+
    obtain h where h: "h \<in> set (grants_of s cid a)" "cg_history_from h = history_floor (grants_of s cid a)"
      by (rule history_floor_in [OF a(1)])
    have "cg_history_from h \<le> n" using h(2) a(2) by simp
    then show "\<exists>n. mr_channel_seq m = Some n \<and> (\<exists>g\<in>set (grants_of s cid a). cg_history_from g \<le> n)" using h(1) n by blast
  next
    assume "\<exists>n. mr_channel_seq m = Some n \<and> (\<exists>g\<in>set (grants_of s cid a). cg_history_from g \<le> n)"
    then obtain h where h: "h \<in> set (grants_of s cid a)" "cg_history_from h \<le> n" using n by auto
    have "grants_of s cid a \<noteq> []" using h(1) by auto
    moreover have "history_floor (grants_of s cid a) \<le> n" using history_floor_le [OF h(1)] h(2) by simp
    ultimately show "authorized s' a (mr_id m)" unfolding authorized_iff [OF assms(2-4) n] g by blast
  qed
qed

section \<open>Posts\<close>

lemma posted_cases:
  assumes "ChannelPost env digest p r s = Inr (res, s')" and "\<not> pt_duplicate res"
  obtains c and r2 :: channel_post and r3 s1 where "channelTx p (cp_channel r) s = Inr c" "c_can_post c" "prior_post s (pr_actor p) (cp_key r) = None"
    "cp_expected_revision r = c_revision c" "same_post r r3" "\<exists>k. s1 = s\<lparr>base := (base s)\<lparr>db_ids := k\<rparr>\<rparr>"
    "check_audience env p c r3 s1 = Inr ()"
    "store_post env p c r3 (cp_thread r2 = []) (digestRequest digest (post_json r)) s1 = Inr (res, s')" "c_id c = cp_channel r"
  using assms(1)
proof (cases rule: ChannelPost_cases)
  case (again mid m)
  then show thesis using assms(2) by simp
next
  case (posted c)
  have id: "c_id c = cp_channel r" by (rule channelTxD [OF posted(1)])
  from posted(5) show thesis
  proof (rule post_newD)
    fix r2 :: channel_post and r3 s1
    assume *: "cp_expected_revision r = c_revision c" "same_post r r3" "\<exists>k. s1 = s\<lparr>base := (base s)\<lparr>db_ids := k\<rparr>\<rparr>"
      "check_audience env p c r3 s1 = Inr ()"
      "store_post env p c r3 (cp_thread r2 = []) (digestRequest digest (post_json r)) s1 = Inr (res, s')"
    show thesis by (rule that [OF posted(1-3) * id])
  qed
qed

lemma post_later:
  assumes "messages_ok (base s)" and "m \<in> set (messages (base s))" and "mr_from_actor m = a" and "mr_idempotency_key m = k"
  shows "\<exists>dig. prior_post s a k = Some (mr_id m, dig)"
proof -
  let ?key = "\<lambda>m. (mr_from_actor m, mr_idempotency_key m)"
  have "row_by ?key (?key m) (messages (base s)) = Some m"
    by (rule row_by_unique) (use assms(1,2) in \<open>simp_all add: messages_ok_def\<close>)
  then show ?thesis using assms(3,4) by (simp add: prior_post_def)
qed

lemma fold_attention_keys: "outbox_key ` set rows \<subseteq> outbox_key ` set (fold (request_attention env mid) as rows)"
proof (induction as arbitrary: rows)
  case (Cons a as)
  have "outbox_key ` set rows \<subseteq> outbox_key ` set (request_attention env mid a rows)" by (auto simp: request_attention_def)
  then show ?case using Cons [of "request_attention env mid a rows"] by simp
qed simp

lemma fold_attention: "a \<in> set as \<Longrightarrow> (mid, a) \<in> outbox_key ` set (fold (request_attention env mid) as rows)"
proof (induction as arbitrary: rows)
  case (Cons b as)
  show ?case
  proof (cases "a = b")
    case True
    have "(mid, a) \<in> outbox_key ` set (request_attention env mid a rows)"
      by (cases "row_by outbox_key (mid, a) rows") (force simp: request_attention_def dest: row_by_SomeD)+
    then show ?thesis using fold_attention_keys True by (simp add: subsetD) blast
  qed (use Cons in simp)
qed simp

section \<open>Membership\<close>

lemma channel_id: "channelTx p cid s = Inr c \<Longrightarrow> c_id c = cid"
  by (erule channelTxD)

lemma event_revision:
  assumes "channelEventTx env cid kind a mid pl s = Inr (n, s')"
  shows "base s' = base s" "responses s' = responses s" "managed s' = managed s"
  using assms by (rule channelEventD, simp)+

text \<open>What a successful change of membership left, when it was not a repetition.\<close>

lemma removedD:
  assumes "ChannelMembershipChange env digest p cid a ''remove'' key revision s = Inr (c', s')"
    and "row_by operation_key (pr_actor p, ''membership'', key) (operations s) = None"
  obtains n s1 where "base s1 = base s" "responses s1 = responses s" "managed s1 = managed s"
    "managed s' = managed (end_membership cid a n s1)" "responses s' = responses (end_membership cid a n s1)"
    "live_grants s' cid = live_grants (end_membership cid a n s1) cid" "channelTx p cid s' = Inr c'"
    "messages (base s') = messages (base s)"
  using assms(1)
proof (cases rule: MembershipD)
  case (again c x)
  then show thesis using assms(2) by (simp add: channelOperation_def)
next
  case (changed c n s1 s2 dig)
  have s2: "s2 = end_membership cid a n s1" using changed(7) by (simp add: apply_membership_def)
  have s': "s' = (bump_revision cid s2)\<lparr>operations := operations s'\<rparr>"
    using changed(8) by (rule saveOperationD) simp
  show thesis
  proof (rule that [OF event_revision [OF changed(6)] _ _ _ changed(9)])
    show "managed s' = managed (end_membership cid a n s1)" by (subst s') (simp add: s2)
    show "responses s' = responses (end_membership cid a n s1)" by (subst s') (simp add: s2 bump_revision_def)
    show "live_grants s' cid = live_grants (end_membership cid a n s1) cid" by (subst s') (simp add: s2 live_grants_def)
    show "messages (base s') = messages (base s)"
      by (subst s') (simp add: s2 end_membership_simps event_revision [OF changed(6)])
  qed
qed

lemma end_membership_grants:
  assumes "\<forall>g\<in>set (grants_of s cid a). cg_source g = ''participant''"
  shows "filter (\<lambda>g. cg_actor g = a) (live_grants (end_membership cid a n s) cid) = []"
proof -
  let ?q = "\<lambda>g. cg_channel_id g = cid \<and> (cg_actor g = a \<and> cg_source g = ''participant'' \<or> cg_source g = supervisor_source a)"
  have live: "live_grants (end_membership cid a n s) cid = live_grants (revoke_grants ?q n s) cid"
    by (simp add: end_membership_def Let_def live_grants_def)
  have "False" if g: "g \<in> set (live_grants (revoke_grants ?q n s) cid)" "cg_actor g = a" for g
  proof -
    have "g \<in> set (grants (base (revoke_grants ?q n s)))" and l: "cg_channel_id g = cid" "cg_revoked_seq g = None"
      using g(1) by (auto simp: live_grants_def)
    then obtain h where h: "h \<in> set (grants (base s))"
      "g = (if ?q h \<and> cg_revoked_seq h = None then h\<lparr>cg_revoked_seq := Some n\<rparr> else h)"
      unfolding revoke_grants_def by (auto dest: in_update_whereD)
    have "g = h" "\<not> ?q h" using h(2) l by (auto split: if_splits)
    then have "h \<in> set (grants_of s cid a)" "cg_source h \<noteq> ''participant''" using h(1) l g(2) by (auto simp: grants_of_iff)
    then show False using assms by blast
  qed
  then show ?thesis unfolding live filter_empty_conv by blast
qed

lemma ended_deliveries:
  assumes "d \<in> set (managed (end_membership cid a n s))" and "dl_recipient d = a" and "in_channel s cid (dl_message_id d)"
  shows "dl_state d \<notin> {Queued, Claimed}"
proof -
  have ch: "in_channel (revoke_grants q n s) cid x = in_channel s cid x" for q x by (simp add: in_channel_def channel_messages_def)
  obtain d0 where "d = (if dl_recipient d0 = a \<and> in_channel s cid (dl_message_id d0) \<and> dl_state d0 \<in> {Queued, Claimed}
      then revoke_delivery d0 else d0)"
    using assms(1) by (auto simp: end_membership_def Let_def ch dest!: in_update_whereD)
  then show ?thesis using assms(2,3) by (auto simp: revoke_delivery_def split: if_splits)
qed

lemma ended_questions:
  assumes "x \<in> set (responses (end_membership cid a n s))" and "rs_channel x = cid" and "rs_respondent x = a"
  shows "rs_state x \<noteq> ResponseOpen"
proof -
  obtain x0 where "x = (if rs_channel x0 = cid \<and> rs_respondent x0 = a \<and> rs_state x0 = ResponseOpen
      then x0\<lparr>rs_state := ResponseRevoked, rs_revision := rs_revision x0 + 1\<rparr> else x0)"
    using assms(1) by (auto simp: end_membership_def Let_def dest!: in_update_whereD)
  then show ?thesis using assms(2,3) by (auto split: if_splits)
qed

lemma addedD:
  assumes "ChannelMembershipChange env digest p cid a ''add'' key revision s = Inr (c', s')"
    and "row_by operation_key (pr_actor p, ''membership'', key) (operations s) = None"
  obtains ch where "row_by ch_id cid (channels s) = Some ch" "channelTx p cid s' = Inr c'"
    "\<And>g. g \<in> set (grants_of s' cid b) \<Longrightarrow> g \<in> set (grants_of s cid b) \<or> cg_history_from g = ch_next_seq ch"
    "\<exists>g\<in>set (grants_of s' cid a). cg_can_post g"
  using assms(1)
proof (cases rule: MembershipD)
  case (again c x)
  then show thesis using assms(2) by (simp add: channelOperation_def)
next
  case (changed c n s1 s2 dig)
  obtain ch where ch: "row_by ch_id cid (channels s) = Some ch" "n = ch_next_seq ch" and b: "base s1 = base s"
    using changed(6) by (rule channelEventD) simp
  have "channelGrantTx cid a n s1 = Inr s2" using changed(7) by (simp add: apply_membership_def)
  then obtain gs where s2: "s2 = s1\<lparr>base := (base s1)\<lparr>grants := grants (base s1) @ gs\<rparr>\<rparr>"
    and gs: "\<forall>g\<in>set gs. cg_channel_id g = cid \<and> cg_revoked_seq g = None \<and> cg_history_from g = n"
      "gs = new_grant cid a ''participant'' True n # (case active_supervisor s1 a of None \<Rightarrow> []
      | Some h \<Rightarrow> [new_grant cid h (supervisor_source a) False n])" by (rule channelGrantD)
  have s': "s' = (bump_revision cid s2)\<lparr>operations := operations s'\<rparr>"
    using changed(8) by (rule saveOperationD) simp
  have g: "grants (base s') = grants (base s) @ gs" by (subst s') (simp add: s2 b)
  show thesis
  proof (rule that [OF ch(1) changed(9)])
    show "g \<in> set (grants_of s cid b) \<or> cg_history_from g = ch_next_seq ch" if "g \<in> set (grants_of s' cid b)" for g
      using that gs(1) ch(2) by (auto simp: grants_of_iff g)
    have "new_grant cid a ''participant'' True n \<in> set (grants_of s' cid a)"
      by (simp add: grants_of_iff g gs(2) new_grant_def)
    then show "\<exists>g\<in>set (grants_of s' cid a). cg_can_post g" by (rule bexI [rotated]) (simp add: new_grant_def)
  qed
qed

section \<open>Claims\<close>

lemma affected_one:
  assumes "affected p rows = 1"
  obtains r where "r \<in> set rows" "p r"
  using affected_pos_iff [of p rows] assms by auto

lemma claimed_row:
  assumes "ChannelClaim env p mid lease s = Inr (x, s')" and "managed_ok s"
  obtains d where "row_by delivery_key (mid, pr_actor p) (managed s') = Some d" "dl_state d = Claimed"
    "dl_lease_token d = Some (cd_lease_token x)" "dl_lease_expires d = Some (e_now env + lease)"
  using assms(1)
proof (rule ChannelClaimD)
  fix m :: channel_message and c :: channel and token s1 and d0 :: delivery_row and n and s3 :: cdb
  let ?q = "\<lambda>d. delivery_key d = (mid, pr_actor p) \<and> claimable (e_now env) d"
  let ?f = "claim_row token (e_now env + lease) (e_now env)"
  assume one: "affected ?q (managed s) = 1"
    and row: "row_by delivery_key (mid, pr_actor p) (update_where ?q ?f (managed s)) = Some d0"
    and ev: "channelEventTx env (cm_channel m) ''delivery.claimed'' (pr_actor p) mid JNull (s1\<lparr>managed := update_where ?q ?f (managed s)\<rparr>) = Inr (n, s3)"
    and s': "s' = managed_outbox (close_managed mid (pr_actor p) (e_now env)) s3"
    and x: "x = \<lparr>cd_policy_revision = c_revision c, cd_message = m, cd_state = Claimed, cd_attempt = dl_attempt d0,
         cd_lease_token = token, cd_lease_expires_at = Some (e_now env + lease)\<rparr>"
  have man: "managed s' = update_where ?q ?f (managed s)" using event_revision(3) [OF ev] by (simp add: s' managed_outbox_def)
  obtain y where y: "y \<in> set (managed s)" "?q y" using one by (rule affected_one) blast
  have "row_by delivery_key (mid, pr_actor p) (managed s) = Some y"
    using row_by_unique [of delivery_key "managed s" y] assms(2) y by (simp add: managed_ok_def)
  then have "d0 = ?f y" using row y(2) by (simp add: claim_upd.row_by_update)
  then show thesis using that [OF row [folded man]] x by (simp add: claim_row_def)
qed

section \<open>Direct conversations\<close>

lemma normalized_dm:
  assumes "normalizeChannelCreate p r = Inr r'" and "cr_kind r = ''dm''"
  shows "r' = r\<lparr>cr_participants := sort (cr_participants r), cr_title := []\<rparr>"
  using assms by (auto simp: normalizeChannelCreate_def Let_def bindE_Inr_iff)

lemma dm_row_created:
  assumes "create_new env p r (Some k) dig s = Inr (c, s')"
  shows "\<exists>ch. row_by ch_id (c_id c) (channels s') = Some ch \<and> ch_dm_key ch = Some k"
proof -
  obtain cid s1 s2 s3 n s4 where ins: "insert_channel (new_channel env p r (Some k) cid) s1 = Inr s2"
    and gr: "foldE (\<lambda>a. channelGrantTx cid a 0) (cr_participants r) s2 = Inr s3"
    and ev: "channelEventTx env cid ''channel.created'' (pr_actor p) []
      (JObject [(''participants'', JArray (map JText (cr_participants r)))]) s3 = Inr (n, s4)"
    and sv: "saveChannelOperation p ''create'' (cr_key r) dig (ResultId cid) s4 = Inr s'" and c: "channelTx p cid s' = Inr c"
    using assms by (auto simp: create_new_def bindE_Inr_iff)
  note s2 = insert_channelD [OF ins]
  let ?ch = "new_channel env p r (Some k) cid"
  have new: "ch_id ?ch = cid" "ch_dm_key ?ch = Some k" by (simp_all add: new_channel_def)
  have "row_by ch_id cid (channels s2) = Some ?ch"
    using s2(2) new(1) row_by_None_key [of ch_id cid "channels s1"] by (simp add: s2(1) row_by_append)
  moreover obtain gs where "channels s3 = channels s2" using grant_all [OF gr] by (metis cdb.select_convs(2) cdb.surjective cdb.update_convs(1))
  moreover obtain x where "channels s4 = update_where (\<lambda>c. ch_id c = cid) bump_seq (channels s3)" using ev by (rule channelEventD) simp
  moreover have "channels s' = channels s4" using sv by (rule saveOperationD) simp
  ultimately have "row_by ch_id cid (channels s') = Some (bump_seq ?ch)" using new(1) by (simp add: bump_seq_upd.row_by_update)
  then show ?thesis using channel_id [OF c] new(2) by (simp add: bump_seq_def)
qed

lemma dm_created:
  assumes "ChannelCreate env digest p r s = Inr (c, s')" and "cr_kind r = ''dm''"
    and "row_by operation_key (pr_actor p, ''create'', cr_key r) (operations s) = None" and "distinct (map ch_id (channels s))"
  obtains ch where "row_by ch_id (c_id c) (channels s') = Some ch"
    "ch_dm_key ch = Some (dm_key digest (r\<lparr>cr_participants := sort (cr_participants r), cr_title := []\<rparr>))"
proof -
  let ?r = "r\<lparr>cr_participants := sort (cr_participants r), cr_title := []\<rparr>"
  have tx: "createChannelTx env digest p ?r s = Inr (c, s')"
    using assms(1) normalized_dm [OF _ assms(2)] by (auto simp: ChannelCreate_def bindE_Inr_iff)
  show thesis
  proof (cases "row_by ch_dm_key (Some (dm_key digest ?r)) (channels s)")
    case None
    then have "create_new env p ?r (Some (dm_key digest ?r)) (digestRequest digest (create_json ?r)) s = Inr (c, s')"
      using tx assms(2,3) by (simp add: createChannelTx_def Let_def channelOperation_def)
    then show thesis using dm_row_created that by blast
  next
    case (Some ch)
    then obtain dig where c: "channelTx p (ch_id ch) s = Inr c"
      and sv: "saveChannelOperation p ''create'' (cr_key r) dig (ResultId (ch_id ch)) s = Inr s'"
      using tx assms(2,3) by (auto simp: createChannelTx_def Let_def channelOperation_def bindE_Inr_iff)
    have ch: "ch \<in> set (channels s)" "ch_dm_key ch = Some (dm_key digest ?r)" using row_by_SomeD [OF Some] by simp_all
    have "row_by ch_id (c_id c) (channels s) = Some ch" unfolding channel_id [OF c] by (rule row_by_unique [OF assms(4) ch(1)])
    moreover have "channels s' = channels s" using sv by (rule saveOperationD) simp
    ultimately show thesis using that ch(2) by simp
  qed
qed

lemma dm_found:
  assumes "ChannelCreate env digest p r s = Inr (c, s')" and "cr_kind r = ''dm''"
    and "row_by operation_key (pr_actor p, ''create'', cr_key r) (operations s) = None"
    and "row_by ch_dm_key (Some (dm_key digest (r\<lparr>cr_participants := sort (cr_participants r), cr_title := []\<rparr>))) (channels s) = Some ch"
  shows "c_id c = ch_id ch"
proof -
  let ?r = "r\<lparr>cr_participants := sort (cr_participants r), cr_title := []\<rparr>"
  have "createChannelTx env digest p ?r s = Inr (c, s')"
    using assms(1) normalized_dm [OF _ assms(2)] by (auto simp: ChannelCreate_def bindE_Inr_iff)
  then have "channelTx p (ch_id ch) s = Inr c"
    using assms(2-4) by (auto simp: createChannelTx_def Let_def channelOperation_def bindE_Inr_iff)
  then show ?thesis by (rule channel_id)
qed

section \<open>Views\<close>

interpretation view_upd: keyed_update view_key "\<lambda>r. r\<lparr>vr_state := v\<rparr>"
  by unfold_locales (simp add: view_key_def)

lemma ChannelViewUpdateD:
  assumes "ChannelViewUpdate env p v s = Inr (v', s')"
  obtains c where "channelTx p (vw_channel v) s = Inr c"
    "vw_revision v = vw_revision (channelViewTx p (vw_channel v) (vw_thread v) s)"
    "vw_read_through (channelViewTx p (vw_channel v) (vw_thread v) s) \<le> vw_read_through v"
    "vw_read_through v \<noteq> 0 \<longrightarrow> visible_position s c (vw_thread v) (vw_read_through v)"
    "s' = s\<lparr>views := upsert_view \<lparr>vr_channel = vw_channel v, vr_actor = pr_actor p, vr_thread = vw_thread v,
        vr_state = v\<lparr>vw_revision := vw_revision v + 1\<rparr>\<rparr> (views s)\<rparr>"
proof -
  obtain c where c: "channelTx p (vw_channel v) s = Inr c"
    and rev: "vw_revision v = vw_revision (channelViewTx p (vw_channel v) (vw_thread v) s)"
    and mono: "\<not> (vw_read_through v < vw_read_through (channelViewTx p (vw_channel v) (vw_thread v) s) \<or> c_last_seq c < vw_read_through v \<or> vw_read_through v < 0)"
    and pos: "forE (filter (\<lambda>n. n \<noteq> 0) (vw_read_through v # (case vw_unread_from v of None \<Rightarrow> [] | Some n \<Rightarrow> [n])))
      (\<lambda>n. requireE (visible_position s c (vw_thread v) n) ErrChannelDenied) = Inr ()"
    and s': "s' = s\<lparr>views := upsert_view \<lparr>vr_channel = vw_channel v, vr_actor = pr_actor p, vr_thread = vw_thread v,
        vr_state = v\<lparr>vw_revision := vw_revision v + 1\<rparr>\<rparr> (views s)\<rparr>"
    using assms unfolding ChannelViewUpdate_def Let_def bindE_Inr_iff requireE_Inr_iff by auto
  have "vw_read_through v \<noteq> 0 \<longrightarrow> visible_position s c (vw_thread v) (vw_read_through v)"
    using pos by (auto simp: bindE_Inr_iff requireE_Inr_iff)
  then show thesis using that [OF c rev _ _ s'] mono by simp
qed

lemma upsert_view_reads:
  "channelViewTx p cid thread (s\<lparr>views := upsert_view \<lparr>vr_channel = cid, vr_actor = pr_actor p, vr_thread = thread, vr_state = v\<rparr> (views s)\<rparr>) = v"
proof -
  let ?n = "\<lparr>vr_channel = cid, vr_actor = pr_actor p, vr_thread = thread, vr_state = v\<rparr>"
  have "\<exists>r. row_by view_key (cid, pr_actor p, thread) (upsert_view ?n rows) = Some r \<and> vr_state r = v" for rows
  proof (cases "row_by view_key (cid, pr_actor p, thread) rows")
    case None
    then show ?thesis by (simp add: upsert_view_def view_key_def row_by_append)
  next
    case (Some r)
    have "row_by view_key (cid, pr_actor p, thread) (update_where (\<lambda>r. view_key r = view_key ?n) (\<lambda>r. r\<lparr>vr_state := v\<rparr>) rows) =
        Some (r\<lparr>vr_state := v\<rparr>)"
      using Some row_by_SomeD [OF Some] by (simp add: view_upd.row_by_update view_key_def)
    then show ?thesis using Some by (simp add: upsert_view_def view_key_def)
  qed
  then obtain r where "row_by view_key (cid, pr_actor p, thread) (upsert_view ?n (views s)) = Some r" "vr_state r = v" by blast
  then show ?thesis by (simp add: channelViewTx_def view_key_def [abs_def])
qed

section \<open>History\<close>

lemma history_rows_in:
  "r \<in> set (history_rows env s cid thread after floor) \<Longrightarrow> r \<in> set (messages (base s)) \<and> mr_conversation r = Some cid \<and> unexpired (e_now env) r \<and>
    (\<exists>n. mr_channel_seq r = Some n \<and> floor \<le> n)"
  by (auto simp: history_rows_def in_channel_messages split: option.splits)

lemma mapE_take: "mapE f xs = Inr ys \<Longrightarrow> mapE f (take k xs) = Inr (take k ys)"
  by (auto simp: mapE_Inr_list_all2 intro: list_all2_takeI)

lemma history_strict:
  assumes "posts_ok s"
  shows "sorted_wrt (<) (map (\<lambda>m. the (mr_channel_seq m)) (history_rows env s cid thread after floor))"
proof -
  let ?rows = "history_rows env s cid thread after floor" and ?k = "\<lambda>m. the (mr_channel_seq m)"
  have "distinct (map mr_id (messages (base s)))" using assms by (simp add: posts_ok_def messages_ok_def)
  then have "distinct ?rows" by (simp add: history_rows_def channel_messages_def distinct_map)
  moreover have "inj_on ?k (set ?rows)"
  proof (rule inj_onI)
    fix x y assume xy: "x \<in> set ?rows" "y \<in> set ?rows" "?k x = ?k y"
    have "x \<in> set (messages (base s))" "y \<in> set (messages (base s))" "mr_conversation x \<noteq> None" "mr_conversation x = mr_conversation y"
      "mr_channel_seq x = mr_channel_seq y" using history_rows_in [OF xy(1)] history_rows_in [OF xy(2)] xy(3) by auto
    then show "x = y" using assms unfolding posts_ok_def by blast
  qed
  ultimately have "distinct (map ?k ?rows)" by (simp add: distinct_map)
  moreover have "sorted (map ?k ?rows)" by (simp add: history_rows_def)
  ultimately show ?thesis by (simp add: strict_sorted_iff)
qed

lemma history_readable:
  assumes "posts_ok s" and "channelTx p cid s = Inr c"
  obtains all where "mapE (\<lambda>r. channelMessageTx env p (mr_id r) s) (history_rows env s cid thread after (c_history_from c)) = Inr all"
    "sorted_wrt (<) (map cm_seq all)"
proof -
  let ?rows = "history_rows env s cid thread after (c_history_from c)"
  have pr: "conversationPrincipal p = Inr ()" using assms(2) by (auto simp: channelTx_def bindE_Inr_iff)
  have one: "\<exists>m. channelMessageTx env p (mr_id r) s = Inr m" if r: "r \<in> set ?rows" for r
  proof -
    obtain n where n: "r \<in> set (messages (base s))" "mr_conversation r = Some cid" "unexpired (e_now env) r" "mr_channel_seq r = Some n"
      "c_history_from c \<le> n" using history_rows_in [OF r] by blast
    show ?thesis by (rule message_read [OF assms(1) pr authorizedI [OF assms(2) n(1,2,4,5)] n(1) refl n(3)])
  qed
  have seq: "cm_seq m = the (mr_channel_seq r)" if "r \<in> set ?rows" "channelMessageTx env p (mr_id r) s = Inr m" for r m
    using that(2)
  proof (rule channelMessageD)
    fix r' assume r': "r' \<in> set (messages (base s))" "mr_id r' = mr_id r" "mr_channel_seq r' = Some (cm_seq m)"
    have "r' = r" by (rule message_unique [OF assms(1) r'(1) _ r'(2)]) (use history_rows_in [OF that(1)] in blast)
    then show ?thesis using r'(3) by simp
  qed
  obtain all where all: "mapE (\<lambda>r. channelMessageTx env p (mr_id r) s) ?rows = Inr all" using mapE_ex one by metis
  then have "list_all2 (\<lambda>r m. channelMessageTx env p (mr_id r) s = Inr m) ?rows all" by (simp only: mapE_Inr_list_all2)
  then have "list_all2 (\<lambda>r m. cm_seq m = the (mr_channel_seq r)) ?rows all"
    by (rule list.rel_mono_strong) (use seq in blast)
  then have "map cm_seq all = map (\<lambda>m. the (mr_channel_seq m)) ?rows"
    by (induction rule: list_all2_induct) simp_all
  then show thesis using that all history_strict [OF assms(1)] by metis
qed

lemma read_page_prefix:
  assumes "read_page env p s used out rows = Inr ms" and "mapE (\<lambda>r. channelMessageTx env p (mr_id r) s) rows = Inr all"
  shows "prefix out ms" "prefix ms (out @ all)"
proof -
  have "prefix out ms \<and> prefix ms (out @ all)"
    using assms
  proof (induction rows arbitrary: used out all)
    case (Cons r rs)
    obtain m ys where m: "channelMessageTx env p (mr_id r) s = Inr m" "all = m # ys" "mapE (\<lambda>r. channelMessageTx env p (mr_id r) s) rs = Inr ys"
      using Cons(3) by (auto simp: bindE_Inr_iff)
    show ?case
    proof (cases "ms = out")
      case False
      then have "read_page env p s (used + int (length (marshal (message_json m)))) (out @ [m]) rs = Inr ms"
        using Cons(2) m(1) by (auto simp: Let_def split: if_splits)
      from Cons(1) [OF this m(3)] show ?thesis using m(2) append_prefixD by fastforce
    qed simp
  qed simp
  then show "prefix out ms" "prefix ms (out @ all)" by blast+
qed

lemma read_page_nonempty:
  assumes "read_page env p s used [] rows = Inr ms" and "mapE (\<lambda>r. channelMessageTx env p (mr_id r) s) rows = Inr all" and "all \<noteq> []"
  shows "ms \<noteq> []"
proof -
  obtain r rs m ys where m: "rows = r # rs" "channelMessageTx env p (mr_id r) s = Inr m" "mapE (\<lambda>r. channelMessageTx env p (mr_id r) s) rs = Inr ys"
    using assms(2,3) by (cases rows) (auto simp: bindE_Inr_iff)
  have "read_page env p s (used + int (length (marshal (message_json m)))) [m] rs = Inr ms"
    using assms(1) m by (simp add: Let_def)
  from read_page_prefix(1) [OF this m(3)] show ?thesis by auto
qed

end
