(* ===== verification/ChannelGrants.thy ===== *)
theory ChannelGrants
  imports ChannelAudience
begin

text \<open>
  Every grant belongs to a channel that exists, along every run; so a new channel has the grants its
  creation made and no others, and its audience is the one that was asked for.
\<close>

section \<open>Grants belong to channels\<close>

abbreviation channel_ids :: "cdb \<Rightarrow> string set" where
  "channel_ids s \<equiv> ch_id ` set (channels s)"

abbreviation granted_channels :: "cdb \<Rightarrow> string set" where
  "granted_channels s \<equiv> cg_channel_id ` set (grants (base s))"

definition grants_from :: "cdb \<Rightarrow> cdb \<Rightarrow> bool" where
  "grants_from s s' \<longleftrightarrow> granted_channels s' \<subseteq> granted_channels s \<union> channel_ids s' \<and> channel_ids s \<subseteq> channel_ids s'"

lemma grants_from_trans: "grants_from a b \<Longrightarrow> grants_from b c \<Longrightarrow> grants_from a c"
proof -
  have "g'' \<subseteq> g \<union> c'' \<and> c \<subseteq> c''" if "g' \<subseteq> g \<union> c' \<and> c \<subseteq> c'" "g'' \<subseteq> g' \<union> c'' \<and> c' \<subseteq> c''" for g g' g'' c c' c'' :: "string set"
    using that by auto
  then show "grants_from a b \<Longrightarrow> grants_from b c \<Longrightarrow> grants_from a c" unfolding grants_from_def .
qed

lemma grants_from_same: "grants (base s') = grants (base s) \<Longrightarrow> channels s' = channels s \<Longrightarrow> grants_from s s'"
  by (simp add: grants_from_def)

lemma update_ids: "(\<And>c. ch_id (f c) = ch_id c) \<Longrightarrow> ch_id ` set (update_where q f cs) = ch_id ` set cs"
  by (induction cs) auto

lemma grants_from_event:
  assumes "channelEventTx env cid kind actor mid payload s = Inr (n, s')"
  shows "grants_from s s'" "cid \<in> channel_ids s'"
proof -
  obtain ch e where s': "s' = s\<lparr>channels := update_where (\<lambda>c. ch_id c = cid) bump_seq (channels s), channel_events := channel_events s @ [e]\<rparr>"
    and ch: "row_by ch_id cid (channels s) = Some ch"
    by (rule channelEventD [OF assms])
  have ids: "channel_ids s' = channel_ids s" by (simp add: s' update_ids bump_seq_def)
  show "grants_from s s'" by (simp add: grants_from_def ids) (simp add: s')
  show "cid \<in> channel_ids s'" unfolding ids using row_by_SomeD [OF ch] by force
qed

lemma grants_from_event_after:
  assumes "channelEventTx env cid kind actor mid payload s1 = Inr (n, s')" and "grants (base s1) = grants (base s)" and "channels s1 = channels s"
  shows "grants_from s s'"
  using grants_from_event(1) [OF assms(1)] by (simp add: grants_from_def assms(2,3))

lemma grants_from_newID: "with_base (newID env pfx) s = Inr (x, s') \<Longrightarrow> grants_from s s'"
  by (rule grants_from_same) (auto dest: with_base_newID)

lemma grants_from_save: "saveChannelOperation p op key dig r s = Inr s' \<Longrightarrow> grants_from s s'"
  by (rule grants_from_same) (auto elim: saveOperationD)

lemma grants_from_bump: "grants_from s (bump_revision cid s)"
  by (simp add: grants_from_def) (simp add: bump_revision_def update_ids)

lemma grants_from_revoke: "grants_from s (revoke_grants q n s)"
proof -
  have "cg_channel_id ` set (update_where q' (\<lambda>g. g\<lparr>cg_revoked_seq := Some n\<rparr>) gs) = cg_channel_id ` set gs" for q' and gs :: "grant_row list"
    by (induction gs) auto
  then show ?thesis by (simp add: grants_from_def revoke_grants_def)
qed

lemma grants_from_grants: "s' = s\<lparr>base := (base s)\<lparr>grants := grants (base s) @ gs\<rparr>\<rparr> \<Longrightarrow> \<forall>g\<in>set gs. cg_channel_id g = cid \<Longrightarrow>
    cid \<in> channel_ids s \<Longrightarrow> grants_from s s'"
  by (auto simp: grants_from_def)

lemma grants_from_foldE:
  assumes "foldE f xs s = Inr s'" and "\<And>x s s'. f x s = Inr s' \<Longrightarrow> grants_from s s'"
  shows "grants_from s s'"
  using assms(1)
proof (induction xs arbitrary: s)
  case (Cons x xs)
  then obtain s1 where "f x s = Inr s1" "foldE f xs s1 = Inr s'" by (auto simp: bindE_Inr_iff)
  then show ?case using assms(2) Cons(1) grants_from_trans by blast
qed (simp add: grants_from_def)

lemma create_new_grants:
  assumes "create_new env p r key dig s = Inr (c, s')"
  obtains cid s1 gs where "cid \<notin> channel_ids s" "foldE (\<lambda>a. channelGrantTx cid a 0) (cr_participants r) s1 =
      Inr (s1\<lparr>base := (base s1)\<lparr>grants := grants (base s1) @ gs\<rparr>\<rparr>)" "grants (base s1) = grants (base s)"
    "grants (base s') = grants (base s) @ gs" "\<forall>g\<in>set gs. cg_channel_id g = cid" "channelTx p cid s' = Inr c" "grants_from s s'"
proof -
  obtain cid s1 s2 s3 n s4 where id: "with_base (newID env ''chn'') s = Inr (cid, s1)"
    and ins: "insert_channel (new_channel env p r key cid) s1 = Inr s2"
    and gr: "foldE (\<lambda>a. channelGrantTx cid a 0) (cr_participants r) s2 = Inr s3"
    and ev: "channelEventTx env cid ''channel.created'' (pr_actor p) []
      (JObject [(''participants'', JArray (map JText (cr_participants r)))]) s3 = Inr (n, s4)"
    and sv: "saveChannelOperation p ''create'' (cr_key r) dig (ResultId cid) s4 = Inr s'"
    and c: "channelTx p cid s' = Inr c"
    using assms by (auto simp: create_new_def bindE_Inr_iff)
  have s1: "grants (base s1) = grants (base s)" "channels s1 = channels s" using with_base_newID [OF id] by simp_all
  note s2 = insert_channelD [OF ins]
  obtain gs where gs: "s3 = s2\<lparr>base := (base s2)\<lparr>grants := grants (base s2) @ gs\<rparr>\<rparr>" "\<forall>g\<in>set gs. cg_channel_id g = cid"
    by (rule grant_all [OF gr]) blast
  have "base s4 = base s3" by (rule channelEventD [OF ev]) simp
  moreover have "base s' = base s4" by (rule saveOperationD [OF sv]) simp
  ultimately have g: "grants (base s') = grants (base s) @ gs" by (simp add: gs(1) s2(1) s1)
  have "grants_from s s2" by (simp add: grants_from_def s2(1) s1) auto
  moreover have "grants_from s2 s3" by (rule grants_from_grants [OF gs]) (simp add: s2(1) new_channel_def)
  ultimately have "grants_from s s'"
    using grants_from_event(1) [OF ev] grants_from_save [OF sv] by (meson grants_from_trans)
  moreover have "cid \<notin> channel_ids s" using s2(2) by (simp add: s1 new_channel_def)
  ultimately show thesis using that [of cid s2 gs] gr gs g c by (simp add: s2(1) s1)
qed

lemma createChannel_grants: "createChannelTx env digest p r s = Inr (c, s') \<Longrightarrow> grants_from s s'"
  unfolding createChannelTx_def Let_def
  by (auto simp: bindE_Inr_iff split: option.splits if_splits intro: grants_from_same elim: create_new_grants dest: grants_from_save)

lemma ChannelPost_grants:
  assumes "ChannelPost env digest p r s = Inr (res, s')"
  shows "grants_from s s'"
proof (cases "pt_duplicate res")
  case True
  with assms show ?thesis
  proof (cases rule: ChannelPost_cases)
    case (posted c)
    then show ?thesis using True by (auto elim!: post_newD store_postD)
  qed (simp add: grants_from_same)
next
  case False
  then show ?thesis
  proof (rule posted_cases [OF assms])
    fix c r2 r3 and s1 :: cdb
    assume "\<exists>k. s1 = s\<lparr>base := (base s)\<lparr>db_ids := k\<rparr>\<rparr>"
      and st: "store_post env p c r3 (cp_thread r2 = []) (digestRequest digest (post_json r)) s1 = Inr (res, s')"
    then have s1: "grants (base s1) = grants (base s)" "channels s1 = channels s" by auto
    from st show "grants_from s s'"
    proof (rule store_postD)
      fix mid k
      assume b: "base s' = (base s1)\<lparr>db_ids := k, messages := messages (base s'), outbox := fold (request_attention env mid) (cp_attention r3) (outbox (base s1))\<rparr>"
        and ch: "channels s' = update_where (\<lambda>x. ch_id x = c_id c) bump_seq (channels s1)"
      have "grants (base s') = grants (base s1)" by (subst b) simp
      moreover have "channel_ids s' = channel_ids s1" by (simp add: ch update_ids bump_seq_def)
      ultimately show ?thesis by (simp add: grants_from_def s1)
    qed
  qed
qed

lemma change_supervisor_grants:
  assumes "change_supervisor env p agent human scope cid s = Inr s'"
  shows "grants_from s s'"
proof -
  let ?q = "\<lambda>g. cg_channel_id g = cid \<and> cg_source g = supervisor_source agent"
  obtain n s1 s3 where ev: "channelEventTx env cid ''supervision.changed'' (pr_actor p) []
      (JObject [(''agent'', JText agent), (''human'', JText human), (''scope'', JText scope)]) s = Inr (n, s1)"
    and s3: "(if human \<noteq> [] then insert_grant (new_grant cid human (supervisor_source agent) False n) (revoke_grants ?q n s1)
      else Inr (revoke_grants ?q n s1)) = Inr s3"
    and s': "s' = bump_revision cid s3"
    using assms by (auto simp: change_supervisor_def Let_def bindE_Inr_iff)
  have "cid \<in> channel_ids (revoke_grants ?q n s1)" using grants_from_event(2) [OF ev] by (simp add: revoke_grants_def)
  then have "grants_from (revoke_grants ?q n s1) s3"
    using s3 by (auto split: if_splits intro: grants_from_same grants_from_grants dest!: insert_grantD simp: new_grant_def)
  then show ?thesis unfolding s' by (meson grants_from_trans grants_from_event(1) [OF ev] grants_from_revoke grants_from_bump)
qed

lemma SupervisionChange_grants:
  assumes "SupervisionChange env digest p v human key s = Inr (r, s')"
  shows "grants_from s s'"
proof -
  obtain found where found: "channelOperation p ''supervise'' key (digestRequest digest (JArray [preview_json v, JText human])) s = Inr found"
    using assms by (auto simp: SupervisionChange_def Let_def bindE_Inr_iff)
  show ?thesis
  proof (cases found)
    case (Some x)
    then show ?thesis using assms found by (auto simp: SupervisionChange_def Let_def bindE_Inr_iff intro: grants_from_same)
  next
    case None
    obtain link s2 cs dig saved where fold: "foldE (change_supervisor env p (sp_agent v) human (sv_scope link)) cs
        (s\<lparr>supervisions := upsert_supervision link (supervisions s)\<rparr>) = Inr s2"
      and sv: "saveChannelOperation p ''supervise'' key dig (ResultSupervision saved) s2 = Inr s'"
      using assms found None unfolding SupervisionChange_def Let_def by (auto simp: bindE_Inr_iff simp del: foldE.simps)
    have "grants_from s (s\<lparr>supervisions := upsert_supervision link (supervisions s)\<rparr>)" by (simp add: grants_from_same)
    then show ?thesis
      using grants_from_foldE [OF fold change_supervisor_grants] grants_from_save [OF sv] by (meson grants_from_trans)
  qed
qed

lemma Membership_grants:
  assumes "ChannelMembershipChange env digest p cid a action key revision s = Inr (c, s')"
  shows "grants_from s s'"
  using assms
proof (cases rule: MembershipD)
  case again
  then show ?thesis by (simp add: grants_from_same)
next
  case (changed c n s1 s2 dig)
  have "grants_from s1 s2"
  proof (cases "action = ''add''")
    case True
    then obtain gs where "s2 = s1\<lparr>base := (base s1)\<lparr>grants := grants (base s1) @ gs\<rparr>\<rparr>" "\<forall>g\<in>set gs. cg_channel_id g = cid"
      using changed(7) by (auto simp: apply_membership_def elim: channelGrantD)
    then show ?thesis using grants_from_event(2) [OF changed(6)] by (rule grants_from_grants)
  next
    case False
    let ?r = "revoke_grants (\<lambda>g. cg_channel_id g = cid \<and>
         (cg_actor g = a \<and> cg_source g = ''participant'' \<or> cg_source g = supervisor_source a)) n s1"
    have "grants (base s2) = grants (base ?r)" "channels s2 = channels ?r"
      using changed(7) False by (auto simp: apply_membership_def end_membership_def Let_def)
    then show ?thesis using grants_from_revoke grants_from_same grants_from_trans by meson
  qed
  then show ?thesis
    using grants_from_event(1) [OF changed(6)] grants_from_bump grants_from_save [OF changed(8)] by (meson grants_from_trans)
qed

lemma ContinuationCommit_grants:
  assumes "ChannelContinuationCommit env digest tk p token key s = Inr (res, s')"
  shows "grants_from s s'"
  using assms
proof (cases rule: ContinuationCommit_cases)
  case committed
  then show ?thesis
  proof (rule commit_newD)
    fix t source sc c s1 s2
    assume d: "commit_destination env digest p key t s = Inr (c, s1)"
      and post: "ChannelPost env digest p (continuation_post c key (ct_intent t) (cm_id source)) s1 = Inr (res, s2)"
      and save: "saveChannelOperation p ''continue'' key (digestRequest digest (JText token)) (ResultId (cm_id (pt_message res))) s2 = Inr s'"
    have "grants_from s s1"
      using d createChannel_grants
      by (auto simp: commit_destination_def create_destination_def Let_def bindE_Inr_iff intro: grants_from_same split: option.splits)
    then show ?thesis using ChannelPost_grants [OF post] grants_from_save [OF save] by (meson grants_from_trans)
  qed
qed (simp add: grants_from_same)

lemma ResponseResolve_grants:
  assumes "ChannelResponseResolve env digest p rid action key revision s = Inr (x, s')"
  shows "grants_from s s'"
proof -
  obtain q where q: "row_by rs_id rid (responses s) = Some q"
    using assms unfolding ChannelResponseResolve_def bindE_Inr_iff by (auto split: option.splits)
  obtain found where found: "channelOperation p ''response'' key (digestRequest digest
      (JArray [JText rid, JText (response_action_text action), JInt revision])) s = Inr found"
    using assms unfolding ChannelResponseResolve_def Let_def q option.case bindE_Inr_iff by blast
  show ?thesis
  proof (cases found)
    case (Some y)
    then have "s' = s" using assms unfolding ChannelResponseResolve_def Let_def q found by (auto simp: bindE_Inr_iff)
    then show ?thesis by (simp add: grants_from_same)
  next
    case None
    obtain qs n s2 out dig where ev: "channelEventTx env (rs_channel q) (response_kind action) (pr_actor p) (rs_message q)
          (JObject [(''request_id'', JText rid)]) (s\<lparr>responses := qs\<rparr>) = Inr (n, s2)"
      and sv: "saveChannelOperation p ''response'' key dig (ResultResponse out) s2 = Inr s'"
      using assms unfolding ChannelResponseResolve_def Let_def q found None by (auto simp: bindE_Inr_iff)
    have "grants_from s (s\<lparr>responses := qs\<rparr>)" by (simp add: grants_from_same)
    then show ?thesis using grants_from_event(1) [OF ev] grants_from_save [OF sv] by (meson grants_from_trans)
  qed
qed

lemma channel_step_grants:
  assumes "channel_step env s s'" and "chat_ok s"
  shows "grants_from s s'"
  using assms(1)
proof cases
  case (legacy b)
  obtain ms where "grants b = grants (base s)"
    by (rule store_step_legacy [OF legacy(2)]) (use assms(2) in \<open>simp_all add: chat_ok_def store_ok_def\<close>)
  then show ?thesis by (simp add: legacy(1) grants_from_same)
next
  case (create digest p cr c)
  then show ?thesis using createChannel_grants by (auto simp: ChannelCreate_def bindE_Inr_iff)
next
  case (claim_managed p mid lease d)
  then show ?thesis
  proof (rule ChannelClaimD)
    fix m token s1 n s3 and ms :: "delivery_row list"
    let ?ms = "update_where (\<lambda>d. delivery_key d = (mid, pr_actor p) \<and> claimable (e_now env) d)
         (claim_row token (e_now env + lease) (e_now env)) (managed s)"
    assume id: "with_base (newID env ''lease'') s = Inr (token, s1)"
      and ev: "channelEventTx env (cm_channel m) ''delivery.claimed'' (pr_actor p) mid JNull (s1\<lparr>managed := ?ms\<rparr>) = Inr (n, s3)"
      and s': "s' = managed_outbox (close_managed mid (pr_actor p) (e_now env)) s3"
    have "grants_from s1 (s1\<lparr>managed := ?ms\<rparr>)" "grants_from s3 s'" by (simp_all add: grants_from_same s' managed_outbox_def)
    then show ?thesis using grants_from_newID [OF id] grants_from_event(1) [OF ev] by (meson grants_from_trans)
  qed
next
  case (update_managed p mid token act reason lease d)
  then show ?thesis
  proof (cases rule: DeliveryUpdateD)
    case (extended m d n s1)
    show ?thesis by (rule grants_from_event_after [OF extended(9)]) (simp_all add: extended(8))
  next
    case (finished m d n s1)
    show ?thesis by (rule grants_from_event_after [OF finished(6)]) (simp_all add: finished(5))
  qed (simp add: grants_from_same)
next
  case (finish_wake job disp detail)
  then show ?thesis
    by (rule FinishManagedD) (erule grants_from_event_after, simp_all add: managed_outbox_def)
next
  case (record_wake mid attempt)
  then show ?thesis
    by (auto simp: RecordManagedNotification_def bindE_Inr_iff split: option.splits dest: grants_from_event(1))
qed (auto intro: grants_from_same ChannelPost_grants ContinuationCommit_grants SupervisionChange_grants Membership_grants
    ResponseResolve_grants elim!: ChannelViewUpdateD ClaimManagedD
    simp: RegisterHuman_def EnableChannelAttention_def ResetChannelAttention_def RearmStaleManagedNotifications_def
      managed_outbox_def bindE_Inr_iff Let_def split: if_splits)

theorem channel_run_grants: "channel_run s \<Longrightarrow> granted_channels s \<subseteq> channel_ids s"
proof (induction rule: channel_run.induct)
  case fresh
  show ?case by (simp add: empty_cdb_def empty_db_def)
next
  case (later s env s')
  have "grants_from s s'" by (rule channel_step_grants [OF later(2) channel_run_invariant [OF later(1)]])
  moreover have "g' \<subseteq> c'" if "g' \<subseteq> g \<union> c'" "c \<subseteq> c'" "g \<subseteq> c" for g g' c c' :: "string set" using that by auto
  ultimately show ?case using later(3) unfolding grants_from_def by metis
qed

end
