(* ===== verification/ChannelSamples.thy ===== *)
theory ChannelSamples
  imports ChannelGrants Samples
begin

text \<open>
  A small conversation for the witnesses of the properties, with the runs that lead to it.
\<close>

text \<open>Alice opens a room with Bob and Carol and posts a remark; Dave is not in it. As a digest the first character does.\<close>

definition talker :: "string \<Rightarrow> principal" where
  "talker a = \<lparr>pr_actor = a, pr_run = ''run'', pr_gateway = False, pr_admin = False\<rparr>"

definition staff :: "nat \<Rightarrow> db" where
  "staff n = empty_db\<lparr>actor_names := take n [\<lparr>an_actor = ''operator'', an_first_seen = 0\<rparr>, \<lparr>an_actor = ''alice'', an_first_seen = 1\<rparr>,
     \<lparr>an_actor = ''bob'', an_first_seen = 2\<rparr>, \<lparr>an_actor = ''carol'', an_first_seen = 3\<rparr>, \<lparr>an_actor = ''dave'', an_first_seen = 4\<rparr>]\<rparr>"

definition room_request :: channel_create where
  "room_request = \<lparr>cr_project = ''p'', cr_kind = ''named'', cr_title = ''plans'',
     cr_participants = [''bob'', ''alice'', ''carol''], cr_key = ''k1''\<rparr>"

definition room :: channel where
  "room = \<lparr>c_id = ''chn_0'', c_project = ''p'', c_kind = ''named'', c_title = ''plans'', c_creator = ''alice'', c_revision = 1,
     c_last_seq = 1, c_last_message_seq = 0, c_needs_response = False, c_view = None, c_participants = [''alice'', ''bob'', ''carol''],
     c_observers = [], c_can_post = True, c_can_manage = True, c_history_from = 0\<rparr>"

definition room_row :: channel_row where
  "room_row = \<lparr>ch_id = ''chn_0'', ch_project = ''p'', ch_kind = ''named'', ch_title = ''plans'', ch_creator = ''alice'', ch_dm_key = None,
     ch_revision = 1, ch_next_seq = 2, ch_created_at = 10\<rparr>"

definition opened :: cdb where
  "opened = empty_cdb\<lparr>
     base := (staff 5)\<lparr>grants := map (\<lambda>a. new_grant ''chn_0'' a ''participant'' True 0) [''alice'', ''bob'', ''carol''], db_ids := 1\<rparr>,
     channels := [room_row],
     channel_events := [\<lparr>ce_channel = ''chn_0'', ce_seq = 1, ce_kind = ''channel.created'', ce_actor = ''alice'', ce_message = [],
       ce_payload = marshal (JObject [(''participants'', JArray (map JText [''alice'', ''bob'', ''carol'']))]), ce_created_at = 10\<rparr>],
     operations := [\<lparr>op_actor = ''alice'', op_operation = ''create'', op_key = ''k1'', op_digest = ''{'', op_result = ResultId ''chn_0''\<rparr>]\<rparr>"

definition remark :: channel_post where
  "remark = \<lparr>cp_channel = ''chn_0'', cp_thread = [], cp_in_reply_to = [], cp_expected_revision = 1, cp_key = ''k2'',
     cp_body = ''{}'', cp_attention = [''bob'', ''carol''], cp_respondent = [], cp_response_to = [], cp_response_revision = 0, cp_references = []\<rparr>"

definition remark_row :: message_row where
  "remark_row = \<lparr>mr_id = ''msg_2'', mr_schema_version = 2, mr_idempotency_key = ''k2'', mr_project_id = ''p'', mr_channel_id = ''managed'',
     mr_thread_id = Some ''thr_1'', mr_from_actor = ''alice'', mr_from_run = ''run'', mr_from_role = None, mr_type = ''MESSAGE'',
     mr_delivery_request = NonBlocking, mr_in_reply_to = None, mr_body = ''{}'', mr_created_at = 20, mr_expires_at = None,
     mr_requested = RequestedNull, mr_conversation = Some ''chn_0'', mr_channel_seq = Some 2\<rparr>"

definition said :: channel_post_result where
  "said = \<lparr>pt_message = \<lparr>cm_id = ''msg_2'', cm_channel = ''chn_0'', cm_thread = ''thr_1'', cm_seq = 2, cm_from_actor = ''alice'',
       cm_from_run = ''run'', cm_in_reply_to = [], cm_body = ''{}'', cm_created_at = 20, cm_references = [], cm_response = []\<rparr>,
     pt_duplicate = False, pt_recipients = [''bob'', ''carol'']\<rparr>"

definition heard :: cdb where
  "heard = opened\<lparr>
     base := (base opened)\<lparr>messages := [remark_row], db_ids := 3,
       outbox := map (\<lambda>a. \<lparr>ob_message_id = ''msg_2'', ob_recipient = a, ob_state = ManagedPending, ob_attempt = 0, ob_available_at = 20,
         ob_last_error = None, ob_created_at = 20, ob_source = ManagedSource\<rparr>) [''bob'', ''carol'']\<rparr>,
     channels := [room_row\<lparr>ch_next_seq := 3\<rparr>],
     channel_events := channel_events opened @ [\<lparr>ce_channel = ''chn_0'', ce_seq = 2, ce_kind = ''message.posted'', ce_actor = ''alice'',
       ce_message = ''msg_2'', ce_payload = ''null'', ce_created_at = 20\<rparr>],
     threads := [\<lparr>th_channel = ''chn_0'', th_thread = ''thr_1'', th_root = ''msg_2''\<rparr>],
     managed := map (managed_row ''msg_2'') [''bob'', ''carol''],
     requests := [\<lparr>rq_message = ''msg_2'', rq_digest = ''{''\<rparr>]\<rparr>"

definition held :: "channel_delivery \<times> cdb" where
  "held = projr (ChannelClaim (sample_env 30) (talker ''bob'') ''msg_2'' 60 heard)"

definition first_wake :: "notification_job \<times> cdb" where
  "first_wake = projr (ClaimManagedNotification (sample_env 30) heard)"

definition second_wake :: "notification_job \<times> cdb" where
  "second_wake = projr (ClaimManagedNotification (sample_env 40) (snd first_wake))"

definition parted :: "channel \<times> cdb" where
  "parted = projr (ChannelMembershipChange (sample_env 50) (take 1) (talker ''alice'') ''chn_0'' ''carol'' ''remove'' ''k3'' 1 heard)"

definition joined :: "channel \<times> cdb" where
  "joined = projr (ChannelMembershipChange (sample_env 50) (take 1) (talker ''alice'') ''chn_0'' ''dave'' ''add'' ''k3'' 1 heard)"

lemma sample_staff:
  "ReserveActorName (sample_env 1) ''alice'' (staff 1) = Inr (staff 2)" "ReserveActorName (sample_env 2) ''bob'' (staff 2) = Inr (staff 3)"
  "ReserveActorName (sample_env 3) ''carol'' (staff 3) = Inr (staff 4)" "ReserveActorName (sample_env 4) ''dave'' (staff 4) = Inr (staff 5)"
  "staff 1 = empty_db"
  by code_simp+

lemma sample_opened: "ChannelCreate (sample_env 10) (take 1) (talker ''alice'') room_request (empty_cdb\<lparr>base := staff 5\<rparr>) = Inr (room, opened)"
  by code_simp

lemma sample_said: "ChannelPost (sample_env 20) (take 1) (talker ''alice'') remark opened = Inr (said, heard)"
  by code_simp

lemma sample_held: "ChannelClaim (sample_env 30) (talker ''bob'') ''msg_2'' 60 heard = Inr (fst held, snd held)"
proof -
  have "\<not> isl (ChannelClaim (sample_env 30) (talker ''bob'') ''msg_2'' 60 heard)" by code_simp
  then show ?thesis unfolding held_def by (rule answered)
qed

lemma sample_wakes:
  "ClaimManagedNotification (sample_env 30) heard = Inr (fst first_wake, snd first_wake)"
  "ClaimManagedNotification (sample_env 40) (snd first_wake) = Inr (fst second_wake, snd second_wake)"
proof -
  have "\<not> isl (ClaimManagedNotification (sample_env 30) heard)" by code_simp
  then show "ClaimManagedNotification (sample_env 30) heard = Inr (fst first_wake, snd first_wake)" unfolding first_wake_def by (rule answered)
  have "\<not> isl (ClaimManagedNotification (sample_env 40) (snd first_wake))" by code_simp
  then show "ClaimManagedNotification (sample_env 40) (snd first_wake) = Inr (fst second_wake, snd second_wake)"
    unfolding second_wake_def by (rule answered)
qed

lemma sample_members:
  "ChannelMembershipChange (sample_env 50) (take 1) (talker ''alice'') ''chn_0'' ''carol'' ''remove'' ''k3'' 1 heard = Inr (fst parted, snd parted)"
  "ChannelMembershipChange (sample_env 50) (take 1) (talker ''alice'') ''chn_0'' ''dave'' ''add'' ''k3'' 1 heard = Inr (fst joined, snd joined)"
proof -
  have "\<not> isl (ChannelMembershipChange (sample_env 50) (take 1) (talker ''alice'') ''chn_0'' ''carol'' ''remove'' ''k3'' 1 heard)" by code_simp
  then show "ChannelMembershipChange (sample_env 50) (take 1) (talker ''alice'') ''chn_0'' ''carol'' ''remove'' ''k3'' 1 heard = Inr (fst parted, snd parted)"
    unfolding parted_def by (rule answered)
  have "\<not> isl (ChannelMembershipChange (sample_env 50) (take 1) (talker ''alice'') ''chn_0'' ''dave'' ''add'' ''k3'' 1 heard)" by code_simp
  then show "ChannelMembershipChange (sample_env 50) (take 1) (talker ''alice'') ''chn_0'' ''dave'' ''add'' ''k3'' 1 heard = Inr (fst joined, snd joined)"
    unfolding joined_def by (rule answered)
qed

lemma reserved_run: "channel_run (empty_cdb\<lparr>base := b\<rparr>) \<Longrightarrow> ReserveActorName env a b = Inr b' \<Longrightarrow> channel_run (empty_cdb\<lparr>base := b'\<rparr>)"
  using channel_run.later [OF _ legacy [OF reserve], of "empty_cdb\<lparr>base := b\<rparr>" env a b'] by simp

lemma sample_chat_runs: "channel_run opened" "channel_run heard" "channel_run (snd parted)" "channel_run (snd joined)"
proof -
  have "empty_cdb\<lparr>base := staff 1\<rparr> = empty_cdb" unfolding sample_staff(5) by (simp add: empty_cdb_def)
  then have "channel_run (empty_cdb\<lparr>base := staff 1\<rparr>)" by (simp only: channel_run.fresh)
  then have "channel_run (empty_cdb\<lparr>base := staff 5\<rparr>)" using reserved_run sample_staff(1-4) by blast
  then show 1: "channel_run opened" by (rule channel_run.later [OF _ create [OF sample_opened]])
  show 2: "channel_run heard" by (rule channel_run.later [OF 1 post [OF sample_said]])
  show "channel_run (snd parted)" by (rule channel_run.later [OF 2 membership [OF sample_members(1)]])
  show "channel_run (snd joined)" by (rule channel_run.later [OF 2 membership [OF sample_members(2)]])
qed

lemma heard_step: "channel_steps opened heard"
  using post [OF sample_said] by blast

end
