(* ===== verification/ChannelProps.thy ===== *)
theory ChannelProps
  imports ChannelSamples "HOL-Library.Multiset"
begin

text \<open>
  What the participants of a managed conversation can rely on: who reads and receives what, that a
  post reaches the audience its sender saw, that removal and late joining take effect at once, and
  that deliveries and wake-ups are held by one party at a time.
\<close>

section \<open>The properties\<close>

text \<open>
  \<^bold>\<open>C2\<close> Every store the daemon can reach with conversations in it is well-formed, whatever
  operations on conversations and on the bus ran in whatever order: the bus keeps its own
  invariant, channels are distinct and two people share one direct conversation, the log of each
  channel is numbered without gaps, every managed message has its own number in its channel, a
  thread of it and an answered message in it, and deliveries have the columns of their state.
\<close>
theorem channel_run_ok:
  assumes "channel_run s"
  shows "chat_ok s"
  using assms by (rule channel_run_invariant)

text \<open>
  \<^bold>\<open>C16\<close> Nothing said is lost or edited, and no audience changes in silence: along every run
  messages, references and channel logs are only appended, and a channel keeps its participants'
  grants unless its policy revision rises.
\<close>
theorem conversations_only_grow:
  assumes "channel_run s" and "channel_steps s s'"
  shows "prefix (messages (base s)) (messages (base s')) \<and> prefix (channel_events s) (channel_events s') \<and>
    prefix (references s) (references s') \<and>
    (\<forall>cid c. row_by ch_id cid (channels s) = Some c \<longrightarrow>
      (\<exists>c'. row_by ch_id cid (channels s') = Some c' \<and> ch_creator c' = ch_creator c \<and> ch_next_seq c \<le> ch_next_seq c' \<and>
        (ch_revision c < ch_revision c' \<or> ch_revision c' = ch_revision c \<and> live_grants s' cid = live_grants s cid)))"
proof -
  have e: "extends s s'" using channel_steps_keep [OF assms(2) channel_run_invariant [OF assms(1)]] by blast
  have "\<exists>c'. row_by ch_id cid (channels s') = Some c' \<and> ch_creator c' = ch_creator c \<and> ch_next_seq c \<le> ch_next_seq c' \<and>
      (ch_revision c < ch_revision c' \<or> ch_revision c' = ch_revision c \<and> live_grants s' cid = live_grants s cid)"
    if c: "row_by ch_id cid (channels s) = Some c" for cid c
  proof -
    obtain c' where "row_by ch_id cid (channels s') = Some c'" "later_channel s s' c c'"
      using e c unfolding extends_def channels_extend_def by blast
    then show ?thesis using row_by_SomeD [OF c] by (auto simp: later_channel_def same_channel_def)
  qed
  then show ?thesis using e unfolding extends_def by blast
qed

text \<open>
  \<^bold>\<open>C4\<close> A post reaches exactly the audience its sender saw. When a participant read a channel, any
  operations followed, and a post that names the policy revision of that reading succeeded, its
  recipients are the participants that reading showed, less the sender, and the post queued one
  delivery for each of them and none for anybody else.
\<close>
theorem post_reaches_read_audience:
  assumes "channel_run s" and "ChannelGet q (cp_channel r) s = Inr c" and "channel_steps s s'"
    and "ChannelPost env digest p r s' = Inr (res, s'')" and "\<not> pt_duplicate res" and "cp_expected_revision r = c_revision c"
  shows "pt_recipients res = filter (\<lambda>a. a \<noteq> pr_actor p) (c_participants c) \<and>
    managed s'' = managed s' @ map (managed_row (cm_id (pt_message res))) (pt_recipients res)"
proof -
  have e: "extends s s'" using channel_steps_keep [OF assms(3) channel_run_invariant [OF assms(1)]] by blast
  obtain c' and r3 r2 :: channel_post and s1 :: cdb where c': "channelTx p (cp_channel r) s' = Inr c'" "cp_expected_revision r = c_revision c'"
    and s1: "\<exists>k. s1 = s'\<lparr>base := (base s')\<lparr>db_ids := k\<rparr>\<rparr>"
    and st: "store_post env p c' r3 (cp_thread r2 = []) (digestRequest digest (post_json r)) s1 = Inr (res, s'')"
    by (rule posted_cases [OF assms(4,5)])
  have "c_participants c' = c_participants c"
    by (rule same_audience [OF e assms(2) [unfolded ChannelGet_def] c'(1)]) (use c'(2) assms(6) in simp)
  then show ?thesis
    using st s1 by (elim store_postD) (auto dest: read_authorized(4))
qed


text \<open>
  \<^bold>\<open>C17\<close> Posting is idempotent for good: when a post succeeded and any operations followed, a request
  of the same actor under the same key, if it succeeds at all, is answered as a duplicate with
  the first message and changes nothing; it never stores a second message.
\<close>
theorem post_retry:
  assumes "channel_run s" and "ChannelPost env digest p r s = Inr (res, s1)" and "channel_steps s1 s2"
    and "ChannelPost env2 digest q r2 s2 = Inr (res2, s3)" and "pr_actor q = pr_actor p" and "cp_key r2 = cp_key r"
  shows "s3 = s2 \<and> pt_duplicate res2 \<and> cm_id (pt_message res2) = cm_id (pt_message res)"
proof -
  have run1: "channel_run s1" by (rule later [OF assms(1) post [OF assms(2)]])
  have e: "extends s1 s2" "chat_ok s2" using channel_steps_keep [OF assms(3) channel_run_invariant [OF run1]] by blast+
  have ok: "messages_ok (base s)" "messages_ok (base s2)"
    using e(2) channel_run_invariant [OF assms(1)] by (simp_all add: chat_ok_def posts_ok_def)
  have "\<exists>m\<in>set (messages (base s1)). mr_id m = cm_id (pt_message res) \<and> mr_from_actor m = pr_actor p \<and> mr_idempotency_key m = cp_key r"
    using assms(2)
  proof (cases rule: ChannelPost_cases)
    case (again mid m)
    have "\<exists>m\<in>set (messages (base s)). mr_id m = mid \<and> mr_from_actor m = pr_actor p \<and> mr_idempotency_key m = cp_key r"
      using again(3) by (auto simp: prior_post_def dest!: row_by_SomeD split: option.splits)
    then show ?thesis using again read_authorized(4) [OF again(4)] by simp
  next
    case (posted c)
    have dup: "\<not> pt_duplicate res" using posted(5) by (rule post_newD) (erule store_postD, simp)
    show ?thesis
      using assms(2) dup
    proof (rule posted_cases)
      fix c r2 r3 and s' :: cdb
      assume same: "same_post r r3" and st: "store_post env p c r3 (cp_thread r2 = []) (digestRequest digest (post_json r)) s' = Inr (res, s1)"
      from st show ?thesis
      proof (rule store_postD)
        fix mid ch m
        assume "messages (base s1) = messages (base s') @ [posted_row env p c r3 mid (ch_next_seq ch)]"
          and "channelMessageTx env p mid s1 = Inr m"
          and "res = \<lparr>pt_message = m, pt_duplicate = False, pt_recipients = filter (\<lambda>a. a \<noteq> pr_actor p) (c_participants c)\<rparr>"
        then show ?thesis using same read_authorized(4) by (auto simp: same_post_def)
      qed
    qed
  qed
  then obtain m where m: "m \<in> set (messages (base s2))" "mr_id m = cm_id (pt_message res)" "mr_from_actor m = pr_actor q"
    "mr_idempotency_key m = cp_key r2"
    using e(1) assms(5,6) unfolding extends_def by (metis set_mono_prefix subsetD)
  obtain dig where prior: "prior_post s2 (pr_actor q) (cp_key r2) = Some (mr_id m, dig)" using post_later [OF ok(2) m(1,3,4)] by blast
  show ?thesis
    using assms(4)
  proof (cases rule: ChannelPost_cases)
    case (again mid x)
    then show ?thesis using prior m(2) read_authorized(4) by auto
  next
    case (posted c)
    then show ?thesis using prior by simp
  qed
qed

text \<open>
  \<^bold>\<open>C5\<close> Reading a managed message is decided by grants and by nothing else: in a reachable store
  the reader gets the message exactly when it holds a live grant of the channel that reaches back
  to it and the message has not expired, and in every other case (no such message, another
  channel, an older message, a malformed principal) the same error, which tells nothing apart.
\<close>
theorem message_read_iff:
  assumes "channel_run s"
  shows "case ChannelMessageGet env p mid s of
      Inr m \<Rightarrow> cm_id m = mid \<and> conversationPrincipal p = Inr () \<and> authorized s (pr_actor p) mid \<and>
        (\<exists>r\<in>set (messages (base s)). mr_id r = mid \<and> unexpired (e_now env) r)
    | Inl e \<Rightarrow> e = ErrChannelDenied \<and> \<not> (conversationPrincipal p = Inr () \<and> authorized s (pr_actor p) mid \<and>
        (\<exists>r\<in>set (messages (base s)). mr_id r = mid \<and> unexpired (e_now env) r))"
proof -
  have ok: "posts_ok s" using channel_run_invariant [OF assms] by (simp add: chat_ok_def)
  show ?thesis
  proof (cases "channelMessageTx env p mid s")
    case (Inr m)
    then show ?thesis using read_authorized [OF Inr] by (simp add: ChannelMessageGet_def)
  next
    case (Inl e)
    have no: "\<not> (conversationPrincipal p = Inr () \<and> authorized s (pr_actor p) mid \<and>
        (\<exists>r\<in>set (messages (base s)). mr_id r = mid \<and> unexpired (e_now env) r))"
      using message_read [OF ok, of p mid] Inl by force
    have "e = ErrChannelDenied" using read_error [OF ok Inl] .
    then show ?thesis using no Inl by (simp add: ChannelMessageGet_def)
  qed
qed



text \<open>
  \<^bold>\<open>C18\<close> A claimed managed delivery has one holder. Until its lease ends no run of the same actor
  claims the message again, and no update of the delivery succeeds with any other token.
\<close>
theorem managed_claim_fences:
  assumes "channel_run s" and "ChannelClaim env p mid lease s = Inr (d, s')" and "pr_actor q = pr_actor p"
  shows "(e_now env2 < e_now env + lease \<longrightarrow> (\<forall>x. ChannelClaim env2 q mid lease2 s' \<noteq> Inr x)) \<and>
    (token \<noteq> cd_lease_token d \<longrightarrow> (\<forall>x. ChannelDeliveryUpdate env2 q mid token action reason lease2 s' \<noteq> Inr x))"
proof -
  let ?k = "(mid, pr_actor p)"
  have ok: "managed_ok s'"
    using ChannelClaim_keeps(2) [OF assms(2) channel_run_invariant [OF assms(1)]] by (simp add: chat_ok_def)
  obtain r where r: "row_by delivery_key ?k (managed s') = Some r" "dl_state r = Claimed"
    "dl_lease_token r = Some (cd_lease_token d)" "dl_lease_expires r = Some (e_now env + lease)"
    by (rule claimed_row [OF assms(2)]) (use channel_run_invariant [OF assms(1)] in \<open>simp add: chat_ok_def\<close>)
  have again: "False" if "ChannelClaim env2 q mid lease2 s' = Inr x" "e_now env2 < e_now env + lease" for x
  proof -
    have "affected (\<lambda>d. delivery_key d = ?k \<and> claimable (e_now env2) d) (managed s') = 1"
      using that(1) assms(3) by (cases x) (auto elim!: ChannelClaimD)
    then obtain y where y: "y \<in> set (managed s')" "delivery_key y = ?k" "claimable (e_now env2) y" by (rule affected_one) blast
    have "y = r" by (rule managed_row_unique [OF ok r(1) y(1,2)])
    then show False using y(3) r(2,4) that(2) by (simp add: claimable_def sql_le_def)
  qed
  have other: "False" if u: "ChannelDeliveryUpdate env2 q mid token action reason lease2 s' = Inr x" and t: "token \<noteq> cd_lease_token d" for x
  proof -
    obtain y b where "ChannelDeliveryUpdate env2 q mid token action reason lease2 s' = Inr (y, b)" using u by (cases x) simp
    then show False
      by (cases rule: DeliveryUpdateD) (use r t assms(3) in \<open>auto simp: finishDeliveryState_def split: if_splits\<close>)
  qed
  show ?thesis using again other by blast
qed

text \<open>
  \<^bold>\<open>C25\<close> Two people have one direct conversation. When one of them created it and any operations
  followed, a first request by either to create a direct conversation of the same two people in
  the same project answers that channel.
\<close>
theorem direct_conversation_shared:
  assumes "channel_run s" and "ChannelCreate env digest p r s = Inr (c, s1)" and "channel_steps s1 s2"
    and "ChannelCreate env2 digest q r2 s2 = Inr (c2, s3)" and "cr_kind r = ''dm''" and "cr_kind r2 = ''dm''"
    and "cr_project r2 = cr_project r" and "mset (cr_participants r2) = mset (cr_participants r)"
    and "row_by operation_key (pr_actor p, ''create'', cr_key r) (operations s) = None"
    and "row_by operation_key (pr_actor q, ''create'', cr_key r2) (operations s2) = None"
  shows "c_id c2 = c_id c"
proof -
  have run1: "channel_run s1" by (rule later [OF assms(1) create [OF assms(2)]])
  have e: "extends s1 s2" "chat_ok s2" using channel_steps_keep [OF assms(3) channel_run_invariant [OF run1]] by blast+
  have key: "dm_key digest (r2\<lparr>cr_participants := sort (cr_participants r2), cr_title := []\<rparr>) =
      dm_key digest (r\<lparr>cr_participants := sort (cr_participants r), cr_title := []\<rparr>)"
    using assms(7) properties_for_sort [OF _ sorted_sort, of "cr_participants r" "cr_participants r2"] assms(8) by (simp add: dm_key_def)
  obtain ch where ch: "row_by ch_id (c_id c) (channels s1) = Some ch"
    "ch_dm_key ch = Some (dm_key digest (r\<lparr>cr_participants := sort (cr_participants r), cr_title := []\<rparr>))"
    by (rule dm_created [OF assms(2,5,9)]) (use channel_run_invariant [OF assms(1)] in \<open>simp add: chat_ok_def log_ok_def\<close>)
  obtain ch' where ch': "row_by ch_id (c_id c) (channels s2) = Some ch'" "ch_dm_key ch' = ch_dm_key ch"
    using e(1) ch(1) unfolding extends_def channels_extend_def later_channel_def same_channel_def by blast
  let ?k = "Some (dm_key digest (r\<lparr>cr_participants := sort (cr_participants r), cr_title := []\<rparr>))"
  have "ch' \<in> set (channels s2)" "ch_dm_key ch' = ?k" using row_by_SomeD [OF ch'(1)] ch'(2) ch(2) by simp_all
  then have "row_by ch_dm_key ?k (channels s2) \<noteq> None" unfolding row_by_None_iff by blast
  then obtain x where x: "row_by ch_dm_key ?k (channels s2) = Some x" by blast
  have "dm_unique (channels s2)" using e(2) by (simp add: chat_ok_def log_ok_def)
  have "ch_id x = ch_id ch'"
  proof -
    have "x \<in> set (channels s2)" "ch_dm_key x = ?k" using row_by_SomeD [OF x] by simp_all
    with \<open>dm_unique (channels s2)\<close> \<open>ch' \<in> set (channels s2)\<close> \<open>ch_dm_key ch' = ?k\<close> show ?thesis
      unfolding dm_unique_def by (metis option.distinct(1))
  qed
  moreover have "c_id c2 = ch_id x" by (rule dm_found [OF assms(4,6,10)]) (simp add: key x)
  ultimately show ?thesis using row_by_SomeD [OF ch'(1)] by simp
qed

text \<open>
  \<^bold>\<open>C28\<close> Read positions only move forward, under a fence: an update of a view succeeds only at the
  revision that is stored, stores what was asked for under the next revision, and its position
  is not behind the old one and names no message the reader cannot see.
\<close>
theorem view_update_moves_forward:
  assumes "ChannelViewUpdate env p v s = Inr (v', s')"
  shows "vw_revision v = vw_revision (channelViewTx p (vw_channel v) (vw_thread v) s) \<and>
    vw_read_through (channelViewTx p (vw_channel v) (vw_thread v) s) \<le> vw_read_through v \<and>
    channelViewTx p (vw_channel v) (vw_thread v) s' = v\<lparr>vw_revision := vw_revision v + 1\<rparr> \<and>
    (vw_read_through v \<noteq> 0 \<longrightarrow> (\<exists>m\<in>set (channel_messages s (vw_channel v)). mr_channel_seq m = Some (vw_read_through v) \<and>
      (\<exists>g\<in>set (grants_of s (vw_channel v) (pr_actor p)). cg_history_from g \<le> vw_read_through v)))"
proof -
  obtain c where c: "channelTx p (vw_channel v) s = Inr c"
    and rev: "vw_revision v = vw_revision (channelViewTx p (vw_channel v) (vw_thread v) s)"
    and mono: "vw_read_through (channelViewTx p (vw_channel v) (vw_thread v) s) \<le> vw_read_through v"
    and pos: "vw_read_through v \<noteq> 0 \<longrightarrow> visible_position s c (vw_thread v) (vw_read_through v)"
    and s': "s' = s\<lparr>views := upsert_view \<lparr>vr_channel = vw_channel v, vr_actor = pr_actor p, vr_thread = vw_thread v,
        vr_state = v\<lparr>vw_revision := vw_revision v + 1\<rparr>\<rparr> (views s)\<rparr>"
    by (rule ChannelViewUpdateD [OF assms])
  have id: "c_id c = vw_channel v" and g: "grants_of s (vw_channel v) (pr_actor p) \<noteq> []"
    "c_history_from c = history_floor (grants_of s (vw_channel v) (pr_actor p))" using c by (auto elim: channelTxD)
  have "\<exists>m\<in>set (channel_messages s (vw_channel v)). mr_channel_seq m = Some (vw_read_through v) \<and>
      (\<exists>g\<in>set (grants_of s (vw_channel v) (pr_actor p)). cg_history_from g \<le> vw_read_through v)"
    if nz: "vw_read_through v \<noteq> 0"
  proof -
    obtain m where m: "m \<in> set (channel_messages s (vw_channel v))" "mr_channel_seq m = Some (vw_read_through v)"
      "c_history_from c \<le> vw_read_through v"
      using pos nz affected_one unfolding visible_position_def id affected_def by (metis (mono_tags, lifting))
    obtain h where "h \<in> set (grants_of s (vw_channel v) (pr_actor p))" "cg_history_from h = c_history_from c"
      using history_floor_in [OF g(1)] g(2) by metis
    then show ?thesis using m by (intro bexI [of _ m] conjI bexI [of _ h]) simp_all
  qed
  moreover have "channelViewTx p (vw_channel v) (vw_thread v) s' = v\<lparr>vw_revision := vw_revision v + 1\<rparr>"
    unfolding s' by (rule upsert_view_reads)
  ultimately show ?thesis using rev mono by blast
qed



section \<open>The properties on a small conversation\<close>

lemma channel_run_ok_witness: "chat_ok heard"
  by (rule channel_run_ok [OF sample_chat_runs(2)])

lemma conversations_only_grow_witness: "prefix (channel_events opened) (channel_events heard) \<and> length (channel_events heard) = 2"
proof -
  have "length (channel_events heard) = 2" by code_simp
  then show ?thesis using conversations_only_grow [OF sample_chat_runs(1) heard_step] by blast
qed

lemma sample_view: "ChannelGet (talker ''alice'') (cp_channel remark) opened = Inr room"
  by code_simp

lemma post_reaches_read_audience_witness:
  "pt_recipients said = filter (\<lambda>a. a \<noteq> pr_actor (talker ''alice'')) (c_participants room) \<and> pt_recipients said = [''bob'', ''carol'']"
proof -
  have "\<not> pt_duplicate said" "cp_expected_revision remark = c_revision room" "pt_recipients said = [''bob'', ''carol'']" by code_simp+
  then show ?thesis
    using post_reaches_read_audience [OF sample_chat_runs(1) sample_view rtranclp.rtrancl_refl sample_said] by blast
qed


definition retold :: "channel_post_result \<times> cdb" where
  "retold = projr (ChannelPost (sample_env 60) (take 1) (talker ''alice'') remark heard)"

lemma post_retry_witness: "snd retold = heard \<and> pt_duplicate (fst retold) \<and> cm_id (pt_message (fst retold)) = cm_id (pt_message said)"
proof -
  have "\<not> isl (ChannelPost (sample_env 60) (take 1) (talker ''alice'') remark heard)" by code_simp
  then have "ChannelPost (sample_env 60) (take 1) (talker ''alice'') remark heard = Inr (fst retold, snd retold)"
    unfolding retold_def by (rule answered)
  from post_retry [OF sample_chat_runs(1) sample_said rtranclp.rtrancl_refl this refl refl] show ?thesis .
qed

lemma message_read_iff_witness: "authorized heard ''bob'' ''msg_2'' \<and> \<not> authorized heard ''dave'' ''msg_2''"
proof -
  have b: "\<not> isl (ChannelMessageGet (sample_env 30) (talker ''bob'') ''msg_2'' heard)" by code_simp
  have d: "isl (ChannelMessageGet (sample_env 30) (talker ''dave'') ''msg_2'' heard)" by code_simp
  have p: "conversationPrincipal (talker ''dave'') = Inr ()" by code_simp
  have m: "remark_row \<in> set (messages (base heard))" "mr_id remark_row = ''msg_2''" "unexpired (e_now (sample_env 30)) remark_row" by code_simp+
  have "authorized heard (pr_actor (talker ''bob'')) ''msg_2''"
    using message_read_iff [OF sample_chat_runs(2), where env = "sample_env 30" and p = "talker ''bob''" and mid = "''msg_2''"] b
    by (cases "ChannelMessageGet (sample_env 30) (talker ''bob'') ''msg_2'' heard") simp_all
  moreover have "\<not> authorized heard (pr_actor (talker ''dave'')) ''msg_2''"
    using message_read_iff [OF sample_chat_runs(2), where env = "sample_env 30" and p = "talker ''dave''" and mid = "''msg_2''"] d p m
    by (cases "ChannelMessageGet (sample_env 30) (talker ''dave'') ''msg_2'' heard") auto
  ultimately show ?thesis by (simp add: talker_def)
qed



lemma managed_claim_fences_witness:
  "(\<forall>x. ChannelClaim (sample_env 40) (talker ''bob'') ''msg_2'' 60 (snd held) \<noteq> Inr x) \<and>
    (\<forall>x. ChannelDeliveryUpdate (sample_env 40) (talker ''bob'') ''msg_2'' ''forged'' ActAck [] 0 (snd held) \<noteq> Inr x)"
proof -
  have "e_now (sample_env 40) < e_now (sample_env 30) + 60" "''forged'' \<noteq> cd_lease_token (fst held)" by code_simp+
  then show ?thesis
    using managed_claim_fences [OF sample_chat_runs(2) sample_held refl] by blast
qed

definition dm_request :: "string list \<Rightarrow> channel_create" where
  "dm_request as = \<lparr>cr_project = ''p'', cr_kind = ''dm'', cr_title = [], cr_participants = as, cr_key = ''k9''\<rparr>"

definition dm_opened :: "channel \<times> cdb" where
  "dm_opened = projr (ChannelCreate (sample_env 60) (take 1) (talker ''alice'') (dm_request [''alice'', ''bob'']) heard)"

definition dm_reopened :: "channel \<times> cdb" where
  "dm_reopened = projr (ChannelCreate (sample_env 70) (take 1) (talker ''bob'') (dm_request [''bob'', ''alice'']) (snd dm_opened))"

lemma direct_conversation_shared_witness: "c_id (fst dm_reopened) = c_id (fst dm_opened)"
proof -
  have "\<not> isl (ChannelCreate (sample_env 60) (take 1) (talker ''alice'') (dm_request [''alice'', ''bob'']) heard)" by code_simp
  then have 1: "ChannelCreate (sample_env 60) (take 1) (talker ''alice'') (dm_request [''alice'', ''bob'']) heard = Inr (fst dm_opened, snd dm_opened)"
    unfolding dm_opened_def by (rule answered)
  have "\<not> isl (ChannelCreate (sample_env 70) (take 1) (talker ''bob'') (dm_request [''bob'', ''alice'']) (snd dm_opened))" by code_simp
  then have 2: "ChannelCreate (sample_env 70) (take 1) (talker ''bob'') (dm_request [''bob'', ''alice'']) (snd dm_opened) =
      Inr (fst dm_reopened, snd dm_reopened)" unfolding dm_reopened_def by (rule answered)
  have 3: "row_by operation_key (pr_actor (talker ''alice''), ''create'', cr_key (dm_request [''alice'', ''bob''])) (operations heard) = None" by code_simp
  have 4: "row_by operation_key (pr_actor (talker ''bob''), ''create'', cr_key (dm_request [''bob'', ''alice''])) (operations (snd dm_opened)) = None"
    by code_simp
  show ?thesis
    by (rule direct_conversation_shared [OF sample_chat_runs(2) 1 rtranclp.rtrancl_refl 2 _ _ _ _ 3 4]) (simp_all add: dm_request_def)
qed

definition sample_seen :: view_state where
  "sample_seen = \<lparr>vw_channel = ''chn_0'', vw_thread = [], vw_revision = 0, vw_read_through = 2, vw_unread_from = None,
     vw_snoozed_until = None, vw_muted = False, vw_archived = False\<rparr>"

definition seen :: "view_state \<times> cdb" where
  "seen = projr (ChannelViewUpdate (sample_env 40) (talker ''bob'') sample_seen heard)"

lemma view_update_moves_forward_witness:
  "channelViewTx (talker ''bob'') (vw_channel sample_seen) (vw_thread sample_seen) (snd seen) = sample_seen\<lparr>vw_revision := vw_revision sample_seen + 1\<rparr>"
proof -
  have "\<not> isl (ChannelViewUpdate (sample_env 40) (talker ''bob'') sample_seen heard)" by code_simp
  then have "ChannelViewUpdate (sample_env 40) (talker ''bob'') sample_seen heard = Inr (fst seen, snd seen)" unfolding seen_def by (rule answered)
  from view_update_moves_forward [OF this] show ?thesis by blast
qed



end
