(* ===== verification/ContinuationProps.thy ===== *)
theory ContinuationProps
  imports ChannelSamples
begin

text \<open>
  What a continuation guarantees: the tokens are read back as they were signed, and a commit posts to
  the audience its preflight showed or is refused.
\<close>

section \<open>Tokens\<close>

lemma no_dot: "CHR ''.'' \<notin> set (base64url s)"
  using base64url_plain by fastforce

lemma token_parts_signed: "token_parts (base64url a @ ''.'' @ base64url b) = Some (base64url a, base64url b)"
proof -
  have "dropWhile (\<lambda>c. c \<noteq> CHR ''.'') (base64url a @ ''.'' @ base64url b) = ''.'' @ base64url b"
    "takeWhile (\<lambda>c. c \<noteq> CHR ''.'') (base64url a @ ''.'' @ base64url b) = base64url a"
    using no_dot [of a] by (auto simp: dropWhile_append takeWhile_append)
  then show ?thesis using no_dot [of b] by (simp add: token_parts_def)
qed

lemma token_parts_split:
  assumes "token_parts token = Some (payload, signature)"
  shows "token = payload @ ''.'' @ signature"
proof (cases "dropWhile (\<lambda>c. c \<noteq> CHR ''.'') token")
  case Nil
  then show ?thesis using assms unfolding token_parts_def Nil by simp
next
  case (Cons c cs)
  then have "c = CHR ''.''" using hd_dropWhile [of "\<lambda>c. c \<noteq> CHR ''.''" token] by simp
  moreover have "cs = signature" "takeWhile (\<lambda>c. c \<noteq> CHR ''.'') token = payload"
    using assms unfolding token_parts_def Cons by (simp_all split: if_splits)
  moreover have "takeWhile (\<lambda>c. c \<noteq> CHR ''.'') token @ dropWhile (\<lambda>c. c \<noteq> CHR ''.'') token = token"
    by (rule takeWhile_dropWhile_id)
  ultimately show ?thesis unfolding Cons by simp
qed

lemma read_sign:
  "readConversationToken tk f (signConversationToken tk v) =
     (if int (length (signConversationToken tk v)) \<le> MaxBodyBytes * 2
      then (case f (marshal v) of None \<Rightarrow> Inl ErrChannelDenied | Some x \<Rightarrow> Inr x) else Inl ErrChannelDenied)"
  by (simp add: readConversationToken_def signConversationToken_def token_parts_signed [simplified] unbase64url_base64url)

lemma read_signed: "readConversationToken tk f (signConversationToken tk v) = Inr x \<Longrightarrow> f (marshal v) = Some x"
  by (simp add: read_sign split: if_splits option.splits)

text \<open>
  \<^bold>\<open>C39\<close> Signed tokens come back as they were written, and nothing else is read: reading a token the
  daemon signed gives what decoding the signed text gives, when it is within the length limit; and
  any token that is read carries, after its dot, the signature of the text before it, which is the
  text that was decoded.
\<close>
theorem token_roundtrip:
  "(int (length (signConversationToken tk v)) \<le> MaxBodyBytes * 2 \<and> f (marshal v) = Some x \<longrightarrow>
      readConversationToken tk f (signConversationToken tk v) = Inr x) \<and>
    (readConversationToken tk f token = Inr y \<longrightarrow> (\<exists>payload signature raw. token = payload @ ''.'' @ signature \<and>
      unbase64url payload = Some raw \<and> unbase64url signature = Some (tk_mac tk raw) \<and> f raw = Some y))"
proof -
  have "\<exists>payload signature raw. token = payload @ ''.'' @ signature \<and> unbase64url payload = Some raw \<and>
      unbase64url signature = Some (tk_mac tk raw) \<and> f raw = Some y"
    if r: "readConversationToken tk f token = Inr y"
  proof -
    obtain payload signature raw where parts: "token_parts token = Some (payload, signature)" "unbase64url payload = Some raw"
      "unbase64url signature = Some (tk_mac tk raw)" "f raw = Some y"
      using r by (auto simp: readConversationToken_def bindE_Inr_iff requireE_Inr_iff split: option.splits)
    have "token = payload @ ''.'' @ signature" by (rule token_parts_split [OF parts(1)])
    then show ?thesis using parts by blast
  qed
  then show ?thesis by (simp add: read_sign)
qed

section \<open>The audience of a new channel\<close>

lemma grant_all_actors:
  assumes "foldE (\<lambda>a. channelGrantTx cid a floor) as s = Inr (s\<lparr>base := (base s)\<lparr>grants := grants (base s) @ gs\<rparr>\<rparr>)"
  shows "(\<forall>g\<in>set gs. cg_channel_id g = cid \<and> cg_revoked_seq g = None) \<and> cg_actor ` {g \<in> set gs. cg_can_post g} = set as"
  using assms
proof (induction as arbitrary: s gs)
  case Nil
  let ?s' = "s\<lparr>base := (base s)\<lparr>grants := grants (base s) @ gs\<rparr>\<rparr>"
  have "?s' = s" using Nil by (simp only: foldE.simps sum.inject)
  then have "grants (base ?s') = grants (base s)" by (rule arg_cong [where f = "\<lambda>s. grants (base s)"])
  then have "gs = []" by simp
  then show ?case by simp
next
  case (Cons a as)
  let ?s' = "s\<lparr>base := (base s)\<lparr>grants := grants (base s) @ gs\<rparr>\<rparr>"
  obtain s1 where s1: "channelGrantTx cid a floor s = Inr s1" and rest: "foldE (\<lambda>a. channelGrantTx cid a floor) as s1 = Inr ?s'"
    using Cons(2) by (auto simp: bindE_Inr_iff)
  obtain gs1 where gs1: "s1 = s\<lparr>base := (base s)\<lparr>grants := grants (base s) @ gs1\<rparr>\<rparr>"
    "gs1 = new_grant cid a ''participant'' True floor # (case active_supervisor s a of None \<Rightarrow> []
      | Some h \<Rightarrow> [new_grant cid h (supervisor_source a) False floor])"
    by (rule channelGrantD [OF s1]) blast
  obtain gs2 where gs2: "?s' = s1\<lparr>base := (base s1)\<lparr>grants := grants (base s1) @ gs2\<rparr>\<rparr>" by (rule grant_all [OF rest])
  have "grants (base ?s') = grants (base (s1\<lparr>base := (base s1)\<lparr>grants := grants (base s1) @ gs2\<rparr>\<rparr>))" by (simp only: gs2)
  then have gs: "gs = gs1 @ gs2" by (simp add: gs1(1))
  have "(\<forall>g\<in>set gs2. cg_channel_id g = cid \<and> cg_revoked_seq g = None) \<and> cg_actor ` {g \<in> set gs2. cg_can_post g} = set as"
    by (rule Cons(1)) (use rest gs2 in simp)
  moreover have "\<forall>g\<in>set gs1. cg_channel_id g = cid \<and> cg_revoked_seq g = None \<and> (cg_can_post g \<longrightarrow> cg_actor g = a)"
    by (auto simp: gs1(2) new_grant_def split: option.splits)
  moreover have "new_grant cid a ''participant'' True floor \<in> {g \<in> set gs1. cg_can_post g}" by (simp add: gs1(2) new_grant_def)
  then have "a \<in> cg_actor ` {g \<in> set gs1. cg_can_post g}" by (rule rev_image_eqI) (simp add: new_grant_def)
  moreover have "{g \<in> set gs. cg_can_post g} = {g \<in> set gs1. cg_can_post g} \<union> {g \<in> set gs2. cg_can_post g}" by (auto simp: gs)
  ultimately show ?case by (auto simp: gs image_Un)
qed

lemma new_audience:
  assumes "granted_channels s \<subseteq> channel_ids s" and "create_new env p r key dig s = Inr (c, s')"
    and "sorted (cr_participants r)" and "distinct (cr_participants r)"
  shows "c_participants c = cr_participants r" "channelTx p (c_id c) s' = Inr c"
proof -
  obtain cid s1 gs where cid: "cid \<notin> channel_ids s" and fold: "foldE (\<lambda>a. channelGrantTx cid a 0) (cr_participants r) s1 =
      Inr (s1\<lparr>base := (base s1)\<lparr>grants := grants (base s1) @ gs\<rparr>\<rparr>)"
    and g: "grants (base s') = grants (base s) @ gs" and c: "channelTx p cid s' = Inr c"
    by (rule create_new_grants [OF assms(2)])
  note made = grant_all_actors [OF fold]
  have "filter (\<lambda>g. cg_channel_id g = cid \<and> cg_revoked_seq g = None) (grants (base s)) = []"
    using assms(1) cid by (auto simp: filter_empty_conv)
  then have live: "live_grants s' cid = gs" using made by (simp add: live_grants_def g filter_id_conv)
  have "may_post s' cid a \<longleftrightarrow> a \<in> cg_actor ` {g \<in> set gs. cg_can_post g}" for a
    by (auto simp: may_post_def grants_of_def live list_ex_iff)
  moreover have "set (grouped_actors gs) = cg_actor ` set gs" by (simp add: grouped_actors_def)
  ultimately have "set (filter (may_post s' cid) (grouped_actors gs)) = cg_actor ` {g \<in> set gs. cg_can_post g}" by auto
  then have "set (filter (may_post s' cid) (grouped_actors gs)) = set (cr_participants r)" using made by simp
  moreover have "sorted (filter (may_post s' cid) (grouped_actors gs))" "distinct (filter (may_post s' cid) (grouped_actors gs))"
    by (simp_all add: grouped_actors_def sorted_wrt_filter)
  ultimately have "filter (may_post s' cid) (grouped_actors gs) = cr_participants r"
    by (intro sorted_distinct_set_unique assms(3,4)) simp_all
  then show "c_participants c = cr_participants r" using c by (elim channelTxD) (simp add: live)
  have "c_id c = cid" by (rule channelTxD [OF c])
  then show "channelTx p (c_id c) s' = Inr c" using c by simp
qed

lemma normalized_participants:
  assumes "normalizeChannelCreate p r0 = Inr r"
  shows "sorted (cr_participants r)" "distinct (cr_participants r)"
proof -
  have "check_participants prior as = Inr u \<Longrightarrow> sorted as \<Longrightarrow> distinct as \<and> (\<forall>x. prior = Some x \<longrightarrow> (\<forall>y\<in>set as. x \<le> y) \<longrightarrow> x \<notin> set as)"
    for prior as u
  proof (induction prior as rule: check_participants.induct)
    case (2 prior a as)
    then have rest: "check_participants (Some a) as = Inr u" and ne: "prior \<noteq> Some a" and le: "\<forall>y\<in>set as. a \<le> y" "sorted as"
      by (auto simp: bindE_Inr_iff requireE_Inr_iff)
    have "distinct as" "a \<notin> set as" using 2(1) [OF _ _ rest le(2)] 2(2) le(1) by (auto simp: bindE_Inr_iff requireE_Inr_iff)
    then show ?case using ne le(1) by (auto dest: order_antisym)
  qed simp
  from this [of None "sort (cr_participants r0)"] show "sorted (cr_participants r)" "distinct (cr_participants r)"
    using assms by (auto simp: normalizeChannelCreate_def Let_def bindE_Inr_iff split: if_splits)
qed

section \<open>Preflight and commit\<close>

lemma preflight_tokenD:
  assumes "preflight_token env digest p i s = Inr (t, participants, observers)"
  obtains (create) r where "ci_create (ct_intent t) = Some r" "participants = cr_participants r" "sorted (cr_participants r)"
      "distinct (cr_participants r)" "ct_actor t = pr_actor p" "ct_expires t = (e_now env + 600 * second) div second"
      "ci_source (ct_intent t) = ci_source i"
  | (existing) c where "ci_create (ct_intent t) = None" "channelTx p (ci_destination (ct_intent t)) s = Inr c" "participants = c_participants c"
      "ct_destination_revision t = c_revision c" "ct_actor t = pr_actor p" "ct_expires t = (e_now env + 600 * second) div second"
      "ci_source (ct_intent t) = ci_source i"
proof -
  obtain sc where target: "preflight_target digest p i \<lparr>ct_actor = pr_actor p, ct_expires = (e_now env + 600 * second) div second,
      ct_intent = i, ct_source_revision = sc, ct_destination_revision = 0, ct_supervision = []\<rparr> s = Inr (t, participants, observers)"
    using assms by (auto simp: preflight_token_def bindE_Inr_iff)
  show thesis
  proof (cases "ci_create i")
    case None
    then show thesis using target by (auto simp: preflight_target_def preflight_existing_def bindE_Inr_iff intro: existing)
  next
    case (Some r0)
    then obtain r where r: "normalizeChannelCreate p (r0\<lparr>cr_key := ''preflight''\<rparr>) = Inr r"
      using target by (auto simp: preflight_target_def bindE_Inr_iff)
    note np = normalized_participants [OF r]
    show thesis
    proof (cases "cr_kind r = ''dm'' \<and> row_by ch_dm_key (Some (dm_key digest r)) (channels s) \<noteq> None")
      case True
      then obtain ch where ch: "row_by ch_dm_key (Some (dm_key digest r)) (channels s) = Some ch" and dm: "cr_kind r = ''dm''" by blast
      obtain b where b: "channelTx p (ch_id ch) s = Inr b" "participants = c_participants b" "t =
          \<lparr>ct_actor = pr_actor p, ct_expires = (e_now env + 600 * second) div second, ct_intent = i\<lparr>ci_create := None, ci_destination := ch_id ch\<rparr>,
            ct_source_revision = sc, ct_destination_revision = c_revision b, ct_supervision = fst (supervisionDigestTx digest s (cr_participants r))\<rparr>"
        using target by (auto simp: preflight_target_def preflight_existing_def Some r ch dm bindE_Inr_iff Let_def)
      show thesis by (rule existing [of b]) (use b in simp_all)
    next
      case False
      then have "cr_kind r \<noteq> ''dm'' \<or> row_by ch_dm_key (Some (dm_key digest r)) (channels s) = None" by blast
      then show thesis using target np by (auto simp: preflight_target_def Some r Let_def intro!: create split: if_splits)
    qed
  qed
qed

lemma commit_audience:
  assumes "granted_channels s \<subseteq> channel_ids s" and "commit_destination env digest p key t s = Inr (c, s')"
    and "row_by operation_key (pr_actor p, ''create'', ''continuation-'' @ digestRequest digest (JArray [JText (pr_actor p), JText key]))
      (operations s) = None"
    and "\<And>r. ci_create (ct_intent t) = Some r \<Longrightarrow> sorted (cr_participants r) \<and> distinct (cr_participants r)"
  shows "channelTx p (c_id c) s' = Inr c"
    "ci_create (ct_intent t) = Some r \<Longrightarrow> c_participants c = cr_participants r"
    "ci_create (ct_intent t) = None \<Longrightarrow> s' = s \<and> c_id c = ci_destination (ct_intent t) \<and> c_revision c = ct_destination_revision t"
proof -
  have "channelTx p (c_id c) s' = Inr c \<and> (ci_create (ct_intent t) = Some r \<longrightarrow> c_participants c = cr_participants r) \<and>
     (ci_create (ct_intent t) = None \<longrightarrow> s' = s \<and> c_id c = ci_destination (ct_intent t) \<and> c_revision c = ct_destination_revision t)"
  proof (cases "ci_create (ct_intent t)")
    case None
    then have c: "channelTx p (ci_destination (ct_intent t)) s = Inr c" "s' = s" "c_revision c = ct_destination_revision t"
      using assms(2) by (auto simp: commit_destination_def bindE_Inr_iff requireE_Inr_iff)
    have "c_id c = ci_destination (ct_intent t)" by (rule channelTxD [OF c(1)])
    then show ?thesis using c None by simp
  next
    case (Some q)
    let ?q = "q\<lparr>cr_key := ''continuation-'' @ digestRequest digest (JArray [JText (pr_actor p), JText key])\<rparr>"
    have cr: "createChannelTx env digest p ?q s = Inr (c, s')"
      and dm: "cr_kind q = ''dm'' \<Longrightarrow> row_by ch_dm_key (Some (dm_key digest ?q)) (channels s) = None"
      using assms(2) Some by (auto simp: commit_destination_def create_destination_def Let_def bindE_Inr_iff requireE_Inr_iff)
    obtain k dig where "create_new env p ?q k dig s = Inr (c, s')"
      using cr dm assms(3) by (auto simp: createChannelTx_def Let_def channelOperation_def split: if_splits)
    from new_audience [OF assms(1) this] assms(4) Some show ?thesis by auto
  qed
  then show "channelTx p (c_id c) s' = Inr c"
    "ci_create (ct_intent t) = Some r \<Longrightarrow> c_participants c = cr_participants r"
    "ci_create (ct_intent t) = None \<Longrightarrow> s' = s \<and> c_id c = ci_destination (ct_intent t) \<and> c_revision c = ct_destination_revision t"
    by blast+
qed


section \<open>Alice goes on with Dave\<close>

definition sample_intent :: continuation_intent where
  "sample_intent = \<lparr>ci_source = ''msg_2'', ci_destination = [],
     ci_create = Some \<lparr>cr_project = ''p'', cr_kind = ''dm'', cr_title = [], cr_participants = [''dave'', ''alice''], cr_key = []\<rparr>,
     ci_body = ''1'', ci_attention = [], ci_respondent = []\<rparr>"

definition sample_token :: continuation_token where
  "sample_token = \<lparr>ct_actor = ''alice'', ct_expires = 600,
     ct_intent = sample_intent\<lparr>ci_create := Some \<lparr>cr_project = ''p'', cr_kind = ''dm'', cr_title = [],
       cr_participants = [''alice'', ''dave''], cr_key = ''preflight''\<rparr>\<rparr>,
     ct_source_revision = 1, ct_destination_revision = 0, ct_supervision = ''d''\<rparr>"

definition sample_tokens :: token_service where
  "sample_tokens = \<lparr>tk_mac = (\<lambda>_. ''m''), tk_continuation = (\<lambda>_. Some sample_token), tk_history = (\<lambda>t _. Some t)\<rparr>"

definition signed :: string where
  "signed = signConversationToken sample_tokens (continuation_json sample_token)"

definition continued :: "channel_post_result \<times> cdb" where
  "continued = projr (ChannelContinuationCommit (sample_env 80) (\<lambda>_. ''d'') sample_tokens (talker ''alice'') signed ''k9'' heard)"

lemma sample_preview:
  "preflight_token (sample_env 70) (\<lambda>_. ''d'') (talker ''alice'') sample_intent heard = Inr (sample_token, [''alice'', ''dave''], [])"
  by code_simp

lemma base64_bytes_length: "length (base64_bytes bs) \<le> 2 * length bs"
  by (induction bs rule: base64_bytes.induct) simp_all

lemma sample_reading: "read_continuation (sample_env 80) sample_tokens (talker ''alice'') signed = Inr sample_token"
proof -
  have "length (marshal (continuation_json sample_token)) < 1000" by code_simp
  moreover have "length signed \<le> 2 * length (marshal (continuation_json sample_token)) + 3"
    using base64_bytes_length [of "map of_char (marshal (continuation_json sample_token))"] base64_bytes_length [of "map of_char ''m''"]
    by (simp add: signed_def signConversationToken_def base64url_def sample_tokens_def)
  ultimately have "int (length signed) \<le> MaxBodyBytes * 2" by (simp add: MaxBodyBytes_def)
  moreover have "ct_actor sample_token = pr_actor (talker ''alice'')" "e_now (sample_env 80) div second < ct_expires sample_token" by code_simp+
  ultimately show ?thesis
    unfolding read_continuation_def signed_def read_sign by (simp add: sample_tokens_def)
qed

lemma sample_continued:
  "ChannelContinuationCommit (sample_env 80) (\<lambda>_. ''d'') sample_tokens (talker ''alice'') signed ''k9'' heard = Inr (fst continued, snd continued)"
proof -
  have d: "digestRequest (\<lambda>_. ''d'') v = ''d''" for v by (simp add: digestRequest_def)
  have "\<not> isl (ChannelContinuationCommit (sample_env 80) (\<lambda>_. ''d'') sample_tokens (talker ''alice'') signed ''k9'' heard)"
    unfolding ChannelContinuationCommit_def commit_new_def sample_reading bindE_Inr d by code_simp
  then show ?thesis unfolding continued_def by (rule answered)
qed

lemma token_roundtrip_witness:
  "readConversationToken sample_tokens (tk_continuation sample_tokens) signed = Inr sample_token \<and>
    (\<exists>payload signature. signed = payload @ ''.'' @ signature \<and> unbase64url signature = Some ''m'')"
proof -
  have "readConversationToken sample_tokens (tk_continuation sample_tokens) signed = Inr sample_token"
    using sample_reading by (auto simp: read_continuation_def bindE_Inr_iff split: sum.splits)
  moreover from this obtain payload signature raw where "signed = payload @ ''.'' @ signature" "unbase64url signature = Some (tk_mac sample_tokens raw)"
    using token_roundtrip [of sample_tokens JNull "tk_continuation sample_tokens" sample_token signed sample_token] by blast
  ultimately show ?thesis unfolding sample_tokens_def by auto
qed


end
