(* ===== verification/Capabilities.thy ===== *)
theory Capabilities
  imports BusModel JsonValue
begin

text \<open>
  The catalog of operations the daemon offers to long-lived clients: \<open>internal/bus/capability.go\<close> with
  the checks of descriptors and invocations, and the registry of \<open>internal/api/capability.go\<close>. A bridge
  invokes with the mode it was started for; the registry, not the caller, says which mode an
  operation has.

  Decoding a JSON text into a Go map is the parameter \<open>decode\<close>: the text of the error, or the members
  of the object, with no members for \<open>null\<close>, which decodes to a nil map.
\<close>

section \<open>Descriptors and invocations\<close>

datatype capability_mode = CapabilityRead | CapabilityWrite | OtherMode string

definition capability_mode_text :: "capability_mode \<Rightarrow> string" where
  "capability_mode_text m = (case m of CapabilityRead \<Rightarrow> ''read'' | CapabilityWrite \<Rightarrow> ''write'' | OtherMode s \<Rightarrow> s)"

record capability_descriptor =
  de_name :: string
  de_mode :: capability_mode
  de_description :: string
  de_schema :: string
  de_since :: string

record capability_invocation =
  iv_name :: string
  iv_arguments :: string

type_synonym decode_object = "string \<Rightarrow> string + (string \<Rightarrow> json_value option) option"

definition lowercase :: "char \<Rightarrow> bool" where
  "lowercase c \<longleftrightarrow> CHR ''a'' \<le> c \<and> c \<le> CHR ''z''"

definition name_char :: "char \<Rightarrow> bool" where
  "name_char c \<longleftrightarrow> lowercase c \<or> CHR ''0'' \<le> c \<and> c \<le> CHR ''9'' \<or> c = CHR ''-'' \<or> c = CHR ''_''"

text \<open>The loop over the bytes of a name; the result says whether a segment has still to begin.\<close>

fun scan_name :: "bool \<Rightarrow> string \<Rightarrow> bool option" where
  "scan_name segment_start [] = Some segment_start"
| "scan_name segment_start (c # cs) =
    (if segment_start then (if lowercase c then scan_name False cs else None)
     else if c = CHR ''.'' then scan_name True cs
     else if name_char c then scan_name False cs
     else None)"

definition validateCapabilityName :: "string \<Rightarrow> error + unit" where
  "validateCapabilityName name =
    bindE (requireE (name \<noteq> []) (ValidationError ''capability.name'' ''is required'')) (\<lambda>_.
    bindE (requireE (length name \<le> 128) (ValidationError ''capability.name'' ''exceeds 128 bytes'')) (\<lambda>_.
    case scan_name True name of
      None \<Rightarrow> Inl (ValidationError ''capability.name'' ''must use lowercase dot-separated identifiers'')
    | Some True \<Rightarrow> Inl (ValidationError ''capability.name'' ''must not end with a dot'')
    | Some False \<Rightarrow> Inr ()))"

definition maxCapabilitySchemaBytes :: int where
  "maxCapabilitySchemaBytes = 65536"

definition ValidateCapabilityDescriptor :: "decode_object \<Rightarrow> capability_descriptor \<Rightarrow> error + unit" where
  "ValidateCapabilityDescriptor decode d =
    (let description = trim (de_description d) in
     bindE (validateCapabilityName (trim (de_name d))) (\<lambda>_.
     bindE (requireE (de_mode d = CapabilityRead \<or> de_mode d = CapabilityWrite) (ValidationError ''capability.mode'' ''must be read or write'')) (\<lambda>_.
     bindE (requireE (description \<noteq> []) (ValidationError ''capability.description'' ''is required'')) (\<lambda>_.
     bindE (ValidateTextIdentifier ''capability.description'' description 512) (\<lambda>_.
     bindE (ValidateTextIdentifier ''capability.since'' (trim (de_since d)) 32) (\<lambda>_.
     bindE (requireE (de_schema d \<noteq> []) (ValidationError ''capability.input_schema'' ''is required'')) (\<lambda>_.
     bindE (requireE (int (length (de_schema d)) \<le> maxCapabilitySchemaBytes) (ValidationError ''capability.input_schema'' ''exceeds 65536 bytes'')) (\<lambda>_.
     case decode (de_schema d) of
       Inl e \<Rightarrow> Inl (ValidationError ''capability.input_schema'' e)
     | Inr schema \<Rightarrow> requireE (Option.bind schema (\<lambda>f. f ''type'') = Some (JText ''object''))
         (ValidationError ''capability.input_schema'' ''must describe an object'')))))))))"

definition ValidateCapabilityInvocation :: "decode_object \<Rightarrow> capability_invocation \<Rightarrow> error + unit" where
  "ValidateCapabilityInvocation decode v =
    bindE (validateCapabilityName (trim (iv_name v))) (\<lambda>_.
    if iv_arguments v = [] then Inr ()
    else bindE (requireE (int (length (iv_arguments v)) \<le> MaxBodyBytes) (ValidationError ''capability.arguments'' ''exceeds maximum body size'')) (\<lambda>_.
      case decode (iv_arguments v) of
        Inl e \<Rightarrow> Inl (ValidationError ''capability.arguments'' e)
      | Inr arguments \<Rightarrow> requireE (arguments \<noteq> None) (ValidationError ''capability.arguments'' ''must be an object'')))"

section \<open>The registry\<close>

text \<open>
  A handler gets the identity of the connection, the arguments as they came and the state. A failed
  registration is remembered and stops every later one.
\<close>

record ('i, 's, 'r) registered_capability =
  rc_descriptor :: capability_descriptor
  rc_handler :: "'i \<Rightarrow> string \<Rightarrow> 's \<Rightarrow> error + ('r \<times> 's)"

record ('i, 's, 'r) capability_server =
  sv_capabilities :: "(string \<times> ('i, 's, 'r) registered_capability) list"
  sv_error :: "error option"

definition maxRegisteredCapabilities :: nat where
  "maxRegisteredCapabilities = 64"

definition trim_descriptor :: "capability_descriptor \<Rightarrow> capability_descriptor" where
  "trim_descriptor d = d\<lparr>de_name := trim (de_name d), de_description := trim (de_description d), de_since := trim (de_since d)\<rparr>"

definition admit_capability ::
  "decode_object \<Rightarrow> capability_descriptor \<Rightarrow> ('i \<Rightarrow> string \<Rightarrow> 's \<Rightarrow> error + ('r \<times> 's)) option \<Rightarrow>
    ('i, 's, 'r) capability_server \<Rightarrow> error + ('i, 's, 'r) registered_capability" where
  "admit_capability decode d handler srv =
    bindE (ValidateCapabilityDescriptor decode d) (\<lambda>_.
    case handler of
      None \<Rightarrow> Inl (InternalError (''capability \"'' @ de_name d @ ''\" has no handler''))
    | Some h \<Rightarrow>
      bindE (requireE (map_of (sv_capabilities srv) (de_name d) = None)
        (InternalError (''capability \"'' @ de_name d @ ''\" is registered more than once''))) (\<lambda>_.
      bindE (requireE (length (sv_capabilities srv) < maxRegisteredCapabilities)
        (InternalError ''capability registry exceeds 64 entries'')) (\<lambda>_.
      Inr \<lparr>rc_descriptor = d, rc_handler = h\<rparr>)))"

definition WithCapability ::
  "decode_object \<Rightarrow> capability_descriptor \<Rightarrow> ('i \<Rightarrow> string \<Rightarrow> 's \<Rightarrow> error + ('r \<times> 's)) option \<Rightarrow>
    ('i, 's, 'r) capability_server \<Rightarrow> ('i, 's, 'r) capability_server" where
  "WithCapability decode d0 handler srv =
    (let d = trim_descriptor d0 in
     if sv_error srv \<noteq> None then srv
     else case admit_capability decode d handler srv of
       Inl e \<Rightarrow> srv\<lparr>sv_error := Some e\<rparr>
     | Inr rc \<Rightarrow> srv\<lparr>sv_capabilities := (de_name d, rc) # sv_capabilities srv\<rparr>)"

definition listCapabilities :: "('i, 's, 'r) capability_server \<Rightarrow> capability_descriptor list" where
  "listCapabilities srv = sort_key de_name (map (\<lambda>(_, rc). rc_descriptor rc) (sv_capabilities srv))"

text \<open>What \<open>invokeCapability\<close> does before it decorates the result of a send.\<close>

definition invokeCapability ::
  "decode_object \<Rightarrow> ('i, 's, 'r) capability_server \<Rightarrow> 'i \<Rightarrow> capability_mode \<Rightarrow> capability_invocation \<Rightarrow> 's \<Rightarrow> error + ('r \<times> 's)" where
  "invokeCapability decode srv identity expected v0 s =
    (let name = trim (iv_name v0); args = (if iv_arguments v0 = [] then ''{}'' else iv_arguments v0) in
     bindE (ValidateCapabilityInvocation decode \<lparr>iv_name = name, iv_arguments = args\<rparr>) (\<lambda>_.
     case map_of (sv_capabilities srv) name of
       None \<Rightarrow> Inl (if prefix ''channel.'' name then ErrChannelCapability
         else ValidationError ''capability'' (''is not supported: '' @ name))
     | Some rc \<Rightarrow>
       bindE (requireE (de_mode (rc_descriptor rc) = expected) (ValidationError ''capability''
         (name @ '' is '' @ capability_mode_text (de_mode (rc_descriptor rc)) @
          ''-only and cannot be invoked through the '' @ capability_mode_text expected @ '' bridge''))) (\<lambda>_.
       rc_handler rc identity args s)))"

section \<open>Names\<close>

text \<open>The segments of a name between its dots.\<close>

fun segments :: "string \<Rightarrow> string list" where
  "segments [] = [[]]"
| "segments (c # cs) = (if c = CHR ''.'' then [] # segments cs else (c # hd (segments cs)) # tl (segments cs))"

lemma segments_nonempty: "segments s \<noteq> []"
  by (cases s) simp_all

lemma segments_join: "\<exists>t ts. segments s = t # ts"
  using segments_nonempty [of s] by (cases "segments s") auto

definition segment_ok :: "string \<Rightarrow> bool" where
  "segment_ok seg \<longleftrightarrow> (case seg of [] \<Rightarrow> False | c # cs \<Rightarrow> lowercase c \<and> list_all name_char cs)"

lemma lowercase_not_dot: "lowercase c \<Longrightarrow> c \<noteq> CHR ''.''" "\<not> name_char (CHR ''.'')"
  by (auto simp: lowercase_def name_char_def less_eq_char_def)

lemma scan_name_segments:
  "scan_name True s = Some False \<longleftrightarrow> list_all segment_ok (segments s)"
  "scan_name False s = Some False \<longleftrightarrow> list_all name_char (hd (segments s)) \<and> list_all segment_ok (tl (segments s))"
proof (induction s)
  case (Cons c cs)
  obtain t ts where t: "segments cs = t # ts" using segments_join by blast
  { case 1
    show ?case using Cons(2) lowercase_not_dot by (auto simp: t segment_ok_def) }
  { case 2
    show ?case using Cons(1,2) lowercase_not_dot by (auto simp: t) }
qed (simp_all add: segment_ok_def)

lemma validateCapabilityName_Inr:
  "validateCapabilityName name = Inr () \<longleftrightarrow> length name \<le> 128 \<and> list_all segment_ok (segments name)"
proof (cases "name = []")
  case False
  then show ?thesis
    using scan_name_segments(1) [of name]
    by (auto simp: validateCapabilityName_def bindE_Inr_iff requireE_Inr_iff split: option.splits bool.splits)
qed (simp add: validateCapabilityName_def segment_ok_def)

section \<open>The registry keeps its rules\<close>

definition registry_ok :: "('i, 's, 'r) capability_server \<Rightarrow> bool" where
  "registry_ok srv \<longleftrightarrow> distinct (map fst (sv_capabilities srv)) \<and> length (sv_capabilities srv) \<le> maxRegisteredCapabilities \<and>
    (\<forall>(name, rc)\<in>set (sv_capabilities srv). de_name (rc_descriptor rc) = name \<and> validateCapabilityName name = Inr () \<and>
       de_mode (rc_descriptor rc) \<in> {CapabilityRead, CapabilityWrite})"

lemma trim_descriptor_idem: "trim (de_name (trim_descriptor d)) = de_name (trim_descriptor d)"
  by (simp add: trim_descriptor_def)

lemma WithCapability_ok:
  assumes "registry_ok srv"
  shows "registry_ok (WithCapability decode d handler srv)"
proof (cases "sv_error srv = None \<and> (\<exists>rc. admit_capability decode (trim_descriptor d) handler srv = Inr rc)")
  case True
  then obtain rc where rc: "admit_capability decode (trim_descriptor d) handler srv = Inr rc" by blast
  then have "rc_descriptor rc = trim_descriptor d" "map_of (sv_capabilities srv) (de_name (trim_descriptor d)) = None"
    "length (sv_capabilities srv) < maxRegisteredCapabilities" "ValidateCapabilityDescriptor decode (trim_descriptor d) = Inr ()"
    by (auto simp: admit_capability_def bindE_Inr_iff requireE_Inr_iff split: option.splits)
  moreover from this(4) have "validateCapabilityName (de_name (trim_descriptor d)) = Inr ()"
    "de_mode (trim_descriptor d) \<in> {CapabilityRead, CapabilityWrite}"
    by (auto simp: ValidateCapabilityDescriptor_def Let_def bindE_Inr_iff requireE_Inr_iff trim_descriptor_idem)
  ultimately show ?thesis
    using assms True rc by (auto simp: registry_ok_def WithCapability_def Let_def map_of_eq_None_iff)
next
  case False
  then show ?thesis using assms by (auto simp: registry_ok_def WithCapability_def Let_def split: sum.splits)
qed

end
