(* ===== verification/Bridge.thy ===== *)
theory Bridge
  imports ChannelRuns Capabilities
begin

text \<open>
  \<open>internal/api/conversation.go\<close>: the operations on managed conversations as capabilities. Arguments
  are decoded strictly into the struct of the operation, which has no field for the caller: who acts
  is the identity of the connection, never a gateway and never an administrator.

  \<open>decodeStrict\<close> of \<open>encoding/json\<close> into each kind of arguments is a field of the parameter
  \<open>decoder\<close>, an error being its text. The schemas are built from the Go types by
  \<open>schemaForConversation\<close>, here from a value that describes the type.
\<close>

section \<open>Arguments\<close>

record conversation_read =
  rd_channel :: string
  rd_thread :: string
  rd_cursor :: string
  rd_limit :: int

record conversation_member =
  mb_channel :: string
  mb_actor :: string
  mb_action :: string
  mb_key :: string
  mb_revision :: int

record conversation_resolve =
  rv_id :: string
  rv_action :: string
  rv_key :: string
  rv_revision :: int

record conversation_lease =
  le_id :: string
  le_token :: string
  le_action :: string
  le_reason :: string
  le_seconds :: int

record argument_decoder =
  ad_create :: "string \<Rightarrow> string + channel_create"
  ad_empty :: "string \<Rightarrow> string + unit"
  ad_channel :: "string \<Rightarrow> string + string"
  ad_post :: "string \<Rightarrow> string + channel_post"
  ad_message :: "string \<Rightarrow> string + string"
  ad_read :: "string \<Rightarrow> string + conversation_read"
  ad_member :: "string \<Rightarrow> string + conversation_member"
  ad_intent :: "string \<Rightarrow> string + continuation_intent"
  ad_commit :: "string \<Rightarrow> string + (string \<times> string)"
  ad_view :: "string \<Rightarrow> string + (string \<times> string)"
  ad_view_state :: "string \<Rightarrow> string + view_state"
  ad_resolve :: "string \<Rightarrow> string + conversation_resolve"
  ad_limit :: "string \<Rightarrow> string + int"
  ad_lease :: "string \<Rightarrow> string + conversation_lease"

datatype argument_kind = ArgCreate | ArgEmpty | ArgChannel | ArgPost | ArgMessage | ArgRead | ArgMember | ArgIntent | ArgCommit | ArgView
  | ArgViewState | ArgResolve | ArgLimit | ArgLease

section \<open>The operations\<close>

record conversation_operation =
  co_mode :: capability_mode
  co_description :: string
  co_args :: argument_kind

definition operation :: "capability_mode \<Rightarrow> string \<Rightarrow> argument_kind \<Rightarrow> conversation_operation" where
  "operation mode description kind = \<lparr>co_mode = mode, co_description = description, co_args = kind\<rparr>"

definition conversationOperations :: "(string \<times> conversation_operation) list" where
  "conversationOperations = [
     (''channel.create'', operation CapabilityWrite ''Create a 1:1 internal DM or named private channel using canonical actors. No historical import.'' ArgCreate),
     (''channel.list'', operation CapabilityRead ''List currently authorized conversations, including declared read-only observers.'' ArgEmpty),
     (''channel.get'', operation CapabilityRead ''Inspect current audience, posting rights, and policy revision.'' ArgChannel),
     (''channel.post'', operation CapabilityWrite ''Post into a channel with its current policy revision. Attention and designated response are independent.'' ArgPost),
     (''channel.message'', operation CapabilityRead ''Read one authorized message; inaccessible source references are redacted.'' ArgMessage),
     (''channel.history'', operation CapabilityRead ''Read bounded history with a principal-bound cursor. Does not claim or mark read.'' ArgRead),
     (''channel.membership'', operation CapabilityWrite ''Creator-controlled join-forward admission/removal for named channels. DM participants cannot change.'' ArgMember),
     (''channel.continuation.preflight'', operation CapabilityRead ''Preview a reference-only continuation and its audience without writing. Source context is not copied.'' ArgIntent),
     (''channel.continuation.commit'', operation CapabilityWrite ''Atomically create/reuse destination and post the exact confirmed continuation; refresh if policy changed.'' ArgCommit),
     (''channel.view.get'', operation CapabilityRead ''Read your own read/unread, snooze, mute and archive state.'' ArgView),
     (''channel.view.update'', operation CapabilityWrite ''Update only your own view using its revision. Never acknowledges delivery or answers a question.'' ArgViewState),
     (''channel.responses'', operation CapabilityRead ''List designated response requests visible in this channel.'' ArgChannel),
     (''channel.response.resolve'', operation CapabilityWrite ''Decline your designated request or withdraw your own question. Answer with channel.post response_to.'' ArgResolve),
     (''channel.inbox'', operation CapabilityRead ''Inspect managed deliveries addressed to your posting identity. Observers do not consume agent deliveries.'' ArgLimit),
     (''channel.claim'', operation CapabilityWrite ''Claim a specific managed delivery. Process it and call channel.delivery with its lease token.'' ArgMessage),
     (''channel.delivery'', operation CapabilityWrite ''Acknowledge, retry, dead-letter or extend your managed delivery lease.'' ArgLease)]"

datatype bridge_result = ResChannel channel | ResChannels "channel list" | ResPost channel_post_result | ResMessage channel_message
  | ResPage channel_page | ResPreview continuation_preview | ResView view_state | ResResponses "channel_response list"
  | ResResponse channel_response | ResDeliveries "channel_delivery list" | ResDelivery channel_delivery

text \<open>A read answers with the state as it is, a write with the state it made.\<close>

definition reading :: "('a \<Rightarrow> bridge_result) \<Rightarrow> (cdb \<Rightarrow> error + 'a) \<Rightarrow> cdb \<Rightarrow> error + (bridge_result \<times> cdb)" where
  "reading res f s = bindE (f s) (\<lambda>x. Inr (res x, s))"

definition writing :: "('a \<Rightarrow> bridge_result) \<Rightarrow> (cdb \<Rightarrow> error + ('a \<times> cdb)) \<Rightarrow> cdb \<Rightarrow> error + (bridge_result \<times> cdb)" where
  "writing res f s = bindE (f s) (\<lambda>(x, s'). Inr (res x, s'))"

definition decoded :: "string + 'a \<Rightarrow> error + 'a" where
  "decoded x = (case x of Inl e \<Rightarrow> Inl (ValidationError ''arguments'' e) | Inr a \<Rightarrow> Inr a)"

definition delivery_action_of :: "string \<Rightarrow> delivery_action" where
  "delivery_action_of a = (if a = ''ack'' then ActAck else if a = ''nack'' then ActNack else if a = ''dead_letter'' then ActDeadLetter
     else if a = ''extend'' then ActExtend else OtherAction a)"

definition response_action_of :: "string \<Rightarrow> response_action" where
  "response_action_of a = (if a = ''decline'' then Decline else if a = ''withdraw'' then Withdraw else OtherResponse a)"

text \<open>\<open>time.Duration(seconds) * time.Second\<close> wraps at 64 bits.\<close>

definition int64 :: "int \<Rightarrow> int" where
  "int64 n = (n + 2 ^ 63) mod 2 ^ 64 - 2 ^ 63"

definition run_operation ::
  "env \<Rightarrow> (string \<Rightarrow> string) \<Rightarrow> token_service \<Rightarrow> argument_decoder \<Rightarrow> principal \<Rightarrow> string \<Rightarrow> argument_kind \<Rightarrow> string \<Rightarrow> cdb \<Rightarrow>
    error + (bridge_result \<times> cdb)" where
  "run_operation env digest tk parse p name kind raw s = (case kind of
     ArgCreate \<Rightarrow> bindE (decoded (ad_create parse raw)) (\<lambda>r. writing ResChannel (ChannelCreate env digest p r) s)
   | ArgPost \<Rightarrow> bindE (decoded (ad_post parse raw)) (\<lambda>r. writing ResPost (ChannelPost env digest p r) s)
   | ArgChannel \<Rightarrow> bindE (decoded (ad_channel parse raw)) (\<lambda>cid.
       if name = ''channel.responses'' then reading ResResponses (ChannelResponses env p cid) s
       else reading ResChannel (ChannelGet p cid) s)
   | ArgMessage \<Rightarrow> bindE (decoded (ad_message parse raw)) (\<lambda>mid.
       if name = ''channel.claim'' then writing ResDelivery (ChannelClaim env p mid (5 * 60 * second)) s
       else reading ResMessage (ChannelMessageGet env p mid) s)
   | ArgRead \<Rightarrow> bindE (decoded (ad_read parse raw)) (\<lambda>a.
       reading ResPage (ChannelHistoryPage env tk p (rd_channel a) (rd_thread a) (rd_cursor a) (rd_limit a)) s)
   | ArgMember \<Rightarrow> bindE (decoded (ad_member parse raw)) (\<lambda>a.
       writing ResChannel (ChannelMembershipChange env digest p (mb_channel a) (mb_actor a) (mb_action a) (mb_key a) (mb_revision a)) s)
   | ArgIntent \<Rightarrow> bindE (decoded (ad_intent parse raw)) (\<lambda>i. reading ResPreview (ChannelContinuationPreflight env digest tk p i) s)
   | ArgCommit \<Rightarrow> bindE (decoded (ad_commit parse raw)) (\<lambda>(token, key).
       writing ResPost (ChannelContinuationCommit env digest tk p token key) s)
   | ArgView \<Rightarrow> bindE (decoded (ad_view parse raw)) (\<lambda>(cid, thread). reading ResView (ChannelViewGet p cid thread) s)
   | ArgViewState \<Rightarrow> bindE (decoded (ad_view_state parse raw)) (\<lambda>v. writing ResView (ChannelViewUpdate env p v) s)
   | ArgResolve \<Rightarrow> bindE (decoded (ad_resolve parse raw)) (\<lambda>a.
       writing ResResponse (ChannelResponseResolve env digest p (rv_id a) (response_action_of (rv_action a)) (rv_key a) (rv_revision a)) s)
   | ArgLimit \<Rightarrow> bindE (decoded (ad_limit parse raw)) (\<lambda>limit. reading ResDeliveries (ChannelInbox env p limit) s)
   | ArgLease \<Rightarrow> bindE (decoded (ad_lease parse raw)) (\<lambda>a.
       writing ResDelivery (ChannelDeliveryUpdate env p (le_id a) (le_token a) (delivery_action_of (le_action a)) (le_reason a)
         (int64 (le_seconds a * second))) s)
   | ArgEmpty \<Rightarrow> bindE (decoded (ad_empty parse raw)) (\<lambda>_. reading ResChannels (ChannelList p) s))"

definition InvokeConversation ::
  "env \<Rightarrow> (string \<Rightarrow> string) \<Rightarrow> token_service \<Rightarrow> argument_decoder \<Rightarrow> principal \<Rightarrow> string \<Rightarrow> string \<Rightarrow> cdb \<Rightarrow>
    error + (bridge_result \<times> cdb)" where
  "InvokeConversation env digest tk parse p name raw s = (case map_of conversationOperations name of
     None \<Rightarrow> Inl ErrChannelCapability
   | Some oper \<Rightarrow>
     bindE (requireE (prefix ''{'' (trim raw)) (ValidationError ''arguments'' ''must be an object'')) (\<lambda>_.
     run_operation env digest tk parse p name (co_args oper) raw s))"

definition ConversationReadOnly :: "string \<Rightarrow> bool" where
  "ConversationReadOnly name = (case map_of conversationOperations name of None \<Rightarrow> False | Some oper \<Rightarrow> co_mode oper = CapabilityRead)"

section \<open>Schemas\<close>

datatype go_type = GoRaw | GoTime | GoPointer go_type | GoStruct "(string \<times> bool \<times> go_type) list" | GoSlice go_type | GoBool | GoInt | GoString

text \<open>The fields of a struct are its JSON names, whether the tag has an option, and the type; a Go map is written by sorted keys.\<close>

fun schemaForConversation :: "go_type \<Rightarrow> json_value" where
  "schemaForConversation GoRaw = JObject []"
| "schemaForConversation GoTime = JObject [(''format'', JText ''date-time''), (''type'', JText ''string'')]"
| "schemaForConversation (GoPointer t) = JObject [(''anyOf'', JArray [schemaForConversation t, JObject [(''type'', JText ''null'')]])]"
| "schemaForConversation (GoStruct fs) = JObject [(''additionalProperties'', JBool False),
     (''properties'', JObject (sort_key fst (map (\<lambda>(name, _, t). (name, schemaForConversation t)) fs))),
     (''required'', JArray (map (\<lambda>(name, _, _). JText name) (filter (\<lambda>(_, optional, _). \<not> optional) fs))), (''type'', JText ''object'')]"
| "schemaForConversation (GoSlice t) = JObject [(''items'', schemaForConversation t), (''type'', JText ''array'')]"
| "schemaForConversation GoBool = JObject [(''type'', JText ''boolean'')]"
| "schemaForConversation GoInt = JObject [(''type'', JText ''integer'')]"
| "schemaForConversation GoString = JObject [(''type'', JText ''string'')]"

definition create_type :: go_type where
  "create_type = GoStruct [(''project_id'', False, GoString), (''kind'', False, GoString), (''title'', False, GoString),
     (''participants'', False, GoSlice GoString), (''idempotency_key'', False, GoString)]"

definition reference_type :: go_type where
  "reference_type = GoStruct [(''source_message_id'', True, GoString), (''relation'', False, GoString), (''available'', False, GoBool)]"

definition argument_type :: "argument_kind \<Rightarrow> go_type" where
  "argument_type k = (case k of
     ArgCreate \<Rightarrow> create_type
   | ArgEmpty \<Rightarrow> GoStruct []
   | ArgChannel \<Rightarrow> GoStruct [(''channel_id'', False, GoString)]
   | ArgPost \<Rightarrow> GoStruct [(''channel_id'', False, GoString), (''thread_id'', True, GoString), (''in_reply_to'', True, GoString),
       (''expected_policy_revision'', False, GoInt), (''idempotency_key'', False, GoString), (''body'', False, GoRaw),
       (''attention_targets'', True, GoSlice GoString), (''respondent'', True, GoString), (''response_to'', True, GoString),
       (''expected_response_revision'', True, GoInt), (''references'', True, GoSlice reference_type)]
   | ArgMessage \<Rightarrow> GoStruct [(''message_id'', False, GoString)]
   | ArgRead \<Rightarrow> GoStruct [(''channel_id'', False, GoString), (''thread_id'', True, GoString), (''cursor'', True, GoString), (''limit'', True, GoInt)]
   | ArgMember \<Rightarrow> GoStruct [(''channel_id'', False, GoString), (''actor'', False, GoString), (''action'', False, GoString),
       (''idempotency_key'', False, GoString), (''expected_policy_revision'', False, GoInt)]
   | ArgIntent \<Rightarrow> GoStruct [(''source_message_id'', False, GoString), (''destination_channel_id'', True, GoString),
       (''create'', True, GoPointer create_type), (''body'', False, GoRaw), (''attention_targets'', True, GoSlice GoString),
       (''respondent'', True, GoString)]
   | ArgCommit \<Rightarrow> GoStruct [(''preflight_token'', False, GoString), (''idempotency_key'', False, GoString)]
   | ArgView \<Rightarrow> GoStruct [(''channel_id'', False, GoString), (''thread_id'', True, GoString)]
   | ArgViewState \<Rightarrow> GoStruct [(''channel_id'', False, GoString), (''thread_id'', True, GoString), (''revision'', False, GoInt),
       (''read_through_seq'', False, GoInt), (''manual_unread_from_seq'', True, GoPointer GoInt),
       (''snoozed_until'', True, GoPointer GoTime), (''muted'', False, GoBool), (''archived'', False, GoBool)]
   | ArgResolve \<Rightarrow> GoStruct [(''request_id'', False, GoString), (''action'', False, GoString), (''idempotency_key'', False, GoString),
       (''expected_revision'', False, GoInt)]
   | ArgLimit \<Rightarrow> GoStruct [(''limit'', True, GoInt)]
   | ArgLease \<Rightarrow> GoStruct [(''message_id'', False, GoString), (''lease_token'', True, GoString), (''action'', True, GoString),
       (''reason'', True, GoString), (''lease_seconds'', True, GoInt)])"

section \<open>Registration\<close>

text \<open>
  Of the \<open>Identity\<close> of a connection the handlers use the actor and the run. The daemon's store offers the
  operations on conversations; \<open>WithConversations\<close> would refuse one that does not.
\<close>

record identity =
  id_actor :: string
  id_run :: string

type_synonym bridge_server = "(identity, cdb, bridge_result) capability_server"

definition bridge_principal :: "identity \<Rightarrow> principal" where
  "bridge_principal i = \<lparr>pr_actor = id_actor i, pr_run = id_run i, pr_gateway = False, pr_admin = False\<rparr>"

definition conversation_descriptor :: "string \<Rightarrow> conversation_operation \<Rightarrow> capability_descriptor" where
  "conversation_descriptor name oper = \<lparr>de_name = name, de_mode = co_mode oper, de_description = co_description oper,
     de_schema = marshal (schemaForConversation (argument_type (co_args oper))), de_since = ''0.8.0''\<rparr>"

definition conversation_handler ::
  "env \<Rightarrow> (string \<Rightarrow> string) \<Rightarrow> token_service \<Rightarrow> argument_decoder \<Rightarrow> string \<Rightarrow> identity \<Rightarrow> string \<Rightarrow> cdb \<Rightarrow> error + (bridge_result \<times> cdb)" where
  "conversation_handler env digest tk parse name i args s = InvokeConversation env digest tk parse (bridge_principal i) name args s"

text \<open>The Go map has no order; registrations of different names do not depend on each other's order.\<close>

definition WithConversations ::
  "decode_object \<Rightarrow> env \<Rightarrow> (string \<Rightarrow> string) \<Rightarrow> token_service \<Rightarrow> argument_decoder \<Rightarrow> bridge_server \<Rightarrow> bridge_server" where
  "WithConversations decode env digest tk parse srv =
    fold (\<lambda>(name, oper). WithCapability decode (conversation_descriptor name oper) (Some (conversation_handler env digest tk parse name)))
      conversationOperations srv"

end
