(* ===== verification/BridgeProps.thy ===== *)
theory BridgeProps
  imports Bridge ChannelSamples
begin

text \<open>
  What a bridge can do with managed conversations: the mode it was started for bounds what it can
  change, and no connection acts as a human.
\<close>

section \<open>Every operation asks who acts\<close>

lemma channelTx_principal: "channelTx p cid s = Inr c \<Longrightarrow> conversationPrincipal p = Inr ()"
  by (simp add: channelTx_def bindE_Inr_iff)

lemma channelMessageTx_principal: "channelMessageTx env p mid s = Inr m \<Longrightarrow> conversationPrincipal p = Inr ()"
  by (simp add: channelMessageTx_def bindE_Inr_iff)

lemma channelDeliveryTx_principal: "channelDeliveryTx env p mid s = Inr m \<Longrightarrow> conversationPrincipal p = Inr ()"
  by (simp add: channelDeliveryTx_def bindE_Inr_iff)

lemma principal_unit: "conversationPrincipal p = Inr u \<Longrightarrow> conversationPrincipal p = Inr ()"
  by simp

lemmas transaction_principal = principal_unit channelTx_principal channelMessageTx_principal channelDeliveryTx_principal

lemma read_principal:
  "ChannelGet p cid s = Inr c \<Longrightarrow> conversationPrincipal p = Inr ()"
  "ChannelList p s = Inr cs \<Longrightarrow> conversationPrincipal p = Inr ()"
  "ChannelResponses env p cid s = Inr rs \<Longrightarrow> conversationPrincipal p = Inr ()"
  "ChannelMessageGet env p mid s = Inr m \<Longrightarrow> conversationPrincipal p = Inr ()"
  "ChannelHistoryPage env tk p cid thread cursor limit s = Inr page \<Longrightarrow> conversationPrincipal p = Inr ()"
  "ChannelContinuationPreflight env digest tk p i s = Inr v \<Longrightarrow> conversationPrincipal p = Inr ()"
  "ChannelViewGet p cid thread s = Inr w \<Longrightarrow> conversationPrincipal p = Inr ()"
  "ChannelInbox env p n s = Inr ds \<Longrightarrow> conversationPrincipal p = Inr ()"
  unfolding ChannelGet_def ChannelList_def ChannelResponses_def ChannelMessageGet_def ChannelHistoryPage_def ChannelHistory_def
    ChannelViewGet_def ChannelContinuationPreflight_def preflight_token_def ChannelInbox_def Let_def bindE_Inr_iff
  by ((elim exE conjE)?, erule transaction_principal)+

lemma write_principal:
  "ChannelCreate env digest p cr s = Inr x \<Longrightarrow> conversationPrincipal p = Inr ()"
  "ChannelPost env digest p cp s = Inr y \<Longrightarrow> conversationPrincipal p = Inr ()"
  "ChannelMembershipChange env digest p cid a action key revision s = Inr x \<Longrightarrow> conversationPrincipal p = Inr ()"
  "ChannelContinuationCommit env digest tk p token key s = Inr y \<Longrightarrow> conversationPrincipal p = Inr ()"
  "ChannelViewUpdate env p w s = Inr z \<Longrightarrow> conversationPrincipal p = Inr ()"
  "ChannelResponseResolve env digest p rid ract key revision s = Inr q \<Longrightarrow> conversationPrincipal p = Inr ()"
  "ChannelClaim env p mid lease s = Inr d \<Longrightarrow> conversationPrincipal p = Inr ()"
  "ChannelDeliveryUpdate env p mid token dact reason lease s = Inr d \<Longrightarrow> conversationPrincipal p = Inr ()"
  unfolding ChannelCreate_def normalizeChannelCreate_def ChannelPost_def channelPostTx_def ChannelMembershipChange_def
    ChannelContinuationCommit_def ChannelViewUpdate_def ChannelResponseResolve_def ChannelClaim_def ChannelDeliveryUpdate_def
    Let_def bindE_Inr_iff
  by ((elim exE conjE)?, erule transaction_principal)+

lemma reading_Inr: "reading res f s = Inr (r, s') \<longleftrightarrow> (\<exists>x. f s = Inr x \<and> r = res x \<and> s' = s)"
  by (auto simp: reading_def bindE_Inr_iff)

lemma writing_Inr: "writing res f s = Inr (r, s') \<longleftrightarrow> (\<exists>x. f s = Inr (x, s') \<and> r = res x)"
  by (auto simp: writing_def bindE_Inr_iff split: prod.splits)

section \<open>The table of operations\<close>

lemma operation_names: "distinct (map fst conversationOperations)" "list_all (\<lambda>(name, _). trim name = name) conversationOperations"
  by code_simp+

text \<open>Which operations share a kind of arguments, and which of them write.\<close>

lemma operation_modes:
  "(name, oper) \<in> set conversationOperations \<Longrightarrow>
    co_mode oper = (if co_args oper \<in> {ArgCreate, ArgPost, ArgMember, ArgCommit, ArgViewState, ArgResolve, ArgLease} \<or>
      name = ''channel.claim'' then CapabilityWrite else CapabilityRead) \<and> (name = ''channel.claim'' \<longrightarrow> co_args oper = ArgMessage)"
  unfolding conversationOperations_def operation_def by (simp only: set_simps insert_iff empty_iff prod.inject) (elim disjE conjE, simp_all)

lemma run_operation_mode:
  assumes "(name, oper) \<in> set conversationOperations" and "run_operation env digest tk parse p name (co_args oper) raw s = Inr (r, s')"
  shows "(if co_mode oper = CapabilityRead then s' = s else channel_step env s s') \<and> conversationPrincipal p = Inr ()"
proof (cases "co_args oper")
  case ArgMessage
  then show ?thesis using assms(2) operation_modes [OF assms(1)] read_principal(4) write_principal(7)
    by (auto simp: run_operation_def bindE_Inr_iff reading_Inr writing_Inr split: if_splits intro: claim_managed)
qed (use assms(2) operation_modes [OF assms(1)] in
  \<open>auto simp: run_operation_def bindE_Inr_iff reading_Inr writing_Inr split: if_splits prod.splits
    intro: create post continue_in membership view_update update_managed resolve_response
    dest: read_principal write_principal\<close>)

text \<open>
  The seconds of a lease are multiplied at 64 bits before the store bounds them: more than five
  hundred years pass as less than a second.
\<close>

lemma lease_seconds_wrap: "\<not> valid_lease (18446744074 * second) \<and> valid_lease (int64 (18446744074 * second))"
  by (simp add: valid_lease_def int64_def hour_def second_def)

section \<open>The registry with the conversations\<close>

definition registered_conversation ::
  "env \<Rightarrow> (string \<Rightarrow> string) \<Rightarrow> token_service \<Rightarrow> argument_decoder \<Rightarrow> string \<times> conversation_operation \<Rightarrow>
    string \<times> (identity, cdb, bridge_result) registered_capability" where
  "registered_conversation env digest tk parse = (\<lambda>(name, oper). (trim name,
     \<lparr>rc_descriptor = trim_descriptor (conversation_descriptor name oper), rc_handler = conversation_handler env digest tk parse name\<rparr>))"

lemma WithCapability_adds:
  "set (sv_capabilities (WithCapability decode d (Some h) srv)) \<subseteq>
    insert (trim (de_name d), \<lparr>rc_descriptor = trim_descriptor d, rc_handler = h\<rparr>) (set (sv_capabilities srv))"
proof (cases "admit_capability decode (trim_descriptor d) (Some h) srv")
  case (Inr rc)
  then have "rc = \<lparr>rc_descriptor = trim_descriptor d, rc_handler = h\<rparr>" by (auto simp: admit_capability_def bindE_Inr_iff)
  moreover have "de_name (trim_descriptor d) = trim (de_name d)" by (simp add: trim_descriptor_def)
  ultimately show ?thesis by (auto simp: WithCapability_def Let_def Inr)
qed (auto simp: WithCapability_def Let_def)

lemma WithConversations_adds:
  "set (sv_capabilities (fold (\<lambda>(name, oper). WithCapability decode (conversation_descriptor name oper)
      (Some (conversation_handler env digest tk parse name))) opers srv))
    \<subseteq> set (sv_capabilities srv) \<union> registered_conversation env digest tk parse ` set opers"
proof (induction opers arbitrary: srv)
  case (Cons x opers)
  obtain name oper where x: "x = (name, oper)" by (cases x)
  have "set (sv_capabilities (WithCapability decode (conversation_descriptor name oper) (Some (conversation_handler env digest tk parse name)) srv))
    \<subseteq> insert (registered_conversation env digest tk parse x) (set (sv_capabilities srv))"
    using WithCapability_adds [of decode "conversation_descriptor name oper" "conversation_handler env digest tk parse name" srv]
    by (simp add: registered_conversation_def x conversation_descriptor_def)
  then show ?case using Cons [of "WithCapability decode (conversation_descriptor name oper)
      (Some (conversation_handler env digest tk parse name)) srv"] by (auto simp: x)
qed simp

lemma conversation_capability:
  assumes "map_of (sv_capabilities (WithConversations decode env digest tk parse srv)) name = Some rc"
    and "\<forall>(n, _)\<in>set (sv_capabilities srv). \<not> prefix ''channel.'' n" and "prefix ''channel.'' name"
  obtains oper where "(name, oper) \<in> set conversationOperations" "de_mode (rc_descriptor rc) = co_mode oper"
    "rc_handler rc = conversation_handler env digest tk parse name"
proof -
  have "(name, rc) \<in> set (sv_capabilities srv) \<union> registered_conversation env digest tk parse ` set conversationOperations"
    using map_of_SomeD [OF assms(1)] WithConversations_adds [of decode env digest tk parse conversationOperations srv]
    unfolding WithConversations_def by blast
  then obtain n oper where n: "(n, oper) \<in> set conversationOperations" "(name, rc) = registered_conversation env digest tk parse (n, oper)"
    using assms(2,3) by auto
  moreover have "trim n = n" using operation_names(2) n(1) by (auto simp: list_all_iff)
  ultimately show thesis using that [of oper] by (simp add: registered_conversation_def trim_descriptor_def conversation_descriptor_def)
qed

text \<open>The descriptors of all operations are admitted, once their schemas decode to objects.\<close>

lemma operation_texts:
  "list_all (\<lambda>(name, oper). validateCapabilityName name = Inr () \<and>
     trim (co_description oper) = co_description oper \<and> co_description oper \<noteq> [] \<and>
     ValidateTextIdentifier ''capability.description'' (co_description oper) 512 = Inr ()) conversationOperations"
  by code_simp

text \<open>A bound on the length of a marshalled value, as a quoted byte takes at most six.\<close>

lemma quote_rune_length: "r \<noteq> Some [] \<Longrightarrow> length (quote_rune r) \<le> 6 * (case r of None \<Rightarrow> 1 | Some w \<Rightarrow> length w)"
proof (cases r)
  case (Some w)
  assume "r \<noteq> Some []"
  then show ?thesis
  proof (cases "\<exists>c. w = [c]")
    case True
    then show ?thesis using Some by (auto simp: quote_rune_def escape_byte_def)
  next
    case False
    then show ?thesis using Some quote_rune_long [OF False] by simp
  qed
qed (simp add: quote_rune_def)

lemma quoted_length: "length (concat (map quote_rune (runes s))) \<le> 6 * length s"
proof (induction s rule: runes.induct)
  case (1 s)
  show ?case
  proof (cases "s = []")
    case True
    then show ?thesis by (simp add: runes.simps)
  next
    case False
    show ?thesis
    proof (cases "rune_length s = 0")
      case True
      have "quote_rune None = CHR 0x5C # ''ufffd''" by (simp add: quote_rune_def)
      then have "length (concat (map quote_rune (runes s))) = 6 + length (concat (map quote_rune (runes (tl s))))"
        by (subst runes.simps) (simp add: False True)
      then show ?thesis using 1(1) [OF False True] False by (cases s) simp_all
    next
      case n: False
      let ?w = "take (rune_length s) s"
      have le: "rune_length s \<le> length s" by (rule rune_length_le)
      have "length (quote_rune (Some ?w)) \<le> 6 * rune_length s" using quote_rune_length [of "Some ?w"] n False le by simp
      then show ?thesis using 1(2) [OF False n] le by (subst runes.simps) (simp add: False n)
    qed
  qed
qed

lemma json_quote_length: "int (length (json_quote s)) \<le> 6 * int (length s) + 2"
  using quoted_length [of s] by (simp add: json_quote_def)

lemma join_length: "int (length (join sep ss)) \<le> sum_list (map (\<lambda>s. int (length s) + int (length sep)) ss)"
  by (induction sep ss rule: join.induct) simp_all

fun text_bound :: "json_value \<Rightarrow> int"
  and member_bounds :: "(string \<times> json_value) list \<Rightarrow> int list" where
  "text_bound (JText s) = 6 * int (length s) + 2"
| "text_bound (JBool b) = 5"
| "text_bound (JObject ms) = 2 + sum_list (member_bounds ms)"
| "text_bound (JArray vs) = 2 + sum_list (map (\<lambda>v. text_bound v + 1) vs)"
| "text_bound v = int (length (marshal v))"
| "member_bounds [] = []"
| "member_bounds ((k, v) # ms) = (6 * int (length k) + text_bound v + 4) # member_bounds ms"

lemma marshal_length:
  "int (length (marshal v)) \<le> text_bound v"
  "sum_list (map (\<lambda>t. int (length t) + 1) (marshal_all vs)) \<le> sum_list (map (\<lambda>v. text_bound v + 1) vs)"
  "sum_list (map (\<lambda>t. int (length t) + 1) (marshal_members ms)) \<le> sum_list (member_bounds ms)"
proof (induction v and vs and ms rule: marshal_marshal_all_marshal_members.induct)
  case (6 vs)
  then show ?case using join_length [of "'',''" "marshal_all vs"] by simp
next
  case (7 ms)
  then show ?case using join_length [of "'',''" "marshal_members ms"] by simp
next
  case (11 k v ms)
  then show ?case using json_quote_length [of k] by simp
qed (simp_all add: json_quote_length)

lemma operation_schemas:
  "list_all (\<lambda>(_, oper). text_bound (schemaForConversation (argument_type (co_args oper))) \<le> 65536) conversationOperations"
  by code_simp

lemma since_text: "trim ''0.8.0'' = ''0.8.0''" "ValidateTextIdentifier ''capability.since'' ''0.8.0'' 32 = Inr ()"
  by code_simp+

definition reads_schemas :: "decode_object \<Rightarrow> bool" where
  "reads_schemas decode \<longleftrightarrow> (\<forall>k. \<exists>f. decode (marshal (schemaForConversation (argument_type k))) = Inr (Some f) \<and>
     f ''type'' = Some (JText ''object''))"

lemma descriptor_valid:
  assumes "(name, oper) \<in> set conversationOperations" and "reads_schemas decode"
  shows "trim_descriptor (conversation_descriptor name oper) = conversation_descriptor name oper"
    "ValidateCapabilityDescriptor decode (conversation_descriptor name oper) = Inr ()"
proof -
  have texts: "trim name = name" "validateCapabilityName name = Inr ()" "trim (co_description oper) = co_description oper"
    "co_description oper \<noteq> []" "ValidateTextIdentifier ''capability.description'' (co_description oper) 512 = Inr ()"
    using operation_names(2) operation_texts assms(1) by (auto simp: list_all_iff)
  have "text_bound (schemaForConversation (argument_type (co_args oper))) \<le> maxCapabilitySchemaBytes"
    using operation_schemas assms(1) by (auto simp: list_all_iff maxCapabilitySchemaBytes_def)
  then have schema: "int (length (marshal (schemaForConversation (argument_type (co_args oper))))) \<le> maxCapabilitySchemaBytes"
    by (rule order_trans [OF marshal_length(1)])
  have object: "marshal (schemaForConversation (argument_type (co_args oper))) \<noteq> []"
    by (simp add: argument_type_def create_type_def split: argument_kind.split)
  have mode: "co_mode oper = CapabilityRead \<or> co_mode oper = CapabilityWrite" using operation_modes [OF assms(1)] by auto
  obtain f where f: "decode (marshal (schemaForConversation (argument_type (co_args oper)))) = Inr (Some f)"
    "f ''type'' = Some (JText ''object'')" using assms(2) by (auto simp: reads_schemas_def)
  show "trim_descriptor (conversation_descriptor name oper) = conversation_descriptor name oper"
    by (simp add: trim_descriptor_def conversation_descriptor_def texts since_text)
  show "ValidateCapabilityDescriptor decode (conversation_descriptor name oper) = Inr ()"
    by (simp add: ValidateCapabilityDescriptor_def conversation_descriptor_def texts since_text schema object mode f requireE_def)
qed

lemma WithConversations_registers:
  assumes "set opers \<subseteq> set conversationOperations" "distinct (map fst opers)" "reads_schemas decode" "sv_error srv = None"
    and "\<forall>name\<in>fst ` set opers. map_of (sv_capabilities srv) name = None" "length (sv_capabilities srv) + length opers \<le> maxRegisteredCapabilities"
  shows "sv_capabilities (fold (\<lambda>(name, oper). WithCapability decode (conversation_descriptor name oper)
      (Some (conversation_handler env digest tk parse name))) opers srv) =
    rev (map (\<lambda>(name, oper). (name, \<lparr>rc_descriptor = conversation_descriptor name oper,
      rc_handler = conversation_handler env digest tk parse name\<rparr>)) opers) @ sv_capabilities srv"
  using assms
proof (induction opers arbitrary: srv)
  case (Cons x opers)
  obtain name oper where x: "x = (name, oper)" by (cases x)
  let ?d = "conversation_descriptor name oper" and ?h = "conversation_handler env digest tk parse name"
  let ?srv = "srv\<lparr>sv_capabilities := (name, \<lparr>rc_descriptor = ?d, rc_handler = ?h\<rparr>) # sv_capabilities srv\<rparr>"
  have "(name, oper) \<in> set conversationOperations" using Cons.prems(1) by (simp add: x)
  note d = descriptor_valid [OF this Cons.prems(3)]
  have name: "de_name ?d = name" by (simp add: conversation_descriptor_def)
  have "admit_capability decode ?d (Some ?h) srv = Inr \<lparr>rc_descriptor = ?d, rc_handler = ?h\<rparr>"
    using Cons.prems by (simp add: admit_capability_def d name x requireE_def)
  then have step: "WithCapability decode ?d (Some ?h) srv = ?srv"
    by (simp add: WithCapability_def d name Cons.prems(4))
  have "\<forall>n\<in>fst ` set opers. map_of (sv_capabilities ?srv) n = None" using Cons.prems by (auto simp: x)
  then show ?case using Cons.IH [of ?srv] Cons.prems by (simp add: x step)
qed simp

lemma conversation_found:
  assumes "(name, oper) \<in> set conversationOperations" and "reads_schemas decode"
  shows "map_of (sv_capabilities (WithConversations decode env digest tk parse \<lparr>sv_capabilities = [], sv_error = None\<rparr>)) name =
    Some \<lparr>rc_descriptor = conversation_descriptor name oper, rc_handler = conversation_handler env digest tk parse name\<rparr>"
proof -
  let ?rcs = "map (\<lambda>(name, oper). (name, \<lparr>rc_descriptor = conversation_descriptor name oper,
      rc_handler = conversation_handler env digest tk parse name\<rparr>)) conversationOperations"
  have "sv_capabilities (WithConversations decode env digest tk parse \<lparr>sv_capabilities = [], sv_error = None\<rparr>) = rev ?rcs"
    unfolding WithConversations_def
    by (subst WithConversations_registers [OF _ operation_names(1) assms(2)])
      (simp_all add: conversationOperations_def maxRegisteredCapabilities_def)
  moreover have "map fst (rev ?rcs) = rev (map fst conversationOperations)" by (simp add: rev_map comp_def case_prod_beta)
  then have "distinct (map fst (rev ?rcs))" by (simp only: distinct_rev operation_names(1))
  moreover have "(name, \<lparr>rc_descriptor = conversation_descriptor name oper,
      rc_handler = conversation_handler env digest tk parse name\<rparr>) \<in> set (rev ?rcs)"
    using assms(1) by force
  ultimately show ?thesis using map_of_is_SomeI by metis
qed


text \<open>A connection of Bob claims the remark; the decoder reads one message identifier and nothing else.\<close>

definition sample_decoder :: argument_decoder where
  "sample_decoder = \<lparr>ad_create = (\<lambda>_. Inl ''unknown''), ad_empty = (\<lambda>_. Inl ''unknown''), ad_channel = (\<lambda>_. Inl ''unknown''),
     ad_post = (\<lambda>_. Inl ''unknown''),
     ad_message = (\<lambda>raw. if raw = ''{\"message_id\":\"msg_2\"}'' then Inr ''msg_2'' else Inl ''unknown''),
     ad_read = (\<lambda>_. Inl ''unknown''), ad_member = (\<lambda>_. Inl ''unknown''), ad_intent = (\<lambda>_. Inl ''unknown''),
     ad_commit = (\<lambda>_. Inl ''unknown''), ad_view = (\<lambda>_. Inl ''unknown''), ad_view_state = (\<lambda>_. Inl ''unknown''),
     ad_resolve = (\<lambda>_. Inl ''unknown''), ad_limit = (\<lambda>_. Inl ''unknown''), ad_lease = (\<lambda>_. Inl ''unknown'')\<rparr>"

definition sample_tokens :: token_service where
  "sample_tokens = \<lparr>tk_mac = take 1, tk_continuation = (\<lambda>_. None), tk_history = (\<lambda>_ _. None)\<rparr>"

definition sample_decode :: decode_object where
  "sample_decode raw = Inr (Some [''type'' \<mapsto> JText ''object''])"

definition sample_bridge :: bridge_server where
  "sample_bridge = WithConversations sample_decode (sample_env 30) (take 1) sample_tokens sample_decoder \<lparr>sv_capabilities = [], sv_error = None\<rparr>"

definition claim_call :: capability_invocation where
  "claim_call = \<lparr>iv_name = ''channel.claim'', iv_arguments = ''{\"message_id\":\"msg_2\"}''\<rparr>"

definition bridged :: "bridge_result \<times> cdb" where
  "bridged = projr (invokeCapability sample_decode sample_bridge \<lparr>id_actor = ''bob'', id_run = ''run''\<rparr> CapabilityWrite claim_call heard)"


end
