(* ===== verification/ChannelDispatch.thy ===== *)
theory ChannelDispatch
  imports ChannelRuns Dispatch
begin

text \<open>
  The worker of managed wake-ups: \<open>internal/daemon/conversation_notification.go\<close> with the branch of
  \<open>Notify\<close> in \<open>connector/runtime.go\<close> for messages of schema version 2. A session is rung only when its
  run has negotiated attention and the delivery is still open to its actor; the outcome goes to the
  channel's own log. The adapters are those of \<open>Dispatch\<close>.
\<close>

definition human_attempt :: "string \<Rightarrow> notification_attempt" where
  "human_attempt recipient = \<lparr>na_actor = recipient, na_run_id = [], na_session_id = [], na_harness = [],
     na_result = ''unsupported'', na_detail = ''human attention is available in the authenticated Studio view''\<rparr>"

definition refused_attempt :: "string \<Rightarrow> registration \<Rightarrow> notification_attempt" where
  "refused_attempt recipient r = \<lparr>na_actor = recipient, na_run_id = rn_run_id r, na_session_id = rn_session_id r,
     na_harness = rn_harness r, na_result = ''unsupported'',
     na_detail = ''managed attention not negotiated or delivery no longer authorized''\<rparr>"

text \<open>An error of a record ends the loop; what was recorded before stays.\<close>

fun ring_managed ::
  "env \<Rightarrow> notifier \<Rightarrow> string \<Rightarrow> message \<Rightarrow> registration list \<Rightarrow> cdb \<Rightarrow> (error + notification_attempt list) \<times> cdb" where
  "ring_managed env nf recipient m [] s = (Inr [], s)"
| "ring_managed env nf recipient m (r # rs) s =
    (let a = (if ManagedNotificationAllowed r (msg_id m) s then attempt_of nf recipient m r else refused_attempt recipient r) in
     case RecordManagedNotification env (msg_id m) a s of
       Inl e \<Rightarrow> (Inl e, s)
     | Inr s1 \<Rightarrow> (case ring_managed env nf recipient m rs s1 of
         (Inl e, s2) \<Rightarrow> (Inl e, s2) | (Inr as, s2) \<Rightarrow> (Inr (a # as), s2)))"

definition managed_notify ::
  "env \<Rightarrow> notifier \<Rightarrow> string \<Rightarrow> message \<Rightarrow> cdb \<Rightarrow> (error + notification_attempt list) \<times> cdb" where
  "managed_notify env nf recipient m s =
    (if is_human_actor recipient then (Inr [human_attempt recipient], s)
     else case LiveRegistrations env recipient (base s) of
       Inl e \<Rightarrow> (Inl e, s)
     | Inr rs \<Rightarrow>
       if rs = [] then (case RecordManagedNotification env (msg_id m) (unregistered_attempt recipient) s of
           Inl e \<Rightarrow> (Inl e, s) | Inr s1 \<Rightarrow> (Inr [unregistered_attempt recipient], s1))
       else ring_managed env nf recipient m (newest_runs rs []) s)"

definition managed_turn :: "env \<Rightarrow> notifier \<Rightarrow> cdb \<Rightarrow> cdb" where
  "managed_turn env nf s = (case ClaimManagedNotification env s of
     Inl _ \<Rightarrow> s
   | Inr (job, s1) \<Rightarrow>
     let (out, s2) = managed_notify env nf (nj_recipient job) (nj_message job) s1;
         (disposition, detail) = notificationOutcome nf out in
     (case FinishManagedNotification env job disposition detail s2 of Inl _ \<Rightarrow> s2 | Inr s3 \<Rightarrow> s3))"

text \<open>
  The loop over the wake-ups of its two tickers: after every turn either of them fires, and the
  slow one rearms. Each turn and each rearming reads its own clock.
\<close>

fun managed_ticks :: "notifier \<Rightarrow> int \<Rightarrow> (env \<times> env option) list \<Rightarrow> cdb \<Rightarrow> cdb" where
  "managed_ticks nf stale [] s = s"
| "managed_ticks nf stale ((env, rearm) # ticks) s =
    (let s1 = managed_turn env nf s in
     managed_ticks nf stale ticks (case rearm of None \<Rightarrow> s1 | Some env' \<Rightarrow> RearmStaleManagedNotifications env' stale s1))"

definition runManagedNotificationWorker :: "env \<Rightarrow> notifier \<Rightarrow> int \<Rightarrow> (env \<times> env option) list \<Rightarrow> cdb \<Rightarrow> cdb" where
  "runManagedNotificationWorker env nf stale ticks s =
    managed_ticks nf stale ticks (RearmStaleManagedNotifications env stale s)"

section \<open>The worker is a run of operations\<close>

lemma channel_steps_step: "channel_step env s s' \<Longrightarrow> channel_steps s s'"
  by (rule r_into_rtranclp) blast

lemma ring_managed_steps: "channel_steps s (snd (ring_managed env nf recipient m rs s))"
proof (induction rs arbitrary: s)
  case (Cons r rs)
  let ?a = "if ManagedNotificationAllowed r (msg_id m) s then attempt_of nf recipient m r else refused_attempt recipient r"
  show ?case
  proof (cases "RecordManagedNotification env (msg_id m) ?a s")
    case (Inr s1)
    have step: "channel_steps s s1" by (rule channel_steps_step [OF record_wake [OF Inr]])
    have "snd (ring_managed env nf recipient m (r # rs) s) = snd (ring_managed env nf recipient m rs s1)"
      using Inr by (simp add: Let_def split: prod.splits sum.splits)
    then show ?thesis by (simp only:) (rule rtranclp_trans [OF step Cons [of s1]])
  qed (simp add: Let_def)
qed simp

lemma managed_notify_steps: "channel_steps s (snd (managed_notify env nf recipient m s))"
  using ring_managed_steps
  by (auto simp: managed_notify_def split: sum.splits intro: channel_steps_step [OF record_wake])

lemma managed_turn_steps: "channel_steps s (managed_turn env nf s)"
proof (cases "ClaimManagedNotification env s")
  case (Inr x)
  then obtain job s1 where cl: "ClaimManagedNotification env s = Inr (job, s1)" by (cases x) simp
  obtain out s2 where n: "managed_notify env nf (nj_recipient job) (nj_message job) s1 = (out, s2)" by fastforce
  obtain d detail where o: "notificationOutcome nf out = (d, detail)" by fastforce
  have "channel_steps s s1" by (rule channel_steps_step [OF claim_wake [OF cl]])
  moreover have "channel_steps s1 s2" using managed_notify_steps n by (metis snd_conv)
  moreover have "channel_steps s2 (managed_turn env nf s)"
    by (auto simp: managed_turn_def cl n o split: sum.splits intro: channel_steps_step [OF finish_wake])
  ultimately show ?thesis by (meson rtranclp_trans)
qed (simp add: managed_turn_def)

lemma managed_ticks_steps: "channel_steps s (managed_ticks nf stale ticks s)"
proof (induction ticks arbitrary: s)
  case (Cons t ticks)
  obtain env rearm where t: "t = (env, rearm)" by fastforce
  let ?s1 = "managed_turn env nf s"
  let ?s2 = "case rearm of None \<Rightarrow> ?s1 | Some env' \<Rightarrow> RearmStaleManagedNotifications env' stale ?s1"
  have "channel_steps ?s1 ?s2" by (auto split: option.splits intro: channel_steps_step [OF rearm_wakes])
  then have "channel_steps s ?s2" using managed_turn_steps by (meson rtranclp_trans)
  then show ?case using Cons [of ?s2] unfolding t managed_ticks.simps Let_def by (rule rtranclp_trans)
qed simp

lemma managed_worker_steps: "channel_steps s (runManagedNotificationWorker env nf stale ticks s)"
  unfolding runManagedNotificationWorker_def
  by (rule rtranclp_trans [OF channel_steps_step [OF rearm_wakes [OF refl]] managed_ticks_steps])

section \<open>Who is rung\<close>

lemma RecordManaged_allowed:
  assumes "RecordManagedNotification env mid a s = Inr s'"
  shows "ManagedNotificationAllowed r mid s' = ManagedNotificationAllowed r mid s"
proof -
  obtain cid n where ev: "channelEventTx env cid ''attention.adapter'' (na_actor a) mid (JObject [(''result'', JText (na_result a))]) s = Inr (n, s')"
    using assms by (auto simp: RecordManagedNotification_def bindE_Inr_iff split: option.splits)
  have "base s' = base s" "managed s' = managed s" using ev by (auto elim: channelEventD)
  moreover from this have "may_receive s' = may_receive s"
    by (simp add: fun_eq_iff may_receive_def grants_of_def live_grants_def)
  then have "receives s' = receives s" unfolding receives_def by (simp only:)
  ultimately show ?thesis by (simp add: ManagedNotificationAllowed_def)
qed

lemma ring_managed_allowed:
  assumes "ring_managed env nf recipient m rs s = (Inr as, s')" and "a \<in> set as" and "na_result a \<noteq> ''unsupported''"
  shows "\<exists>r\<in>set rs. a = attempt_of nf recipient m r \<and> ManagedNotificationAllowed r (msg_id m) s"
  using assms(1,2)
proof (induction rs arbitrary: s as)
  case (Cons r rs)
  let ?a = "if ManagedNotificationAllowed r (msg_id m) s then attempt_of nf recipient m r else refused_attempt recipient r"
  obtain s1 where s1: "RecordManagedNotification env (msg_id m) ?a s = Inr s1"
    using Cons.prems(1) by (auto simp: Let_def split: sum.splits)
  then obtain bs where bs: "ring_managed env nf recipient m rs s1 = (Inr bs, s')" "as = ?a # bs"
    using Cons.prems(1) by (auto simp: Let_def split: sum.splits prod.splits)
  show ?case
  proof (cases "a = ?a")
    case True
    then show ?thesis using assms(3) by (auto simp: refused_attempt_def split: if_splits)
  next
    case False
    then have "\<exists>q\<in>set rs. a = attempt_of nf recipient m q \<and> ManagedNotificationAllowed q (msg_id m) s1"
      using Cons.IH [OF bs(1)] Cons.prems(2) bs(2) by simp
    then show ?thesis using RecordManaged_allowed [OF s1] by auto
  qed
qed simp

end
