(* ===== verification/WakeProps.thy ===== *)
theory WakeProps
  imports ChannelDispatch ChannelSamples
begin

text \<open>
  Whom the worker of managed wake-ups rings.
\<close>

lemma allowed_delivery:
  assumes "ManagedNotificationAllowed r mid s"
  obtains c d m where "c \<in> set (attention_clients (base s))" "client_key c = (rn_actor r, rn_run_id r)"
    "if rn_harness r = ''claude'' then ck_monitor_ready c else ck_native_ready c"
    "d \<in> set (managed s)" "dl_message_id d = mid" "dl_recipient d = rn_actor r" "dl_state d = Queued"
    "m \<in> set (messages (base s))" "mr_id m = mid" "receives s (rn_actor r) m"
proof -
  let ?P = "\<lambda>(c, d, m). client_key c = (rn_actor r, rn_run_id r) \<and> dl_recipient d = ck_actor c \<and>
        mr_id m = dl_message_id d \<and> dl_message_id d = mid \<and> dl_state d = Queued \<and>
        (if rn_harness r = ''claude'' then ck_monitor_ready c else ck_native_ready c) \<and> receives s (ck_actor c) m"
  have "length (filter ?P (List.product (attention_clients (base s)) (List.product (managed s) (messages (base s))))) = 1"
    using assms unfolding ManagedNotificationAllowed_def by blast
  then have "filter ?P (List.product (attention_clients (base s)) (List.product (managed s) (messages (base s)))) \<noteq> []" by force
  then obtain x where "x \<in> set (List.product (attention_clients (base s)) (List.product (managed s) (messages (base s))))" "?P x"
    unfolding filter_empty_conv by blast
  then obtain c d m where x: "c \<in> set (attention_clients (base s))" "d \<in> set (managed s)" "m \<in> set (messages (base s))" "?P (c, d, m)"
    by auto
  moreover have "ck_actor c = rn_actor r" using x(4) by simp
  ultimately show thesis using that [of c d m] by simp
qed

lemma live_registrations_of:
  assumes "LiveRegistrations env a db = Inr rs" and "r \<in> set rs"
  shows "rn_actor r = trim a \<and> (\<exists>row\<in>set (registrations db). live_registration (e_now env) row \<and> r = registration_of row (admitted_session db row))"
proof -
  obtain x where x: "x \<in> set (registrations db)" "live_registration (e_now env) x" "rg_actor x = trim a"
    "r = registration_of x (admitted_session db x)"
    using assms by (auto simp: LiveRegistrations_def Let_def bindE_Inr_iff)
  then have "rn_actor r = trim a" by (simp add: registration_of_def)
  then show ?thesis using x by blast
qed

text \<open>
  \<^bold>\<open>C15\<close> A wake-up of a managed message reaches a session only if its actor may read the message now:
  an attempt that is not marked unsupported either says that no session of the recipient is live, or
  comes from the adapter of a live session of the recipient, whose run is ready for attention and
  which has an unclaimed delivery of the message in a channel it is still in; humans are never rung.
\<close>
theorem managed_ringing_authorized:
  assumes "managed_notify env nf recipient m s = (Inr as, s')" and "a \<in> set as" and "na_result a \<noteq> ''unsupported''"
  shows "\<not> is_human_actor recipient \<and> (a = unregistered_attempt recipient \<or>
    (\<exists>row c d msg. row \<in> set (registrations (base s)) \<and> live_registration (e_now env) row \<and> rg_actor row = trim recipient \<and>
      a = attempt_of nf recipient m (registration_of row (admitted_session (base s) row)) \<and>
      c \<in> set (attention_clients (base s)) \<and> client_key c = (rg_actor row, rg_run_id row) \<and> (ck_monitor_ready c \<or> ck_native_ready c) \<and>
      d \<in> set (managed s) \<and> dl_message_id d = msg_id m \<and> dl_recipient d = rg_actor row \<and> dl_state d = Queued \<and>
      msg \<in> set (messages (base s)) \<and> mr_id msg = msg_id m \<and> receives s (rg_actor row) msg))"
proof -
  have human: "\<not> is_human_actor recipient" using assms by (auto simp: managed_notify_def human_attempt_def)
  obtain rs where rs: "LiveRegistrations env recipient (base s) = Inr rs"
    using assms(1) human by (cases "LiveRegistrations env recipient (base s)") (simp_all add: managed_notify_def)
  show ?thesis
  proof (cases "rs = []")
    case True
    then show ?thesis using assms human rs by (auto simp: managed_notify_def split: sum.splits)
  next
    case False
    then have "ring_managed env nf recipient m (newest_runs rs []) s = (Inr as, s')" using assms(1) human rs by (simp add: managed_notify_def)
    then obtain r where "r \<in> set (newest_runs rs [])" and r: "a = attempt_of nf recipient m r" "ManagedNotificationAllowed r (msg_id m) s"
      using ring_managed_allowed [OF _ assms(2,3)] by blast
    then have "r \<in> set rs" using newest_runs_subset by blast
    then obtain row where row: "row \<in> set (registrations (base s))" "live_registration (e_now env) row"
      "r = registration_of row (admitted_session (base s) row)" "rn_actor r = trim recipient"
      using live_registrations_of [OF rs] by blast
    have of_row: "rn_actor r = rg_actor row" "rn_run_id r = rg_run_id row" by (simp_all add: row(3) registration_of_def)
    obtain c d msg where open_to: "c \<in> set (attention_clients (base s))" "client_key c = (rg_actor row, rg_run_id row)"
      and ready: "if rn_harness r = ''claude'' then ck_monitor_ready c else ck_native_ready c"
      and delivery: "d \<in> set (managed s)" "dl_message_id d = msg_id m" "dl_recipient d = rg_actor row" "dl_state d = Queued"
        "msg \<in> set (messages (base s))" "mr_id msg = msg_id m" "receives s (rg_actor row) msg"
      using allowed_delivery [OF r(2), unfolded of_row] .
    have "ck_monitor_ready c \<or> ck_native_ready c" using ready by (simp split: if_splits)
    moreover have "rg_actor row = trim recipient" using row(4) of_row(1) by simp
    moreover have "a = attempt_of nf recipient m (registration_of row (admitted_session (base s) row))" using r(1) row(3) by simp
    ultimately show ?thesis using human row(1,2) open_to delivery
      by - (rule conjI, assumption, rule disjI2, rule exI [of _ row], rule exI [of _ c], rule exI [of _ d], rule exI [of _ msg],
        intro conjI, assumption+)
  qed
qed

text \<open>A session of Bob, ready for attention, is rung for Alice's remark.\<close>

definition bob_session :: registration_row where
  "bob_session = \<lparr>rg_actor = ''bob'', rg_run_id = ''run'', rg_harness = ''codex'', rg_attention_mode = ''native-queue'',
     rg_session_id = ''s1'', rg_delivery_handle = ''s1'', rg_project_id = ''p'', rg_working_dir = [], rg_epoch = 1,
     rg_registered_at = 25, rg_updated_at = 25, rg_lease_expires = 1000, rg_ended_at = None, rg_superseded_at = None\<rparr>"

definition attended :: cdb where
  "attended = heard\<lparr>base := (base heard)\<lparr>registrations := [bob_session],
     attention_clients := [\<lparr>ck_actor = ''bob'', ck_run_id = ''run'', ck_native_ready = True, ck_monitor_ready = False\<rparr>]\<rparr>\<rparr>"

definition bell :: notifier where
  "bell = \<lparr>nf_codex = (\<lambda>r m. (''queued'', True)), nf_claude = None, nf_opencode = (\<lambda>r m. ([], False)), nf_error_text = (\<lambda>e. []),
     nf_build_id = ''dev@unknown''\<rparr>"

definition belled :: "(error + notification_attempt list) \<times> cdb" where
  "belled = managed_notify (sample_env 30) bell ''bob'' (managed_job_message remark_row) attended"

lemma managed_ringing_authorized_witness:
  "\<exists>a s'. belled = (Inr [a], s') \<and> \<not> is_human_actor ''bob'' \<and>
    (\<exists>row. row \<in> set (registrations (base attended)) \<and> rg_actor row = ''bob'' \<and>
      a = attempt_of bell ''bob'' (managed_job_message remark_row) (registration_of row (admitted_session (base attended) row)))"
proof -
  have "case fst belled of Inr [a] \<Rightarrow> na_result a \<noteq> ''unsupported'' \<and> na_run_id a \<noteq> [] | _ \<Rightarrow> False" by code_simp
  then obtain a where fst: "fst belled = Inr [a]" and a: "na_result a \<noteq> ''unsupported''" "na_run_id a \<noteq> []"
    by (auto split: sum.splits list.splits)
  have "(fst belled, snd belled) = belled" by (rule prod.collapse)
  then obtain s' where pair: "belled = (Inr [a], s')" unfolding fst by metis
  then have "managed_notify (sample_env 30) bell ''bob'' (managed_job_message remark_row) attended = (Inr [a], s')"
    by (simp only: belled_def)
  moreover have "a \<noteq> unregistered_attempt ''bob''" using a(2) by (auto simp: unregistered_attempt_def)
  moreover have "trim ''bob'' = ''bob''" by code_simp
  ultimately show ?thesis
    using managed_ringing_authorized [of "sample_env 30" bell "''bob''" "managed_job_message remark_row" attended "[a]" s' a] a(1) pair
    by (simp del: not_None_eq) blast
qed

end
